(* ===== verification/Prelude.thy ===== *)
theory Prelude
  imports Main "HOL-Library.List_Lexorder" "HOL-Library.Char_ord"
begin

text \<open>
  What the components of the development share.

  \<^item> Exceptions: a function that may raise returns a sum, \<open>Inl\<close> the error.  \<open>ebind\<close> is the
    sequencing of statements that may raise and \<open>ensure\<close> the idiom
    \<^verbatim>\<open>if not cond: raise ...\<close>.
  \<^item> Transactions: \<open>txn\<close> is \<^verbatim>\<open>BEGIN IMMEDIATE ... commit\<close> with the
    \<^verbatim>\<open>except BaseException: rollback; raise\<close> of the source: a body that raises leaves
    the database as it was.  \<open>sbind\<close> and \<open>scatch\<close> sequence several transactions and handle errors.
  \<^item> Tables: an SQL table is the list of its rows in insertion order.  \<open>find\<close> is
    \<^verbatim>\<open>SELECT ... fetchone()\<close>, \<open>filter\<close> is \<^verbatim>\<open>fetchall()\<close>, \<open>upd\<close>, \<open>del\<close> and \<open>cnt\<close> are
    \<^verbatim>\<open>UPDATE\<close>, \<^verbatim>\<open>DELETE\<close> and the \<^verbatim>\<open>rowcount\<close> of either.
  \<^item> Strings: a Python string is the list of the bytes of its UTF-8 form.  UTF-8 keeps the order
    of code points, so comparing byte lists is comparing strings; \<open>pylen\<close> counts code points.
\<close>

named_theorems table_simps \<open>rewrite rules on table operations\<close>
named_theorems err_simps \<open>rewrite rules and splits on the error sums\<close>

section \<open>Exceptions\<close>

definition ebind :: "'e + 'a \<Rightarrow> ('a \<Rightarrow> 'e + 'b) \<Rightarrow> 'e + 'b" where
  "ebind m k = (case m of Inl e \<Rightarrow> Inl e | Inr a \<Rightarrow> k a)"

definition ensure :: "bool \<Rightarrow> 'e \<Rightarrow> 'e + unit" where
  "ensure b e = (if b then Inr () else Inl e)"

lemma ebind_simps [simp, err_simps]:
  "ebind (Inl e) k = Inl e"
  "ebind (Inr a) k = k a"
  by (simp_all add: ebind_def)

lemma ebind_Inr_iff [err_simps]:
  "ebind m k = Inr b \<longleftrightarrow> (\<exists>a. m = Inr a \<and> k a = Inr b)"
  by (cases m) auto

lemma ebind_Inl_iff [err_simps]:
  "ebind m k = Inl e \<longleftrightarrow> m = Inl e \<or> (\<exists>a. m = Inr a \<and> k a = Inl e)"
  by (cases m) auto

lemma ensure_Inr_iff [simp, err_simps]: "ensure b e = Inr u \<longleftrightarrow> b"
  by (simp add: ensure_def)

lemma ensure_Inl_iff [simp, err_simps]: "ensure b e = Inl e' \<longleftrightarrow> \<not> b \<and> e' = e"
  by (auto simp: ensure_def)

lemma ensure_eval [simp]: "ensure True e = Inr ()" "ensure False e = Inl e"
  by (simp_all add: ensure_def)

text \<open>A loop whose body may raise, run over a list for its checks only.\<close>

fun efor :: "'a list \<Rightarrow> ('a \<Rightarrow> 'e + unit) \<Rightarrow> 'e + unit" where
  "efor [] f = Inr ()"
| "efor (x # xs) f = ebind (f x) (\<lambda>_. efor xs f)"

lemma efor_Inr_iff [simp]: "efor xs f = Inr u \<longleftrightarrow> (\<forall>x \<in> set xs. f x = Inr ())"
  by (induction xs) (auto simp: err_simps)

section \<open>Transactions over a state\<close>

definition txn :: "('s \<Rightarrow> 'e + 'a \<times> 's) \<Rightarrow> 's \<Rightarrow> ('e + 'a) \<times> 's" where
  "txn body s = (case body s of Inl e \<Rightarrow> (Inl e, s) | Inr (a, s') \<Rightarrow> (Inr a, s'))"

definition sret :: "'a \<Rightarrow> 's \<Rightarrow> ('e + 'a) \<times> 's" where
  "sret a s = (Inr a, s)"

definition sraise :: "'e \<Rightarrow> 's \<Rightarrow> ('e + 'a) \<times> 's" where
  "sraise e s = (Inl e, s)"

definition sbind :: "('s \<Rightarrow> ('e + 'a) \<times> 's) \<Rightarrow> ('a \<Rightarrow> 's \<Rightarrow> ('e + 'b) \<times> 's) \<Rightarrow> 's \<Rightarrow> ('e + 'b) \<times> 's" where
  "sbind m k s = (case m s of (Inl e, s') \<Rightarrow> (Inl e, s') | (Inr a, s') \<Rightarrow> k a s')"

definition scatch :: "('s \<Rightarrow> ('e + 'a) \<times> 's) \<Rightarrow> ('e \<Rightarrow> 's \<Rightarrow> ('e + 'a) \<times> 's) \<Rightarrow> 's \<Rightarrow> ('e + 'a) \<times> 's" where
  "scatch m h s = (case m s of (Inl e, s') \<Rightarrow> h e s' | (Inr a, s') \<Rightarrow> (Inr a, s'))"

lemma txn_Inl_iff: "txn body s = (Inl e, s') \<longleftrightarrow> body s = Inl e \<and> s' = s"
  by (auto simp: txn_def split: sum.splits prod.splits)

lemma txn_Inr_iff: "txn body s = (Inr a, s') \<longleftrightarrow> body s = Inr (a, s')"
  by (auto simp: txn_def split: sum.splits prod.splits)

lemma txn_rollback: "fst (txn body s) = Inl e \<Longrightarrow> snd (txn body s) = s"
  by (auto simp: txn_def split: sum.splits prod.splits)

lemma snd_txn: "snd (txn body s) = (case body s of Inl e \<Rightarrow> s | Inr (a, s') \<Rightarrow> s')"
  by (auto simp: txn_def split: sum.splits prod.splits)

lemma sret_simps [simp]: "sret a s = (Inr a, s)" by (simp add: sret_def)
lemma sraise_simps [simp]: "sraise e s = (Inl e, s)" by (simp add: sraise_def)

lemma sbind_Inr_iff:
  "sbind m k s = (Inr b, t) \<longleftrightarrow> (\<exists>a s'. m s = (Inr a, s') \<and> k a s' = (Inr b, t))"
  by (auto simp: sbind_def split: sum.splits prod.splits)

lemma sbind_Inl_iff:
  "sbind m k s = (Inl e, t) \<longleftrightarrow>
     m s = (Inl e, t) \<or> (\<exists>a s'. m s = (Inr a, s') \<and> k a s' = (Inl e, t))"
  by (auto simp: sbind_def split: sum.splits prod.splits)

lemma scatch_Inr_iff:
  "scatch m h s = (Inr b, t) \<longleftrightarrow>
     m s = (Inr b, t) \<or> (\<exists>e s'. m s = (Inl e, s') \<and> h e s' = (Inr b, t))"
  by (auto simp: scatch_def split: sum.splits prod.splits)

section \<open>Tables\<close>

definition upd :: "('r \<Rightarrow> bool) \<Rightarrow> ('r \<Rightarrow> 'r) \<Rightarrow> 'r list \<Rightarrow> 'r list" where
  "upd P f t = map (\<lambda>r. if P r then f r else r) t"

definition del :: "('r \<Rightarrow> bool) \<Rightarrow> 'r list \<Rightarrow> 'r list" where
  "del P t = filter (\<lambda>r. \<not> P r) t"

definition cnt :: "('r \<Rightarrow> bool) \<Rightarrow> 'r list \<Rightarrow> nat" where
  "cnt P t = length (filter P t)"

lemma upd_simps [simp, table_simps]:
  "upd P f [] = []"
  "upd P f (r # t) = (if P r then f r else r) # upd P f t"
  by (simp_all add: upd_def)

lemma cnt_simps [simp, table_simps]:
  "cnt P [] = 0"
  "cnt P (r # t) = (if P r then Suc (cnt P t) else cnt P t)"
  by (simp_all add: cnt_def)

lemma del_simps [simp, table_simps]:
  "del P [] = []"
  "del P (r # t) = (if P r then del P t else r # del P t)"
  by (simp_all add: del_def)

lemma upd_append [simp, table_simps]: "upd P f (t @ u) = upd P f t @ upd P f u"
  by (simp add: upd_def)

lemma cnt_append [simp, table_simps]: "cnt P (t @ u) = cnt P t + cnt P u"
  by (simp add: cnt_def)

lemma length_upd [simp, table_simps]: "length (upd P f t) = length t"
  by (simp add: upd_def)

lemma set_del [simp, table_simps]: "set (del P t) = {r \<in> set t. \<not> P r}"
  by (auto simp: del_def)

lemma in_set_upd: "r \<in> set (upd P f t) \<longleftrightarrow> (\<exists>q \<in> set t. r = (if P q then f q else q))"
  by (auto simp: upd_def)

lemma upd_hit: "r \<in> set t \<Longrightarrow> P r \<Longrightarrow> f r \<in> set (upd P f t)"
  by (auto simp: in_set_upd)

lemma upd_miss: "r \<in> set t \<Longrightarrow> \<not> P r \<Longrightarrow> r \<in> set (upd P f t)"
  by (auto simp: in_set_upd)

lemma upd_off: "(\<And>q. P q \<Longrightarrow> \<not> P (f q)) \<Longrightarrow> r \<in> set (upd P f t) \<Longrightarrow> \<not> P r"
  unfolding in_set_upd by metis

lemma cnt_eq_0_iff [simp, table_simps]: "cnt P t = 0 \<longleftrightarrow> (\<forall>r \<in> set t. \<not> P r)"
  by (induction t) auto

lemma cnt_pos_iff: "0 < cnt P t \<longleftrightarrow> (\<exists>r \<in> set t. P r)"
  by (induction t) auto

lemma upd_id: "(\<forall>r \<in> set t. \<not> P r) \<Longrightarrow> upd P f t = t"
  by (induction t) auto

lemma map_upd_same: "(\<And>r. k (f r) = k r) \<Longrightarrow> map k (upd P f t) = map k t"
  by (simp add: upd_def)

lemma del_empty: "(\<forall>r \<in> set t. \<not> P r) \<Longrightarrow> del P t = t"
  by (induction t) auto

lemma find_append: "find P (t @ u) = (case find P t of None \<Rightarrow> find P u | Some r \<Rightarrow> Some r)"
  by (induction t) auto

lemma find_SomeD: "find P t = Some r \<Longrightarrow> r \<in> set t \<and> P r"
  by (induction t) (auto split: if_splits)

lemma find_NoneD: "find P t = None \<Longrightarrow> r \<in> set t \<Longrightarrow> \<not> P r"
  by (simp add: find_None_iff)

lemma cnt_le_find: "find P t = Some r \<Longrightarrow> 0 < cnt P t"
  by (auto dest: find_SomeD simp: cnt_pos_iff)

text \<open>
  A column with a \<^verbatim>\<open>PRIMARY KEY\<close> or \<^verbatim>\<open>UNIQUE\<close> constraint: its values are distinct, so a lookup
  by the key finds the one row that has it.
\<close>

lemma find_key:
  assumes "distinct (map k t)" "r \<in> set t"
  shows "find (\<lambda>x. k x = k r) t = Some r"
  using assms by (induction t) (auto simp: image_iff)

lemma find_key_iff:
  assumes "distinct (map k t)"
  shows "find (\<lambda>x. k x = v) t = Some r \<longleftrightarrow> r \<in> set t \<and> k r = v"
  using assms find_key [OF assms] by (auto dest: find_SomeD)

lemma find_upd_key:
  assumes "\<And>r. k (f r) = k r"
  shows "find (\<lambda>x. k x = v) (upd P f t) =
    map_option (\<lambda>r. if P r then f r else r) (find (\<lambda>x. k x = v) t)"
  using assms by (induction t) auto

lemma distinct_map_del: "distinct (map k t) \<Longrightarrow> distinct (map k (del P t))"
  by (simp add: del_def distinct_map_filter)

lemma cnt_key_le_1: "distinct (map k t) \<Longrightarrow> cnt (\<lambda>x. k x = v) t \<le> 1"
  by (induction t) (auto simp: image_iff)

lemma key_unique: "distinct (map k t) \<Longrightarrow> a \<in> set t \<Longrightarrow> b \<in> set t \<Longrightarrow> k a = k b \<Longrightarrow> a = b"
  by (metis find_key option.inject)

lemma find_del_other:
  "(\<And>x. k x = v \<Longrightarrow> \<not> P x) \<Longrightarrow> find (\<lambda>x. k x = v) (del P t) = find (\<lambda>x. k x = v) t"
  by (induction t) auto

lemma find_None_image: "find (\<lambda>x. k x = v) t = None \<longleftrightarrow> v \<notin> k ` set t"
  by (auto simp: find_None_iff)

section \<open>Strings\<close>

definition utf8_cont :: "char \<Rightarrow> bool" where
  "utf8_cont c = (128 \<le> (of_char c :: nat) \<and> (of_char c :: nat) < 192)"

definition pylen :: "string \<Rightarrow> nat" where
  "pylen s = length (filter (\<lambda>c. \<not> utf8_cont c) s)"

definition is_digit :: "char \<Rightarrow> bool" where
  "is_digit c = (48 \<le> (of_char c :: nat) \<and> (of_char c :: nat) \<le> 57)"

definition is_lower_hex :: "char \<Rightarrow> bool" where
  "is_lower_hex c = (is_digit c \<or> 97 \<le> (of_char c :: nat) \<and> (of_char c :: nat) \<le> 102)"

definition is_alnum :: "char \<Rightarrow> bool" where
  "is_alnum c = (is_digit c \<or> 65 \<le> (of_char c :: nat) \<and> (of_char c :: nat) \<le> 90
     \<or> 97 \<le> (of_char c :: nat) \<and> (of_char c :: nat) \<le> 122)"

text \<open>The ASCII white space that \<^verbatim>\<open>str.strip\<close>, \<^verbatim>\<open>str.split\<close> and \<^verbatim>\<open>int\<close> skip.\<close>

definition is_space :: "char \<Rightarrow> bool" where
  "is_space c = (let n = (of_char c :: nat) in 9 \<le> n \<and> n \<le> 13 \<or> 28 \<le> n \<and> n \<le> 32)"

definition lstrip :: "string \<Rightarrow> string" where
  "lstrip s = dropWhile is_space s"

definition rstrip_by :: "(char \<Rightarrow> bool) \<Rightarrow> string \<Rightarrow> string" where
  "rstrip_by P s = rev (dropWhile P (rev s))"

definition strip :: "string \<Rightarrow> string" where
  "strip s = lstrip (rstrip_by is_space s)"

definition blank :: "string \<Rightarrow> bool" where
  "blank s = (\<forall>c \<in> set s. is_space c)"

lemma blank_code [code]: "blank s = list_all is_space s"
  by (simp add: blank_def list_all_iff)

lemma dropWhile_all: "(\<forall>x \<in> set (dropWhile P xs). P x) \<longleftrightarrow> (\<forall>x \<in> set xs. P x)"
  by (induction xs) auto

lemma strip_empty_iff: "strip s = [] \<longleftrightarrow> blank s"
  by (simp add: strip_def lstrip_def rstrip_by_def blank_def dropWhile_all)

text \<open>\<^verbatim>\<open>text.split(sep)\<close> for a one-character separator: never empty.\<close>

fun split_on :: "char \<Rightarrow> string \<Rightarrow> string list" where
  "split_on c [] = [[]]"
| "split_on c (x # xs) =
     (if x = c then [] # split_on c xs
      else (case split_on c xs of [] \<Rightarrow> [[x]] | y # ys \<Rightarrow> (x # y) # ys))"

lemma split_on_nonempty [simp]: "split_on c s \<noteq> []"
  by (induction s) (auto split: list.splits)

text \<open>\<^verbatim>\<open>text.partition(sep)\<close>: what is before the first separator and what is after it.\<close>

definition before :: "char \<Rightarrow> string \<Rightarrow> string" where
  "before c s = takeWhile (\<lambda>x. x \<noteq> c) s"

definition after :: "char \<Rightarrow> string \<Rightarrow> string" where
  "after c s = tl (dropWhile (\<lambda>x. x \<noteq> c) s)"

fun join :: "string \<Rightarrow> string list \<Rightarrow> string" where
  "join sep [] = []"
| "join sep [x] = x"
| "join sep (x # y # zs) = x @ sep @ join sep (y # zs)"

text \<open>
  A \<^verbatim>\<open>re.match\<close> of an anchored pattern \<^verbatim>\<open>^[class]{lo,hi}$\<close>: Python's \<^verbatim>\<open>$\<close> also matches before a
  line feed that ends the string.  \<^verbatim>\<open>re.fullmatch\<close> has no such exception.
\<close>

definition re_fullmatch :: "(char \<Rightarrow> bool) \<Rightarrow> nat \<Rightarrow> nat \<Rightarrow> string \<Rightarrow> bool" where
  "re_fullmatch cls lo hi s = (lo \<le> length s \<and> length s \<le> hi \<and> list_all cls s)"

definition re_match_dollar :: "(char \<Rightarrow> bool) \<Rightarrow> nat \<Rightarrow> nat \<Rightarrow> string \<Rightarrow> bool" where
  "re_match_dollar cls lo hi s =
     (re_fullmatch cls lo hi s
      \<or> s \<noteq> [] \<and> last s = CHR 0x0A \<and> re_fullmatch cls lo hi (butlast s))"

lemma re_match_dollar_newline:
  "re_fullmatch cls lo hi s \<Longrightarrow> re_match_dollar cls lo hi (s @ [CHR 0x0A])"
  by (simp add: re_match_dollar_def)

section \<open>Digits\<close>

definition digit_char :: "nat \<Rightarrow> char" where
  "digit_char d = char_of (48 + d)"

definition hex_char :: "nat \<Rightarrow> char" where
  "hex_char d = (if d < 10 then digit_char d else char_of (87 + d))"

text \<open>\<^verbatim>\<open>str(n)\<close> of an integer.\<close>

fun nat_str :: "nat \<Rightarrow> string" where
  "nat_str n = (if n < 10 then [digit_char n] else nat_str (n div 10) @ [digit_char (n mod 10)])"

declare nat_str.simps [simp del]

definition int_str :: "int \<Rightarrow> string" where
  "int_str i = (if i < 0 then CHR ''-'' # nat_str (nat (- i)) else nat_str (nat i))"

fun hexpad :: "nat \<Rightarrow> nat \<Rightarrow> string" where
  "hexpad 0 n = []"
| "hexpad (Suc w) n = hexpad w (n div 16) @ [hex_char (n mod 16)]"

definition digits_val :: "string \<Rightarrow> nat" where
  "digits_val s = foldl (\<lambda>a c. 10 * a + (of_char c - 48)) 0 s"

text \<open>
  \<^verbatim>\<open>int(text)\<close>, \<open>None\<close> where it raises \<^verbatim>\<open>ValueError\<close>: white space around, a sign, decimal digits with
  single underscores between them (ASCII digits only; the other Unicode digits are not modelled).
\<close>

fun int_digits :: "string \<Rightarrow> bool" where
  "int_digits [] = False"
| "int_digits [c] = is_digit c"
| "int_digits (c # d # s) =
     (is_digit c \<and> (if d = CHR ''_'' then int_digits s else int_digits (d # s)))"

definition py_int :: "string \<Rightarrow> int option" where
  "py_int text = (let t = strip text;
     neg = (t \<noteq> [] \<and> hd t = CHR ''-'');
     body = (if t \<noteq> [] \<and> (hd t = CHR ''-'' \<or> hd t = CHR ''+'') then tl t else t)
   in if int_digits body
      then Some ((if neg then - 1 else 1) * int (digits_val (filter (\<lambda>c. c \<noteq> CHR ''_'') body)))
      else None)"

lemma divmod_less:
  fixes a b c :: nat
  shows "a div c < b div c \<or> a div c = b div c \<and> a mod c < b mod c \<longleftrightarrow> a < b"
proof
  assume "a div c < b div c \<or> a div c = b div c \<and> a mod c < b mod c"
  then show "a < b"
    by (metis add_less_cancel_left div_le_mono mult_div_mod_eq not_le)
next
  assume "a < b"
  then show "a div c < b div c \<or> a div c = b div c \<and> a mod c < b mod c"
    by (metis add_less_cancel_left div_le_mono le_neq_implies_less less_imp_le mult_div_mod_eq)
qed

lemma divmod_eq:
  fixes a b c :: nat
  shows "a div c = b div c \<and> a mod c = b mod c \<longleftrightarrow> a = b"
  by (metis mult_div_mod_eq)

lemma digit_char_less:
  assumes "i < 10" "j < 10"
  shows "digit_char i < digit_char j \<longleftrightarrow> i < j"
  using assms by (simp add: digit_char_def less_char_def)

lemma digit_char_eq:
  assumes "i < 10" "j < 10"
  shows "digit_char i = digit_char j \<longleftrightarrow> i = j"
proof -
  have "digit_char i = digit_char j \<longleftrightarrow>
      (of_char (digit_char i) :: nat) = of_char (digit_char j)"
    by simp
  also have "\<dots> \<longleftrightarrow> i = j"
    using assms by (simp add: digit_char_def)
  finally show ?thesis .
qed

lemma is_digit_digit_char [simp]: "d < 10 \<Longrightarrow> is_digit (digit_char d)"
  by (simp add: is_digit_def digit_char_def)

lemma of_char_digit_char [simp]: "d < 10 \<Longrightarrow> (of_char (digit_char d) :: nat) = 48 + d"
  by (simp add: digit_char_def)

lemma of_char_hex_char [simp]:
  "d < 16 \<Longrightarrow> (of_char (hex_char d) :: nat) = (if d < 10 then 48 + d else 87 + d)"
  by (simp add: hex_char_def digit_char_def)

lemma hex_char_inj:
  assumes "i < 16" "j < 16"
  shows "hex_char i = hex_char j \<longleftrightarrow> i = j"
proof
  assume "hex_char i = hex_char j"
  then have "(of_char (hex_char i) :: nat) = of_char (hex_char j)" by simp
  then show "i = j" using assms by (simp split: if_splits)
qed simp

lemma nat_str_digits: "\<forall>c \<in> set (nat_str n). is_digit c"
proof (induction n rule: nat_str.induct)
  case (1 n)
  then show ?case by (subst nat_str.simps) auto
qed

lemma nat_str_nonempty [simp]: "nat_str n \<noteq> []"
  by (subst nat_str.simps) simp

lemma digits_val_nat_str [simp]: "digits_val (nat_str n) = n"
proof (induction n rule: nat_str.induct)
  case (1 n)
  then show ?case
    by (subst nat_str.simps) (auto simp: digits_val_def)
qed

lemma nat_str_inj [simp]: "nat_str m = nat_str n \<longleftrightarrow> m = n"
  by (metis digits_val_nat_str)

definition starts_digit :: "string \<Rightarrow> bool" where
  "starts_digit s = (case s of [] \<Rightarrow> False | c # _ \<Rightarrow> is_digit c)"

lemma starts_digit_simps [simp]: "\<not> starts_digit []" "starts_digit (c # s) = is_digit c"
  by (simp_all add: starts_digit_def)

lemma takeWhile_nat_str: "\<not> starts_digit r \<Longrightarrow> takeWhile is_digit (nat_str n @ r) = nat_str n"
  using nat_str_digits [of n]
  by (cases r) (auto simp: takeWhile_append2 takeWhile_append)

lemma nat_str_prefix:
  assumes "nat_str m @ r = nat_str n @ s" "\<not> starts_digit r" "\<not> starts_digit s"
  shows "m = n \<and> r = s"
proof -
  have "nat_str m = nat_str n"
    using takeWhile_nat_str [OF assms(2), of m] takeWhile_nat_str [OF assms(3), of n] assms(1) by simp
  with assms(1) show ?thesis by simp
qed

lemma nat_str_hd: "\<exists>c cs. nat_str n = c # cs \<and> is_digit c"
  using nat_str_digits [of n] by (cases "nat_str n") auto

lemma nat_str_not_minus [simp]: "nat_str n @ a \<noteq> CHR ''-'' # x" "CHR ''-'' # x \<noteq> nat_str n @ a"
  using nat_str_hd [of n] by (auto simp: is_digit_def)

lemma int_str_prefix:
  assumes "int_str i @ r = int_str j @ s" "\<not> starts_digit r" "\<not> starts_digit s"
  shows "i = j \<and> r = s"
proof (cases "i < 0")
  case True
  with assms(1) have "j < 0" by (auto simp: int_str_def split: if_splits)
  with True assms(1) have "nat_str (nat (- i)) @ r = nat_str (nat (- j)) @ s" by (simp add: int_str_def)
  from nat_str_prefix [OF this assms(2,3)] True \<open>j < 0\<close> show ?thesis by auto
next
  case False
  with assms(1) have "\<not> j < 0" by (auto simp: int_str_def split: if_splits)
  with False assms(1) have "nat_str (nat i) @ r = nat_str (nat j) @ s" by (simp add: int_str_def)
  from nat_str_prefix [OF this assms(2,3)] False \<open>\<not> j < 0\<close> show ?thesis by auto
qed

end
