(* ===== verification/Timestamps.thy ===== *)
theory Timestamps
  imports Prelude
begin

text \<open>
  Every stored time of the program is the text that \<^verbatim>\<open>now_iso()\<close> makes of a UTC datetime
  (\<^verbatim>\<open>datetime.now(timezone.utc).isoformat().replace("+00:00", "Z")\<close>), and SQL compares these
  texts as texts: leases, retry times, retention cutoffs.  \<^verbatim>\<open>isoformat\<close> leaves the fraction out
  when the microsecond is 0, so such a text ends in \<^verbatim>\<open>Z\<close> where the others have a full stop, and
  \<^verbatim>\<open>Z\<close> sorts after the full stop.

  An instant is the number of microseconds since 1970.  \<open>now_iso\<close> is the text of an instant,
  \<open>sql_less\<close> and \<open>sql_leq\<close> say on instants what the comparison of the texts says; the other theories
  keep instants in their tables and compare them with these two.
\<close>

section \<open>Datetimes and their text\<close>

definition day_us :: nat where "day_us = 86400000000"
definition sec_us :: nat where "sec_us = 1000000"

definition leap :: "nat \<Rightarrow> bool" where
  "leap y = (y mod 4 = 0 \<and> (y mod 100 \<noteq> 0 \<or> y mod 400 = 0))"

definition days_in_month :: "nat \<Rightarrow> nat \<Rightarrow> nat" where
  "days_in_month y m =
     (if m = 2 then (if leap y then 29 else 28) else if m \<in> {4, 6, 9, 11} then 30 else 31)"

type_synonym date = "nat \<times> nat \<times> nat"

fun next_day :: "date \<Rightarrow> date" where
  "next_day (y, m, d) =
     (if d < days_in_month y m then (y, m, d + 1)
      else if m < 12 then (y, m + 1, 1)
      else (y + 1, 1, 1))"

primrec date_of_day :: "nat \<Rightarrow> date" where
  "date_of_day 0 = (1970, 1, 1)"
| "date_of_day (Suc n) = next_day (date_of_day n)"

text \<open>\<^verbatim>\<open>%0wd\<close> of a number of at most \<open>w\<close> digits.\<close>

fun pad :: "nat \<Rightarrow> nat \<Rightarrow> string" where
  "pad 0 n = []"
| "pad (Suc w) n = pad w (n div 10) @ [digit_char (n mod 10)]"

definition iso_seconds :: "date \<Rightarrow> nat \<Rightarrow> string" where
  "iso_seconds dt s = (case dt of (y, m, d) \<Rightarrow>
     pad 4 y @ ''-'' @ pad 2 m @ ''-'' @ pad 2 d @ ''T''
     @ pad 2 (s div 3600) @ '':'' @ pad 2 (s div 60 mod 60) @ '':'' @ pad 2 (s mod 60))"

definition iso_fraction :: "nat \<Rightarrow> string" where
  "iso_fraction u = (if u = 0 then ''Z'' else ''.'' @ pad 6 u @ ''Z'')"

definition isoformat_z :: "date \<Rightarrow> nat \<Rightarrow> nat \<Rightarrow> string" where
  "isoformat_z dt s u = iso_seconds dt s @ iso_fraction u"

definition now_iso :: "int \<Rightarrow> string" where
  "now_iso t = (let n = nat t in
     isoformat_z (date_of_day (n div day_us)) (n mod day_us div sec_us) (n mod sec_us))"

text \<open>The comparison of two such texts, on the instants.\<close>

definition micro_rank :: "int \<Rightarrow> int" where
  "micro_rank u = (if u = 0 then 1000000 else u)"

definition sql_less :: "int \<Rightarrow> int \<Rightarrow> bool" where
  "sql_less a b =
     (a div 1000000 < b div 1000000
      \<or> a div 1000000 = b div 1000000
        \<and> micro_rank (a mod 1000000) < micro_rank (b mod 1000000))"

definition sql_leq :: "int \<Rightarrow> int \<Rightarrow> bool" where
  "sql_leq a b = (\<not> sql_less b a)"

definition seconds :: "int \<Rightarrow> int" where
  "seconds n = n * 1000000"

section \<open>The order of the texts\<close>

text \<open>The comparison is the order of one number, so it is a linear order.\<close>

definition sql_key :: "int \<Rightarrow> int" where
  "sql_key a = 2000000 * (a div 1000000) + micro_rank (a mod 1000000)"

lemma micro_rank_pos: "0 < u \<Longrightarrow> micro_rank u = u"
  by (simp add: micro_rank_def)

lemma micro_cases:
  obtains (whole) "(a :: int) mod 1000000 = 0" "micro_rank (a mod 1000000) = 1000000"
  | (part) "0 < a mod 1000000" "a mod 1000000 < 1000000" "micro_rank (a mod 1000000) = a mod 1000000"
proof -
  have "0 \<le> a mod 1000000" and hi: "a mod 1000000 < 1000000" by simp_all
  then have "a mod 1000000 = 0 \<or> 0 < a mod 1000000" by linarith
  then show ?thesis
  proof
    assume z: "a mod 1000000 = 0"
    show ?thesis by (rule whole [OF z]) (simp add: micro_rank_def z)
  next
    assume z: "0 < a mod 1000000"
    then show ?thesis by (intro part [OF z hi]) (rule micro_rank_pos)
  qed
qed

lemma micro_rank_bounds: "0 < micro_rank (a mod 1000000) \<and> micro_rank (a mod 1000000) \<le> 1000000"
  by (cases a rule: micro_cases) simp_all

lemma sql_less_key: "sql_less a b \<longleftrightarrow> sql_key a < sql_key b"
  using micro_rank_bounds [of a] micro_rank_bounds [of b]
  unfolding sql_less_def sql_key_def by linarith

lemma sql_leq_key: "sql_leq a b \<longleftrightarrow> sql_key a \<le> sql_key b"
  by (auto simp: sql_leq_def sql_less_key)

lemma divmod_unique: "(a :: int) div m = b div m \<Longrightarrow> a mod m = b mod m \<Longrightarrow> a = b"
  by (metis mult_div_mod_eq)

lemma sql_key_inj: "sql_key a = sql_key b \<Longrightarrow> a = b"
proof -
  assume k: "sql_key a = sql_key b"
  then have d: "a div 1000000 = b div 1000000"
    using micro_rank_bounds [of a] micro_rank_bounds [of b] unfolding sql_key_def by linarith
  with k have r: "micro_rank (a mod 1000000) = micro_rank (b mod 1000000)" by (simp add: sql_key_def)
  have "a mod 1000000 = b mod 1000000"
  proof (cases a rule: micro_cases)
    case whole
    with r show ?thesis by (cases b rule: micro_cases) simp_all
  next
    case part
    with r show ?thesis by (cases b rule: micro_cases) simp_all
  qed
  with d show "a = b" by (rule divmod_unique)
qed

lemma sql_less_irrefl [simp]: "\<not> sql_less a a"
  by (simp add: sql_less_key)

lemma sql_leq_refl [simp]: "sql_leq a a"
  by (simp add: sql_leq_key)

lemma sql_less_trans: "sql_less a b \<Longrightarrow> sql_less b c \<Longrightarrow> sql_less a c"
  by (simp add: sql_less_key)

lemma sql_leq_trans: "sql_leq a b \<Longrightarrow> sql_leq b c \<Longrightarrow> sql_leq a c"
  by (simp add: sql_leq_key)

lemma sql_leq_linear: "sql_leq a b \<or> sql_leq b a"
  by (auto simp: sql_leq_key)

lemma sql_leq_antisym: "sql_leq a b \<Longrightarrow> sql_leq b a \<Longrightarrow> a = b"
  by (simp add: sql_leq_key sql_key_inj)

lemma sql_less_le_trans: "sql_less a b \<Longrightarrow> sql_leq b c \<Longrightarrow> sql_less a c"
  by (simp add: sql_less_key sql_leq_key)

lemma sql_not_less: "\<not> sql_less a b \<longleftrightarrow> sql_leq b a"
  by (simp add: sql_leq_def)

lemma sql_not_leq: "\<not> sql_leq a b \<longleftrightarrow> sql_less b a"
  by (simp add: sql_leq_def)

text \<open>A second or more apart, the text order is the order of the instants.\<close>

lemma sql_less_second_apart: "a + 1000000 \<le> b \<Longrightarrow> sql_less a b"
proof -
  assume "a + 1000000 \<le> b"
  then have "a div 1000000 < b div 1000000" by linarith
  then show ?thesis by (simp add: sql_less_def)
qed

lemma sql_less_close: "sql_less a b \<Longrightarrow> a < b + 1000000"
  unfolding sql_less_def by linarith

lemma sql_less_seconds: "0 < n \<Longrightarrow> sql_less a (a + seconds n)"
  by (rule sql_less_second_apart) (simp add: seconds_def)

text \<open>Lexicographic order of appended texts.\<close>

lemma less_append_eq_length:
  fixes a b c d :: "'a::linorder list"
  assumes "length a = length b"
  shows "a @ c < b @ d \<longleftrightarrow> a < b \<or> a = b \<and> c < d"
  using assms by (induction a b rule: list_induct2) auto

lemma length_pad [simp]: "length (pad w n) = w"
  by (induction w n rule: pad.induct) auto

lemma pad_eq: "m < 10 ^ w \<Longrightarrow> n < 10 ^ w \<Longrightarrow> pad w m = pad w n \<longleftrightarrow> m = n"
proof (induction w arbitrary: m n)
  case (Suc w)
  have q: "m div 10 < 10 ^ w" "n div 10 < 10 ^ w"
    using Suc.prems by (simp_all add: less_mult_imp_div_less)
  have "pad (Suc w) m = pad (Suc w) n \<longleftrightarrow> m div 10 = n div 10 \<and> m mod 10 = n mod 10"
    by (simp add: Suc.IH q digit_char_eq)
  also have "\<dots> \<longleftrightarrow> m = n"
    by (metis mult_div_mod_eq)
  finally show ?case .
qed simp

lemma pad_less: "m < 10 ^ w \<Longrightarrow> n < 10 ^ w \<Longrightarrow> pad w m < pad w n \<longleftrightarrow> m < n"
proof (induction w arbitrary: m n)
  case (Suc w)
  have q: "m div 10 < 10 ^ w" "n div 10 < 10 ^ w"
    using Suc.prems by (simp_all add: less_mult_imp_div_less)
  have "pad (Suc w) m < pad (Suc w) n \<longleftrightarrow>
      m div 10 < n div 10 \<or> m div 10 = n div 10 \<and> m mod 10 < n mod 10"
    by (simp add: less_append_eq_length Suc.IH pad_eq q digit_char_less)
  also have "\<dots> \<longleftrightarrow> m < n" by (rule divmod_less)
  finally show ?case .
qed simp

text \<open>Dates: later days have lexicographically later dates, with fields of at most two digits.\<close>

fun date_less :: "date \<Rightarrow> date \<Rightarrow> bool" where
  "date_less (y, m, d) (y', m', d') = (y < y' \<or> y = y' \<and> (m < m' \<or> m = m' \<and> d < d'))"

fun date_valid :: "date \<Rightarrow> bool" where
  "date_valid (y, m, d) = (1 \<le> m \<and> m \<le> 12 \<and> 1 \<le> d \<and> d \<le> days_in_month y m)"

lemma days_in_month_bounds: "28 \<le> days_in_month y m \<and> days_in_month y m \<le> 31"
  by (simp add: days_in_month_def)

lemma date_less_trans: "date_less a b \<Longrightarrow> date_less b c \<Longrightarrow> date_less a c"
  by (cases a; cases b; cases c) auto

lemma date_less_irrefl [simp]: "\<not> date_less a a"
  by (cases a) simp

lemma next_day_less: "date_less d (next_day d)"
  by (cases d) auto

lemma next_day_valid: "date_valid d \<Longrightarrow> date_valid (next_day d)"
proof -
  have "1 \<le> days_in_month y m" for y m
    using days_in_month_bounds [of y m] by linarith
  then show "date_valid d \<Longrightarrow> date_valid (next_day d)"
    by (cases d) auto
qed

lemma date_of_day_valid: "date_valid (date_of_day n)"
  by (induction n) (auto simp: days_in_month_def simp del: next_day.simps intro: next_day_valid)

lemma date_of_day_less_Suc: "date_less (date_of_day n) (date_of_day (n + Suc k))"
  by (induction k) (auto intro: next_day_less date_less_trans)

lemma date_of_day_mono: "m < n \<Longrightarrow> date_less (date_of_day m) (date_of_day n)"
  using date_of_day_less_Suc [of m "n - Suc m"] by simp

definition year_ok :: "nat \<Rightarrow> bool" where
  "year_ok n = (fst (date_of_day n) < 10000)"

lemma hms_less:
  fixes s t :: nat
  shows "s div 3600 < t div 3600 \<or> s div 3600 = t div 3600 \<and>
      (s div 60 mod 60 < t div 60 mod 60 \<or> s div 60 mod 60 = t div 60 mod 60 \<and> s mod 60 < t mod 60)
      \<longleftrightarrow> s < t"
proof -
  have d: "k div 3600 = k div 60 div 60" for k :: nat using div_mult2_eq [of k 60 60] by simp
  have "s div 60 div 60 < t div 60 div 60 \<or> s div 60 div 60 = t div 60 div 60 \<and>
      s div 60 mod 60 < t div 60 mod 60 \<longleftrightarrow> s div 60 < t div 60" by (rule divmod_less)
  moreover have "s div 60 div 60 = t div 60 div 60 \<and> s div 60 mod 60 = t div 60 mod 60
      \<longleftrightarrow> s div 60 = t div 60" by (rule divmod_eq)
  ultimately show ?thesis using divmod_less [of s 60 t] unfolding d by blast
qed

text \<open>The text of a date and second, compared as text.\<close>

lemma iso_seconds_less:
  assumes "date_valid a" "date_valid b" "fst a < 10000" "fst b < 10000" "s < 86400" "t < 86400"
  shows "iso_seconds a s < iso_seconds b t \<longleftrightarrow> date_less a b \<or> a = b \<and> s < t"
proof -
  obtain y m d y' m' d' where ab: "a = (y, m, d)" "b = (y', m', d')"
    by (cases a; cases b) auto
  have "m < 10 ^ 2" "m' < 10 ^ 2" "d < 10 ^ 2" "d' < 10 ^ 2"
    using assms(1,2) days_in_month_bounds [of y m] days_in_month_bounds [of y' m']
    by (auto simp: ab)
  moreover have "y < 10 ^ 4" "y' < 10 ^ 4" using assms(3,4) by (auto simp: ab)
  moreover have "s div 3600 < 10 ^ 2" "t div 3600 < 10 ^ 2" using assms(5,6) by auto
  moreover have "k mod 60 < 10 ^ 2" for k :: nat
    by (rule less_le_trans [of _ 60]) simp_all
  ultimately have "iso_seconds a s < iso_seconds b t \<longleftrightarrow>
      y < y' \<or> y = y' \<and> (m < m' \<or> m = m' \<and> (d < d' \<or> d = d' \<and>
        (s div 3600 < t div 3600 \<or> s div 3600 = t div 3600 \<and>
          (s div 60 mod 60 < t div 60 mod 60 \<or> s div 60 mod 60 = t div 60 mod 60 \<and> s mod 60 < t mod 60))))"
    by (simp add: iso_seconds_def ab less_append_eq_length pad_less pad_eq)
  then show ?thesis by (auto simp: ab hms_less)
qed

lemma length_iso_seconds [simp]: "length (iso_seconds d s) = 19"
  by (simp add: iso_seconds_def split: prod.split)

lemma iso_seconds_inj:
  assumes "date_valid a" "date_valid b" "fst a < 10000" "fst b < 10000" "s < 86400" "t < 86400"
  shows "iso_seconds a s = iso_seconds b t \<longleftrightarrow> a = b \<and> s = t"
proof
  assume eq: "iso_seconds a s = iso_seconds b t"
  have "\<not> date_less a b" "\<not> date_less b a"
    using iso_seconds_less [OF assms] iso_seconds_less [OF assms(2,1,4,3,6,5)] eq by auto
  then have "a = b" by (cases a; cases b) auto
  with iso_seconds_less [OF assms] iso_seconds_less [OF assms(2,1,4,3,6,5)] eq
  show "a = b \<and> s = t" by auto
qed simp

lemma iso_fraction_less:
  assumes "u < 1000000" "v < 1000000"
  shows "iso_fraction u < iso_fraction v \<longleftrightarrow> micro_rank (int u) < micro_rank (int v)"
proof -
  have dotZ: "CHR ''.'' < CHR ''Z''" by (simp add: less_char_def)
  have p: "pad 6 u @ ''Z'' < pad 6 v @ ''Z'' \<longleftrightarrow> u < v"
    using assms by (simp add: less_append_eq_length pad_less)
  show ?thesis using assms dotZ p
    by (auto simp: iso_fraction_def micro_rank_def)
qed

lemma date_of_day_eq_iff: "date_of_day m = date_of_day n \<longleftrightarrow> m = n"
  using date_of_day_mono [of m n] date_of_day_mono [of n m]
  by (metis date_less_irrefl linorder_neqE_nat)

lemma date_of_day_less_iff: "date_less (date_of_day m) (date_of_day n) \<longleftrightarrow> m < n"
  using date_of_day_mono [of m n] date_of_day_mono [of n m]
  by (metis date_less_irrefl date_less_trans linorder_neqE_nat)

lemma day_second_less:
  fixes a b :: nat
  shows "a div day_us < b div day_us
      \<or> a div day_us = b div day_us \<and> a mod day_us div sec_us < b mod day_us div sec_us
      \<longleftrightarrow> a div sec_us < b div sec_us" (is ?less)
    and "a div day_us = b div day_us \<and> a mod day_us div sec_us = b mod day_us div sec_us
      \<longleftrightarrow> a div sec_us = b div sec_us" (is ?eq)
proof -
  have d: "k div day_us = k div sec_us div 86400" for k :: nat
    using div_mult2_eq [of k sec_us 86400] by (simp add: day_us_def sec_us_def)
  have m: "k mod day_us div sec_us = k div sec_us mod 86400" for k :: nat
    using mod_mult2_eq [of k sec_us 86400] by (simp add: day_us_def sec_us_def)
  show ?less ?eq unfolding d m by (rule divmod_less, rule divmod_eq)
qed

lemma now_iso_order:
  assumes "0 \<le> a" "0 \<le> b" "year_ok (nat a div day_us)" "year_ok (nat b div day_us)"
  shows "now_iso a < now_iso b \<longleftrightarrow> sql_less a b"
proof -
  let ?a = "nat a" and ?b = "nat b"
  have v: "date_valid (date_of_day n)" for n by (rule date_of_day_valid)
  have y: "fst (date_of_day (?a div day_us)) < 10000" "fst (date_of_day (?b div day_us)) < 10000"
    using assms(3,4) by (simp_all add: year_ok_def)
  have s: "k mod day_us div sec_us < 86400" for k
    by (simp add: day_us_def sec_us_def less_mult_imp_div_less)
  have u: "k mod sec_us < 1000000" for k by (simp add: sec_us_def)
  have i: "a div 1000000 = int (?a div sec_us)" "b div 1000000 = int (?b div sec_us)"
    "a mod 1000000 = int (?a mod sec_us)" "b mod 1000000 = int (?b mod sec_us)"
    using assms(1,2) by (simp_all add: sec_us_def zdiv_int zmod_int)
  show ?thesis
    unfolding now_iso_def Let_def isoformat_z_def less_append_eq_length [OF length_iso_seconds [THEN trans, OF length_iso_seconds [symmetric]]]
      iso_seconds_less [OF v v y s s] iso_seconds_inj [OF v v y s s] iso_fraction_less [OF u u]
      date_of_day_less_iff date_of_day_eq_iff day_second_less sql_less_def i
    by simp
qed

section \<open>Stored times\<close>

text \<open>
  C21. For all instants from 1970 to the year 9999, the text comparison that SQL makes of two
  stored times (leases, retry times, cutoffs) is \<open>sql_less\<close> on the instants: the order of time,
  except that within one second the text of a whole second sorts after all the fractions of it.
\<close>

theorem now_iso_text_order:
  assumes "0 \<le> a" "0 \<le> b" "year_ok (nat a div day_us)" "year_ok (nat b div day_us)"
  shows "now_iso a < now_iso b \<longleftrightarrow> sql_less a b"
  by (rule now_iso_order [OF assms])

lemma now_iso_text_order_witness: "now_iso 0 < now_iso 1 \<longleftrightarrow> sql_less 0 1"
proof (rule now_iso_text_order)
  show "year_ok (nat 0 div day_us)" "year_ok (nat 1 div day_us)"
    by (simp_all add: year_ok_def day_us_def)
qed simp_all

text \<open>
  The text order is not the order of time within a second: for every second, the stored time
  of the whole second is after the stored time of each later microsecond of the same second, so a
  lease or cutoff at a whole second is compared as if it were at the end of it.
\<close>

theorem whole_second_sorts_last:
  assumes "0 \<le> s" "0 < u" "u < 1000000" "year_ok (nat (seconds s) div day_us)"
  shows "seconds s < seconds s + u \<and> now_iso (seconds s + u) < now_iso (seconds s)"
proof -
  let ?a = "seconds s + u" and ?b = "seconds s"
  have m: "?a mod 1000000 = u" "?b mod 1000000 = 0" "?a div 1000000 = s" "?b div 1000000 = s"
    using assms(2,3) by (simp_all add: seconds_def)
  have "sql_less ?a ?b" using assms(2,3) by (simp add: sql_less_def m micro_rank_def)
  moreover have "nat ?a div day_us = nat ?b div day_us"
  proof -
    have "nat ?a div sec_us = nat s" "nat ?b div sec_us = nat s"
      using m(3,4) assms(1,2) by (simp_all add: sec_us_def seconds_def nat_div_distrib [symmetric])
    then show ?thesis using day_second_less(2) [of "nat ?a" "nat ?b"] by simp
  qed
  ultimately show ?thesis
    using now_iso_order [of ?a ?b] assms by (simp add: seconds_def)
qed

lemma whole_second_sorts_last_witness:
  "seconds 0 < seconds 0 + 1 \<and> now_iso (seconds 0 + 1) < now_iso (seconds 0)"
  by (rule whole_second_sorts_last) (simp_all add: year_ok_def day_us_def seconds_def)

end
