(* ===== verification/CanonicalJson.thy ===== *)
theory CanonicalJson
  imports Prelude
begin

text \<open>
  The JSON values of the program, the error registry of the remote protocol and the canonical
  serialiser (\<^verbatim>\<open>src/vanth/remote/protocol.py\<close>), which the request digests and the manifest digests hash.

  A Python dict is the list of its items in insertion order, its keys distinct.  A float is the
  text of its \<^verbatim>\<open>repr\<close>, the shortest digits that read back as the float, which is what
  \<^verbatim>\<open>_number_to_string\<close> works on.  \<open>compact\<close> is a proof device: the serialiser without the sorting
  and the error branch; it is unambiguous, and the canonical text is \<open>compact\<close> of the value with
  its keys sorted (\<open>jnorm\<close>).
\<close>

section \<open>Values and errors\<close>

datatype json =
    JNull
  | JBool bool
  | JInt int
  | JFloat string
  | JStr string
  | JArr "json list"
  | JObj "(string \<times> json) list"

type_synonym obj = "(string \<times> json) list"

section \<open>Objects as dictionaries\<close>

text \<open>\<^verbatim>\<open>d.get(k)\<close>: JSON \<^verbatim>\<open>null\<close> and a missing key are both \<^verbatim>\<open>None\<close>.\<close>

definition dget :: "obj \<Rightarrow> string \<Rightarrow> json" where
  "dget d k = (case map_of d k of None \<Rightarrow> JNull | Some v \<Rightarrow> v)"

definition has_key :: "obj \<Rightarrow> string \<Rightarrow> bool" where
  "has_key d k = (map_of d k \<noteq> None)"

fun is_str :: "json \<Rightarrow> bool" where "is_str (JStr s) = True" | "is_str j = False"
fun is_obj :: "json \<Rightarrow> bool" where "is_obj (JObj d) = True" | "is_obj j = False"
fun is_arr :: "json \<Rightarrow> bool" where "is_arr (JArr xs) = True" | "is_arr j = False"
fun is_int :: "json \<Rightarrow> bool" where "is_int (JInt i) = True" | "is_int j = False"
fun is_bool :: "json \<Rightarrow> bool" where "is_bool (JBool b) = True" | "is_bool j = False"

text \<open>\<^verbatim>\<open>d.pop(k, None)\<close>, \<^verbatim>\<open>d[k] = v\<close> and \<^verbatim>\<open>d.update(u)\<close>.\<close>

definition dpop :: "string \<Rightarrow> obj \<Rightarrow> obj" where
  "dpop k d = filter (\<lambda>i. fst i \<noteq> k) d"

fun dput :: "string \<Rightarrow> json \<Rightarrow> obj \<Rightarrow> obj" where
  "dput k v [] = [(k, v)]"
| "dput k v (i # d) = (if fst i = k then (k, v) # d else i # dput k v d)"

definition dupdate :: "obj \<Rightarrow> obj \<Rightarrow> obj" where
  "dupdate d u = foldl (\<lambda>d i. dput (fst i) (snd i) d) d u"

lemma dget_Nil [simp]: "dget [] k = JNull"
  by (simp add: dget_def)

lemma dget_dput [simp]: "dget (dput k v d) l = (if l = k then v else dget d l)"
  by (induction k v d rule: dput.induct) (auto simp: dget_def)

lemma dget_dpop [simp]: "dget (dpop k d) l = (if l = k then JNull else dget d l)"
  by (induction d) (auto simp: dget_def dpop_def)

lemma dupdate_simps [simp]:
  "dupdate d [] = d" "dupdate d (i # u) = dupdate (dput (fst i) (snd i) d) u"
  by (simp_all add: dupdate_def)

text \<open>The keys of \<^verbatim>\<open>ERROR_REGISTRY\<close>, with the HTTP status each has.\<close>

datatype code =
    PROTOCOL_MALFORMED | PROTOCOL_OVERSIZED | PROTOCOL_UNKNOWN_KIND | PROTOCOL_DUPLICATE_KEY
  | PROTOCOL_UNKNOWN_FIELD | PROTOCOL_REPLAY_MISMATCH | OPERATION_RETRY_PENDING
  | STATE_EPOCH_MISMATCH | UNSUPPORTED_FEATURE | AUTH_FAILED | INVALID_REQUEST

fun registry_name :: "code \<Rightarrow> string" where
  "registry_name PROTOCOL_MALFORMED = ''PROTOCOL_MALFORMED''"
| "registry_name PROTOCOL_OVERSIZED = ''PROTOCOL_OVERSIZED''"
| "registry_name PROTOCOL_UNKNOWN_KIND = ''PROTOCOL_UNKNOWN_KIND''"
| "registry_name PROTOCOL_DUPLICATE_KEY = ''PROTOCOL_DUPLICATE_KEY''"
| "registry_name PROTOCOL_UNKNOWN_FIELD = ''PROTOCOL_UNKNOWN_FIELD''"
| "registry_name PROTOCOL_REPLAY_MISMATCH = ''PROTOCOL_REPLAY_MISMATCH''"
| "registry_name OPERATION_RETRY_PENDING = ''OPERATION_RETRY_PENDING''"
| "registry_name STATE_EPOCH_MISMATCH = ''STATE_EPOCH_MISMATCH''"
| "registry_name UNSUPPORTED_FEATURE = ''UNSUPPORTED_FEATURE''"
| "registry_name AUTH_FAILED = ''AUTH_FAILED''"
| "registry_name INVALID_REQUEST = ''INVALID_REQUEST''"

fun registry_status :: "code \<Rightarrow> nat" where
  "registry_status PROTOCOL_MALFORMED = 400"
| "registry_status PROTOCOL_OVERSIZED = 413"
| "registry_status PROTOCOL_UNKNOWN_KIND = 400"
| "registry_status PROTOCOL_DUPLICATE_KEY = 400"
| "registry_status PROTOCOL_UNKNOWN_FIELD = 400"
| "registry_status PROTOCOL_REPLAY_MISMATCH = 409"
| "registry_status OPERATION_RETRY_PENDING = 503"
| "registry_status STATE_EPOCH_MISMATCH = 409"
| "registry_status UNSUPPORTED_FEATURE = 501"
| "registry_status AUTH_FAILED = 401"
| "registry_status INVALID_REQUEST = 422"

definition ERROR_REGISTRY :: "code list" where
  "ERROR_REGISTRY =
     [PROTOCOL_MALFORMED, PROTOCOL_OVERSIZED, PROTOCOL_UNKNOWN_KIND, PROTOCOL_DUPLICATE_KEY,
      PROTOCOL_UNKNOWN_FIELD, PROTOCOL_REPLAY_MISMATCH, OPERATION_RETRY_PENDING,
      STATE_EPOCH_MISMATCH, UNSUPPORTED_FEATURE, AUTH_FAILED, INVALID_REQUEST]"

section \<open>Numbers\<close>

definition has_char :: "char \<Rightarrow> string \<Rightarrow> bool" where
  "has_char c s = list_ex (\<lambda>x. x = c) s"

text \<open>\<^verbatim>\<open>text.rstrip("0").rstrip(".")\<close>\<close>

definition rstrip_zeros :: "string \<Rightarrow> string" where
  "rstrip_zeros s = rstrip_by (\<lambda>c. c = CHR ''.'') (rstrip_by (\<lambda>c. c = CHR ''0'') s)"

definition fixed_notation :: "string \<Rightarrow> int \<Rightarrow> string" where
  "fixed_notation mantissa exponent =
     (let negative = (mantissa \<noteq> [] \<and> hd mantissa = CHR ''-'');
        mant = dropWhile (\<lambda>c. c = CHR ''-'') mantissa;
        integer_part = before CHR ''.'' mant;
        fractional_part = (if has_char CHR ''.'' mant then after CHR ''.'' mant else []);
        all_digits = integer_part @ fractional_part;
        point = int (length integer_part) + exponent;
        fixed =
          (if point \<le> 0 then ''0.'' @ replicate (nat (- point)) CHR ''0'' @ all_digits
           else if point \<ge> int (length all_digits)
           then all_digits @ replicate (nat (point - int (length all_digits))) CHR ''0''
           else rstrip_zeros (take (nat point) all_digits @ ''.'' @ drop (nat point) all_digits))
      in (if negative then ''-'' else []) @ fixed)"

definition number_to_string :: "string \<Rightarrow> string" where
  "number_to_string text =
     (if text = ''0.0'' \<or> text = ''-0.0'' then ''0''
      else if \<not> has_char CHR ''e'' text \<and> \<not> has_char CHR ''E'' text
      then (let r = rstrip_zeros text in if r = [] then ''0'' else r)
      else
        (let mantissa = before CHR ''e'' text;
           exponent = the (py_int (after CHR ''e'' text));
           sign = (if exponent \<ge> 0 then ''+'' else ''-'')
         in if \<not> (- 6 \<le> exponent \<and> exponent < 21)
            then mantissa @ ''E'' @ sign @ int_str \<bar>exponent\<bar>
            else fixed_notation mantissa exponent))"

definition nonfinite :: "string \<Rightarrow> bool" where
  "nonfinite r = (r = ''nan'' \<or> r = ''inf'' \<or> r = ''-inf'')"

definition json_float :: "string \<Rightarrow> code + string" where
  "json_float r = (if nonfinite r then Inl PROTOCOL_MALFORMED else Inr (number_to_string r))"

section \<open>Strings\<close>

definition esc :: "char \<Rightarrow> string" where
  "esc c = (if c = CHR 0x22 then [CHR 0x5C, CHR 0x22]
     else if c = CHR 0x5C then [CHR 0x5C, CHR 0x5C]
     else if (of_char c :: nat) < 32 then CHR 0x5C # CHR ''u'' # hexpad 4 (of_char c)
     else [c])"

definition escape_string :: "string \<Rightarrow> string" where
  "escape_string value = CHR 0x22 # concat (map esc value) @ [CHR 0x22]"

section \<open>The serialiser\<close>

fun serialize :: "json \<Rightarrow> code + string"
  and serialize_list :: "json list \<Rightarrow> code + string list"
  and serialize_items :: "obj \<Rightarrow> code + (string \<times> string) list" where
  "serialize JNull = Inr ''null''"
| "serialize (JBool b) = Inr (if b then ''true'' else ''false'')"
| "serialize (JInt i) = Inr (int_str i)"
| "serialize (JFloat r) = json_float r"
| "serialize (JStr s) = Inr (escape_string s)"
| "serialize (JArr xs) =
     ebind (serialize_list xs) (\<lambda>ts. Inr (''['' @ join '','' ts @ '']''))"
| "serialize (JObj kvs) =
     ebind (serialize_items kvs) (\<lambda>ts.
       Inr (''{'' @ join '','' (map (\<lambda>(k, t). escape_string k @ '':'' @ t) (sort_key fst ts)) @ ''}''))"
| "serialize_list [] = Inr []"
| "serialize_list (x # xs) =
     ebind (serialize x) (\<lambda>t. ebind (serialize_list xs) (\<lambda>ts. Inr (t # ts)))"
| "serialize_items [] = Inr []"
| "serialize_items ((k, v) # kvs) =
     ebind (serialize v) (\<lambda>t. ebind (serialize_items kvs) (\<lambda>ts. Inr ((k, t) # ts)))"

definition check_duplicate_keys :: "obj \<Rightarrow> code + unit" where
  "check_duplicate_keys kvs = ensure (distinct (map fst kvs)) PROTOCOL_DUPLICATE_KEY"

definition canonical_json :: "json \<Rightarrow> code + string" where
  "canonical_json j =
     ebind (case j of JObj kvs \<Rightarrow> check_duplicate_keys kvs | _ \<Rightarrow> Inr ()) (\<lambda>_. serialize j)"

definition request_json :: "string \<Rightarrow> obj \<Rightarrow> string \<Rightarrow> json" where
  "request_json method payload key =
     JObj [(''method'', JStr method), (''payload'', JObj payload), (''idempotency_key'', JStr key)]"

text \<open>\<open>sha\<close> is \<^verbatim>\<open>hashlib.sha256(...).hexdigest()\<close> of the UTF-8 bytes of a text.\<close>

definition request_digest :: "(string \<Rightarrow> string) \<Rightarrow> string \<Rightarrow> obj \<Rightarrow> string \<Rightarrow> code + string" where
  "request_digest sha method payload key =
     ebind (canonical_json (request_json method payload key)) (\<lambda>t. Inr (sha t))"

section \<open>Sorted normal form\<close>

fun jnorm :: "json \<Rightarrow> json"
  and jnorm_list :: "json list \<Rightarrow> json list"
  and jnorm_items :: "obj \<Rightarrow> obj" where
  "jnorm (JArr xs) = JArr (jnorm_list xs)"
| "jnorm (JObj kvs) = JObj (sort_key fst (jnorm_items kvs))"
| "jnorm j = j"
| "jnorm_list [] = []"
| "jnorm_list (x # xs) = jnorm x # jnorm_list xs"
| "jnorm_items [] = []"
| "jnorm_items ((k, v) # kvs) = (k, jnorm v) # jnorm_items kvs"

text \<open>Values without floats: an integral float has the text of the integer (\<^verbatim>\<open>1.0\<close> is \<^verbatim>\<open>1\<close>).\<close>

fun float_free :: "json \<Rightarrow> bool"
  and float_free_list :: "json list \<Rightarrow> bool"
  and float_free_items :: "obj \<Rightarrow> bool" where
  "float_free (JFloat r) = False"
| "float_free (JArr xs) = float_free_list xs"
| "float_free (JObj kvs) = float_free_items kvs"
| "float_free j = True"
| "float_free_list [] = True"
| "float_free_list (x # xs) = (float_free x \<and> float_free_list xs)"
| "float_free_items [] = True"
| "float_free_items ((k, v) # kvs) = (float_free v \<and> float_free_items kvs)"

fun keys_distinct :: "json \<Rightarrow> bool" where
  "keys_distinct (JObj kvs) = distinct (map fst kvs)"
| "keys_distinct j = True"

fun compact :: "json \<Rightarrow> string"
  and compact_list :: "json list \<Rightarrow> string"
  and compact_items :: "obj \<Rightarrow> string" where
  "compact JNull = ''null''"
| "compact (JBool b) = (if b then ''true'' else ''false'')"
| "compact (JInt i) = int_str i"
| "compact (JFloat r) = number_to_string r"
| "compact (JStr s) = escape_string s"
| "compact (JArr xs) = CHR ''['' # compact_list xs"
| "compact (JObj kvs) = CHR ''{'' # compact_items kvs"
| "compact_list [] = '']''"
| "compact_list (x # xs) =
     compact x @ (case xs of [] \<Rightarrow> '']'' | _ \<Rightarrow> CHR '','' # compact_list xs)"
| "compact_items [] = ''}''"
| "compact_items ((k, v) # kvs) =
     escape_string k @ CHR '':'' # compact v @
       (case kvs of [] \<Rightarrow> ''}'' | _ \<Rightarrow> CHR '','' # compact_items kvs)"

section \<open>The serialiser is the compact text of the normal form\<close>

lemma compact_list_join: "compact_list xs = join '','' (map compact xs) @ '']''"
  by (induction xs rule: induct_list012) auto

lemma compact_items_join:
  "compact_items kvs = join '','' (map (\<lambda>(k, v). escape_string k @ '':'' @ compact v) kvs) @ ''}''"
  by (induction kvs rule: induct_list012) (auto split: list.splits)

lemma insort_key_map: "insort_key f (g x) (map g xs) = map g (insort_key (\<lambda>a. f (g a)) x xs)"
  by (induction xs) auto

lemma sort_key_map: "sort_key f (map g xs) = map g (sort_key (\<lambda>a. f (g a)) xs)"
  by (induction xs) (auto simp: insort_key_map)

lemma sort_items_map: "sort_key fst (map (\<lambda>p. (fst p, h (snd p))) kvs) = map (\<lambda>p. (fst p, h (snd p))) (sort_key fst kvs)"
  by (simp add: sort_key_map)

lemma serialize_compact:
  "float_free j \<Longrightarrow> serialize j = Inr (compact (jnorm j))"
  "float_free_list js \<Longrightarrow> serialize_list js = Inr (map compact (jnorm_list js))"
  "float_free_items kvs \<Longrightarrow> serialize_items kvs = Inr (map (\<lambda>p. (fst p, compact (snd p))) (jnorm_items kvs))"
  by (induction j and js and kvs rule: serialize_serialize_list_serialize_items.induct)
    (simp_all add: compact_list_join compact_items_join sort_items_map comp_def case_prod_unfold)

lemma float_free_items_iff: "float_free_items kvs \<longleftrightarrow> (\<forall>x \<in> set kvs. float_free (snd x))"
  by (induction kvs) auto

lemma float_free_jnorm:
  "float_free (jnorm j) = float_free j"
  "float_free_list (jnorm_list js) = float_free_list js"
  "float_free_items (jnorm_items kvs) = float_free_items kvs"
proof (induction j and js and kvs rule: jnorm_jnorm_list_jnorm_items.induct)
  case (2 kvs)
  then show ?case by (simp add: float_free_items_iff)
qed auto

section \<open>The compact text is unambiguous\<close>

lemma hexpad_inj: "m < 16 ^ w \<Longrightarrow> n < 16 ^ w \<Longrightarrow> hexpad w m = hexpad w n \<longleftrightarrow> m = n"
proof (induction w arbitrary: m n)
  case (Suc w)
  have q: "m div 16 < 16 ^ w" "n div 16 < 16 ^ w"
    using Suc.prems by (simp_all add: less_mult_imp_div_less)
  have "hexpad (Suc w) m = hexpad (Suc w) n \<longleftrightarrow> m div 16 = n div 16 \<and> m mod 16 = n mod 16"
    by (simp add: Suc.IH q hex_char_inj)
  then show ?case by (simp only: divmod_eq)
qed simp

lemma length_hexpad [simp]: "length (hexpad w n) = w"
  by (induction w n rule: hexpad.induct) auto

lemma esc_cases [case_names quote backslash control plain]:
  obtains "c = CHR 0x22" "esc c = [CHR 0x5C, CHR 0x22]"
    | "c = CHR 0x5C" "esc c = [CHR 0x5C, CHR 0x5C]"
    | "(of_char c :: nat) < 32" "c \<noteq> CHR 0x22" "c \<noteq> CHR 0x5C"
      "esc c = CHR 0x5C # CHR ''u'' # hexpad 4 (of_char c)"
    | "esc c = [c]" "c \<noteq> CHR 0x22" "c \<noteq> CHR 0x5C"
  unfolding esc_def by presburger

lemma esc_hex_inj:
  assumes "hexpad 4 (of_char c) = hexpad 4 (of_char d)" "(of_char c :: nat) < 32" "(of_char d :: nat) < 32"
  shows "c = d"
proof -
  have "(of_char c :: nat) = of_char d" using assms by (simp add: hexpad_inj)
  then show ?thesis by simp
qed

lemma esc_prefix: "esc c @ r = esc d @ s \<Longrightarrow> c = d \<and> r = s"
  by (cases c rule: esc_cases; cases d rule: esc_cases) (auto intro: esc_hex_inj)

lemma esc_not_quote: "esc c @ r \<noteq> CHR 0x22 # s"
  by (cases c rule: esc_cases) auto

lemma escape_prefix: "escape_string a @ r = escape_string b @ s \<Longrightarrow> a = b \<and> r = s"
proof (induction a arbitrary: b)
  case Nil
  then show ?case
    using esc_not_quote by (cases b) (auto simp: escape_string_def, metis append_Cons)
next
  case (Cons c a)
  show ?case
  proof (cases b)
    case Nil
    with Cons.prems esc_not_quote show ?thesis by (auto simp: escape_string_def)
  next
    case (Cons d b')
    with Cons.prems have "esc c @ (concat (map esc a) @ CHR 0x22 # r)
        = esc d @ (concat (map esc b') @ CHR 0x22 # s)"
      by (simp add: escape_string_def)
    from esc_prefix [OF this] Cons.IH [of b'] Cons show ?thesis
      by (simp add: escape_string_def)
  qed
qed

lemma escape_hd: "escape_string a @ r = CHR 0x22 # (concat (map esc a) @ CHR 0x22 # r)"
  by (simp add: escape_string_def)

text \<open>The first character tells the constructors apart.\<close>

fun lead :: "json \<Rightarrow> nat" where
  "lead JNull = 0" | "lead (JBool b) = (if b then 1 else 2)" | "lead (JInt i) = 3"
| "lead (JFloat r) = 4" | "lead (JStr s) = 5" | "lead (JArr xs) = 6" | "lead (JObj kvs) = 7"

definition lead_char :: "char \<Rightarrow> nat" where
  "lead_char c = (if c = CHR ''n'' then 0 else if c = CHR ''t'' then 1 else if c = CHR ''f'' then 2
     else if c = CHR 0x22 then 5 else if c = CHR ''['' then 6 else if c = CHR ''{'' then 7
     else if is_digit c \<or> c = CHR ''-'' then 3 else 8)"

lemma lead_char_digit: "is_digit c \<Longrightarrow> lead_char c = 3"
  by (auto simp: lead_char_def is_digit_def)

lemma int_str_hd: "\<exists>c cs. int_str i = c # cs \<and> lead_char c = 3"
proof (cases "i < 0")
  case True
  then show ?thesis by (simp add: int_str_def lead_char_def is_digit_def)
next
  case False
  with nat_str_hd [of "nat i"] show ?thesis by (auto simp: int_str_def lead_char_digit)
qed

lemma compact_hd: "float_free j \<Longrightarrow> \<exists>c cs. compact j = c # cs \<and> lead_char c = lead j"
proof (cases j)
  case (JInt i)
  then show ?thesis using int_str_hd [of i] by simp
qed (simp_all add: escape_string_def lead_char_def)

lemma compact_lead:
  assumes "compact v @ r = compact w @ s" "float_free v" "float_free w"
  shows "lead v = lead w"
  using compact_hd [OF assms(2)] compact_hd [OF assms(3)] assms(1) by auto

lemma compact_not_close:
  "float_free j \<Longrightarrow> compact j @ r \<noteq> CHR '']'' # s"
  using compact_hd [of j] by (cases j) (auto simp: lead_char_def is_digit_def)

lemma not_digit_delims [simp]:
  "\<not> is_digit CHR '']''" "\<not> is_digit CHR ''}''" "\<not> is_digit CHR '',''"
  by (simp_all add: is_digit_def)

lemma compact_prefix:
  "float_free v \<Longrightarrow> float_free w \<Longrightarrow> \<not> starts_digit r \<Longrightarrow> \<not> starts_digit s \<Longrightarrow>
     compact v @ r = compact w @ s \<Longrightarrow> v = w \<and> r = s"
  "float_free_list xs \<Longrightarrow> float_free_list ys \<Longrightarrow> compact_list xs @ r = compact_list ys @ s \<Longrightarrow>
     xs = ys \<and> r = s"
  "float_free_items kvs \<Longrightarrow> float_free_items lvs \<Longrightarrow> compact_items kvs @ r = compact_items lvs @ s \<Longrightarrow>
     kvs = lvs \<and> r = s"
proof (induction v and xs and kvs arbitrary: w r s and ys r s and lvs r s
    rule: compact_compact_list_compact_items.induct)
  case 1
  from compact_lead [OF "1.prems"(5,1,2)] have "w = JNull" by (cases w) (auto split: if_splits)
  with "1.prems" show ?case by simp
next
  case (2 b)
  from compact_lead [OF "2.prems"(5,1,2)] have "w = JBool b" by (cases w) (auto split: if_splits)
  with "2.prems" show ?case by simp
next
  case (3 i)
  from compact_lead [OF "3.prems"(5,1,2)] obtain j where "w = JInt j" by (cases w) (auto split: if_splits)
  with "3.prems" int_str_prefix [of i r j s] show ?case by simp
next
  case (5 a)
  from compact_lead [OF "5.prems"(5,1,2)] obtain b where "w = JStr b" by (cases w) (auto split: if_splits)
  with "5.prems" escape_prefix [of a r b s] show ?case by simp
next
  case (6 xs)
  from compact_lead [OF "6.prems"(5,1,2)] obtain ys where "w = JArr ys" by (cases w) (auto split: if_splits)
  with "6.prems" "6.IH" [of ys r s] show ?case by simp
next
  case (7 kvs)
  from compact_lead [OF "7.prems"(5,1,2)] obtain ys where "w = JObj ys" by (cases w) (auto split: if_splits)
  with "7.prems" "7.IH" [of ys r s] show ?case by simp
next
  case 8
  then show ?case using compact_not_close
    by (cases ys) (auto, metis append_assoc)
next
  case (9 x xs)
  show ?case
  proof (cases ys)
    case Nil
    with "9.prems" compact_not_close [of x] show ?thesis by auto
  next
    case (Cons y ys')
    define p where "p = (case xs of [] \<Rightarrow> '']'' | _ \<Rightarrow> CHR '','' # compact_list xs) @ r"
    define q where "q = (case ys' of [] \<Rightarrow> '']'' | _ \<Rightarrow> CHR '','' # compact_list ys') @ s"
    have eq: "compact x @ p = compact y @ q" using "9.prems"(3) Cons by (simp add: p_def q_def)
    have "\<not> starts_digit p" "\<not> starts_digit q" by (auto simp: p_def q_def split: list.splits)
    from "9.IH"(1) [OF _ _ this eq] "9.prems"(1,2) Cons have "x = y" "p = q" by auto
    moreover have "xs = ys' \<and> r = s"
    proof (cases xs)
      case Nil
      with \<open>p = q\<close> show ?thesis by (cases ys') (auto simp: p_def q_def)
    next
      case tail: (Cons z zs)
      with \<open>p = q\<close> obtain z' zs' where tail': "ys' = z' # zs'"
        by (cases ys') (auto simp: p_def q_def)
      have "compact_list xs @ r = compact_list ys' @ s"
        using \<open>p = q\<close> tail tail' by (simp add: p_def q_def del: compact_list.simps)
      from "9.IH"(2) [OF tail _ _ this] "9.prems"(1,2) Cons show ?thesis by simp
    qed
    ultimately show ?thesis using Cons by simp
  qed
next
  case 10
  then show ?case by (cases lvs) (auto simp: escape_string_def)
next
  case (11 k v kvs)
  show ?case
  proof (cases lvs)
    case Nil
    with "11.prems" show ?thesis by (auto simp: escape_string_def)
  next
    case (Cons l lvs')
    obtain k' v' where l: "l = (k', v')" by (cases l)
    define p where "p = (case kvs of [] \<Rightarrow> ''}'' | _ \<Rightarrow> CHR '','' # compact_items kvs) @ r"
    define q where "q = (case lvs' of [] \<Rightarrow> ''}'' | _ \<Rightarrow> CHR '','' # compact_items lvs') @ s"
    have "escape_string k @ (CHR '':'' # compact v @ p) = escape_string k' @ (CHR '':'' # compact v' @ q)"
      using "11.prems"(3) Cons l by (simp add: p_def q_def)
    from escape_prefix [OF this] have k: "k = k'" and eq: "compact v @ p = compact v' @ q" by auto
    have "\<not> starts_digit p" "\<not> starts_digit q" by (auto simp: p_def q_def split: list.splits)
    from "11.IH"(1) [OF _ _ this eq] "11.prems"(1,2) Cons l have "v = v'" "p = q" by auto
    moreover have "kvs = lvs' \<and> r = s"
    proof (cases kvs)
      case Nil
      with \<open>p = q\<close> show ?thesis by (cases lvs') (auto simp: p_def q_def)
    next
      case tail: (Cons z zs)
      with \<open>p = q\<close> obtain z' zs' where tail': "lvs' = z' # zs'"
        by (cases lvs') (auto simp: p_def q_def)
      have "compact_items kvs @ r = compact_items lvs' @ s"
        using \<open>p = q\<close> tail tail' by (simp add: p_def q_def del: compact_items.simps)
      from "11.IH"(2) [OF tail _ _ this] "11.prems"(1,2) Cons l show ?thesis by simp
    qed
    ultimately show ?thesis using Cons l k by simp
  qed
qed simp

section \<open>Digests identify requests\<close>

lemma compact_inj:
  assumes "float_free a" "float_free b"
  shows "compact a = compact b \<longleftrightarrow> a = b"
  using compact_prefix(1) [of a b "[]" "[]"] assms by auto

lemma canonical_json_Inr:
  assumes "float_free j" "keys_distinct j"
  shows "canonical_json j = Inr (compact (jnorm j))"
  using assms serialize_compact(1) [of j]
  by (cases j) (simp_all add: canonical_json_def check_duplicate_keys_def)

text \<open>
  C10. On JSON values without floats the canonical text is defined, and two values have the same canonical
  text exactly when they are the same up to the order of the keys of their objects: insertion
  order never matters, and nothing else is ever identified.
\<close>

theorem canonical_json_identifies:
  assumes "float_free a" "float_free b" "keys_distinct a" "keys_distinct b"
  shows "(canonical_json a = canonical_json b \<longleftrightarrow> jnorm a = jnorm b)
    \<and> (\<exists>text. canonical_json a = Inr text)"
proof -
  have "float_free (jnorm a)" "float_free (jnorm b)"
    using assms(1,2) by (simp_all add: float_free_jnorm)
  then show ?thesis
    using canonical_json_Inr [OF assms(1,3)] canonical_json_Inr [OF assms(2,4)]
    by (simp add: compact_inj)
qed

theorem canonical_json_identifies_witness:
  "(canonical_json (JObj [(''b'', JInt 1), (''a'', JNull)]) = canonical_json (JObj [(''a'', JNull), (''b'', JInt 1)])
    \<longleftrightarrow> jnorm (JObj [(''b'', JInt 1), (''a'', JNull)]) = jnorm (JObj [(''a'', JNull), (''b'', JInt 1)]))
   \<and> (\<exists>text. canonical_json (JObj [(''b'', JInt 1), (''a'', JNull)]) = Inr text)"
  by (rule canonical_json_identifies) simp_all

lemma jnorm_request_json:
  "jnorm (request_json m p k) =
     JObj [(''idempotency_key'', JStr k), (''method'', JStr m), (''payload'', JObj (sort_key fst (jnorm_items p)))]"
  by (simp add: request_json_def less_char_def)

lemma request_digest_Inr:
  assumes "float_free (JObj p)"
  shows "request_digest sha m p k = Inr (sha (compact (jnorm (request_json m p k))))"
proof -
  have "float_free (request_json m p k)" "keys_distinct (request_json m p k)"
    using assms by (simp_all add: request_json_def)
  then show ?thesis by (simp add: request_digest_def canonical_json_Inr)
qed

text \<open>
  C11. The digest of a request stands for the request: where the hash does not collide on the two
  canonical texts, equal digests mean the same method, the same idempotency key and the same
  payload up to the order of the keys.
\<close>

theorem request_digest_binds:
  assumes "float_free (JObj p)" "float_free (JObj q)"
    and "request_digest sha m p k = request_digest sha n q l"
    and "\<And>s t. canonical_json (request_json m p k) = Inr s \<Longrightarrow>
      canonical_json (request_json n q l) = Inr t \<Longrightarrow> sha s = sha t \<Longrightarrow> s = t"
  shows "m = n \<and> k = l \<and> jnorm (JObj p) = jnorm (JObj q)"
proof -
  have f: "float_free (request_json m p k)" "float_free (request_json n q l)"
    and d: "keys_distinct (request_json m p k)" "keys_distinct (request_json n q l)"
    using assms(1,2) by (simp_all add: request_json_def)
  then have "float_free (jnorm (request_json m p k))" "float_free (jnorm (request_json n q l))"
    by (simp_all only: float_free_jnorm)
  moreover have "compact (jnorm (request_json m p k)) = compact (jnorm (request_json n q l))"
    using assms(3,4) canonical_json_Inr [OF f(1) d(1)] canonical_json_Inr [OF f(2) d(2)]
    by (simp add: request_digest_Inr [OF assms(1)] request_digest_Inr [OF assms(2)])
  ultimately have "jnorm (request_json m p k) = jnorm (request_json n q l)"
    by (simp only: compact_inj)
  then show ?thesis by (simp add: jnorm_request_json)
qed

theorem request_digest_binds_witness:
  "''job.stop'' = ''job.stop'' \<and> ''k'' = ''k''
   \<and> jnorm (JObj [(''a'', JNull), (''b'', JNull)]) = jnorm (JObj [(''b'', JNull), (''a'', JNull)])"
  by (rule request_digest_binds [where sha = id])
    (simp_all add: request_digest_Inr jnorm_request_json less_char_def)

end
