(* ===== verification/Protocol.thy ===== *)
theory Protocol
  imports CanonicalJson
begin

text \<open>
  Validation of the frames and requests of the remote protocol (\<^verbatim>\<open>src/vanth/remote/protocol.py\<close>).
  A check returns \<open>Inr ()\<close> or the error it raises: \<open>Proto c\<close> for
  \<^verbatim>\<open>VanthRemoteProtocolError(c)\<close>, \<open>TypeErr\<close> for the \<^verbatim>\<open>TypeError\<close> that Python raises when an unhashable
  value (a list or a dict) is looked up in a set.  The messages are not modelled, only the
  registry codes, in the order of the code's checks.
\<close>

section \<open>Constants\<close>

datatype perr = Proto code | TypeErr

definition FRAME_KINDS :: "string list" where
  "FRAME_KINDS = [''hello'', ''request'', ''response'', ''error'', ''snapshot'', ''log_range'']"

definition DEFAULT_MAX_FRAME_BYTES :: int where
  "DEFAULT_MAX_FRAME_BYTES = 8 * 1024 * 1024"

definition VALID_REQUEST_METHODS :: "string list" where
  "VALID_REQUEST_METHODS =
     [''job.start'', ''job.stop'', ''job.rerun'', ''job.status'', ''job.snapshot'', ''job.log_range'',
      ''job.feed'', ''job.events'', ''artifact.transfer_init'', ''artifact.blob_chunk'',
      ''artifact.transfer_complete'']"

definition TRANSFER_DIRECTIONS :: "string list" where
  "TRANSFER_DIRECTIONS = [''pull'', ''push'']"

definition TRANSFER_INIT_ALLOWED :: "string list" where
  "TRANSFER_INIT_ALLOWED =
     [''transfer_id'', ''direction'', ''root_name'', ''manifest_digest'', ''total_bytes'', ''sha256'', ''version_id'']"

definition BLOB_CHUNK_ALLOWED :: "string list" where
  "BLOB_CHUNK_ALLOWED = [''transfer_id'', ''offset'', ''data_b64'', ''sha256'', ''size'']"

definition TRANSFER_COMPLETE_ALLOWED :: "string list" where
  "TRANSFER_COMPLETE_ALLOWED =
     [''transfer_id'', ''root_name'', ''manifest_digest'', ''total_bytes'', ''sha256'', ''version_id'']"

definition START_OPTIONAL_FIELDS :: "string list" where
  "START_OPTIONAL_FIELDS =
     [''command'', ''cwd'', ''name'', ''env'', ''timeout_seconds'', ''notify_on'', ''wake_targets'',
      ''origin_thread_id'', ''tags'', ''notes'', ''interactive'', ''trigger'', ''policy'']"

definition STOP_OPTIONAL_FIELDS :: "string list" where
  "STOP_OPTIONAL_FIELDS = [''signal'', ''kill_after_seconds'']"

definition RERUN_OPTIONAL_FIELDS :: "string list" where
  "RERUN_OPTIONAL_FIELDS =
     [''command'', ''env'', ''timeout_seconds'', ''name'', ''tags'', ''notes'', ''cwd'', ''interactive'']"

definition LOG_RANGE_ALLOWED :: "string list" where
  "LOG_RANGE_ALLOWED = [''remote_job_id'', ''stream'', ''offset'', ''size'']"

definition FEED_ALLOWED :: "string list" where
  "FEED_ALLOWED = [''cursor'', ''limit'', ''wait_ms'']"

definition EVENTS_ALLOWED :: "string list" where
  "EVENTS_ALLOWED = [''cursors'', ''limit'']"

definition FEED_DEFAULT_LIMIT :: int where "FEED_DEFAULT_LIMIT = 100"
definition FEED_MAX_LIMIT :: int where "FEED_MAX_LIMIT = 500"
definition FEED_MAX_WAIT_MS :: int where "FEED_MAX_WAIT_MS = 10000"
definition EVENTS_DEFAULT_LIMIT :: int where "EVENTS_DEFAULT_LIMIT = 200"
definition EVENTS_MAX_LIMIT :: int where "EVENTS_MAX_LIMIT = 500"
definition EVENTS_MAX_JOBS :: nat where "EVENTS_MAX_JOBS = 50"

text \<open>\<open>FRAME_SCHEMAS\<close>: the allowed and the required fields of each kind.\<close>

fun frame_schema :: "string \<Rightarrow> string list \<times> string list" where
  "frame_schema kind =
     (if kind = ''hello'' then
        ([''version'', ''kind'', ''protocol'', ''agent'', ''remote_id'', ''state_epoch'', ''instance_id'', ''sent_at''],
         [''version'', ''kind'', ''protocol''])
      else if kind = ''request'' then
        ([''version'', ''kind'', ''request_id'', ''idempotency_key'', ''method'', ''payload'', ''digest'',
          ''expected_state_epoch'', ''expected_instance_id'', ''sent_at''],
         [''version'', ''kind'', ''method'', ''payload'', ''idempotency_key''])
      else if kind = ''response'' then
        ([''version'', ''kind'', ''request_id'', ''method'', ''result'', ''sent_at''],
         [''version'', ''kind'', ''method''])
      else if kind = ''error'' then
        ([''version'', ''kind'', ''request_id'', ''method'', ''code'', ''message'', ''sent_at''],
         [''version'', ''kind'', ''code'', ''message''])
      else if kind = ''snapshot'' then
        ([''version'', ''kind'', ''state_epoch'', ''cursor'', ''jobs'', ''events'', ''has_more'',
          ''feed_epoch'', ''feed_boundary_seq'', ''sent_at''],
         [''version'', ''kind'', ''state_epoch'', ''cursor'', ''jobs''])
      else
        ([''version'', ''kind'', ''remote_job_id'', ''stream'', ''offset'', ''size'', ''content'', ''truncated'', ''sent_at''],
         [''version'', ''kind'', ''remote_job_id'', ''stream'', ''offset'', ''content'']))"

section \<open>Field checks\<close>

definition invalid :: "perr" where "invalid = Proto INVALID_REQUEST"
definition malformed :: "perr" where "malformed = Proto PROTOCOL_MALFORMED"

definition is_key_char :: "char \<Rightarrow> bool" where
  "is_key_char c = (is_alnum c \<or> c = CHR ''_'' \<or> c = CHR ''-'')"

definition idempotency_key_re :: "string \<Rightarrow> bool" where
  "idempotency_key_re s = re_match_dollar is_key_char 8 128 s"

definition hex64 :: "string \<Rightarrow> bool" where
  "hex64 s = re_fullmatch is_lower_hex 64 64 s"

definition transfer_id_re :: "string \<Rightarrow> bool" where
  "transfer_id_re s = (take 4 s = ''xfr_'' \<and> re_fullmatch is_lower_hex 32 32 (drop 4 s))"

definition check_required_and_unknown :: "json \<Rightarrow> string list \<Rightarrow> string list \<Rightarrow> perr + unit" where
  "check_required_and_unknown payload required allowed =
     (case payload of
        JObj d \<Rightarrow>
          ebind (ensure (list_all (has_key d) required) invalid) (\<lambda>_.
          ensure (list_all (\<lambda>k. k \<in> set allowed) (map fst d)) (Proto PROTOCOL_UNKNOWN_FIELD))
      | _ \<Rightarrow> Inl invalid)"

definition check_string_field :: "obj \<Rightarrow> string \<Rightarrow> bool \<Rightarrow> perr + unit" where
  "check_string_field payload key required =
     (case dget payload key of
        JNull \<Rightarrow> ensure (\<not> required) invalid
      | JStr s \<Rightarrow>
          ebind (ensure (key = ''idempotency_key'' \<longrightarrow> idempotency_key_re s) invalid) (\<lambda>_.
          ensure (key = ''command'' \<longrightarrow> \<not> blank s) invalid)
      | _ \<Rightarrow> Inl invalid)"

definition check_numeric_field :: "obj \<Rightarrow> string \<Rightarrow> int \<Rightarrow> bool \<Rightarrow> perr + unit" where
  "check_numeric_field payload key minimum required =
     (case dget payload key of
        JNull \<Rightarrow> ensure (\<not> required) invalid
      | JInt i \<Rightarrow> ensure (minimum \<le> i) invalid
      | _ \<Rightarrow> Inl invalid)"

definition check_object_field :: "obj \<Rightarrow> string \<Rightarrow> perr + unit" where
  "check_object_field payload key =
     (case dget payload key of
        JNull \<Rightarrow> Inr ()
      | JObj d \<Rightarrow> efor d (\<lambda>(k, v). ensure (is_str v) invalid)
      | _ \<Rightarrow> Inl invalid)"

definition check_string_array_field :: "obj \<Rightarrow> string \<Rightarrow> perr + unit" where
  "check_string_array_field payload key =
     (case dget payload key of
        JNull \<Rightarrow> Inr ()
      | JArr xs \<Rightarrow> ensure (list_all is_str xs) invalid
      | _ \<Rightarrow> Inl invalid)"

definition check_object_array_field :: "obj \<Rightarrow> string \<Rightarrow> perr + unit" where
  "check_object_array_field payload key =
     (case dget payload key of
        JNull \<Rightarrow> Inr ()
      | JArr xs \<Rightarrow> ensure (list_all is_obj xs) invalid
      | _ \<Rightarrow> Inl invalid)"

definition check_boolean_field :: "obj \<Rightarrow> string \<Rightarrow> perr + unit" where
  "check_boolean_field payload key =
     (case dget payload key of
        JNull \<Rightarrow> Inr ()
      | JBool b \<Rightarrow> Inr ()
      | _ \<Rightarrow> Inl invalid)"

definition check_hex64_field :: "obj \<Rightarrow> string \<Rightarrow> bool \<Rightarrow> perr + unit" where
  "check_hex64_field payload key required =
     (case dget payload key of
        JNull \<Rightarrow> ensure (\<not> required) invalid
      | JStr s \<Rightarrow> ensure (hex64 s) invalid
      | _ \<Rightarrow> Inl invalid)"

text \<open>\<^verbatim>\<open>payload.get(k) or default\<close>, where the field is known to be an integer or \<^verbatim>\<open>None\<close>.\<close>

definition int_or :: "obj \<Rightarrow> string \<Rightarrow> int \<Rightarrow> int" where
  "int_or d k dflt = (case dget d k of JInt i \<Rightarrow> if i = 0 then dflt else i | _ \<Rightarrow> dflt)"

fun seq :: "(perr + unit) list \<Rightarrow> perr + unit" where
  "seq [] = Inr ()"
| "seq (c # cs) = ebind c (\<lambda>_. seq cs)"

section \<open>The payload of each method\<close>

definition validate_job_start :: "obj \<Rightarrow> perr + unit" where
  "validate_job_start payload = seq
     ([check_required_and_unknown (JObj payload) [''command''] START_OPTIONAL_FIELDS,
       check_string_field payload ''command'' False]
      @ map (\<lambda>f. check_string_field payload f False) [''cwd'', ''name'', ''notes'', ''origin_thread_id'']
      @ [check_object_field payload ''env'',
         check_numeric_field payload ''timeout_seconds'' 1 False,
         check_string_array_field payload ''notify_on'',
         check_object_array_field payload ''wake_targets'',
         check_string_array_field payload ''tags'',
         check_boolean_field payload ''interactive'',
         ensure (has_key payload ''trigger'' \<longrightarrow> is_obj (dget payload ''trigger'')) invalid,
         ensure (has_key payload ''policy'' \<longrightarrow> is_obj (dget payload ''policy'')) invalid])"

definition validate_job_stop :: "obj \<Rightarrow> perr + unit" where
  "validate_job_stop payload = seq
     [check_required_and_unknown (JObj payload) [''job_id''] (''job_id'' # STOP_OPTIONAL_FIELDS),
      check_string_field payload ''job_id'' True,
      ensure (case dget payload ''signal'' of JNull \<Rightarrow> True
              | JStr s \<Rightarrow> s = ''terminate'' \<or> s = ''kill'' | _ \<Rightarrow> False) invalid,
      check_numeric_field payload ''kill_after_seconds'' 1 False]"

definition validate_job_rerun :: "obj \<Rightarrow> perr + unit" where
  "validate_job_rerun payload = seq
     ([check_required_and_unknown (JObj payload) [''job_id''] (''job_id'' # RERUN_OPTIONAL_FIELDS),
       check_string_field payload ''job_id'' True]
      @ map (\<lambda>f. check_string_field payload f False) [''command'', ''name'', ''notes'', ''cwd'']
      @ [check_object_field payload ''env'',
         check_numeric_field payload ''timeout_seconds'' 1 False,
         check_string_array_field payload ''tags'',
         check_boolean_field payload ''interactive''])"

definition validate_job_status :: "obj \<Rightarrow> perr + unit" where
  "validate_job_status payload = seq
     [check_required_and_unknown (JObj payload) [''job_id''] [''job_id''],
      check_string_field payload ''job_id'' True]"

definition none_or_obj :: "obj \<Rightarrow> string \<Rightarrow> bool" where
  "none_or_obj d k = (dget d k = JNull \<or> is_obj (dget d k))"

definition validate_job_snapshot :: "obj \<Rightarrow> perr + unit" where
  "validate_job_snapshot payload = seq
     [check_required_and_unknown (JObj payload) [] [''cursor''],
      ensure (none_or_obj payload ''cursor'') invalid]"

definition validate_job_feed :: "obj \<Rightarrow> perr + unit" where
  "validate_job_feed payload = seq
     [check_required_and_unknown (JObj payload) [] FEED_ALLOWED,
      ensure (none_or_obj payload ''cursor'') invalid,
      check_numeric_field payload ''limit'' 1 False,
      ensure (int_or payload ''limit'' FEED_DEFAULT_LIMIT \<le> FEED_MAX_LIMIT) invalid,
      check_numeric_field payload ''wait_ms'' 0 False,
      ensure (int_or payload ''wait_ms'' 0 \<le> FEED_MAX_WAIT_MS) invalid]"

definition event_cursor_ok :: "json \<Rightarrow> bool" where
  "event_cursor_ok since = (case since of JNull \<Rightarrow> True | JInt i \<Rightarrow> 0 \<le> i | _ \<Rightarrow> False)"

definition validate_job_events :: "obj \<Rightarrow> perr + unit" where
  "validate_job_events payload = seq
     [check_required_and_unknown (JObj payload) [''cursors''] EVENTS_ALLOWED,
      (case dget payload ''cursors'' of
         JObj d \<Rightarrow> seq
           [ensure (d \<noteq> []) invalid,
            ensure (length d \<le> EVENTS_MAX_JOBS) invalid,
            efor d (\<lambda>(job_id, since).
              ebind (ensure (job_id \<noteq> []) invalid) (\<lambda>_. ensure (event_cursor_ok since) invalid))]
       | _ \<Rightarrow> Inl invalid),
      check_numeric_field payload ''limit'' 1 False,
      ensure (int_or payload ''limit'' EVENTS_DEFAULT_LIMIT \<le> EVENTS_MAX_LIMIT) invalid]"

definition nonneg_or_none :: "json \<Rightarrow> bool" where
  "nonneg_or_none v = (case v of JNull \<Rightarrow> True | JInt i \<Rightarrow> 0 \<le> i | _ \<Rightarrow> False)"

definition validate_job_log_range :: "obj \<Rightarrow> perr + unit" where
  "validate_job_log_range payload = seq
     ([check_required_and_unknown (JObj payload) [''remote_job_id''] LOG_RANGE_ALLOWED,
       check_string_field payload ''remote_job_id'' True,
       ensure (case dget payload ''stream'' of JNull \<Rightarrow> True
               | JStr s \<Rightarrow> s = ''stdout'' \<or> s = ''stderr'' | _ \<Rightarrow> False) invalid]
      @ map (\<lambda>k. ensure (nonneg_or_none (dget payload k)) invalid) [''offset'', ''size'']
      @ [ensure (case dget payload ''size'' of JInt i \<Rightarrow> i \<le> DEFAULT_MAX_FRAME_BYTES div 2 | _ \<Rightarrow> True) invalid])"

definition transfer_id_check :: "obj \<Rightarrow> perr + unit" where
  "transfer_id_check payload =
     ensure (case dget payload ''transfer_id'' of JStr s \<Rightarrow> transfer_id_re s | _ \<Rightarrow> True) invalid"

definition printable_check :: "obj \<Rightarrow> string \<Rightarrow> perr + unit" where
  "printable_check payload field =
     ensure (case dget payload field of
        JStr s \<Rightarrow> \<not> blank s \<and> list_all (\<lambda>c. 32 \<le> (of_char c :: nat)) s | _ \<Rightarrow> True) invalid"

definition direction_check :: "json \<Rightarrow> perr + unit" where
  "direction_check direction =
     (case direction of
        JStr s \<Rightarrow> ensure (s \<in> set TRANSFER_DIRECTIONS) invalid
      | JArr xs \<Rightarrow> Inl TypeErr
      | JObj d \<Rightarrow> Inl TypeErr
      | _ \<Rightarrow> Inl invalid)"

definition validate_transfer_init :: "obj \<Rightarrow> perr + unit" where
  "validate_transfer_init payload =
     (let direction = dget payload ''direction'';
        push_required = [''transfer_id'', ''direction'', ''root_name'', ''manifest_digest'', ''total_bytes'', ''sha256''];
        pull_required = [''transfer_id'', ''direction'', ''version_id''];
        required = (if direction = JStr ''pull'' then pull_required else push_required)
      in seq
        ([direction_check direction,
          check_required_and_unknown (JObj payload) required TRANSFER_INIT_ALLOWED]
         @ concat (map (\<lambda>f. [check_string_field payload f False, printable_check payload f])
             [''transfer_id'', ''root_name'', ''manifest_digest''])
         @ [check_string_field payload ''version_id'' False,
            check_numeric_field payload ''total_bytes'' 0 False,
            check_hex64_field payload ''sha256'' False,
            transfer_id_check payload]))"

definition validate_blob_chunk :: "obj \<Rightarrow> perr + unit" where
  "validate_blob_chunk payload = seq
     [check_required_and_unknown (JObj payload) [''transfer_id'', ''offset''] BLOB_CHUNK_ALLOWED,
      check_string_field payload ''transfer_id'' False,
      transfer_id_check payload,
      check_numeric_field payload ''offset'' 0 False,
      ensure (case dget payload ''size'' of JNull \<Rightarrow> True
              | JInt i \<Rightarrow> 1 \<le> i \<and> i \<le> 4 * 1024 * 1024 | _ \<Rightarrow> False) invalid,
      ensure (case dget payload ''data_b64'' of JStr s \<Rightarrow> int (pylen s) \<le> 8 * 1024 * 1024 | _ \<Rightarrow> True)
        (Proto PROTOCOL_OVERSIZED),
      check_string_field payload ''data_b64'' False,
      check_hex64_field payload ''sha256'' False]"

definition validate_transfer_complete :: "obj \<Rightarrow> perr + unit" where
  "validate_transfer_complete payload = seq
     [check_required_and_unknown (JObj payload)
        [''transfer_id'', ''root_name'', ''manifest_digest'', ''total_bytes'', ''sha256''] TRANSFER_COMPLETE_ALLOWED,
      check_string_field payload ''transfer_id'' False,
      transfer_id_check payload,
      check_hex64_field payload ''sha256'' False,
      check_string_field payload ''root_name'' False,
      check_string_field payload ''manifest_digest'' False,
      check_numeric_field payload ''total_bytes'' 0 False,
      check_string_field payload ''version_id'' False]"

definition validate_request :: "string \<Rightarrow> obj \<Rightarrow> perr + unit" where
  "validate_request method payload =
     ebind (ensure (method \<in> set VALID_REQUEST_METHODS) (Proto UNSUPPORTED_FEATURE)) (\<lambda>_.
       if method = ''job.start'' then validate_job_start payload
       else if method = ''job.stop'' then validate_job_stop payload
       else if method = ''job.rerun'' then validate_job_rerun payload
       else if method = ''job.status'' then validate_job_status payload
       else if method = ''job.snapshot'' then validate_job_snapshot payload
       else if method = ''job.feed'' then validate_job_feed payload
       else if method = ''job.events'' then validate_job_events payload
       else if method = ''job.log_range'' then validate_job_log_range payload
       else if method = ''artifact.transfer_init'' then validate_transfer_init payload
       else if method = ''artifact.blob_chunk'' then validate_blob_chunk payload
       else if method = ''artifact.transfer_complete'' then validate_transfer_complete payload
       else Inr ())"

section \<open>Frames\<close>

definition proto :: "code + 'a \<Rightarrow> perr + 'a" where
  "proto r = (case r of Inl c \<Rightarrow> Inl (Proto c) | Inr a \<Rightarrow> Inr a)"

definition opt_field :: "obj \<Rightarrow> string \<Rightarrow> (json \<Rightarrow> bool) \<Rightarrow> perr + unit" where
  "opt_field d k ok = ensure (has_key d k \<longrightarrow> ok (dget d k)) malformed"

definition validate_request_frame :: "(string \<Rightarrow> string) \<Rightarrow> obj \<Rightarrow> perr + unit" where
  "validate_request_frame sha frame =
     (case dget frame ''method'' of
        JStr method \<Rightarrow>
          ebind (ensure (method \<in> set VALID_REQUEST_METHODS) (Proto UNSUPPORTED_FEATURE)) (\<lambda>_.
          (case dget frame ''idempotency_key'' of
             JStr key \<Rightarrow>
               ebind (ensure (idempotency_key_re key) invalid) (\<lambda>_.
               (case dget frame ''payload'' of
                  JObj payload \<Rightarrow>
                    ebind (proto (check_duplicate_keys payload)) (\<lambda>_.
                    ebind (validate_request method payload) (\<lambda>_.
                    (case dget frame ''digest'' of
                       JNull \<Rightarrow> Inr ()
                     | JStr digest \<Rightarrow>
                         ebind (ensure (hex64 digest) malformed) (\<lambda>_.
                         ebind (proto (request_digest sha method payload key)) (\<lambda>expected.
                         ensure (digest = expected) (Proto PROTOCOL_REPLAY_MISMATCH)))
                     | _ \<Rightarrow> Inl malformed)))
                | _ \<Rightarrow> Inl invalid))
           | _ \<Rightarrow> Inl invalid))
      | _ \<Rightarrow> Inl malformed)"

definition validate_error_frame :: "obj \<Rightarrow> perr + unit" where
  "validate_error_frame frame =
     (case dget frame ''code'' of
        JStr c \<Rightarrow> ensure (c \<in> set (map registry_name ERROR_REGISTRY)) malformed
      | _ \<Rightarrow> Inl malformed)"

definition frame_fields_ok :: "obj \<Rightarrow> perr + unit" where
  "frame_fields_ok frame = seq
     ([(case dget frame ''version'' of
          JStr v \<Rightarrow> ensure (v = ''1'') (Proto UNSUPPORTED_FEATURE)
        | _ \<Rightarrow> Inl malformed),
       ensure (dget frame ''sent_at'' = JNull \<or> is_str (dget frame ''sent_at'')) malformed]
      @ map (\<lambda>k. opt_field frame k is_str)
          [''request_id'', ''remote_id'', ''agent'', ''stream'', ''remote_job_id'', ''instance_id'', ''expected_instance_id'']
      @ [opt_field frame ''state_epoch'' is_int]
      @ map (\<lambda>k. opt_field frame k is_int) [''feed_epoch'', ''feed_boundary_seq'']
      @ [opt_field frame ''expected_state_epoch'' (\<lambda>v. case v of JInt i \<Rightarrow> 1 \<le> i | _ \<Rightarrow> False),
         opt_field frame ''cursor'' is_obj]
      @ map (\<lambda>k. opt_field frame k is_bool) [''has_more'', ''truncated'']
      @ map (\<lambda>k. opt_field frame k is_int) [''offset'', ''size'']
      @ [opt_field frame ''jobs'' is_arr, opt_field frame ''events'' is_arr])"

definition validate_frame :: "(string \<Rightarrow> string) \<Rightarrow> json \<Rightarrow> perr + json" where
  "validate_frame sha j =
     (case j of
        JObj frame \<Rightarrow>
          ebind (proto (check_duplicate_keys frame)) (\<lambda>_.
          (case dget frame ''kind'' of
             JStr kind \<Rightarrow>
               ebind (ensure (kind \<in> set FRAME_KINDS) (Proto PROTOCOL_UNKNOWN_KIND)) (\<lambda>_.
               ebind (ensure (list_all (\<lambda>k. k \<in> set (fst (frame_schema kind))) (map fst frame))
                        (Proto PROTOCOL_UNKNOWN_FIELD)) (\<lambda>_.
               ebind (ensure (list_all (has_key frame) (snd (frame_schema kind))) malformed) (\<lambda>_.
               ebind (frame_fields_ok frame) (\<lambda>_.
               ebind (if kind = ''request'' then validate_request_frame sha frame
                      else if kind = ''error'' then validate_error_frame frame
                      else Inr ()) (\<lambda>_. Inr j)))))
           | _ \<Rightarrow> Inl (Proto PROTOCOL_UNKNOWN_KIND)))
      | _ \<Rightarrow> Inl malformed)"

section \<open>What the checks establish\<close>

named_theorems check_simps \<open>the checks that pass, as conditions\<close>

lemma seq_Inr_iff [check_simps]: "seq cs = Inr u \<longleftrightarrow> (\<forall>c \<in> set cs. c = Inr ())"
  by (induction cs) (auto simp: err_simps)

lemma seq_Inl_mem: "seq cs = Inl e \<Longrightarrow> Inl e \<in> set cs"
  by (induction cs) (auto simp: err_simps)

lemma check_required_and_unknown_Inr [check_simps]:
  "check_required_and_unknown (JObj d) required allowed = Inr u \<longleftrightarrow>
     (\<forall>k \<in> set required. has_key d k) \<and> fst ` set d \<subseteq> set allowed"
  by (auto simp: check_required_and_unknown_def err_simps list_all_iff)

lemma check_numeric_field_Inr [check_simps]:
  "check_numeric_field d k m r = Inr u \<longleftrightarrow>
     dget d k = JNull \<and> \<not> r \<or> (\<exists>i. dget d k = JInt i \<and> m \<le> i)"
  by (auto simp: check_numeric_field_def split: json.splits)

lemma check_string_field_Inr [check_simps]:
  "check_string_field d k r = Inr u \<longleftrightarrow>
     dget d k = JNull \<and> \<not> r
     \<or> (\<exists>s. dget d k = JStr s \<and> (k = ''idempotency_key'' \<longrightarrow> idempotency_key_re s) \<and> (k = ''command'' \<longrightarrow> \<not> blank s))"
  by (auto simp: check_string_field_def err_simps split: json.splits)

lemma check_hex64_field_Inr [check_simps]:
  "check_hex64_field d k r = Inr u \<longleftrightarrow>
     dget d k = JNull \<and> \<not> r \<or> (\<exists>s. dget d k = JStr s \<and> hex64 s)"
  by (auto simp: check_hex64_field_def split: json.splits)

lemma transfer_id_check_Inr [check_simps]:
  "transfer_id_check d = Inr u \<longleftrightarrow> (\<forall>s. dget d ''transfer_id'' = JStr s \<longrightarrow> transfer_id_re s)"
  by (auto simp: transfer_id_check_def split: json.splits)

lemma direction_check_Inr [check_simps]:
  "direction_check j = Inr u \<longleftrightarrow> j = JStr ''pull'' \<or> j = JStr ''push''"
  by (auto simp: direction_check_def TRANSFER_DIRECTIONS_def split: json.splits)

lemma efor_Inl_mem: "efor xs f = Inl e \<Longrightarrow> \<exists>x \<in> set xs. f x = Inl e"
  by (induction xs) (auto simp: err_simps)

text \<open>None of the field checks raises a \<^verbatim>\<open>TypeError\<close>.\<close>

lemma invalid_not_type [simp]: "invalid \<noteq> TypeErr" "TypeErr \<noteq> invalid"
  by (simp_all add: invalid_def)

lemma ensure_no_type [simp]: "ensure b (Proto c) \<noteq> Inl TypeErr" "ensure b invalid \<noteq> Inl TypeErr"
  by (auto simp: ensure_def invalid_def)

lemma checks_no_type [simp]:
  "check_required_and_unknown p req al \<noteq> Inl TypeErr"
  "check_string_field d k r \<noteq> Inl TypeErr"
  "check_numeric_field d k m r \<noteq> Inl TypeErr"
  "check_object_field d k \<noteq> Inl TypeErr"
  "check_string_array_field d k \<noteq> Inl TypeErr"
  "check_object_array_field d k \<noteq> Inl TypeErr"
  "check_boolean_field d k \<noteq> Inl TypeErr"
  "check_hex64_field d k r \<noteq> Inl TypeErr"
  "transfer_id_check d \<noteq> Inl TypeErr"
  "printable_check d k \<noteq> Inl TypeErr"
  by (auto simp: check_required_and_unknown_def check_string_field_def check_numeric_field_def
      check_object_field_def check_string_array_field_def check_object_array_field_def
      check_boolean_field_def check_hex64_field_def transfer_id_check_def printable_check_def err_simps
      split: json.splits dest: efor_Inl_mem)

lemma seq_no_type: "list_all (\<lambda>c. c \<noteq> Inl TypeErr) cs \<Longrightarrow> seq cs \<noteq> Inl TypeErr"
  by (auto dest: seq_Inl_mem simp: list_all_iff)

lemma event_items_no_type [simp]:
  "efor d (\<lambda>(job_id, since). ebind (ensure (job_id \<noteq> []) invalid)
     (\<lambda>_. ensure (event_cursor_ok since) invalid)) \<noteq> Inl TypeErr"
  by (auto dest!: efor_Inl_mem simp: err_simps)

lemma events_payload_no_type [simp]:
  "(case j of JObj d \<Rightarrow> seq
       [ensure (d \<noteq> []) invalid, ensure (length d \<le> EVENTS_MAX_JOBS) invalid,
        efor d (\<lambda>(job_id, since).
          ebind (ensure (job_id \<noteq> []) invalid) (\<lambda>_. ensure (event_cursor_ok since) invalid))]
    | _ \<Rightarrow> Inl invalid) \<noteq> Inl TypeErr"
  by (cases j) (simp_all add: seq_no_type del: seq.simps)

lemmas method_defs = validate_job_start_def validate_job_stop_def validate_job_rerun_def
  validate_job_status_def validate_job_snapshot_def validate_job_feed_def validate_job_events_def
  validate_job_log_range_def validate_blob_chunk_def validate_transfer_complete_def

lemma methods_no_type [simp]:
  "validate_job_start d \<noteq> Inl TypeErr" "validate_job_stop d \<noteq> Inl TypeErr"
  "validate_job_rerun d \<noteq> Inl TypeErr" "validate_job_status d \<noteq> Inl TypeErr"
  "validate_job_snapshot d \<noteq> Inl TypeErr" "validate_job_feed d \<noteq> Inl TypeErr"
  "validate_job_events d \<noteq> Inl TypeErr" "validate_job_log_range d \<noteq> Inl TypeErr"
  "validate_blob_chunk d \<noteq> Inl TypeErr" "validate_transfer_complete d \<noteq> Inl TypeErr"
  unfolding method_defs by (rule seq_no_type; simp del: seq.simps)+

lemma transfer_init_type:
  "validate_transfer_init d = Inl TypeErr \<longleftrightarrow> is_arr (dget d ''direction'') \<or> is_obj (dget d ''direction'')"
proof -
  have d: "direction_check j = Inl TypeErr \<longleftrightarrow> is_arr j \<or> is_obj j" for j
    by (cases j) (simp_all add: direction_check_def)
  have "seq (direction_check (dget d ''direction'') # cs) = Inl TypeErr \<longleftrightarrow>
      is_arr (dget d ''direction'') \<or> is_obj (dget d ''direction'')"
    if "list_all (\<lambda>c. c \<noteq> Inl TypeErr) cs" for cs
    using seq_no_type [OF that] by (auto simp: err_simps d)
  then show ?thesis
    unfolding validate_transfer_init_def Let_def by (simp del: seq.simps)
qed

text \<open>
  Validation of a request ends in acceptance or in an error of the registry, with one exception: an
  \<^verbatim>\<open>artifact.transfer_init\<close> whose direction is a JSON array or object, which Python refuses to look
  up in a set (\<^verbatim>\<open>TypeError\<close>).
\<close>

theorem validate_request_type_error_iff:
  "validate_request method payload = Inl TypeErr \<longleftrightarrow>
     method = ''artifact.transfer_init''
     \<and> (is_arr (dget payload ''direction'') \<or> is_obj (dget payload ''direction''))"
  by (auto simp: validate_request_def err_simps transfer_init_type VALID_REQUEST_METHODS_def)

section \<open>Accepted requests\<close>

lemma validate_request_method:
  "validate_request m p = Inr u \<Longrightarrow> m \<in> set VALID_REQUEST_METHODS"
  by (auto simp: validate_request_def err_simps)

lemma validate_request_eqs:
  "validate_request ''job.feed'' p = validate_job_feed p"
  "validate_request ''job.events'' p = validate_job_events p"
  "validate_request ''job.log_range'' p = validate_job_log_range p"
  "validate_request ''artifact.blob_chunk'' p = validate_blob_chunk p"
  "validate_request ''artifact.transfer_init'' p = validate_transfer_init p"
  by (simp_all add: validate_request_def VALID_REQUEST_METHODS_def)

lemma feed_bounds:
  "validate_job_feed p = Inr () \<Longrightarrow>
     1 \<le> int_or p ''limit'' FEED_DEFAULT_LIMIT \<and> int_or p ''limit'' FEED_DEFAULT_LIMIT \<le> FEED_MAX_LIMIT
     \<and> 0 \<le> int_or p ''wait_ms'' 0 \<and> int_or p ''wait_ms'' 0 \<le> FEED_MAX_WAIT_MS"
  unfolding validate_job_feed_def check_simps
  by (auto simp: check_simps int_or_def FEED_DEFAULT_LIMIT_def)

lemma events_bounds:
  assumes "validate_job_events p = Inr ()"
  shows "1 \<le> int_or p ''limit'' EVENTS_DEFAULT_LIMIT \<and> int_or p ''limit'' EVENTS_DEFAULT_LIMIT \<le> EVENTS_MAX_LIMIT
     \<and> (\<exists>d. dget p ''cursors'' = JObj d \<and> d \<noteq> [] \<and> length d \<le> EVENTS_MAX_JOBS
          \<and> (\<forall>(job, since) \<in> set d. job \<noteq> [] \<and> event_cursor_ok since))"
proof -
  have n: "check_numeric_field p ''limit'' 1 False = Inr ()"
    and l: "int_or p ''limit'' EVENTS_DEFAULT_LIMIT \<le> EVENTS_MAX_LIMIT"
    and c: "(case dget p ''cursors'' of
         JObj d \<Rightarrow> seq
           [ensure (d \<noteq> []) invalid,
            ensure (length d \<le> EVENTS_MAX_JOBS) invalid,
            efor d (\<lambda>(job_id, since).
              ebind (ensure (job_id \<noteq> []) invalid) (\<lambda>_. ensure (event_cursor_ok since) invalid))]
       | _ \<Rightarrow> Inl invalid) = Inr ()"
    using assms unfolding validate_job_events_def seq_Inr_iff by simp_all
  from c obtain d where d: "dget p ''cursors'' = JObj d" and "d \<noteq> []" "length d \<le> EVENTS_MAX_JOBS"
    "\<forall>(job, since) \<in> set d. job \<noteq> [] \<and> event_cursor_ok since"
    by (cases "dget p ''cursors''") (auto simp: err_simps case_prod_unfold)
  with n l show ?thesis by (auto simp: check_simps int_or_def EVENTS_DEFAULT_LIMIT_def)
qed

lemma log_range_bounds:
  "validate_job_log_range p = Inr () \<Longrightarrow>
     (\<forall>i. dget p ''offset'' = JInt i \<longrightarrow> 0 \<le> i)
     \<and> (\<forall>i. dget p ''size'' = JInt i \<longrightarrow> 0 \<le> i \<and> 2 * i \<le> DEFAULT_MAX_FRAME_BYTES)"
  unfolding validate_job_log_range_def check_simps
  by (auto simp: check_simps nonneg_or_none_def DEFAULT_MAX_FRAME_BYTES_def)

lemma blob_chunk_bounds:
  "validate_blob_chunk p = Inr () \<Longrightarrow>
     (\<exists>i. dget p ''offset'' = JInt i \<and> 0 \<le> i) \<or> dget p ''offset'' = JNull"
  unfolding validate_blob_chunk_def check_simps by (auto simp: check_simps)

lemma blob_chunk_size_bounds:
  "validate_blob_chunk p = Inr () \<Longrightarrow>
     (\<forall>i. dget p ''size'' = JInt i \<longrightarrow> 1 \<le> i \<and> 2 * i \<le> DEFAULT_MAX_FRAME_BYTES)
     \<and> (\<forall>s. dget p ''data_b64'' = JStr s \<longrightarrow> int (pylen s) \<le> DEFAULT_MAX_FRAME_BYTES)"
  unfolding validate_blob_chunk_def check_simps by (auto simp: DEFAULT_MAX_FRAME_BYTES_def)



section \<open>Accepted frames\<close>

lemma proto_Inr [check_simps]: "proto r = Inr a \<longleftrightarrow> r = Inr a"
  by (cases r) (auto simp: proto_def)

lemma check_duplicate_keys_Inr [check_simps]:
  "check_duplicate_keys d = Inr u \<longleftrightarrow> distinct (map fst d)"
  by (simp add: check_duplicate_keys_def)

lemma validate_request_frame_Inr:
  assumes "validate_request_frame sha frame = Inr u"
  obtains m p k where "dget frame ''method'' = JStr m" "dget frame ''payload'' = JObj p"
    "dget frame ''idempotency_key'' = JStr k" "idempotency_key_re k" "distinct (map fst p)"
    "validate_request m p = Inr ()"
    "dget frame ''digest'' = JNull
     \<or> (\<exists>dg. dget frame ''digest'' = JStr dg \<and> hex64 dg \<and> request_digest sha m p k = Inr dg)"
  using assms
  by (auto simp: validate_request_frame_def err_simps check_simps split: json.splits)

lemma frame_fields_version:
  "frame_fields_ok frame = Inr u \<Longrightarrow> dget frame ''version'' = JStr ''1''"
  by (auto simp: frame_fields_ok_def err_simps split: json.splits)

text \<open>
  C9. A frame that validation accepts comes back unchanged, has each key once, only fields of its kind and
  all the required ones, and version 1.  If it is a request, its method and payload are valid, its
  idempotency key has the pattern, and the digest it carries, if any, is the digest of exactly that
  method, payload and key: a frame tampered with in transit is refused.
\<close>

theorem validate_frame_sound:
  assumes "validate_frame sha j = Inr j'"
  shows "j' = j \<and> (\<exists>frame kind. j = JObj frame \<and> distinct (map fst frame)
    \<and> dget frame ''kind'' = JStr kind \<and> kind \<in> set FRAME_KINDS
    \<and> fst ` set frame \<subseteq> set (fst (frame_schema kind))
    \<and> (\<forall>k \<in> set (snd (frame_schema kind)). has_key frame k)
    \<and> dget frame ''version'' = JStr ''1''
    \<and> (kind = ''request'' \<longrightarrow> (\<exists>m p k. dget frame ''method'' = JStr m \<and> dget frame ''payload'' = JObj p
         \<and> dget frame ''idempotency_key'' = JStr k \<and> idempotency_key_re k
         \<and> validate_request m p = Inr ()
         \<and> (dget frame ''digest'' = JNull
            \<or> (\<exists>dg. dget frame ''digest'' = JStr dg \<and> request_digest sha m p k = Inr dg)))))"
proof -
  obtain frame where j: "j = JObj frame"
    using assms by (cases j) (auto simp: validate_frame_def)
  obtain kind where k: "dget frame ''kind'' = JStr kind"
    using assms by (cases "dget frame ''kind''") (auto simp: validate_frame_def j err_simps)
  have f: "distinct (map fst frame)" "kind \<in> set FRAME_KINDS"
    "fst ` set frame \<subseteq> set (fst (frame_schema kind))"
    "\<forall>k \<in> set (snd (frame_schema kind)). has_key frame k"
    "frame_fields_ok frame = Inr ()" "j' = j"
    and r: "kind = ''request'' \<Longrightarrow> validate_request_frame sha frame = Inr ()"
    using assms unfolding validate_frame_def j json.case k
    by (auto simp: err_simps check_simps list_all_iff simp del: frame_schema.simps split: if_splits)
  show ?thesis
    using j k f frame_fields_version [OF f(5)] r by (blast elim: validate_request_frame_Inr)
qed

theorem validate_frame_sound_witness:
  "let frame = [(''version'', JStr ''1''), (''kind'', JStr ''request''), (''method'', JStr ''job.status''),
      (''payload'', JObj [(''job_id'', JStr ''job_1'')]), (''idempotency_key'', JStr ''abcd_1234'')]
   in validate_frame id (JObj frame) = Inr (JObj frame) \<and> distinct (map fst frame)"
proof -
  let ?f = "[(''version'', JStr ''1''), (''kind'', JStr ''request''), (''method'', JStr ''job.status''),
      (''payload'', JObj [(''job_id'', JStr ''job_1'')]), (''idempotency_key'', JStr ''abcd_1234'')]"
  have v: "validate_frame id (JObj ?f) = Inr (JObj ?f)" by code_simp
  with validate_frame_sound [OF v] show ?thesis by auto
qed

text \<open>
  An idempotency key of the pattern followed by a line feed passes the check too: the pattern is matched
  with \<^verbatim>\<open>re.match\<close> and a \<^verbatim>\<open>$\<close>, which matches before a final line feed.
\<close>

theorem idempotency_key_allows_newline:
  "idempotency_key_re s \<longleftrightarrow>
     re_fullmatch is_key_char 8 128 s
     \<or> (\<exists>t. s = t @ [CHR 0x0A] \<and> re_fullmatch is_key_char 8 128 t)"
  unfolding idempotency_key_re_def re_match_dollar_def
  by (metis append_butlast_last_id last_snoc butlast_snoc snoc_eq_iff_butlast)

end
