(* ===== verification/Transitions.thy ===== *)
theory Transitions
  imports Prelude
begin

text \<open>
  The state machines of the remote subsystem, \<open>TRANSITION_TABLES\<close> and \<open>transition\<close> of
  \<^verbatim>\<open>src/vanth/remote/store.py\<close>: pairing of a remote, a controller's request, an operation accepted by
  the remote.  \<open>moves\<close> is the step relation that the tables describe, \<open>run_of\<close> a sequence of steps.
\<close>

datatype serr =
    UnknownMachine | InvalidState | InvalidTransition
  | UnknownRemote | UnknownRequest | UnknownOperation | NoRow | BadArgument
  | ReplayMismatch | RemoteEpochMismatch | IntegrityError | EpochRewind | EpochMoved | TransactionOpen

type_synonym table = "(string \<times> (string \<times> string) list) list"

definition TRANSITION_TABLES :: "(string \<times> table) list" where
  "TRANSITION_TABLES =
    [(''pairing'',
      [(''unpaired'', [(''pairing'', ''pairing'')]),
       (''pairing'', [(''paired'', ''paired''), (''error'', ''error'')]),
       (''paired'', []),
       (''error'', [])]),
     (''request'',
      [(''creating'', [(''submitting'', ''submitting'')]),
       (''submitting'', [(''accepted'', ''accepted'')]),
       (''accepted'', [(''completed'', ''completed''), (''failed'', ''failed''), (''lost'', ''lost''),
                       (''submitting'', ''submitting'')]),
       (''completed'', []),
       (''failed'', []),
       (''lost'', [])]),
     (''operation'',
      [(''accepted'', [(''queued'', ''queued'')]),
       (''queued'', [(''launched'', ''launched'')]),
       (''launched'', [(''running'', ''running'')]),
       (''running'', [(''completed'', ''completed''), (''failed'', ''failed'')]),
       (''completed'', []),
       (''failed'', [])])]"

definition transition :: "string \<Rightarrow> string \<Rightarrow> string \<Rightarrow> serr + string" where
  "transition machine current event =
     (case map_of TRANSITION_TABLES machine of
        None \<Rightarrow> Inl UnknownMachine
      | Some t \<Rightarrow> (case map_of t current of
          None \<Rightarrow> Inl InvalidState
        | Some row \<Rightarrow> (case map_of row event of
            None \<Rightarrow> Inl InvalidTransition
          | Some next \<Rightarrow> Inr next)))"

inductive moves :: "string \<Rightarrow> string \<Rightarrow> string \<Rightarrow> bool" for machine where
  move: "transition machine s e = Inr t \<Longrightarrow> moves machine s t"

inductive_simps moves_iff: "moves machine s t"

fun run_of :: "string \<Rightarrow> string \<Rightarrow> string list \<Rightarrow> bool" where
  "run_of machine s [] = True"
| "run_of machine s (t # ts) = (moves machine s t \<and> run_of machine t ts)"

text \<open>How far a state is: only the re-drive of an accepted request goes back.\<close>

definition rank :: "string \<Rightarrow> string \<Rightarrow> nat" where
  "rank machine s =
    (if machine = ''pairing'' then
       (if s = ''unpaired'' then 0 else if s = ''pairing'' then 1 else 2)
     else if machine = ''request'' then
       (if s = ''creating'' then 0 else if s = ''submitting'' then 1 else if s = ''accepted'' then 2 else 3)
     else
       (if s = ''accepted'' then 0 else if s = ''queued'' then 1 else if s = ''launched'' then 2
        else if s = ''running'' then 3 else 4))"

definition machine_states :: "string \<Rightarrow> string list" where
  "machine_states machine =
     (case map_of TRANSITION_TABLES machine of None \<Rightarrow> [] | Some t \<Rightarrow> map fst t)"

lemma machine_tables:
  "map_of TRANSITION_TABLES ''pairing'' = Some
     [(''unpaired'', [(''pairing'', ''pairing'')]),
      (''pairing'', [(''paired'', ''paired''), (''error'', ''error'')]),
      (''paired'', []), (''error'', [])]"
  "map_of TRANSITION_TABLES ''request'' = Some
     [(''creating'', [(''submitting'', ''submitting'')]),
      (''submitting'', [(''accepted'', ''accepted'')]),
      (''accepted'', [(''completed'', ''completed''), (''failed'', ''failed''), (''lost'', ''lost''),
                      (''submitting'', ''submitting'')]),
      (''completed'', []), (''failed'', []), (''lost'', [])]"
  "map_of TRANSITION_TABLES ''operation'' = Some
     [(''accepted'', [(''queued'', ''queued'')]),
      (''queued'', [(''launched'', ''launched'')]),
      (''launched'', [(''running'', ''running'')]),
      (''running'', [(''completed'', ''completed''), (''failed'', ''failed'')]),
      (''completed'', []), (''failed'', [])]"
  by (simp_all add: TRANSITION_TABLES_def)

lemma transition_Inr:
  "map_of TRANSITION_TABLES m = Some tab \<Longrightarrow>
   transition m s e = Inr t \<longleftrightarrow> (\<exists>row. map_of tab s = Some row \<and> map_of row e = Some t)"
  by (auto simp: transition_def split: option.splits)

lemma map_of_Cons_Some:
  "map_of ((k, v) # xs) s = Some r \<longleftrightarrow> (s = k \<and> v = r \<or> s \<noteq> k \<and> map_of xs s = Some r)"
  by auto

lemma pairing_table:
  "transition ''pairing'' s e = Inr t \<longleftrightarrow>
     t = e \<and> (s = ''unpaired'' \<and> e = ''pairing'' \<or> s = ''pairing'' \<and> (e = ''paired'' \<or> e = ''error''))"
  unfolding transition_Inr [OF machine_tables(1)]
  by (simp add: map_of_Cons_Some conj_disj_distribR conj_disj_distribL ex_disj_distrib del: map_of.simps(2)) auto

lemma request_table:
  "transition ''request'' s e = Inr t \<longleftrightarrow>
     t = e \<and> (s = ''creating'' \<and> e = ''submitting'' \<or> s = ''submitting'' \<and> e = ''accepted''
        \<or> s = ''accepted'' \<and> (e = ''completed'' \<or> e = ''failed'' \<or> e = ''lost'' \<or> e = ''submitting''))"
proof -
  consider "s = ''creating''" | "s = ''submitting''" | "s = ''accepted''"
    | "s \<notin> {''creating'', ''submitting'', ''accepted''}" by blast
  then show ?thesis
  proof cases
    case 4
    then have "transition ''request'' s e \<noteq> Inr t"
      unfolding transition_Inr [OF machine_tables(2)] by simp
    with 4 show ?thesis by simp
  qed (simp_all add: transition_def machine_tables eq_commute [of _ t])
qed

lemma operation_table:
  "transition ''operation'' s e = Inr t \<longleftrightarrow>
     t = e \<and> (s = ''accepted'' \<and> e = ''queued'' \<or> s = ''queued'' \<and> e = ''launched''
        \<or> s = ''launched'' \<and> e = ''running'' \<or> s = ''running'' \<and> (e = ''completed'' \<or> e = ''failed''))"
  unfolding transition_Inr [OF machine_tables(3)]
  by (simp add: map_of_Cons_Some conj_disj_distribR conj_disj_distribL ex_disj_distrib del: map_of.simps(2)) auto

lemmas transition_tables = pairing_table request_table operation_table

lemma moves_tables:
  "moves ''pairing'' s t \<longleftrightarrow>
     s = ''unpaired'' \<and> t = ''pairing'' \<or> s = ''pairing'' \<and> (t = ''paired'' \<or> t = ''error'')"
  "moves ''request'' s t \<longleftrightarrow>
     s = ''creating'' \<and> t = ''submitting'' \<or> s = ''submitting'' \<and> t = ''accepted''
     \<or> s = ''accepted'' \<and> (t = ''completed'' \<or> t = ''failed'' \<or> t = ''lost'' \<or> t = ''submitting'')"
  "moves ''operation'' s t \<longleftrightarrow>
     s = ''accepted'' \<and> t = ''queued'' \<or> s = ''queued'' \<and> t = ''launched''
     \<or> s = ''launched'' \<and> t = ''running'' \<or> s = ''running'' \<and> (t = ''completed'' \<or> t = ''failed'')"
  by (auto simp: moves_iff transition_tables)

lemma moves_rank: "m = ''pairing'' \<or> m = ''operation'' \<Longrightarrow> moves m s t \<Longrightarrow> rank m t = Suc (rank m s)"
  by (elim disjE; simp only: moves_tables; elim disjE conjE; simp add: rank_def)

lemma rank_le: "rank m s \<le> 4"
  by (simp add: rank_def)

lemma run_length:
  "m = ''pairing'' \<or> m = ''operation'' \<Longrightarrow> run_of m s ts \<Longrightarrow> rank m s + length ts \<le> 4"
proof (induction ts arbitrary: s)
  case Nil
  show ?case by (simp add: rank_le)
next
  case (Cons t ts)
  then have "rank m t = Suc (rank m s)" by (simp add: moves_rank)
  with Cons show ?case by fastforce
qed

lemma request_run_final:
  "run_of ''request'' s ts \<Longrightarrow> s \<in> {''completed'', ''failed'', ''lost''} \<Longrightarrow> ts = []"
  by (cases ts) (auto simp: moves_tables)



end
