(* ===== verification/Contracts.thy ===== *)
theory Contracts
  imports Prelude
begin

text \<open>
  The interfaces that several components of the program promise to their clients.

  \<^item> \<open>request_log\<close>: a table of requests keyed by an idempotency key.  Recording a key twice returns the
    row of the first time, and a key is never reused for another request.  The controller's
    requests, the operations of a paired host and the artifact operations implement it.
  \<^item> \<open>leased_work\<close>: work items that a worker claims with a fresh token, and that only the holder
    of the current token can settle.  Launch claims, the wake deliveries and the artifact operations implement it.
  \<^item> \<open>paged_log\<close>: a log read in pages after a cursor, without gap or repetition.  The feed of a paired
    host and its snapshots implement it.
\<close>

section \<open>Idempotent requests\<close>

locale request_log =
  fixes lookup :: "'s \<Rightarrow> 'k \<Rightarrow> 'r option"
    and digest_of :: "'r \<Rightarrow> 'd"
    and record_as :: "'k \<Rightarrow> 'd \<Rightarrow> 'x \<Rightarrow> 's \<Rightarrow> ('e + 'r) \<times> 's"
    and inv :: "'s \<Rightarrow> bool"
  assumes record_ok: "inv s \<Longrightarrow> record_as k d x s = (Inr r, s') \<Longrightarrow>
      inv s' \<and> lookup s' k = Some r \<and> digest_of r = d \<and> (\<forall>l. l \<noteq> k \<longrightarrow> lookup s' l = lookup s l)"
    and record_hit: "inv s \<Longrightarrow> lookup s k = Some r \<Longrightarrow> record_as k d x s = (Inr r', s') \<Longrightarrow> r' = r \<and> s' = s"
    and record_err: "record_as k d x s = (Inl e, s') \<Longrightarrow> s' = s"
begin

text \<open>A history of calls, of any keys and digests, successful or not.\<close>

fun run :: "('k \<times> 'd \<times> 'x) list \<Rightarrow> 's \<Rightarrow> 's" where
  "run [] s = s"
| "run ((k, d, x) # cs) s = run cs (snd (record_as k d x s))"

lemma record_inv: "inv s \<Longrightarrow> inv (snd (record_as k d x s))"
  by (cases "record_as k d x s"; cases "fst (record_as k d x s)") (auto dest: record_ok record_err)

lemma run_inv: "inv s \<Longrightarrow> inv (run cs s)"
  by (induction cs s rule: run.induct) (auto intro: record_inv)

lemma record_keeps:
  assumes "inv s" "lookup s k = Some r"
  shows "lookup (snd (record_as l d x s)) k = Some r"
proof (cases "record_as l d x s")
  case (Pair res s')
  show ?thesis
  proof (cases res)
    case (Inl e)
    with Pair assms(2) show ?thesis by (auto dest: record_err)
  next
    case (Inr r')
    with Pair assms record_ok [OF assms(1), of l d x r' s'] record_hit [OF assms, of d x r' s']
    show ?thesis by (cases "l = k") auto
  qed
qed

lemma run_keeps: "inv s \<Longrightarrow> lookup s k = Some r \<Longrightarrow> lookup (run cs s) k = Some r"
  by (induction cs s rule: run.induct) (auto intro: record_keeps record_inv)

text \<open>
  Once a key is recorded, every later successful call with the key returns the row of the first
  call, was made with its digest, and changes nothing.
\<close>

lemma replay:
  assumes "inv s" "record_as k d x s = (Inr r, s1)"
    and "record_as k d' x' (run cs s1) = (Inr r', s2)"
  shows "r' = r \<and> d' = d \<and> s2 = run cs s1"
proof -
  from record_ok [OF assms(1,2)] have "inv s1" "lookup s1 k = Some r" "digest_of r = d" by auto
  then have i: "inv (run cs s1)" and l: "lookup (run cs s1) k = Some r"
    by (auto intro: run_inv run_keeps)
  from record_hit [OF i l assms(3)] record_ok [OF i assms(3)] \<open>digest_of r = d\<close>
  show ?thesis by auto
qed

end

section \<open>Leased work\<close>

text \<open>What a worker or the dispatcher does with a work item.\<close>

datatype ('i, 't, 'x) lease_act = Claim 'i 't 'x | Settle 'i 't 'x

fun claims_with :: "'t \<Rightarrow> ('i, 't, 'x) lease_act list \<Rightarrow> bool" where
  "claims_with t [] = False"
| "claims_with t (Claim i u x # as) = (u = t \<or> claims_with t as)"
| "claims_with t (Settle i u x # as) = claims_with t as"

locale leased_work =
  fixes holder :: "'s \<Rightarrow> 'i \<Rightarrow> 't option"
    and claim :: "'i \<Rightarrow> 't \<Rightarrow> 'x \<Rightarrow> 's \<Rightarrow> ('e + 'a) \<times> 's"
    and settle :: "'i \<Rightarrow> 't \<Rightarrow> 'x \<Rightarrow> 's \<Rightarrow> ('f + 'b) \<times> 's"
    and inv :: "'s \<Rightarrow> bool"
  assumes claim_ok: "inv s \<Longrightarrow> claim i t x s = (Inr a, s') \<Longrightarrow>
      inv s' \<and> holder s' i = Some t \<and> (\<forall>j. j \<noteq> i \<longrightarrow> holder s' j = holder s j)"
    and claim_err: "inv s \<Longrightarrow> claim i t x s = (Inl e, s') \<Longrightarrow> s' = s"
    and settle_ok: "inv s \<Longrightarrow> settle i t x s = (Inr b, s') \<Longrightarrow>
      inv s' \<and> holder s i = Some t \<and> holder s' i = None \<and> (\<forall>j. j \<noteq> i \<longrightarrow> holder s' j = holder s j)"
    and settle_err: "inv s \<Longrightarrow> settle i t x s = (Inl f, s') \<Longrightarrow> s' = s"
begin

fun act :: "('i, 't, 'x) lease_act \<Rightarrow> 's \<Rightarrow> 's" where
  "act (Claim i t x) s = snd (claim i t x s)"
| "act (Settle i t x) s = snd (settle i t x s)"

fun run :: "('i, 't, 'x) lease_act list \<Rightarrow> 's \<Rightarrow> 's" where
  "run [] s = s"
| "run (a # as) s = run as (act a s)"

lemma claim_inv: "inv s \<Longrightarrow> inv (snd (claim i u x s))"
  by (cases "claim i u x s"; cases "fst (claim i u x s)") (auto dest: claim_ok claim_err)

lemma settle_inv: "inv s \<Longrightarrow> inv (snd (settle i u x s))"
  by (cases "settle i u x s"; cases "fst (settle i u x s)") (auto dest: settle_ok settle_err)

lemma act_inv: "inv s \<Longrightarrow> inv (act a s)"
  by (cases a) (auto intro: claim_inv settle_inv)

lemma run_inv: "inv s \<Longrightarrow> inv (run as s)"
  by (induction as arbitrary: s) (auto intro: act_inv)

lemma claim_holder:
  "inv s \<Longrightarrow> holder (snd (claim i u x s)) j = Some t \<Longrightarrow> u \<noteq> t \<Longrightarrow> holder s j = Some t"
  by (cases "claim i u x s"; cases "fst (claim i u x s)"; cases "j = i")
    (auto dest: claim_ok claim_err)

lemma settle_holder:
  "inv s \<Longrightarrow> holder (snd (settle i u x s)) j = Some t \<Longrightarrow> holder s j = Some t"
  by (cases "settle i u x s"; cases "fst (settle i u x s)"; cases "j = i")
    (auto dest: settle_ok settle_err)

lemma lost_stays_lost:
  "inv s \<Longrightarrow> holder s i \<noteq> Some t \<Longrightarrow> \<not> claims_with t as \<Longrightarrow> holder (run as s) i \<noteq> Some t"
proof (induction as arbitrary: s)
  case (Cons a as)
  moreover have "holder (act a s) i \<noteq> Some t"
    using Cons.prems by (cases a) (auto dest: claim_holder settle_holder)
  moreover have "\<not> claims_with t as" using Cons.prems(3) by (cases a) auto
  ultimately show ?case using act_inv by simp
qed simp

text \<open>
  A worker whose token was replaced can never settle the item, whatever other workers do, unless
  the token is minted again.
\<close>

lemma fenced:
  assumes "inv s" "claim i u x s = (Inr a, s1)" "u \<noteq> t" "\<not> claims_with t as"
  shows "\<nexists>b s2. settle i t y (run as s1) = (Inr b, s2)"
proof -
  have "inv s1" "holder s1 i \<noteq> Some t" using claim_ok [OF assms(1,2)] assms(3) by simp_all
  then have "inv (run as s1)" "holder (run as s1) i \<noteq> Some t"
    using assms(4) by (auto intro: run_inv dest: lost_stays_lost)
  then show ?thesis using settle_ok by blast
qed

text \<open>A settled claim is spent.\<close>

lemma settled_once:
  assumes "inv s" "settle i t x s = (Inr b, s1)" "\<not> claims_with t as"
  shows "\<nexists>b' s2. settle i t y (run as s1) = (Inr b', s2)"
proof -
  have "inv s1" "holder s1 i \<noteq> Some t" using settle_ok [OF assms(1,2)] by simp_all
  then have "inv (run as s1)" "holder (run as s1) i \<noteq> Some t"
    using assms(3) by (auto intro: run_inv dest: lost_stays_lost)
  then show ?thesis using settle_ok by blast
qed

end

section \<open>Logs read page by page\<close>

text \<open>
  A log whose items have increasing keys, read in pages: a page is the first items after the
  reader's key, and the flag says whether to go on.
\<close>

locale paged_log =
  fixes items :: "'s \<Rightarrow> 'a list"
    and key :: "'a \<Rightarrow> 'k::linorder"
    and page :: "'s \<Rightarrow> nat \<Rightarrow> 'k \<Rightarrow> 'a list"
    and more :: "'s \<Rightarrow> nat \<Rightarrow> 'k \<Rightarrow> bool"
    and inv :: "'s \<Rightarrow> bool"
  assumes items_sorted: "inv s \<Longrightarrow> sorted_wrt (\<lambda>a b. key a < key b) (items s)"
    and page_take: "inv s \<Longrightarrow> page s n k = take n (filter (\<lambda>a. k < key a) (items s))"
    and more_left: "inv s \<Longrightarrow> 0 < n \<Longrightarrow> n < length (filter (\<lambda>a. k < key a) (items s)) \<Longrightarrow> more s n k"
    and more_page: "inv s \<Longrightarrow> more s n k \<Longrightarrow> page s n k \<noteq> []"
begin

text \<open>A reader that follows the pages, at most \<open>fuel\<close> of them.\<close>

fun read_all :: "nat \<Rightarrow> 's \<Rightarrow> nat \<Rightarrow> 'k \<Rightarrow> 'a list" where
  "read_all 0 s n k = []"
| "read_all (Suc fuel) s n k =
     page s n k @ (if more s n k then read_all fuel s n (key (last (page s n k))) else [])"

definition rest :: "'s \<Rightarrow> 'k \<Rightarrow> 'a list" where
  "rest s k = filter (\<lambda>a. k < key a) (items s)"

lemma rest_sorted: "inv s \<Longrightarrow> sorted_wrt (\<lambda>a b. key a < key b) (rest s k)"
  by (simp add: rest_def sorted_wrt_filter items_sorted)

lemma rest_after:
  assumes "inv s" "0 < n" "rest s k \<noteq> []"
  shows "rest s (key (last (take n (rest s k)))) = drop n (rest s k)"
proof -
  let ?p = "take n (rest s k)" and ?l = "key (last (take n (rest s k)))"
  have p: "?p \<noteq> []" using assms(2,3) by simp
  have "sorted_wrt (\<lambda>a b. key a < key b) (?p @ drop n (rest s k))" using rest_sorted [OF assms(1)] by simp
  then have s: "sorted_wrt (\<lambda>a b. key a < key b) ?p" "\<And>a b. a \<in> set ?p \<Longrightarrow> b \<in> set (drop n (rest s k)) \<Longrightarrow> key a < key b"
    unfolding sorted_wrt_append by blast+
  have low: "key a \<le> ?l" if "a \<in> set ?p" for a
    using s(1) that p by (cases ?p rule: rev_cases) (auto simp: sorted_wrt_append less_imp_le)
  have "last ?p \<in> set (rest s k)" using last_in_set [OF p] by (rule in_set_takeD)
  then have "k < ?l" by (simp add: rest_def)
  then have "rest s ?l = filter (\<lambda>a. ?l < key a) (rest s k)"
    by (auto simp: rest_def intro!: filter_cong)
  also have "\<dots> = filter (\<lambda>a. ?l < key a) (?p @ drop n (rest s k))" by simp
  also have "\<dots> = drop n (rest s k)"
    using low s(2) last_in_set [OF p] by (simp add: filter_empty_conv not_less filter_id_conv del: append_take_drop_id)
  finally show ?thesis .
qed

text \<open>Following the pages yields every item after the key once, in order.\<close>

lemma read_all_rest:
  assumes "inv s" "0 < n" "length (rest s k) < fuel"
  shows "read_all fuel s n k = rest s k"
  using assms(3)
proof (induction fuel arbitrary: k)
  case (Suc fuel)
  have p: "page s n k = take n (rest s k)" using page_take [OF assms(1)] by (simp add: rest_def)
  show ?case
  proof (cases "more s n k")
    case False
    with more_left [OF assms(1,2), of k] have "length (rest s k) \<le> n" by (force simp: rest_def)
    with False p show ?thesis by simp
  next
    case True
    then have ne: "rest s k \<noteq> []" using more_page [OF assms(1)] p by force
    note r = rest_after [OF assms(1,2) ne]
    then have "length (rest s (key (last (take n (rest s k))))) < fuel"
      using Suc.prems assms(2) ne by (cases "rest s k") auto
    from Suc.IH [OF this] True p r show ?thesis by simp
  qed
qed simp

end

end
