(* ===== verification/RemoteStore.thy ===== *)
theory RemoteStore
  imports Transitions CanonicalJson Timestamps Contracts
begin

text \<open>
  The controller's durable store (\<^verbatim>\<open>RemoteStore\<close> of \<^verbatim>\<open>src/vanth/remote/store.py\<close>): the paired
  remotes, the requests made to them, replay tombstones, and the shadows of remote jobs.

  A table is the list of its rows; a column that stores JSON text holds the value.  An operation
  with \<^verbatim>\<open>commit=False\<close> is its body (a function into \<open>serr + result * database\<close>); with
  \<^verbatim>\<open>commit=True\<close> it is the body under \<open>txn\<close>.  Minted identifiers and the clock are arguments.
\<close>

section \<open>Tables\<close>

record remote_row =
  rm_id :: string
  rm_name :: "string option"
  rm_target :: string
  rm_state :: string
  rm_epoch :: int
  rm_instance :: "string option"
  rm_controller :: "string option"
  rm_credential_state :: "string option"
  rm_pairing_state :: string
  rm_key_path :: "string option"
  rm_known_hosts_path :: "string option"
  rm_installed_at :: "string option"
  rm_snapshot_cursor :: "json option"
  rm_feed_cursor :: "json option"
  rm_created :: int
  rm_updated :: int

record request_row =
  rq_id :: string
  rq_remote :: string
  rq_key :: string
  rq_method :: string
  rq_payload :: obj
  rq_digest :: string
  rq_status :: string
  rq_epoch :: "int option"
  rq_instance :: "string option"
  rq_response :: "json option"
  rq_error :: "string option"
  rq_created :: int
  rq_updated :: int

record tombstone_row =
  tb_id :: string
  tb_remote :: string
  tb_key :: string
  tb_digest :: string
  tb_created :: int

record shadow_row =
  sh_id :: string
  sh_remote :: string
  sh_job :: string
  sh_status :: string
  sh_payload :: "json option"
  sh_epoch :: int
  sh_suppressed :: "int option"
  sh_superseded :: "int option"
  sh_created :: int
  sh_updated :: int

record controller_db =
  remotes :: "remote_row list"
  requests :: "request_row list"
  tombstones :: "tombstone_row list"
  shadows :: "shadow_row list"

type_synonym 'a body = "controller_db \<Rightarrow> serr + 'a \<times> controller_db"
type_synonym 'a op = "controller_db \<Rightarrow> (serr + 'a) \<times> controller_db"

section \<open>Remotes\<close>

definition create_remote ::
  "string \<Rightarrow> int \<Rightarrow> string option \<Rightarrow> string \<Rightarrow> string \<Rightarrow> int \<Rightarrow> string option \<Rightarrow> string option \<Rightarrow>
   string option \<Rightarrow> string \<Rightarrow> string option \<Rightarrow> string option \<Rightarrow> string option \<Rightarrow> remote_row op" where
  "create_remote fresh now name target state state_epoch instance_id controller_id credential_state
     pairing_state key_path known_hosts_path installed_at db =
     (if blank target then (Inl BadArgument, db)
      else if (\<exists>r \<in> set (remotes db). rm_id r = fresh) then (Inl IntegrityError, db)
      else
        let row = \<lparr>rm_id = fresh, rm_name = name, rm_target = target, rm_state = state,
          rm_epoch = state_epoch, rm_instance = instance_id, rm_controller = controller_id,
          rm_credential_state = credential_state, rm_pairing_state = pairing_state,
          rm_key_path = key_path, rm_known_hosts_path = known_hosts_path,
          rm_installed_at = installed_at, rm_snapshot_cursor = None, rm_feed_cursor = None,
          rm_created = now, rm_updated = now\<rparr>
        in (Inr row, db\<lparr>remotes := remotes db @ [row]\<rparr>))"

definition find_remote :: "controller_db \<Rightarrow> string \<Rightarrow> remote_row option" where
  "find_remote db remote_id = find (\<lambda>r. rm_id r = remote_id) (remotes db)"

definition get_remote :: "string \<Rightarrow> remote_row op" where
  "get_remote remote_id db =
     (case find_remote db remote_id of None \<Rightarrow> (Inl UnknownRemote, db) | Some r \<Rightarrow> (Inr r, db))"

definition list_remotes :: "controller_db \<Rightarrow> remote_row list" where
  "list_remotes db = sort_key (sql_key \<circ> rm_created) (remotes db)"

definition update_remote :: "string \<Rightarrow> (remote_row \<Rightarrow> remote_row) \<Rightarrow> controller_db \<Rightarrow> controller_db" where
  "update_remote remote_id f db = db\<lparr>remotes := upd (\<lambda>r. rm_id r = remote_id) f (remotes db)\<rparr>"

definition update_remote_state :: "int \<Rightarrow> string \<Rightarrow> string \<Rightarrow> remote_row op" where
  "update_remote_state now remote_id state db =
     (case find_remote db remote_id of
        None \<Rightarrow> (Inl UnknownRemote, db)
      | Some r \<Rightarrow> (case transition ''pairing'' (rm_state r) state of
          Inl e \<Rightarrow> (Inl e, db)
        | Inr _ \<Rightarrow> get_remote remote_id
            (update_remote remote_id (\<lambda>r. r\<lparr>rm_state := state, rm_updated := now\<rparr>) db)))"

definition check_state_epoch :: "string \<Rightarrow> int option \<Rightarrow> unit op" where
  "check_state_epoch remote_id expected_epoch db =
     (case expected_epoch of
        None \<Rightarrow> (Inr (), db)
      | Some e \<Rightarrow> (case find_remote db remote_id of
          None \<Rightarrow> (Inl UnknownRemote, db)
        | Some r \<Rightarrow> if rm_epoch r \<noteq> e then (Inl RemoteEpochMismatch, db) else (Inr (), db)))"

definition set_state_epoch :: "int \<Rightarrow> string \<Rightarrow> int \<Rightarrow> remote_row op" where
  "set_state_epoch now remote_id state_epoch db =
     (if state_epoch < 1 then (Inl BadArgument, db)
      else get_remote remote_id
        (update_remote remote_id (\<lambda>r. r\<lparr>rm_epoch := state_epoch, rm_updated := now\<rparr>) db))"

definition set_instance_id :: "int \<Rightarrow> string \<Rightarrow> string \<Rightarrow> remote_row op" where
  "set_instance_id now remote_id instance_id db =
     (if blank instance_id then (Inl BadArgument, db)
      else if cnt (\<lambda>r. rm_id r = remote_id) (remotes db) = 0 then (Inl UnknownRemote, db)
      else get_remote remote_id
        (update_remote remote_id (\<lambda>r. r\<lparr>rm_instance := Some instance_id, rm_updated := now\<rparr>) db))"

section \<open>Durable requests\<close>

definition find_request :: "controller_db \<Rightarrow> string \<times> string \<Rightarrow> request_row option" where
  "find_request db k = find (\<lambda>r. (rq_remote r, rq_key r) = k) (requests db)"

definition record_request_body ::
  "string \<Rightarrow> int \<Rightarrow> string \<Rightarrow> string \<Rightarrow> string \<Rightarrow> obj \<Rightarrow> string \<Rightarrow> int option \<Rightarrow> string option \<Rightarrow> request_row body" where
  "record_request_body fresh now remote_id idempotency_key method payload digest
     expected_state_epoch expected_instance_id db =
     (case find_request db (remote_id, idempotency_key) of
        Some existing \<Rightarrow>
          if rq_digest existing \<noteq> digest then Inl ReplayMismatch else Inr (existing, db)
      | None \<Rightarrow>
          if (\<exists>r \<in> set (requests db). rq_id r = fresh) then Inl IntegrityError
          else
            let row = \<lparr>rq_id = fresh, rq_remote = remote_id, rq_key = idempotency_key,
              rq_method = method, rq_payload = payload, rq_digest = digest, rq_status = ''creating'',
              rq_epoch = expected_state_epoch, rq_instance = expected_instance_id,
              rq_response = None, rq_error = None, rq_created = now, rq_updated = now\<rparr>
            in Inr (row, db\<lparr>requests := requests db @ [row]\<rparr>))"

definition record_request ::
  "string \<Rightarrow> int \<Rightarrow> string \<Rightarrow> string \<Rightarrow> string \<Rightarrow> obj \<Rightarrow> string \<Rightarrow> int option \<Rightarrow> string option \<Rightarrow> request_row op" where
  "record_request fresh now remote_id idempotency_key method payload digest
     expected_state_epoch expected_instance_id db =
     (if find_remote db remote_id = None then (Inl UnknownRemote, db)
      else txn (record_request_body fresh now remote_id idempotency_key method payload digest
             expected_state_epoch expected_instance_id) db)"

definition get_request_by_key :: "string \<Rightarrow> string \<Rightarrow> request_row op" where
  "get_request_by_key remote_id idempotency_key db =
     (case find_request db (remote_id, idempotency_key) of
        None \<Rightarrow> (Inl NoRow, db) | Some r \<Rightarrow> (Inr r, db))"

definition update_request_status_body ::
  "int \<Rightarrow> string \<Rightarrow> string \<Rightarrow> json option \<Rightarrow> string option \<Rightarrow> request_row body" where
  "update_request_status_body now request_id status response error db =
     (case find (\<lambda>r. rq_id r = request_id) (requests db) of
        None \<Rightarrow> Inl UnknownRequest
      | Some row \<Rightarrow> (case transition ''request'' (rq_status row) status of
          Inl e \<Rightarrow> Inl e
        | Inr _ \<Rightarrow>
            let db' = db\<lparr>requests := upd (\<lambda>r. rq_id r = request_id)
              (\<lambda>r. r\<lparr>rq_status := status,
                 rq_response := (case response of None \<Rightarrow> rq_response r | Some j \<Rightarrow> Some j),
                 rq_error := (case error of None \<Rightarrow> rq_error r | Some e \<Rightarrow> Some e),
                 rq_updated := now\<rparr>) (requests db)\<rparr>
            in (case find (\<lambda>r. rq_id r = request_id) (requests db') of
                  None \<Rightarrow> Inl NoRow | Some r \<Rightarrow> Inr (r, db'))))"

definition update_request_status ::
  "int \<Rightarrow> string \<Rightarrow> string \<Rightarrow> json option \<Rightarrow> string option \<Rightarrow> request_row op" where
  "update_request_status now request_id status response error =
     txn (update_request_status_body now request_id status response error)"

section \<open>Replay tombstones and pruning\<close>

definition record_replay_tombstone :: "string \<Rightarrow> int \<Rightarrow> string \<Rightarrow> string \<Rightarrow> string \<Rightarrow> tombstone_row op" where
  "record_replay_tombstone fresh now remote_id idempotency_key digest = txn (\<lambda>db.
     case find (\<lambda>t. tb_remote t = remote_id \<and> tb_key t = idempotency_key) (tombstones db) of
       Some t \<Rightarrow> Inr (t, db)
     | None \<Rightarrow>
         if (\<exists>t \<in> set (tombstones db). tb_id t = fresh) then Inl IntegrityError
         else let row = \<lparr>tb_id = fresh, tb_remote = remote_id, tb_key = idempotency_key,
                tb_digest = digest, tb_created = now\<rparr>
              in Inr (row, db\<lparr>tombstones := tombstones db @ [row]\<rparr>))"

definition get_replay_tombstone :: "string \<Rightarrow> string \<Rightarrow> tombstone_row op" where
  "get_replay_tombstone remote_id idempotency_key db =
     (case find (\<lambda>t. tb_remote t = remote_id \<and> tb_key t = idempotency_key) (tombstones db) of
        None \<Rightarrow> (Inl NoRow, db) | Some t \<Rightarrow> (Inr t, db))"

definition settled :: "string \<Rightarrow> bool" where
  "settled s = (s = ''completed'' \<or> s = ''failed'' \<or> s = ''lost'')"

definition prune_requests :: "int \<Rightarrow> int \<Rightarrow> (nat \<times> nat) op" where
  "prune_requests now older_than_seconds db =
     (if older_than_seconds \<le> 0 then (Inr (0, 0), db)
      else
        let cutoff = now - seconds older_than_seconds;
          old_rq = (\<lambda>r. settled (rq_status r) \<and> sql_leq (rq_updated r) cutoff);
          old_tb = (\<lambda>t. sql_leq (tb_created t) cutoff)
        in (Inr (cnt old_rq (requests db), cnt old_tb (tombstones db)),
            db\<lparr>requests := del old_rq (requests db), tombstones := del old_tb (tombstones db)\<rparr>))"

section \<open>Shadows of remote jobs\<close>

definition shadow_key :: "shadow_row \<Rightarrow> string \<times> string" where
  "shadow_key s = (sh_remote s, sh_job s)"

definition find_shadow :: "controller_db \<Rightarrow> string \<times> string \<Rightarrow> shadow_row option" where
  "find_shadow db k = find (\<lambda>s. shadow_key s = k) (shadows db)"

definition record_submitting_shadow :: "string \<Rightarrow> int \<Rightarrow> string \<Rightarrow> request_row \<Rightarrow> shadow_row body" where
  "record_submitting_shadow fresh now remote_id request db =
     (let remote_job_id = rq_id request;
        payload = JObj [(''request_id'', JStr (rq_id request)),
          (''idempotency_key'', JStr (rq_key request)), (''method'', JStr (rq_method request)),
          (''status'', JStr ''submitting'')];
        row = \<lparr>sh_id = fresh, sh_remote = remote_id, sh_job = remote_job_id,
          sh_status = ''submitting'', sh_payload = Some payload, sh_epoch = 1, sh_suppressed = None,
          sh_superseded = None, sh_created = now, sh_updated = now\<rparr>
      in (case find_shadow db (remote_id, remote_job_id) of
            Some s \<Rightarrow> Inr (s, db)
          | None \<Rightarrow> if (\<exists>s \<in> set (shadows db). sh_id s = fresh) then Inl IntegrityError
                    else Inr (row, db\<lparr>shadows := shadows db @ [row]\<rparr>)))"

definition upsert_shadow_body ::
  "string \<Rightarrow> int \<Rightarrow> string \<Rightarrow> string \<Rightarrow> string \<Rightarrow> json option \<Rightarrow> int \<Rightarrow> shadow_row option body" where
  "upsert_shadow_body fresh now remote_id remote_job_id status payload state_epoch db =
     (case find_shadow db (remote_id, remote_job_id) of
        Some existing \<Rightarrow>
          if sh_suppressed existing \<noteq> None then Inr (None, db)
          else if sh_epoch existing > state_epoch then Inr (None, db)
          else
            let db' = db\<lparr>shadows := upd (\<lambda>s. sh_id s = sh_id existing)
              (\<lambda>s. s\<lparr>sh_status := status, sh_payload := payload, sh_epoch := state_epoch,
                 sh_updated := now\<rparr>) (shadows db)\<rparr>
            in Inr (find (\<lambda>s. sh_id s = sh_id existing) (shadows db'), db')
      | None \<Rightarrow>
          if (\<exists>s \<in> set (shadows db). sh_id s = fresh) then Inl IntegrityError
          else
            let row = \<lparr>sh_id = fresh, sh_remote = remote_id, sh_job = remote_job_id,
              sh_status = status, sh_payload = payload, sh_epoch = state_epoch, sh_suppressed = None,
              sh_superseded = None, sh_created = now, sh_updated = now\<rparr>
            in Inr (Some row, db\<lparr>shadows := shadows db @ [row]\<rparr>))"

definition upsert_shadow ::
  "string \<Rightarrow> int \<Rightarrow> string \<Rightarrow> string \<Rightarrow> string \<Rightarrow> json option \<Rightarrow> int \<Rightarrow> shadow_row option op" where
  "upsert_shadow fresh now remote_id remote_job_id status payload state_epoch =
     txn (upsert_shadow_body fresh now remote_id remote_job_id status payload state_epoch)"

definition current_shadows :: "string \<Rightarrow> controller_db \<Rightarrow> serr + shadow_row list" where
  "current_shadows remote_id db =
     (case find_remote db remote_id of
        None \<Rightarrow> Inl UnknownRemote
      | Some r \<Rightarrow> Inr (sort_key (sql_key \<circ> sh_created)
          (filter (\<lambda>s. sh_remote s = remote_id \<and> sh_suppressed s = None
             \<and> sh_superseded s = None \<and> sh_epoch s = rm_epoch r) (shadows db))))"

definition get_shadow :: "string \<Rightarrow> string \<Rightarrow> controller_db \<Rightarrow> serr + shadow_row" where
  "get_shadow remote_id remote_job_id db =
     (case find (\<lambda>s. shadow_key s = (remote_id, remote_job_id) \<and> sh_suppressed s = None) (shadows db) of
        None \<Rightarrow> Inl NoRow | Some s \<Rightarrow> Inr s)"

definition suppress_shadow :: "int \<Rightarrow> string \<Rightarrow> string \<Rightarrow> controller_db \<Rightarrow> controller_db" where
  "suppress_shadow now remote_id remote_job_id db =
     db\<lparr>shadows := upd (\<lambda>s. shadow_key s = (remote_id, remote_job_id))
       (\<lambda>s. s\<lparr>sh_suppressed := Some now, sh_updated := now\<rparr>) (shadows db)\<rparr>"

definition supersede_old_epochs :: "int \<Rightarrow> string \<Rightarrow> int \<Rightarrow> controller_db \<Rightarrow> nat \<times> controller_db" where
  "supersede_old_epochs now remote_id current_epoch db =
     (let old = (\<lambda>s. sh_remote s = remote_id \<and> sh_epoch s < current_epoch \<and> sh_superseded s = None)
      in (cnt old (shadows db),
          db\<lparr>shadows := upd old (\<lambda>s. s\<lparr>sh_superseded := Some now, sh_updated := now\<rparr>) (shadows db)\<rparr>))"

definition set_snapshot_cursor :: "int \<Rightarrow> string \<Rightarrow> json \<Rightarrow> controller_db \<Rightarrow> controller_db" where
  "set_snapshot_cursor now remote_id cursor =
     update_remote remote_id (\<lambda>r. r\<lparr>rm_snapshot_cursor := Some cursor, rm_updated := now\<rparr>)"

definition get_snapshot_cursor :: "string \<Rightarrow> controller_db \<Rightarrow> json option" where
  "get_snapshot_cursor remote_id db =
     (case find_remote db remote_id of None \<Rightarrow> None | Some r \<Rightarrow> rm_snapshot_cursor r)"

definition set_feed_cursor :: "int \<Rightarrow> string \<Rightarrow> json option \<Rightarrow> controller_db \<Rightarrow> controller_db" where
  "set_feed_cursor now remote_id cursor =
     update_remote remote_id (\<lambda>r. r\<lparr>rm_feed_cursor := cursor, rm_updated := now\<rparr>)"

definition get_feed_cursor :: "string \<Rightarrow> controller_db \<Rightarrow> json option" where
  "get_feed_cursor remote_id db =
     (case find_remote db remote_id of None \<Rightarrow> None | Some r \<Rightarrow> rm_feed_cursor r)"

section \<open>The keys of the tables\<close>

text \<open>
  The \<^verbatim>\<open>PRIMARY KEY\<close> and \<^verbatim>\<open>UNIQUE\<close> constraints.  The shadows have no \<^verbatim>\<open>UNIQUE(remote_id, remote_job_id)\<close>
  in the schema: that a job has one shadow is kept by the code.
\<close>

definition controller_ok :: "controller_db \<Rightarrow> bool" where
  "controller_ok db =
     (distinct (map rm_id (remotes db))
      \<and> distinct (map rq_id (requests db)) \<and> distinct (map (\<lambda>r. (rq_remote r, rq_key r)) (requests db))
      \<and> distinct (map tb_id (tombstones db)) \<and> distinct (map (\<lambda>t. (tb_remote t, tb_key t)) (tombstones db))
      \<and> distinct (map sh_id (shadows db)) \<and> distinct (map shadow_key (shadows db)))"

text \<open>The operations of the store that write, as calls; \<open>call\<close> is the database after one.\<close>

datatype controller_call =
    CreateRemote string int "string option" string string int "string option" "string option"
      "string option" string "string option" "string option" "string option"
  | UpdateRemoteState int string string
  | SetStateEpoch int string int
  | SetInstanceId int string string
  | RecordRequest string int string string string obj string "int option" "string option"
  | UpdateRequestStatus int string string "json option" "string option"
  | RecordTombstone string int string string string
  | PruneRequests int int
  | RecordSubmittingShadow string int string request_row
  | UpsertShadow string int string string string "json option" int
  | SuppressShadow int string string
  | SupersedeOldEpochs int string int
  | SetSnapshotCursor int string json
  | SetFeedCursor int string "json option"

fun call :: "controller_call \<Rightarrow> controller_db \<Rightarrow> controller_db" where
  "call (CreateRemote fresh now name target state epoch inst ctl cred pst kp kh at) db =
     snd (create_remote fresh now name target state epoch inst ctl cred pst kp kh at db)"
| "call (UpdateRemoteState now rid state) db = snd (update_remote_state now rid state db)"
| "call (SetStateEpoch now rid epoch) db = snd (set_state_epoch now rid epoch db)"
| "call (SetInstanceId now rid inst) db = snd (set_instance_id now rid inst db)"
| "call (RecordRequest fresh now rid key method payload digest epoch inst) db =
     snd (record_request fresh now rid key method payload digest epoch inst db)"
| "call (UpdateRequestStatus now rq status response error) db =
     snd (update_request_status now rq status response error db)"
| "call (RecordTombstone fresh now rid key digest) db = snd (record_replay_tombstone fresh now rid key digest db)"
| "call (PruneRequests now ttl) db = snd (prune_requests now ttl db)"
| "call (RecordSubmittingShadow fresh now rid request) db =
     snd (txn (record_submitting_shadow fresh now rid request) db)"
| "call (UpsertShadow fresh now rid job status payload epoch) db =
     snd (upsert_shadow fresh now rid job status payload epoch db)"
| "call (SuppressShadow now rid job) db = suppress_shadow now rid job db"
| "call (SupersedeOldEpochs now rid epoch) db = snd (supersede_old_epochs now rid epoch db)"
| "call (SetSnapshotCursor now rid cursor) db = set_snapshot_cursor now rid cursor db"
| "call (SetFeedCursor now rid cursor) db = set_feed_cursor now rid cursor db"

definition calls :: "controller_call list \<Rightarrow> controller_db \<Rightarrow> controller_db" where
  "calls cs db = fold call cs db"

lemma calls_simps [simp]: "calls [] db = db" "calls (c # cs) db = calls cs (call c db)"
  by (simp_all add: calls_def)

text \<open>What a call does to the requests: nothing, a new row, a step of one row's status, a pruning.\<close>

definition same_request :: "request_row \<Rightarrow> request_row \<Rightarrow> bool" where
  "same_request r r' =
     (rq_id r' = rq_id r \<and> rq_remote r' = rq_remote r \<and> rq_key r' = rq_key r \<and> rq_method r' = rq_method r
      \<and> rq_payload r' = rq_payload r \<and> rq_digest r' = rq_digest r \<and> rq_epoch r' = rq_epoch r
      \<and> rq_instance r' = rq_instance r \<and> rq_created r' = rq_created r)"

inductive rq_step :: "request_row list \<Rightarrow> request_row list \<Rightarrow> bool" where
  rq_same: "rq_step t t"
| rq_insert: "rq_id r \<notin> rq_id ` set t \<Longrightarrow> (rq_remote r, rq_key r) \<notin> (\<lambda>r. (rq_remote r, rq_key r)) ` set t \<Longrightarrow>
    rq_status r = ''creating'' \<Longrightarrow> rq_step t (t @ [r])"
| rq_update: "r \<in> set t \<Longrightarrow> moves ''request'' (rq_status r) st \<Longrightarrow>
    (\<And>q. same_request q (f q) \<and> rq_status (f q) = st) \<Longrightarrow> rq_step t (upd (\<lambda>q. rq_id q = rq_id r) f t)"
| rq_prune: "(\<And>r. P r \<Longrightarrow> settled (rq_status r)) \<Longrightarrow> rq_step t (del P t)"

text \<open>What a call does to the shadows: nothing, a new row, or updates that keep what is decided.\<close>

definition shadow_later :: "shadow_row \<Rightarrow> shadow_row \<Rightarrow> bool" where
  "shadow_later s s' =
     (sh_id s' = sh_id s \<and> shadow_key s' = shadow_key s \<and> sh_created s' = sh_created s
      \<and> sh_epoch s \<le> sh_epoch s' \<and> (sh_superseded s \<noteq> None \<longrightarrow> sh_superseded s' \<noteq> None)
      \<and> (sh_suppressed s \<noteq> None \<longrightarrow> sh_suppressed s' \<noteq> None \<and> sh_status s' = sh_status s
            \<and> sh_payload s' = sh_payload s \<and> sh_epoch s' = sh_epoch s))"

inductive sh_step :: "shadow_row list \<Rightarrow> shadow_row list \<Rightarrow> bool" where
  sh_same: "sh_step t t"
| sh_insert: "sh_id s \<notin> sh_id ` set t \<Longrightarrow> shadow_key s \<notin> shadow_key ` set t \<Longrightarrow>
    sh_suppressed s = None \<Longrightarrow> sh_superseded s = None \<Longrightarrow> sh_step t (t @ [s])"
| sh_update: "(\<And>s. s \<in> set t \<Longrightarrow> P s \<Longrightarrow> shadow_later s (f s)) \<Longrightarrow> sh_step t (upd P f t)"

inductive rm_step :: "remote_row list \<Rightarrow> remote_row list \<Rightarrow> bool" where
  rm_same: "rm_step t t"
| rm_insert: "rm_id r \<notin> rm_id ` set t \<Longrightarrow> rm_step t (t @ [r])"
| rm_update: "(\<And>r. rm_id (f r) = rm_id r) \<Longrightarrow> rm_step t (upd P f t)"

inductive tb_step :: "tombstone_row list \<Rightarrow> tombstone_row list \<Rightarrow> bool" where
  tb_same: "tb_step t t"
| tb_insert: "tb_id r \<notin> tb_id ` set t \<Longrightarrow> (tb_remote r, tb_key r) \<notin> (\<lambda>r. (tb_remote r, tb_key r)) ` set t \<Longrightarrow>
    tb_step t (t @ [r])"
| tb_prune: "tb_step t (del P t)"

definition store_step :: "controller_db \<Rightarrow> controller_db \<Rightarrow> bool" where
  "store_step db db' =
     (rm_step (remotes db) (remotes db') \<and> rq_step (requests db) (requests db')
      \<and> tb_step (tombstones db) (tombstones db') \<and> sh_step (shadows db) (shadows db'))"

lemma store_step_refl [simp]: "store_step db db"
  by (simp add: store_step_def rm_same rq_same tb_same sh_same)

lemma store_step_fields:
  "store_step db (db\<lparr>remotes := t\<rparr>) \<longleftrightarrow> rm_step (remotes db) t"
  "store_step db (db\<lparr>requests := u\<rparr>) \<longleftrightarrow> rq_step (requests db) u"
  "store_step db (db\<lparr>shadows := w\<rparr>) \<longleftrightarrow> sh_step (shadows db) w"
  "store_step db (db\<lparr>tombstones := v\<rparr>) \<longleftrightarrow> tb_step (tombstones db) v"
  "store_step db (db\<lparr>requests := u, tombstones := v\<rparr>) \<longleftrightarrow>
     rq_step (requests db) u \<and> tb_step (tombstones db) v"
  by (simp_all add: store_step_def rm_same rq_same tb_same sh_same)

lemma snd_get_remote [simp]: "snd (get_remote rid db) = db"
  by (simp add: get_remote_def split: option.splits)

lemma store_step_update_remote:
  "(\<And>r. rm_id (f r) = rm_id r) \<Longrightarrow> store_step db (update_remote rid f db)"
  by (simp add: update_remote_def store_step_fields rm_update)

lemma create_remote_step:
  "store_step db (snd (create_remote fresh now name target state epoch inst ctl cred pst kp kh at db))"
  by (auto simp: create_remote_def Let_def store_step_fields intro!: rm_insert)

lemma record_request_step:
  "store_step db (snd (record_request fresh now rid key method payload digest epoch inst db))"
  by (auto simp: record_request_def record_request_body_def Let_def store_step_fields snd_txn
      find_request_def find_None_iff split: option.splits intro!: rq_insert)

lemma update_request_status_step:
  "store_step db (snd (update_request_status now rq status response error db))"
proof (cases "find (\<lambda>r. rq_id r = rq) (requests db)")
  case None
  then show ?thesis by (simp add: update_request_status_def update_request_status_body_def snd_txn)
next
  case (Some row)
  then have row: "row \<in> set (requests db)" "rq_id row = rq" by (auto dest: find_SomeD)
  show ?thesis
  proof (cases "transition ''request'' (rq_status row) status")
    case (Inl e)
    with Some show ?thesis by (simp add: update_request_status_def update_request_status_body_def snd_txn)
  next
    case (Inr st)
    then have st: "st = status" by (auto simp: request_table)
    have "moves ''request'' (rq_status row) status" using Inr st by (auto intro: moves.intros)
    with row Some Inr show ?thesis
      by (auto simp: update_request_status_def update_request_status_body_def snd_txn Let_def
          store_step_fields same_request_def split: option.splits intro!: rq_update)
  qed
qed

lemma record_replay_tombstone_step:
  "store_step db (snd (record_replay_tombstone fresh now rid key digest db))"
  by (auto simp: record_replay_tombstone_def snd_txn Let_def store_step_fields find_None_iff
      split: option.splits intro!: tb_insert)

lemma prune_requests_step: "store_step db (snd (prune_requests now ttl db))"
  by (auto simp: prune_requests_def Let_def store_step_fields intro!: rq_prune tb_prune)

lemma record_submitting_shadow_step:
  "store_step db (snd (txn (record_submitting_shadow fresh now rid request) db))"
  by (auto simp: record_submitting_shadow_def snd_txn Let_def store_step_fields find_shadow_def
      find_None_iff shadow_key_def split: option.splits intro!: sh_insert)

lemma upsert_shadow_step:
  assumes "distinct (map sh_id (shadows db))"
  shows "store_step db (snd (upsert_shadow fresh now rid job status payload epoch db))"
proof (cases "find_shadow db (rid, job)")
  case None
  then have "(rid, job) \<notin> shadow_key ` set (shadows db)" by (auto simp: find_shadow_def find_None_iff)
  with None show ?thesis
    by (auto simp: upsert_shadow_def upsert_shadow_body_def snd_txn Let_def store_step_fields
        shadow_key_def intro!: sh_insert)
next
  case (Some s)
  then have s: "s \<in> set (shadows db)" by (auto simp: find_shadow_def dest: find_SomeD)
  have u: "q \<in> set (shadows db) \<Longrightarrow> sh_id q = sh_id s \<Longrightarrow> q = s" for q
    using key_unique [OF assms _ s] by blast
  from Some show ?thesis
    by (auto simp: upsert_shadow_def upsert_shadow_body_def snd_txn Let_def store_step_fields
        shadow_later_def shadow_key_def dest: u intro!: sh_update)
qed

lemma suppress_shadow_step: "store_step db (suppress_shadow now rid job db)"
  by (auto simp: suppress_shadow_def store_step_fields shadow_later_def shadow_key_def intro!: sh_update)

lemma supersede_old_epochs_step: "store_step db (snd (supersede_old_epochs now rid epoch db))"
  by (auto simp: supersede_old_epochs_def Let_def store_step_fields shadow_later_def shadow_key_def
      intro!: sh_update)

lemma remote_writes_step:
  "store_step db (snd (update_remote_state now rid state db))"
  "store_step db (snd (set_state_epoch now rid epoch db))"
  "store_step db (snd (set_instance_id now rid inst db))"
  "store_step db (set_snapshot_cursor now rid c db)"
  "store_step db (set_feed_cursor now rid fc db)"
  by (auto simp: update_remote_state_def set_state_epoch_def set_instance_id_def set_snapshot_cursor_def
      set_feed_cursor_def split: option.splits sum.splits intro: store_step_update_remote)

lemmas store_steps = create_remote_step record_request_step update_request_status_step
  record_replay_tombstone_step prune_requests_step record_submitting_shadow_step upsert_shadow_step
  suppress_shadow_step supersede_old_epochs_step remote_writes_step

lemma call_step: "controller_ok db \<Longrightarrow> store_step db (call c db)"
  by (cases c) (simp_all add: store_steps controller_ok_def)

section \<open>What the steps keep\<close>

lemma distinct_map_upd: "(\<And>r. r \<in> set t \<Longrightarrow> P r \<Longrightarrow> k (f r) = k r) \<Longrightarrow> map k (upd P f t) = map k t"
  by (induction t) auto

lemma rq_step_keys:
  "rq_step t t' \<Longrightarrow> distinct (map rq_id t) \<and> distinct (map (\<lambda>r. (rq_remote r, rq_key r)) t) \<Longrightarrow>
   distinct (map rq_id t') \<and> distinct (map (\<lambda>r. (rq_remote r, rq_key r)) t')"
  by (induction rule: rq_step.induct) (auto simp: distinct_map_upd same_request_def distinct_map_del)

lemma sh_step_keys:
  "sh_step t t' \<Longrightarrow> distinct (map sh_id t) \<and> distinct (map shadow_key t) \<Longrightarrow>
   distinct (map sh_id t') \<and> distinct (map shadow_key t')"
  by (induction rule: sh_step.induct) (auto simp: distinct_map_upd shadow_later_def)

lemma rm_step_keys: "rm_step t t' \<Longrightarrow> distinct (map rm_id t) \<Longrightarrow> distinct (map rm_id t')"
  by (induction rule: rm_step.induct) (auto simp: distinct_map_upd)

lemma tb_step_keys:
  "tb_step t t' \<Longrightarrow> distinct (map tb_id t) \<and> distinct (map (\<lambda>r. (tb_remote r, tb_key r)) t) \<Longrightarrow>
   distinct (map tb_id t') \<and> distinct (map (\<lambda>r. (tb_remote r, tb_key r)) t')"
  by (induction rule: tb_step.induct) (auto simp: distinct_map_upd distinct_map_del)

lemma call_ok: "controller_ok db \<Longrightarrow> controller_ok (call c db)"
  using call_step [of db c] rq_step_keys [of "requests db" "requests (call c db)"]
    sh_step_keys [of "shadows db" "shadows (call c db)"] rm_step_keys [of "remotes db" "remotes (call c db)"]
    tb_step_keys [of "tombstones db" "tombstones (call c db)"]
  by (simp add: controller_ok_def store_step_def)

lemma calls_ok: "controller_ok db \<Longrightarrow> controller_ok (calls cs db)"
  by (induction cs arbitrary: db) (auto intro: call_ok)

text \<open>A request keeps its identity and moves along its machine, or is settled when it disappears.\<close>

lemma rq_step_row:
  assumes "rq_step t t'" "r \<in> set t" "distinct (map rq_id t)"
  obtains (gone) "settled (rq_status r)"
  | (kept) r' where "r' \<in> set t'" "same_request r r'"
      "rq_status r' = rq_status r \<or> moves ''request'' (rq_status r) (rq_status r')"
  using assms
proof (induction rule: rq_step.induct)
  case (rq_update q t st f)
  show ?case
  proof (cases "rq_id r = rq_id q")
    case True
    with rq_update.prems rq_update.hyps(1) have "r = q" by (auto dest: key_unique)
    with rq_update.hyps rq_update.prems(2) show ?thesis
      using upd_hit [of q t "\<lambda>p. rq_id p = rq_id q" f] by simp
  next
    case False
    with rq_update.prems(2,3) show ?thesis
      using upd_miss [of r t "\<lambda>p. rq_id p = rq_id q" f] by (simp add: same_request_def)
  qed
qed (auto simp: same_request_def)

lemma settled_final: "settled st \<Longrightarrow> \<not> moves ''request'' st u"
  by (auto simp: settled_def moves_tables)

lemma same_request_trans: "same_request a b \<Longrightarrow> same_request b c \<Longrightarrow> same_request a c"
  by (simp add: same_request_def)

text \<open>The row of a request after some of the calls.\<close>

definition request_now :: "request_row \<Rightarrow> controller_db \<Rightarrow> request_row \<Rightarrow> bool" where
  "request_now r db r' =
     (r' \<in> set (requests db) \<and> same_request r r' \<and> rtranclp (moves ''request'') (rq_status r) (rq_status r'))"

lemma request_now_refl: "r \<in> set (requests db) \<Longrightarrow> request_now r db r"
  by (simp add: request_now_def same_request_def)

lemma request_now_trans: "request_now a db' b \<Longrightarrow> request_now b db c \<Longrightarrow> request_now a db c"
  unfolding request_now_def by (blast intro: same_request_trans rtranclp_trans)

lemma call_request:
  assumes "controller_ok db" "r \<in> set (requests db)" "\<not> settled (rq_status r)"
  obtains r' where "request_now r (call c db) r'"
proof -
  have "rq_step (requests db) (requests (call c db))" "distinct (map rq_id (requests db))"
    using assms(1) call_step [of db c] by (simp_all add: store_step_def controller_ok_def)
  from this(1) assms(2) this(2) show ?thesis
  proof (cases rule: rq_step_row)
    case gone
    with assms(3) show ?thesis by blast
  next
    case (kept r')
    then have "request_now r (call c db) r'" by (auto simp: request_now_def)
    then show ?thesis by (rule that)
  qed
qed

lemma calls_request:
  assumes "controller_ok db" "r \<in> set (requests db)"
  shows "(\<exists>r'. request_now r (calls cs db) r')
         \<or> (\<exists>ds es r'. cs = ds @ es \<and> request_now r (calls ds db) r' \<and> settled (rq_status r'))"
  using assms
proof (induction cs arbitrary: db r)
  case Nil
  then show ?case by (auto intro: request_now_refl)
next
  case (Cons c cs)
  show ?case
  proof (cases "settled (rq_status r)")
    case True
    then have "request_now r (calls [] db) r \<and> c # cs = [] @ (c # cs)"
      using Cons.prems(2) by (simp add: request_now_refl)
    with True show ?thesis by blast
  next
    case False
    from call_request [OF Cons.prems False] obtain r1 where r1: "request_now r (call c db) r1" .
    then have "r1 \<in> set (requests (call c db))" by (simp add: request_now_def)
    from Cons.IH [OF call_ok [OF Cons.prems(1)] this]
    consider r' where "request_now r1 (calls cs (call c db)) r'"
      | ds es r' where "cs = ds @ es" "request_now r1 (calls ds (call c db)) r'" "settled (rq_status r')"
      by blast
    then show ?thesis
    proof cases
      case 1
      with r1 have "request_now r (calls (c # cs) db) r'" by (simp add: request_now_trans)
      then show ?thesis by blast
    next
      case 2
      then have "c # cs = (c # ds) @ es \<and> request_now r (calls (c # ds) db) r' \<and> settled (rq_status r')"
        using r1 by (auto intro: request_now_trans)
      then show ?thesis by blast
    qed
  qed
qed

text \<open>A shadow is never deleted, and what is decided about it stays.\<close>

lemma shadow_later_refl: "shadow_later s s"
  by (simp add: shadow_later_def)

lemma sh_step_row:
  "sh_step t t' \<Longrightarrow> s \<in> set t \<Longrightarrow> \<exists>s' \<in> set t'. shadow_later s s'"
proof (induction rule: sh_step.induct)
  case (sh_update t P f)
  then show ?case
    using upd_hit [of s t P f] upd_miss [of s t P f] by (cases "P s") (auto intro: shadow_later_refl)
qed (auto intro: shadow_later_refl)

lemma shadow_later_trans: "shadow_later a b \<Longrightarrow> shadow_later b c \<Longrightarrow> shadow_later a c"
  by (auto simp: shadow_later_def)

lemma calls_shadow:
  "controller_ok db \<Longrightarrow> s \<in> set (shadows db) \<Longrightarrow> \<exists>s' \<in> set (shadows (calls cs db)). shadow_later s s'"
proof (induction cs arbitrary: db s)
  case Nil
  then show ?case by (auto simp: shadow_later_def)
next
  case (Cons c cs)
  from Cons.prems obtain s1 where "s1 \<in> set (shadows (call c db))" "shadow_later s s1"
    using call_step [of db c] sh_step_row [of "shadows db" "shadows (call c db)" s]
    by (auto simp: store_step_def)
  with Cons.IH [OF call_ok [OF Cons.prems(1)], of s1] show ?case
    by (auto intro: shadow_later_trans)
qed

lemma shadow_of_key:
  assumes "controller_ok db" "s \<in> set (shadows db)"
  shows "find_shadow db (shadow_key s) = Some s"
  using assms find_key [of shadow_key "shadows db" s] by (simp add: controller_ok_def find_shadow_def)

section \<open>The request table is a request log\<close>

lemma find_request_append:
  "find_request (db\<lparr>requests := requests db @ [row]\<rparr>) k =
     (case find_request db k of
        None \<Rightarrow> if (rq_remote row, rq_key row) = k then Some row else None
      | Some r \<Rightarrow> Some r)"
  by (simp add: find_request_def find_append split: option.splits)

lemma record_request_cases:
  assumes "record_request fresh now rid key method payload digest epoch inst db = (res, db')"
  obtains (error) e where "res = Inl e" "db' = db"
  | (hit) r where "res = Inr r" "find_request db (rid, key) = Some r" "rq_digest r = digest" "db' = db"
  | (new) r where "res = Inr r" "find_request db (rid, key) = None" "rq_id r = fresh" "rq_remote r = rid"
      "rq_key r = key" "rq_digest r = digest" "rq_status r = ''creating''"
      "db' = db\<lparr>requests := requests db @ [r]\<rparr>"
proof (cases "find_remote db rid")
  case None
  with assms show ?thesis by (auto simp: record_request_def intro: error)
next
  case (Some rm)
  show ?thesis
  proof (cases "find_request db (rid, key)")
    case (Some r)
    with \<open>find_remote db rid = Some rm\<close> assms show ?thesis
      by (cases "rq_digest r = digest")
        (auto simp: record_request_def record_request_body_def txn_def intro: error hit)
  next
    case None
    with \<open>find_remote db rid = Some rm\<close> assms show ?thesis
      by (cases "\<exists>r \<in> set (requests db). rq_id r = fresh")
        (auto simp: record_request_def record_request_body_def txn_def Let_def intro: error new)
  qed
qed

lemma record_request_ok:
  "controller_ok db \<Longrightarrow> controller_ok (snd (record_request fresh now rid key method payload digest epoch inst db))"
  using call_ok [of db "RecordRequest fresh now rid key method payload digest epoch inst"] by simp

type_synonym request_args = "string \<times> int \<times> string \<times> obj \<times> int option \<times> string option"

fun record_keyed :: "string \<times> string \<Rightarrow> string \<Rightarrow> request_args \<Rightarrow> request_row op" where
  "record_keyed (rid, key) digest (fresh, now, method, payload, epoch, inst) =
     record_request fresh now rid key method payload digest epoch inst"

lemma record_keyed_ok:
  assumes "controller_ok db" "record_keyed k d x db = (Inr r, db')"
  shows "controller_ok db' \<and> find_request db' k = Some r \<and> rq_digest r = d
    \<and> (\<forall>l. l \<noteq> k \<longrightarrow> find_request db' l = find_request db l)
    \<and> (\<forall>q. find_request db k = Some q \<longrightarrow> r = q \<and> db' = db)"
proof -
  obtain rid key fresh now meth payload epoch inst
    where kx: "k = (rid, key)" "x = (fresh, now, meth, payload, epoch, inst)"
    by (cases k; cases x) auto
  with assms(2) have c: "record_request fresh now rid key meth payload d epoch inst db = (Inr r, db')"
    by simp
  have "controller_ok db'" using record_request_ok [OF assms(1)] c by (metis snd_conv)
  with c show ?thesis
    by (cases rule: record_request_cases) (auto simp: kx find_request_append split: option.splits)
qed

lemma record_keyed_err: "record_keyed k d x db = (Inl e, db') \<Longrightarrow> db' = db"
  by (cases k; cases x) (auto elim!: record_request_cases)

interpretation controller_log: request_log find_request rq_digest record_keyed controller_ok
proof unfold_locales
  fix s k d x r s'
  assume i: "controller_ok s" and c: "record_keyed k d x s = (Inr r, s')"
  note ok = record_keyed_ok [OF i c]
  then show "controller_ok s' \<and> find_request s' k = Some r \<and> rq_digest r = d
      \<and> (\<forall>l. l \<noteq> k \<longrightarrow> find_request s' l = find_request s l)" by blast
next
  fix s k r d x r' s'
  assume "controller_ok s" "find_request s k = Some r" "record_keyed k d x s = (Inr r', s')"
  then show "r' = r \<and> s' = s" using record_keyed_ok [of s k d x r' s'] by blast
qed (rule record_keyed_err)

text \<open>A paired remote is never deleted by these calls.\<close>

lemma rm_step_kept: "rm_step t t' \<Longrightarrow> rm_id ` set t \<subseteq> rm_id ` set t'"
proof (induction rule: rm_step.induct)
  case (rm_update f t P)
  then have "map rm_id (upd P f t) = map rm_id t" by (rule map_upd_same)
  then show ?case by (metis list.set_map order_refl)
qed auto

lemma calls_remote_kept:
  "controller_ok db \<Longrightarrow> rid \<in> rm_id ` set (remotes db) \<Longrightarrow> rid \<in> rm_id ` set (remotes (calls cs db))"
proof (induction cs arbitrary: db)
  case (Cons c cs)
  from call_step [OF Cons.prems(1), of c] Cons.prems(2) have "rid \<in> rm_id ` set (remotes (call c db))"
    by (auto simp: store_step_def dest: rm_step_kept)
  with Cons.IH [OF call_ok [OF Cons.prems(1)], of c] show ?case by simp
qed simp

lemma find_remote_None: "find_remote db rid = None \<longleftrightarrow> rid \<notin> rm_id ` set (remotes db)"
  by (auto simp: find_remote_def find_None_iff)

lemma request_of_key:
  assumes "controller_ok db" "r \<in> set (requests db)"
  shows "find_request db (rq_remote r, rq_key r) = Some r"
  using assms find_key [of "\<lambda>r. (rq_remote r, rq_key r)" "requests db" r]
  by (simp add: controller_ok_def find_request_def)

section \<open>Properties\<close>

text \<open>
  C6. A request is recorded once: after a call that recorded a key, whatever calls of any kind
  follow, the same key is answered with the same request (its status having moved along its
  machine) without writing anything, and the same key under another digest is refused as a replay
  mismatch, as long as the request was not settled in between (which allows its pruning).
\<close>

theorem request_recorded_once:
  assumes "controller_ok db"
    and "record_request fresh now rid key method payload digest epoch inst db = (Inr r, db1)"
    and "\<nexists>ds es r'. cs = ds @ es \<and> request_now r (calls ds db1) r' \<and> settled (rq_status r')"
  shows "\<exists>r'. request_now r (calls cs db1) r'
      \<and> record_request fresh' now' rid key method' payload' digest' epoch' inst' (calls cs db1)
        = (if digest' = digest then Inr r' else Inl ReplayMismatch, calls cs db1)"
proof -
  have ok1: "controller_ok db1" using record_request_ok [OF assms(1)] assms(2) by (metis snd_conv)
  have keyed: "record_keyed (rid, key) digest (fresh, now, method, payload, epoch, inst) db = (Inr r, db1)"
    using assms(2) by simp
  from record_keyed_ok [OF assms(1) this] have r: "find_request db1 (rid, key) = Some r" "rq_digest r = digest"
    by auto
  then have mem: "r \<in> set (requests db1)" and k: "rq_remote r = rid" "rq_key r = key"
    by (auto simp: find_request_def dest: find_SomeD)
  from calls_request [OF ok1 mem, of cs] assms(3) obtain r' where r': "request_now r (calls cs db1) r'" by blast
  then have "find_request (calls cs db1) (rid, key) = Some r'" "rq_digest r' = digest"
    using request_of_key [OF calls_ok [OF ok1], of r' cs] k r(2)
    by (simp_all add: request_now_def same_request_def)
  moreover have "find_remote (calls cs db1) rid \<noteq> None"
  proof -
    have "find_remote db rid \<noteq> None" using assms(2) by (auto simp: record_request_def split: if_splits)
    moreover have "remotes db1 = remotes db"
      using assms(2) by (cases rule: record_request_cases) auto
    ultimately show ?thesis
      using calls_remote_kept [OF ok1, of rid cs] by (simp add: find_remote_None)
  qed
  ultimately show ?thesis
    using r' by (auto simp: record_request_def record_request_body_def txn_def)
qed

definition demo_remote :: remote_row where
  "demo_remote = \<lparr>rm_id = ''rmt_1'', rm_name = None, rm_target = ''host'', rm_state = ''paired'', rm_epoch = 2,
     rm_instance = None, rm_controller = None, rm_credential_state = None, rm_pairing_state = ''idle'',
     rm_key_path = None, rm_known_hosts_path = None, rm_installed_at = None, rm_snapshot_cursor = None,
     rm_feed_cursor = None, rm_created = 0, rm_updated = 0\<rparr>"

definition demo_shadow :: shadow_row where
  "demo_shadow = \<lparr>sh_id = ''shd_1'', sh_remote = ''rmt_1'', sh_job = ''job_1'', sh_status = ''running'',
     sh_payload = None, sh_epoch = 2, sh_suppressed = Some 5, sh_superseded = None, sh_created = 1,
     sh_updated = 5\<rparr>"

definition demo_db :: controller_db where
  "demo_db = \<lparr>remotes = [demo_remote], requests = [], tombstones = [], shadows = [demo_shadow]\<rparr>"

lemma demo_ok: "controller_ok demo_db"
  by (simp add: controller_ok_def demo_db_def)

lemma demo_found: "find_shadow demo_db (''rmt_1'', ''job_1'') = Some demo_shadow"
  by code_simp

definition demo_request :: request_row where
  "demo_request = \<lparr>rq_id = ''req_1'', rq_remote = ''rmt_1'', rq_key = ''k'', rq_method = ''job_status'',
     rq_payload = [], rq_digest = ''d'', rq_status = ''creating'', rq_epoch = None, rq_instance = None,
     rq_response = None, rq_error = None, rq_created = 1, rq_updated = 1\<rparr>"

definition demo_submit :: controller_call where
  "demo_submit = UpdateRequestStatus 2 ''req_1'' ''submitting'' None None"

lemma demo_recorded:
  "record_request ''req_1'' 1 ''rmt_1'' ''k'' ''job_status'' [] ''d'' None None demo_db
     = (Inr demo_request, demo_db\<lparr>requests := [demo_request]\<rparr>)"
  by code_simp

lemma demo_submitted:
  "requests (calls [demo_submit] (demo_db\<lparr>requests := [demo_request]\<rparr>))
     = [demo_request\<lparr>rq_status := ''submitting'', rq_updated := 2\<rparr>]"
  by code_simp

lemma demo_unsettled:
  "\<nexists>ds es r'. [demo_submit] = ds @ es
     \<and> request_now demo_request (calls ds (demo_db\<lparr>requests := [demo_request]\<rparr>)) r' \<and> settled (rq_status r')"
proof -
  have "\<not> settled (rq_status r')"
    if "[demo_submit] = ds @ es" "request_now demo_request (calls ds (demo_db\<lparr>requests := [demo_request]\<rparr>)) r'"
    for ds es r'
  proof -
    have "ds = [] \<or> ds = [demo_submit]" using that(1) by (auto simp: Cons_eq_append_conv)
    then have "r' \<in> {demo_request, demo_request\<lparr>rq_status := ''submitting'', rq_updated := 2\<rparr>}"
      using that(2) demo_submitted by (auto simp: request_now_def)
    then show ?thesis by (auto simp: settled_def demo_request_def)
  qed
  then show ?thesis by blast
qed

lemma request_recorded_once_witness:
  "fst (record_request ''req_2'' 9 ''rmt_1'' ''k'' ''job_status'' [] ''e'' None None
     (calls [demo_submit] (demo_db\<lparr>requests := [demo_request]\<rparr>))) = Inl ReplayMismatch"
  using request_recorded_once [OF demo_ok demo_recorded demo_unsettled,
      of "''req_2''" 9 "''job_status''" "[]" "''e''" None None] by auto

text \<open>
  C7. Forgetting is final: whatever calls follow (snapshots of any epoch included), a suppressed
  shadow is never shown again by either read path and its content never changes, and an upsert for its
  job writes nothing and reports nothing.
\<close>

theorem forgotten_shadow_stays_forgotten:
  assumes "controller_ok db" "find_shadow db (rid, job) = Some s" "sh_suppressed s \<noteq> None"
  shows "get_shadow rid job (calls cs db) = Inl NoRow
    \<and> (\<forall>vis. current_shadows rid (calls cs db) = Inr vis \<longrightarrow> job \<notin> sh_job ` set vis)
    \<and> upsert_shadow fresh now rid job status payload epoch (calls cs db) = (Inr None, calls cs db)"
proof -
  let ?db = "calls cs db"
  have s: "s \<in> set (shadows db)" "shadow_key s = (rid, job)"
    using assms(2) by (auto simp: find_shadow_def dest: find_SomeD)
  from calls_shadow [OF assms(1) s(1)] obtain s' where
    s': "s' \<in> set (shadows ?db)" "shadow_later s s'" by blast
  then have k: "shadow_key s' = (rid, job)" and sup: "sh_suppressed s' \<noteq> None"
    using s(2) assms(3) by (auto simp: shadow_later_def)
  have ok: "controller_ok ?db" using assms(1) by (rule calls_ok)
  have only: "q = s'" if "q \<in> set (shadows ?db)" "shadow_key q = (rid, job)" for q
    using key_unique [of shadow_key "shadows ?db" q s'] ok that s' k by (simp add: controller_ok_def)
  have "find (\<lambda>s. shadow_key s = (rid, job) \<and> sh_suppressed s = None) (shadows ?db) = None"
    using only sup by (auto simp: find_None_iff)
  moreover have "find_shadow ?db (rid, job) = Some s'"
    using shadow_of_key [OF ok s'(1)] k by simp
  ultimately show ?thesis
    using only sup
    by (auto simp: get_shadow_def current_shadows_def upsert_shadow_def upsert_shadow_body_def txn_def
        shadow_key_def split: option.splits)
qed

lemma forgotten_shadow_stays_forgotten_witness:
  "get_shadow ''rmt_1'' ''job_1'' (calls [UpsertShadow ''shd_2'' 9 ''rmt_1'' ''job_1'' ''done'' None 3] demo_db) = Inl NoRow"
  by (rule forgotten_shadow_stays_forgotten [OF demo_ok demo_found, THEN conjunct1]) (simp add: demo_shadow_def)

text \<open>
  The timeline of a shadow never goes back: whatever calls follow, the job keeps its one shadow,
  its epoch never decreases, and an upsert bound to an older epoch writes nothing and reports nothing.
\<close>

theorem shadow_epoch_never_regresses:
  assumes "controller_ok db" "find_shadow db (rid, job) = Some s"
  shows "\<exists>s'. find_shadow (calls cs db) (rid, job) = Some s' \<and> sh_id s' = sh_id s \<and> sh_epoch s \<le> sh_epoch s'
    \<and> (epoch < sh_epoch s' \<longrightarrow>
         upsert_shadow fresh now rid job status payload epoch (calls cs db) = (Inr None, calls cs db))"
proof -
  have s: "s \<in> set (shadows db)" "shadow_key s = (rid, job)"
    using assms(2) by (auto simp: find_shadow_def dest: find_SomeD)
  from calls_shadow [OF assms(1) s(1)] obtain s' where
    s': "s' \<in> set (shadows (calls cs db))" "shadow_later s s'" by blast
  with shadow_of_key [OF calls_ok [OF assms(1)] s'(1)] s(2)
  have f: "find_shadow (calls cs db) (rid, job) = Some s'" by (simp add: shadow_later_def)
  then have "epoch < sh_epoch s' \<longrightarrow>
      upsert_shadow fresh now rid job status payload epoch (calls cs db) = (Inr None, calls cs db)"
    by (simp add: upsert_shadow_def upsert_shadow_body_def txn_def)
  with f s'(2) show ?thesis by (auto simp: shadow_later_def)
qed

lemma shadow_epoch_never_regresses_witness:
  "\<exists>s'. find_shadow (calls [SupersedeOldEpochs 7 ''rmt_1'' 3] demo_db) (''rmt_1'', ''job_1'') = Some s'
     \<and> sh_id s' = ''shd_1'' \<and> 2 \<le> sh_epoch s'"
proof -
  have e: "sh_id demo_shadow = ''shd_1''" "sh_epoch demo_shadow = 2" by (simp_all add: demo_shadow_def)
  show ?thesis
    using shadow_epoch_never_regresses [OF demo_ok demo_found, of "[SupersedeOldEpochs 7 ''rmt_1'' 3]"]
    unfolding e by blast
qed

end
