(* ===== verification/PyJson.thy ===== *)
theory PyJson
  imports CanonicalJson
begin

text \<open>
  What the program uses of Python's \<^verbatim>\<open>json\<close> module and of Python's dynamic values: truth values, the
  \<^verbatim>\<open>or\<close> chain, number tests, and \<^verbatim>\<open>json.dumps(value, separators=(",", ":"))\<close> with its default
  \<^verbatim>\<open>ensure_ascii\<close>, which keeps the key order and writes every character outside
  printable ASCII as an escape.
\<close>

section \<open>Dynamic values\<close>

fun is_set :: "json \<Rightarrow> bool" where
  "is_set JNull = False"
| "is_set (JBool b) = b"
| "is_set (JInt i) = (i \<noteq> 0)"
| "is_set (JFloat f) = (f \<noteq> ''0.0'' \<and> f \<noteq> ''-0.0'')"
| "is_set (JStr s) = (s \<noteq> [])"
| "is_set (JArr xs) = (xs \<noteq> [])"
| "is_set (JObj d) = (d \<noteq> [])"

definition por :: "json \<Rightarrow> json \<Rightarrow> json" where
  "por a b = (if is_set a then a else b)"

lemma is_set_por [simp]: "is_set (por a b) \<longleftrightarrow> is_set a \<or> is_set b"
  by (simp add: por_def)

text \<open>\<^verbatim>\<open>isinstance(x, (int, float))\<close>: a Boolean is an integer.\<close>

fun is_number :: "json \<Rightarrow> bool" where
  "is_number (JBool b) = True"
| "is_number (JInt i) = True"
| "is_number (JFloat f) = True"
| "is_number j = False"

fun str_of :: "json \<Rightarrow> string option" where
  "str_of (JStr s) = Some s"
| "str_of j = None"

fun obj_of :: "json \<Rightarrow> obj" where
  "obj_of (JObj d) = d"
| "obj_of j = []"

definition jstr_opt :: "string option \<Rightarrow> json" where
  "jstr_opt v = (case v of None \<Rightarrow> JNull | Some s \<Rightarrow> JStr s)"

lemma str_of_Some [simp]: "str_of j = Some s \<longleftrightarrow> j = JStr s"
  by (cases j) auto

section \<open>Writing JSON\<close>

text \<open>The code points of a UTF-8 text, and \<^verbatim>\<open>\uXXXX\<close> with a surrogate pair above \<^verbatim>\<open>0xFFFF\<close>.\<close>

definition cont :: "char \<Rightarrow> nat" where
  "cont c = of_char c mod 64"

fun code_points :: "string \<Rightarrow> nat list" where
  "code_points [] = []"
| "code_points (a # s) =
     (let n = (of_char a :: nat) in
      if n < 128 then n # code_points s
      else if n < 224 then (case s of b # t \<Rightarrow> ((n mod 32) * 64 + cont b) # code_points t | _ \<Rightarrow> [n])
      else if n < 240 then
        (case s of b # c # t \<Rightarrow> ((n mod 16) * 4096 + cont b * 64 + cont c) # code_points t | _ \<Rightarrow> [n])
      else
        (case s of b # c # d # t \<Rightarrow>
           ((n mod 8) * 262144 + cont b * 4096 + cont c * 64 + cont d) # code_points t
         | _ \<Rightarrow> [n]))"

definition u_escape :: "nat \<Rightarrow> string" where
  "u_escape n = CHR 0x5C # CHR ''u'' # hexpad 4 n"

definition dumps_char :: "nat \<Rightarrow> string" where
  "dumps_char n =
     (if n = 34 then [CHR 0x5C, CHR 0x22]
      else if n = 92 then [CHR 0x5C, CHR 0x5C]
      else if n = 10 then [CHR 0x5C, CHR ''n'']
      else if n = 13 then [CHR 0x5C, CHR ''r'']
      else if n = 9 then [CHR 0x5C, CHR ''t'']
      else if n = 12 then [CHR 0x5C, CHR ''f'']
      else if n = 8 then [CHR 0x5C, CHR ''b'']
      else if 32 \<le> n \<and> n < 127 then [char_of n]
      else if n < 65536 then u_escape n
      else u_escape (55296 + (n - 65536) div 1024) @ u_escape (56320 + (n - 65536) mod 1024))"

definition dumps_string :: "string \<Rightarrow> string" where
  "dumps_string s = CHR 0x22 # concat (map dumps_char (code_points s)) @ [CHR 0x22]"

definition dumps_float :: "string \<Rightarrow> string" where
  "dumps_float r = (if r = ''nan'' then ''NaN'' else if r = ''inf'' then ''Infinity''
     else if r = ''-inf'' then ''-Infinity'' else r)"

fun dumps :: "json \<Rightarrow> string"
  and dumps_list :: "json list \<Rightarrow> string list"
  and dumps_items :: "obj \<Rightarrow> string list" where
  "dumps JNull = ''null''"
| "dumps (JBool b) = (if b then ''true'' else ''false'')"
| "dumps (JInt i) = int_str i"
| "dumps (JFloat r) = dumps_float r"
| "dumps (JStr s) = dumps_string s"
| "dumps (JArr xs) = ''['' @ join '','' (dumps_list xs) @ '']''"
| "dumps (JObj kvs) = ''{'' @ join '','' (dumps_items kvs) @ ''}''"
| "dumps_list [] = []"
| "dumps_list (x # xs) = dumps x # dumps_list xs"
| "dumps_items [] = []"
| "dumps_items ((k, v) # kvs) = (dumps_string k @ '':'' @ dumps v) # dumps_items kvs"

text \<open>Everything written is ASCII, so a length in characters is a length in bytes.\<close>

definition ascii :: "string \<Rightarrow> bool" where
  "ascii s = list_all (\<lambda>c. (of_char c :: nat) < 128) s"

lemma ascii_simps [simp]:
  "ascii []" "ascii (c # s) \<longleftrightarrow> (of_char c :: nat) < 128 \<and> ascii s"
  "ascii (s @ t) \<longleftrightarrow> ascii s \<and> ascii t"
  by (simp_all add: ascii_def)

lemma ascii_length: "ascii s \<Longrightarrow> pylen s = length s"
proof (induction s)
  case (Cons c s)
  then have "\<not> utf8_cont c" by (simp add: utf8_cont_def)
  with Cons show ?case by (simp add: pylen_def)
qed (simp add: pylen_def)

end
