(* ===== verification/Schema.thy ===== *)
theory Schema
  imports PyJson Timestamps
begin

text \<open>
  The tables of the daemon's database (\<^verbatim>\<open>_create_latest_schema\<close> of \<^verbatim>\<open>src/vanth/migrations.py\<close>)
  that the job supervisor, the event log, the wake deliveries and the decisions use.  A column of
  JSON text holds the value, a column of times the instant, a flag of 0 and 1 a Boolean, a column
  that may be \<^verbatim>\<open>NULL\<close> an option.  A guarded \<^verbatim>\<open>UPDATE\<close> is \<open>upd\<close> on the table, its row count \<open>cnt\<close>.
\<close>

record job_row =
  jb_id :: string
  jb_name :: "string option"
  jb_command :: string
  jb_cwd :: "string option"
  jb_status :: string
  jb_pid :: "int option"
  jb_worker :: "int option"
  jb_heartbeat :: "int option"
  jb_stop_at :: "int option"
  jb_created :: int
  jb_updated :: int
  jb_started :: "int option"
  jb_ended :: "int option"
  jb_exit :: "int option"
  jb_timeout :: "int option"
  jb_notify_on :: "string list"
  jb_tags :: "string list"
  jb_env :: obj
  jb_notes :: "string option"
  jb_interactive :: bool
  jb_trigger :: "json option"
  jb_policy :: "json option"
  jb_state :: "obj option"
  jb_disabled :: bool
  jb_token :: "string option"
  jb_stop_actor :: "string option"
  jb_stop_reason :: "string option"
  jb_secret_env :: "string list"
  jb_pool :: "string option"
  jb_priority :: int
  jb_paused :: bool
  jb_schedule :: "string option"

record pool_row =
  pl_name :: string
  pl_max :: int
  pl_paused :: bool
  pl_created :: int
  pl_updated :: int

record event_row =
  ev_id :: string
  ev_job :: string
  ev_seq :: int
  ev_type :: string
  ev_level :: string
  ev_message :: "string option"
  ev_data :: obj
  ev_source :: string
  ev_created :: int

record target_row =
  tg_id :: string
  tg_job :: string
  tg_remote :: "string option"
  tg_type :: string
  tg_events :: "string list"
  tg_config :: obj
  tg_created :: int

record metric_row =
  ms_id :: string
  ms_job :: string
  ms_metric :: string
  ms_x :: json
  ms_y :: json
  ms_stage :: "string option"
  ms_event :: string
  ms_seq :: int
  ms_created :: int

record delivery_row =
  dl_id :: string
  dl_event :: string
  dl_target :: string
  dl_job :: string
  dl_type :: string
  dl_status :: string
  dl_attempts :: int
  dl_payload :: obj
  dl_created :: int
  dl_next :: "int option"
  dl_delivered :: "int option"
  dl_error :: "string option"
  dl_token :: "string option"
  dl_claimed :: "int option"
  dl_lease :: "int option"
  dl_client :: "string option"

record attempt_row =
  at_id :: string
  at_delivery :: string
  at_attempt :: int
  at_token :: "string option"
  at_type :: string
  at_started :: "int option"
  at_ended :: "int option"
  at_status :: string
  at_error :: "string option"
  at_reclaimed :: bool
  at_created :: int

record relay_row =
  rl_client :: string
  rl_type :: string
  rl_destinations :: "json list"
  rl_updated :: int
  rl_poll :: "int option"

record decision_row =
  dc_id :: string
  dc_job :: string
  dc_prompt :: string
  dc_options :: "string list"
  dc_choice :: "string option"
  dc_status :: string
  dc_resolved_by :: "string option"
  dc_created :: int
  dc_expires :: "int option"
  dc_resolved :: "int option"

record cursor_row =
  cu_binding :: string
  cu_next :: int
  cu_updated :: int

record vanth_db =
  jobs :: "job_row list"
  pools :: "pool_row list"
  events :: "event_row list"
  series :: "metric_row list"
  targets :: "target_row list"
  deliveries :: "delivery_row list"
  attempts :: "attempt_row list"
  relays :: "relay_row list"
  decisions :: "decision_row list"
  cursors :: "cursor_row list"

definition TERMINAL_STATUSES :: "string list" where
  "TERMINAL_STATUSES = [''completed'', ''failed'', ''timeout'', ''cancelled'', ''orphaned'']"

definition terminal :: "string \<Rightarrow> bool" where
  "terminal s = (s \<in> set TERMINAL_STATUSES)"

definition active :: "string \<Rightarrow> bool" where
  "active s = (s = ''running'' \<or> s = ''launching'')"

lemma terminal_iff:
  "terminal s \<longleftrightarrow> s = ''completed'' \<or> s = ''failed'' \<or> s = ''timeout'' \<or> s = ''cancelled'' \<or> s = ''orphaned''"
  by (simp add: terminal_def TERMINAL_STATUSES_def)

lemma active_simps [simp]: "active ''running''" "active ''launching''" "\<not> active ''queued''"
    "\<not> active ''failed''" "\<not> active ''orphaned''" "\<not> active ''cancelled''"
  by (simp_all add: active_def)

lemma active_not_terminal: "active s \<Longrightarrow> \<not> terminal s"
  by (auto simp: active_def terminal_iff)

end
