(* ===== verification/JobLaunch.thy ===== *)
theory JobLaunch
  imports Schema Contracts
begin

text \<open>
  How a job gets from queued to running to a final status (\<^verbatim>\<open>JobManager\<close> of
  \<^verbatim>\<open>src/vanth/server.py\<close> and \<^verbatim>\<open>src/vanth/runner.py\<close>).  The daemon, several managers and one runner
  process per launch write the same \<^verbatim>\<open>jobs\<close> rows; every write is one \<^verbatim>\<open>UPDATE\<close> guarded by the status and
  by the claim token of the launch, and its row count tells the writer whether it owned the row.

  An atomic statement of the code is a function here that returns the row count or flag it
  observes; the operations of several statements are compositions of them.  Process identifiers, the
  clock, minted tokens, and whether a process is alive or could be killed are arguments.
\<close>

section \<open>The arguments and errors of the operations\<close>

datatype jerr = UnknownJob | NotQueued | QuotaReached | InvalidStatus | InvalidPool | IntegrityError
  | StopFailed

text \<open>A keyword argument with the sentinel default \<^verbatim>\<open>_UNSET\<close>.\<close>

datatype 'a arg = Unset | Given 'a

definition truthy :: "string option \<Rightarrow> bool" where
  "truthy t = (t \<noteq> None \<and> t \<noteq> Some [])"

definition find_job :: "vanth_db \<Rightarrow> string \<Rightarrow> job_row option" where
  "find_job db job = find (\<lambda>r. jb_id r = job) (jobs db)"

definition update_jobs :: "(job_row \<Rightarrow> bool) \<Rightarrow> (job_row \<Rightarrow> job_row) \<Rightarrow> vanth_db \<Rightarrow> nat \<times> vanth_db" where
  "update_jobs P f db = (cnt P (jobs db), db\<lparr>jobs := upd P f (jobs db)\<rparr>)"

definition running_count :: "vanth_db \<Rightarrow> nat" where
  "running_count db = cnt (\<lambda>r. active (jb_status r)) (jobs db)"

definition pool_count :: "string \<Rightarrow> vanth_db \<Rightarrow> nat" where
  "pool_count pool db = cnt (\<lambda>r. jb_pool r = Some pool \<and> active (jb_status r)) (jobs db)"

definition find_pool :: "vanth_db \<Rightarrow> string \<Rightarrow> pool_row option" where
  "find_pool db pool = find (\<lambda>p. pl_name p = pool) (pools db)"

section \<open>Starting a job\<close>

text \<open>
  The insert of \<^verbatim>\<open>start\<close>: a job with a trigger or a pool is queued, any other is inserted as
  \<^verbatim>\<open>launching\<close> with its claim token, after the quota check in the same transaction.  \<open>row\<close> has the
  columns that come from the caller; \<open>max_running\<close> is \<^verbatim>\<open>VANTH_MAX_RUNNING_JOBS\<close>, 0 for none.
\<close>

definition start_insert :: "nat \<Rightarrow> string \<Rightarrow> int \<Rightarrow> string \<Rightarrow> job_row \<Rightarrow> vanth_db \<Rightarrow> (jerr + unit) \<times> vanth_db" where
  "start_insert max_running fresh now token row db =
     (let queued = (jb_trigger row \<noteq> None \<or> jb_pool row \<noteq> None);
        new = row\<lparr>jb_id := fresh, jb_status := (if queued then ''queued'' else ''launching''),
          jb_pid := None, jb_worker := None, jb_heartbeat := (if queued then None else Some now),
          jb_stop_at := None, jb_created := now, jb_updated := now,
          jb_started := (if queued then None else Some now), jb_ended := None, jb_exit := None,
          jb_state := None, jb_disabled := False, jb_token := (if queued then None else Some token),
          jb_stop_actor := None, jb_stop_reason := None, jb_paused := False\<rparr>
      in if max_running \<noteq> 0 \<and> \<not> queued \<and> max_running \<le> running_count db then (Inl QuotaReached, db)
         else if (\<exists>r \<in> set (jobs db). jb_id r = fresh) then (Inl IntegrityError, db)
         else (Inr (), db\<lparr>jobs := jobs db @ [new]\<rparr>))"

section \<open>Claiming a launch\<close>

text \<open>The guarded \<^verbatim>\<open>UPDATE\<close> of \<^verbatim>\<open>_claim_launch\<close>.\<close>

definition runnable :: "job_row \<Rightarrow> bool" where
  "runnable r = ((jb_status r = ''queued'' \<or> jb_status r = ''failed'' \<or> jb_status r = ''orphaned'')
     \<and> \<not> jb_disabled r)"

definition claim_update :: "string \<Rightarrow> int \<Rightarrow> string \<Rightarrow> obj \<Rightarrow> vanth_db \<Rightarrow> nat \<times> vanth_db" where
  "claim_update token now job state =
     update_jobs (\<lambda>r. jb_id r = job \<and> runnable r)
       (\<lambda>r. r\<lparr>jb_status := ''launching'', jb_token := Some token, jb_state := Some state,
          jb_updated := now, jb_worker := None, jb_pid := None, jb_heartbeat := None\<rparr>)"

text \<open>
  The policy state that the claim writes: the updates, and the deadline that they clear kept under
  \<^verbatim>\<open>pending_restart_after\<close>.
\<close>

definition claim_state :: "obj option \<Rightarrow> obj \<Rightarrow> obj" where
  "claim_state updates state =
     (case updates of
        None \<Rightarrow> state
      | Some u \<Rightarrow>
          let d = dupdate state u
          in if has_key u ''restart_after'' \<and> dget state ''restart_after'' \<noteq> JNull
             then dput ''pending_restart_after'' (dget state ''restart_after'') d else d)"

definition claim_launch ::
  "string \<Rightarrow> int \<Rightarrow> string \<Rightarrow> obj \<Rightarrow> obj option \<Rightarrow> vanth_db \<Rightarrow> string option \<times> vanth_db" where
  "claim_launch token now job require updates db =
     (case find_job db job of
        None \<Rightarrow> (None, db)
      | Some r \<Rightarrow>
          if \<not> runnable r then (None, db)
          else
            let state = (case jb_state r of None \<Rightarrow> [] | Some s \<Rightarrow> s)
            in if \<not> list_all (\<lambda>i. dget state (fst i) = snd i) require then (None, db)
               else (case claim_update token now job (claim_state updates state) db of
                 (n, db') \<Rightarrow> if n = 1 then (Some token, db') else (None, db')))"

definition prepare_launch :: "string \<Rightarrow> int \<Rightarrow> string \<Rightarrow> vanth_db \<Rightarrow> string option \<times> vanth_db" where
  "prepare_launch token now job = claim_launch token now job [] None"

definition claim_due_restart :: "string \<Rightarrow> int \<Rightarrow> string \<Rightarrow> string \<Rightarrow> vanth_db \<Rightarrow> string option \<times> vanth_db" where
  "claim_due_restart token now job restart_after =
     claim_launch token now job [(''restart_after'', JStr restart_after)] (Some [(''restart_after'', JNull)])"

text \<open>The dispatcher's claim of a queued job, every cap a subquery of the one statement.\<close>

definition pool_open :: "vanth_db \<Rightarrow> string \<Rightarrow> bool" where
  "pool_open db pool =
     (case find_pool db pool of
        None \<Rightarrow> True
      | Some p \<Rightarrow> \<not> pl_paused p \<and> (pl_max p = 0 \<or> int (pool_count pool db) < pl_max p))"

definition launch_queued_if_capacity ::
  "nat \<Rightarrow> string \<Rightarrow> int \<Rightarrow> string \<Rightarrow> string option \<Rightarrow> vanth_db \<Rightarrow> nat \<times> vanth_db" where
  "launch_queued_if_capacity max_running token now job pool db =
     update_jobs
       (\<lambda>r. jb_id r = job \<and> jb_status r = ''queued'' \<and> \<not> jb_paused r \<and> \<not> jb_disabled r
          \<and> (max_running = 0 \<or> running_count db < max_running)
          \<and> (if truthy pool then pool_open db (the pool) else True))
       (\<lambda>r. r\<lparr>jb_status := ''launching'', jb_token := Some token, jb_updated := now\<rparr>) db"

section \<open>Terminal transitions\<close>

definition to_terminal :: "int \<Rightarrow> string \<Rightarrow> int option \<Rightarrow> job_row \<Rightarrow> job_row" where
  "to_terminal now status exit_code r =
     r\<lparr>jb_status := status, jb_exit := exit_code, jb_ended := Some now, jb_updated := now, jb_stop_at := None\<rparr>"

definition terminal_guard ::
  "string \<Rightarrow> string option \<Rightarrow> int option arg \<Rightarrow> bool \<Rightarrow> int option arg \<Rightarrow> job_row \<Rightarrow> bool" where
  "terminal_guard job claim_token worker_pid require_launching expected_worker_pid r =
     (if truthy claim_token then
        jb_id r = job \<and> jb_token r = claim_token
        \<and> (if require_launching then jb_status r = ''launching'' else active (jb_status r))
        \<and> (case expected_worker_pid of Unset \<Rightarrow> True | Given w \<Rightarrow> jb_worker r = w)
      else
        jb_id r = job \<and> jb_status r = ''running''
        \<and> (case worker_pid of Unset \<Rightarrow> True | Given w \<Rightarrow> jb_worker r = w))"

definition transition_terminal ::
  "int \<Rightarrow> string \<Rightarrow> string \<Rightarrow> int option \<Rightarrow> string option \<Rightarrow> int option arg \<Rightarrow> bool \<Rightarrow> int option arg \<Rightarrow>
   vanth_db \<Rightarrow> (jerr + bool) \<times> vanth_db" where
  "transition_terminal now job status exit_code claim_token worker_pid require_launching expected_worker_pid db =
     (if \<not> terminal status then (Inl InvalidStatus, db)
      else case update_jobs (terminal_guard job claim_token worker_pid require_launching expected_worker_pid)
             (to_terminal now status exit_code) db of
        (n, db') \<Rightarrow> (Inr (n \<noteq> 0), db'))"

section \<open>The restart intent of a claim\<close>

definition jextract :: "obj option \<Rightarrow> string \<Rightarrow> json" where
  "jextract state k = (case state of None \<Rightarrow> JNull | Some d \<Rightarrow> dget d k)"

definition restore_state :: "obj option \<Rightarrow> obj option" where
  "restore_state state =
     map_option (\<lambda>d. dput ''restart_after'' (jextract state ''pending_restart_after'')
       (dpop ''pending_restart_after'' d)) state"

definition restore_pending_restart_after ::
  "int \<Rightarrow> string \<Rightarrow> string option \<Rightarrow> string option \<Rightarrow> vanth_db \<Rightarrow> bool \<times> vanth_db" where
  "restore_pending_restart_after now job claim_token status db =
     (case update_jobs
         (\<lambda>r. jb_id r = job \<and> (truthy claim_token \<longrightarrow> jb_token r = claim_token)
            \<and> (case status of None \<Rightarrow> True | Some s \<Rightarrow> jb_status r = s)
            \<and> jextract (jb_state r) ''pending_restart_after'' \<noteq> JNull)
         (\<lambda>r. r\<lparr>jb_state := restore_state (jb_state r), jb_updated := now\<rparr>) db of
        (n, db') \<Rightarrow> (n \<noteq> 0, db'))"

definition clear_pending_restart_after :: "int \<Rightarrow> string \<Rightarrow> string option \<Rightarrow> vanth_db \<Rightarrow> vanth_db" where
  "clear_pending_restart_after now job claim_token db =
     (if \<not> truthy claim_token then db
      else snd (update_jobs
         (\<lambda>r. jb_id r = job \<and> jb_token r = claim_token
            \<and> jextract (jb_state r) ''pending_restart_after'' \<noteq> JNull)
         (\<lambda>r. r\<lparr>jb_state := map_option (dpop ''pending_restart_after'') (jb_state r), jb_updated := now\<rparr>) db))"

definition revert_abandoned_claim :: "int \<Rightarrow> string \<Rightarrow> string option \<Rightarrow> string \<Rightarrow> vanth_db \<Rightarrow> bool \<times> vanth_db" where
  "revert_abandoned_claim now job claim_token target db =
     (case (if truthy claim_token then
          update_jobs (\<lambda>r. jb_id r = job \<and> jb_token r = claim_token \<and> jb_status r = target)
            (\<lambda>r. r\<lparr>jb_status := ''launching'', jb_ended := None,
               jb_state := map_option (\<lambda>d. dput ''pending_restart_after'' (dget d ''restart_after'')
                 (dpop ''restart_after'' d)) (jb_state r), jb_updated := now\<rparr>) db
        else
          update_jobs (\<lambda>r. jb_id r = job \<and> jb_token r = None \<and> jb_status r = target)
            (\<lambda>r. r\<lparr>jb_status := ''launching'', jb_ended := None, jb_updated := now\<rparr>) db) of
        (n, db') \<Rightarrow> (n \<noteq> 0, db'))"

text \<open>\<^verbatim>\<open>_abandon_launch_claim\<close>: whether it recovered the claim, and to which status.\<close>

definition recover_legacy :: "int \<Rightarrow> string \<Rightarrow> string \<Rightarrow> int option arg \<Rightarrow> vanth_db \<Rightarrow> nat \<times> vanth_db" where
  "recover_legacy now job target expected_worker_pid =
     update_jobs
       (\<lambda>r. jb_id r = job \<and> jb_status r = ''launching'' \<and> jb_token r = None
          \<and> (case expected_worker_pid of Unset \<Rightarrow> False | Given w \<Rightarrow> jb_worker r = w))
       (\<lambda>r. r\<lparr>jb_status := target, jb_ended := Some now, jb_updated := now\<rparr>)"

definition abandon_launch_claim ::
  "int \<Rightarrow> string \<Rightarrow> string option \<Rightarrow> int option arg \<Rightarrow> vanth_db \<Rightarrow> (bool \<times> string) \<times> vanth_db" where
  "abandon_launch_claim now job claim_token expected_worker_pid db =
     (let pending = (case find_job db job of
          None \<Rightarrow> False | Some r \<Rightarrow> is_set (jextract (jb_state r) ''pending_restart_after''));
        target = (if pending then ''failed'' else ''orphaned'');
        (recovered, db1) =
          (if truthy claim_token then
             (case transition_terminal now job target None claim_token Unset True expected_worker_pid db of
                (Inr b, db') \<Rightarrow> (b, db') | (Inl _, db') \<Rightarrow> (False, db'))
           else (case recover_legacy now job target expected_worker_pid db of (n, db') \<Rightarrow> (n \<noteq> 0, db')));
        db2 = (if recovered \<and> pending
               then snd (restore_pending_restart_after now job claim_token (Some target) db1) else db1)
      in ((recovered, target), db2))"

section \<open>The launching parent\<close>

text \<open>The two writes of \<^verbatim>\<open>_launch\<close>: the runner could not be spawned, or it has a process.\<close>

definition spawn_failed_update :: "int \<Rightarrow> string \<Rightarrow> string \<Rightarrow> vanth_db \<Rightarrow> nat \<times> vanth_db" where
  "spawn_failed_update now job token =
     update_jobs (\<lambda>r. jb_id r = job \<and> jb_token r = Some token \<and> jb_status r = ''launching'')
       (to_terminal now ''failed'' (Some 1))"

definition spawn_failed :: "int \<Rightarrow> string \<Rightarrow> string \<Rightarrow> vanth_db \<Rightarrow> vanth_db" where
  "spawn_failed now job token db =
     snd (restore_pending_restart_after now job (Some token) None (snd (spawn_failed_update now job token db)))"

definition record_worker :: "int \<Rightarrow> int \<Rightarrow> string \<Rightarrow> string \<Rightarrow> vanth_db \<Rightarrow> nat \<times> vanth_db" where
  "record_worker now pid job token =
     update_jobs (\<lambda>r. jb_id r = job \<and> jb_token r = Some token \<and> jb_status r = ''launching'')
       (\<lambda>r. r\<lparr>jb_worker := Some pid, jb_updated := now\<rparr>)"

section \<open>The runner\<close>

definition publish_workload :: "int \<Rightarrow> int \<Rightarrow> int \<Rightarrow> string \<Rightarrow> string option \<Rightarrow> vanth_db \<Rightarrow> bool \<times> vanth_db" where
  "publish_workload now own_pid pid job claim_token db =
     (case (if truthy claim_token then
          update_jobs (\<lambda>r. jb_id r = job \<and> jb_token r = claim_token \<and> jb_status r = ''launching''
              \<and> jb_stop_at r = None)
            (\<lambda>r. r\<lparr>jb_status := ''running'', jb_pid := Some pid, jb_worker := Some own_pid,
               jb_started := Some now, jb_heartbeat := Some now, jb_updated := now, jb_exit := None,
               jb_ended := None, jb_state := map_option (dpop ''pending_restart_after'') (jb_state r)\<rparr>) db
        else
          update_jobs (\<lambda>r. jb_id r = job \<and> jb_status r = ''running'' \<and> jb_stop_at r = None)
            (\<lambda>r. r\<lparr>jb_pid := Some pid, jb_heartbeat := Some now, jb_updated := now\<rparr>) db) of
        (n, db') \<Rightarrow> (n \<noteq> 0, db'))"

definition heartbeat :: "int \<Rightarrow> int \<Rightarrow> string \<Rightarrow> string option \<Rightarrow> vanth_db \<Rightarrow> nat \<times> vanth_db" where
  "heartbeat now pid job claim_token =
     update_jobs (\<lambda>r. jb_id r = job \<and> jb_status r = ''running''
         \<and> (if truthy claim_token then jb_token r = claim_token else jb_pid r = Some pid))
       (\<lambda>r. r\<lparr>jb_heartbeat := Some now, jb_updated := now\<rparr>)"

text \<open>
  The runner's other writes: a start that failed before the workload was published, a workload aborted
  because the claim was lost, and the end of the run.
\<close>

definition fail_start :: "int \<Rightarrow> string \<Rightarrow> string option \<Rightarrow> vanth_db \<Rightarrow> bool \<times> vanth_db" where
  "fail_start now job claim_token db =
     (case transition_terminal now job ''failed'' (Some 1) claim_token Unset False Unset db of
        (Inr True, db') \<Rightarrow> (True, snd (restore_pending_restart_after now job claim_token None db'))
      | (_, db') \<Rightarrow> (False, db'))"

definition abort_workload :: "int \<Rightarrow> string \<Rightarrow> string option \<Rightarrow> vanth_db \<Rightarrow> bool \<times> vanth_db" where
  "abort_workload now job claim_token db =
     (if truthy claim_token then fail_start now job claim_token db else (False, db))"

definition finish :: "int \<Rightarrow> string \<Rightarrow> string \<Rightarrow> int option \<Rightarrow> string option \<Rightarrow> vanth_db \<Rightarrow> (jerr + bool) \<times> vanth_db" where
  "finish now job status exit_code claim_token db =
     (let stopped = (case find_job db job of None \<Rightarrow> False | Some r \<Rightarrow> jb_stop_at r \<noteq> None)
      in transition_terminal now job (if stopped then ''cancelled'' else status) exit_code claim_token
           Unset False Unset db)"

section \<open>Stopping, holding, disabling\<close>

definition cancel_queued :: "int \<Rightarrow> string \<Rightarrow> string \<Rightarrow> string \<Rightarrow> vanth_db \<Rightarrow> nat \<times> vanth_db" where
  "cancel_queued now actor reason job =
     update_jobs (\<lambda>r. jb_id r = job \<and> jb_status r = ''queued'')
       (\<lambda>r. r\<lparr>jb_status := ''cancelled'', jb_stop_actor := Some actor, jb_stop_reason := Some reason,
          jb_ended := Some now, jb_updated := now\<rparr>)"

text \<open>The stop request, guarded by the identity that \<^verbatim>\<open>_stop\<close> observed in its first read.\<close>

definition request_stop ::
  "int \<Rightarrow> string \<Rightarrow> string \<Rightarrow> string \<Rightarrow> string option \<Rightarrow> int option \<Rightarrow> int option \<Rightarrow> vanth_db \<Rightarrow> nat \<times> vanth_db" where
  "request_stop now actor reason job claim_token worker_pid workload_pid =
     update_jobs
       (\<lambda>r. jb_id r = job \<and> active (jb_status r)
          \<and> (if truthy claim_token then jb_token r = claim_token
             else if worker_pid \<noteq> None then jb_worker r = worker_pid
             else if workload_pid \<noteq> None then jb_pid r = workload_pid
             else jb_stop_at r = None))
       (\<lambda>r. r\<lparr>jb_stop_at := Some now, jb_stop_actor := Some actor, jb_stop_reason := Some reason\<rparr>)"

definition clear_stop :: "string \<Rightarrow> int \<Rightarrow> bool \<Rightarrow> vanth_db \<Rightarrow> vanth_db" where
  "clear_stop job stop_token only_active =
     snd \<circ> update_jobs
       (\<lambda>r. jb_id r = job \<and> jb_stop_at r = Some stop_token \<and> (only_active \<longrightarrow> active (jb_status r)))
       (\<lambda>r. r\<lparr>jb_stop_at := None\<rparr>)"

definition job_hold :: "bool \<Rightarrow> int \<Rightarrow> string \<Rightarrow> vanth_db \<Rightarrow> (jerr + bool) \<times> vanth_db" where
  "job_hold hold now job db =
     (case update_jobs (\<lambda>r. jb_id r = job \<and> jb_status r = ''queued'' \<and> jb_paused r = (\<not> hold))
         (\<lambda>r. r\<lparr>jb_paused := hold, jb_updated := now\<rparr>) db of
        (n, db') \<Rightarrow>
          if n \<noteq> 0 then (Inr hold, db')
          else (case find_job db' job of
              None \<Rightarrow> (Inl UnknownJob, db')
            | Some r \<Rightarrow> if jb_status r \<noteq> ''queued'' then (Inl NotQueued, db') else (Inr hold, db')))"

definition job_pause :: "int \<Rightarrow> string \<Rightarrow> vanth_db \<Rightarrow> (jerr + bool) \<times> vanth_db" where
  "job_pause = job_hold True"

definition job_resume :: "int \<Rightarrow> string \<Rightarrow> vanth_db \<Rightarrow> (jerr + bool) \<times> vanth_db" where
  "job_resume = job_hold False"

definition policy_state :: "vanth_db \<Rightarrow> string \<Rightarrow> obj" where
  "policy_state db job =
     (case find_job db job of None \<Rightarrow> [] | Some r \<Rightarrow> (case jb_state r of None \<Rightarrow> [] | Some d \<Rightarrow> d))"

definition save_policy_state :: "int \<Rightarrow> string \<Rightarrow> obj \<Rightarrow> vanth_db \<Rightarrow> vanth_db" where
  "save_policy_state now job state =
     snd \<circ> update_jobs (\<lambda>r. jb_id r = job) (\<lambda>r. r\<lparr>jb_state := Some state, jb_updated := now\<rparr>)"

definition policy_disable :: "int \<Rightarrow> string \<Rightarrow> vanth_db \<Rightarrow> nat \<times> vanth_db" where
  "policy_disable now job =
     update_jobs (\<lambda>r. jb_id r = job) (\<lambda>r. r\<lparr>jb_disabled := True, jb_updated := now\<rparr>)"

definition pool_configure :: "int \<Rightarrow> string \<Rightarrow> int \<Rightarrow> bool option \<Rightarrow> vanth_db \<Rightarrow> (jerr + pool_row) \<times> vanth_db" where
  "pool_configure now pool max_parallel paused db =
     (let name = strip pool
      in if blank pool \<or> 64 < pylen pool \<or> max_parallel < 0 then (Inl InvalidPool, db)
      else
        let ps = (if find_pool db name = None
            then pools db @ [\<lparr>pl_name = name, pl_max = max_parallel, pl_paused = (paused = Some True),
                   pl_created = now, pl_updated = now\<rparr>]
            else upd (\<lambda>p. pl_name p = name)
                   (\<lambda>p. p\<lparr>pl_max := max_parallel, pl_paused := (case paused of None \<Rightarrow> pl_paused p | Some b \<Rightarrow> b),
                      pl_updated := now\<rparr>) (pools db));
          db' = db\<lparr>pools := ps\<rparr>
        in (case find_pool db' name of None \<Rightarrow> (Inl InvalidPool, db') | Some p \<Rightarrow> (Inr p, db')))"

section \<open>Interleavings\<close>

text \<open>
  Every statement that writes a job, with its arguments: the daemon's, another manager's, a runner's.
  An interleaving of operations of any number of processes is a list of these.  \<open>RevertClaim\<close> is
  reached with the two targets of an abandoned claim only.
\<close>

datatype job_call =
    StartInsert nat string int string job_row
  | ClaimUpdate string int string obj
  | LaunchQueued nat string int string "string option"
  | Terminal int string string "int option" "string option" "int option arg" bool "int option arg"
  | RestorePending int string "string option" "string option"
  | ClearPending int string "string option"
  | RevertClaim int string "string option" bool
  | RecoverLegacy int string bool "int option arg"
  | SpawnFailed int string string
  | RecordWorker int int string string
  | PublishWorkload int int int string "string option"
  | Heartbeat int int string "string option"
  | CancelQueued int string string string
  | RequestStop int string string string "string option" "int option" "int option"
  | ClearStop string int bool
  | Hold bool int string
  | SavePolicyState int string obj
  | PolicyDisable int string
  | PoolConfigure int string int "bool option"

definition abandoned_to :: "bool \<Rightarrow> string" where
  "abandoned_to pending = (if pending then ''failed'' else ''orphaned'')"

fun job_do :: "job_call \<Rightarrow> vanth_db \<Rightarrow> vanth_db" where
  "job_do (StartInsert mx fresh now token row) db = snd (start_insert mx fresh now token row db)"
| "job_do (ClaimUpdate token now job state) db = snd (claim_update token now job state db)"
| "job_do (LaunchQueued mx token now job pool) db = snd (launch_queued_if_capacity mx token now job pool db)"
| "job_do (Terminal now job status ex token w rl ew) db = snd (transition_terminal now job status ex token w rl ew db)"
| "job_do (RestorePending now job token status) db = snd (restore_pending_restart_after now job token status db)"
| "job_do (ClearPending now job token) db = clear_pending_restart_after now job token db"
| "job_do (RevertClaim now job token pending) db = snd (revert_abandoned_claim now job token (abandoned_to pending) db)"
| "job_do (RecoverLegacy now job pending ew) db = snd (recover_legacy now job (abandoned_to pending) ew db)"
| "job_do (SpawnFailed now job token) db = snd (spawn_failed_update now job token db)"
| "job_do (RecordWorker now pid job token) db = snd (record_worker now pid job token db)"
| "job_do (PublishWorkload now own pid job token) db = snd (publish_workload now own pid job token db)"
| "job_do (Heartbeat now pid job token) db = snd (heartbeat now pid job token db)"
| "job_do (CancelQueued now actor reason job) db = snd (cancel_queued now actor reason job db)"
| "job_do (RequestStop now actor reason job token w p) db = snd (request_stop now actor reason job token w p db)"
| "job_do (ClearStop job st oa) db = clear_stop job st oa db"
| "job_do (Hold h now job) db = snd (job_hold h now job db)"
| "job_do (SavePolicyState now job state) db = save_policy_state now job state db"
| "job_do (PolicyDisable now job) db = snd (policy_disable now job db)"
| "job_do (PoolConfigure now pool mx paused) db = snd (pool_configure now pool mx paused db)"

fun mints :: "string \<Rightarrow> job_call \<Rightarrow> bool" where
  "mints t (StartInsert mx fresh now token row) = (token = t)"
| "mints t (ClaimUpdate token now job state) = (token = t)"
| "mints t (LaunchQueued mx token now job pool) = (token = t)"
| "mints t _ = False"

definition jobs_do :: "job_call list \<Rightarrow> vanth_db \<Rightarrow> vanth_db" where
  "jobs_do cs db = fold job_do cs db"

lemma jobs_do_simps [simp]: "jobs_do [] db = db" "jobs_do (c # cs) db = jobs_do cs (job_do c db)"
  by (simp_all add: jobs_do_def)

text \<open>The edges of the status of a job.\<close>

inductive job_moves :: "string \<Rightarrow> string \<Rightarrow> bool" where
  jm_claim: "s = ''queued'' \<or> s = ''failed'' \<or> s = ''orphaned'' \<Longrightarrow> job_moves s ''launching''"
| jm_publish: "job_moves ''launching'' ''running''"
| jm_end: "active s \<Longrightarrow> terminal t \<Longrightarrow> job_moves s t"
| jm_cancel: "job_moves ''queued'' ''cancelled''"

text \<open>What one statement may do to one row.\<close>

definition same_job :: "job_row \<Rightarrow> job_row \<Rightarrow> bool" where
  "same_job r r' =
     (jb_id r' = jb_id r \<and> jb_command r' = jb_command r \<and> jb_cwd r' = jb_cwd r \<and> jb_env r' = jb_env r
      \<and> jb_pool r' = jb_pool r \<and> jb_priority r' = jb_priority r \<and> jb_trigger r' = jb_trigger r
      \<and> jb_timeout r' = jb_timeout r \<and> jb_created r' = jb_created r)"

text \<open>
  \<open>mine\<close> are the tokens minted by the statement: it gives a row one of them only together with the
  move to \<^verbatim>\<open>launching\<close>.
\<close>

definition row_change :: "(string \<Rightarrow> bool) \<Rightarrow> job_row \<Rightarrow> job_row \<Rightarrow> bool" where
  "row_change mine r r' =
     (same_job r r'
      \<and> (jb_status r' = jb_status r \<or> job_moves (jb_status r) (jb_status r'))
      \<and> (jb_token r' = jb_token r
         \<or> jb_status r' = ''launching'' \<and> \<not> active (jb_status r) \<and> (\<exists>t. mine t \<and> jb_token r' = Some t)))"

inductive jobs_step :: "(string \<Rightarrow> bool) \<Rightarrow> job_row list \<Rightarrow> job_row list \<Rightarrow> bool" for mine where
  js_upd: "(\<And>r. r \<in> set t \<Longrightarrow> P r \<Longrightarrow> row_change mine r (f r)) \<Longrightarrow> jobs_step mine t (upd P f t)"
| js_insert: "jb_id r \<notin> jb_id ` set t \<Longrightarrow>
    jb_status r = ''queued'' \<and> jb_token r = None \<or> jb_status r = ''launching'' \<and> (\<exists>k. mine k \<and> jb_token r = Some k) \<Longrightarrow>
    jobs_step mine t (t @ [r])"

lemma row_change_refl: "row_change mine r r"
  by (simp add: row_change_def same_job_def)

lemma js_same: "jobs_step mine t t"
  using js_upd [of t "\<lambda>_. False" mine id] by (simp add: upd_id)

lemma jobs_update [simp]: "jobs (snd (update_jobs P f db)) = upd P f (jobs db)"
  by (simp add: update_jobs_def)

lemma fst_update [simp]: "fst (update_jobs P f db) = cnt P (jobs db)"
  by (simp add: update_jobs_def)

lemma snd_pair_case [simp]: "snd (case p of (n, s) \<Rightarrow> (g n, s)) = snd p"
  by (cases p) simp

lemmas job_defs = claim_update_def launch_queued_if_capacity_def restore_pending_restart_after_def
  clear_pending_restart_after_def recover_legacy_def spawn_failed_update_def record_worker_def heartbeat_def
  cancel_queued_def request_stop_def clear_stop_def save_policy_state_def policy_disable_def

text \<open>A statement that keeps status and token of the rows, one that ends or cancels them, one that claims them.\<close>

lemma js_keep:
  "(\<And>r. same_job r (f r) \<and> jb_status (f r) = jb_status r \<and> jb_token (f r) = jb_token r) \<Longrightarrow>
   jobs_step mine t (upd P f t)"
  by (rule js_upd) (simp add: row_change_def)

lemma js_move:
  "(\<And>r. same_job r (f r) \<and> jb_token (f r) = jb_token r) \<Longrightarrow>
   (\<And>r. P r \<Longrightarrow> job_moves (jb_status r) (jb_status (f r))) \<Longrightarrow> jobs_step mine t (upd P f t)"
  by (rule js_upd) (simp add: row_change_def)

lemma js_claim:
  "(\<And>r. same_job r (f r) \<and> jb_status (f r) = ''launching'' \<and> jb_token (f r) = Some k) \<Longrightarrow> mine k \<Longrightarrow>
   (\<And>r. P r \<Longrightarrow> jb_status r = ''queued'' \<or> jb_status r = ''failed'' \<or> jb_status r = ''orphaned'') \<Longrightarrow>
   jobs_step mine t (upd P f t)"
proof (rule js_upd)
  fix r
  assume f: "\<And>r. same_job r (f r) \<and> jb_status (f r) = ''launching'' \<and> jb_token (f r) = Some k" and "mine k"
    and P: "\<And>r. P r \<Longrightarrow> jb_status r = ''queued'' \<or> jb_status r = ''failed'' \<or> jb_status r = ''orphaned''"
    and "P r"
  from P [OF \<open>P r\<close>] have "job_moves (jb_status r) ''launching''" "\<not> active (jb_status r)"
    by (auto intro: jm_claim simp: active_def)
  with f [of r] \<open>mine k\<close> show "row_change mine r (f r)" by (simp add: row_change_def)
qed

lemma step_keep:
  "jobs_step mine (jobs db) (jobs (job_do (RestorePending now job tok st) db))"
  "jobs_step mine (jobs db) (jobs (job_do (RecordWorker now pid job token) db))"
  "jobs_step mine (jobs db) (jobs (job_do (Heartbeat now pid job tok) db))"
  "jobs_step mine (jobs db) (jobs (job_do (RequestStop now actor reason job tok w p) db))"
  "jobs_step mine (jobs db) (jobs (job_do (ClearStop job tm oa) db))"
  "jobs_step mine (jobs db) (jobs (job_do (SavePolicyState now job state) db))"
  "jobs_step mine (jobs db) (jobs (job_do (PolicyDisable now job) db))"
  unfolding job_do.simps job_defs jobs_update snd_pair_case comp_def
  by (rule js_keep; simp add: same_job_def)+

lemma step_clear: "jobs_step mine (jobs db) (jobs (job_do (ClearPending now job tok) db))"
  unfolding job_do.simps job_defs by (cases "truthy tok") (auto intro: js_keep js_same simp: same_job_def)

lemma step_move:
  "jobs_step mine (jobs db) (jobs (job_do (RecoverLegacy now job pending ew) db))"
  "jobs_step mine (jobs db) (jobs (job_do (SpawnFailed now job token) db))"
  "jobs_step mine (jobs db) (jobs (job_do (CancelQueued now actor reason job) db))"
  unfolding job_do.simps job_defs jobs_update
  by (rule js_move; simp add: same_job_def to_terminal_def;
      auto intro!: jm_end jm_cancel simp: active_def terminal_iff abandoned_to_def)+

lemma terminal_guard_active: "terminal_guard job tok w rl ew r \<Longrightarrow> active (jb_status r)"
  by (auto simp: terminal_guard_def active_def split: if_splits)

lemma step_terminal: "jobs_step mine (jobs db) (jobs (job_do (Terminal now job st ex tok w rl ew) db))"
proof (cases "terminal st")
  case True
  show ?thesis
    unfolding job_do.simps transition_terminal_def
    by (simp del: jobs_update add: case_prod_beta) (simp add: True, rule js_move; auto simp: True same_job_def to_terminal_def intro: jm_end terminal_guard_active)
qed (simp add: transition_terminal_def js_same)

lemma step_claim:
  "jobs_step (\<lambda>t. mints t (ClaimUpdate token now job state)) (jobs db)
     (jobs (job_do (ClaimUpdate token now job state) db))"
  "jobs_step (\<lambda>t. mints t (LaunchQueued mx token now job pool)) (jobs db)
     (jobs (job_do (LaunchQueued mx token now job pool) db))"
  unfolding job_do.simps job_defs jobs_update
  by (rule js_claim [where k = token]; simp add: same_job_def runnable_def)+

lemma step_publish: "jobs_step mine (jobs db) (jobs (job_do (PublishWorkload now own pid job tok) db))"
proof (cases "truthy tok")
  case True
  then show ?thesis
    by (simp add: publish_workload_def) (rule js_move; auto simp: same_job_def intro: jm_publish)
next
  case False
  then show ?thesis by (simp add: publish_workload_def) (rule js_keep; auto simp: same_job_def)
qed

lemma step_revert: "jobs_step mine (jobs db) (jobs (job_do (RevertClaim now job tok pending) db))"
proof -
  have m: "job_moves (abandoned_to pending) ''launching''" by (auto intro: jm_claim simp: abandoned_to_def)
  show ?thesis
    unfolding job_do.simps revert_abandoned_claim_def snd_pair_case
    by (cases "truthy tok") (auto intro!: js_move m simp: same_job_def)
qed

lemma step_hold: "jobs_step mine (jobs db) (jobs (job_do (Hold h now job) db))"
proof -
  have "snd (job_hold h now job db) =
      snd (update_jobs (\<lambda>r. jb_id r = job \<and> jb_status r = ''queued'' \<and> jb_paused r = (\<not> h))
         (\<lambda>r. r\<lparr>jb_paused := h, jb_updated := now\<rparr>) db)"
    by (auto simp: job_hold_def split: prod.split option.split)
  then show ?thesis by (simp add: js_keep same_job_def)
qed

lemma step_pool: "jobs_step mine (jobs db) (jobs (job_do (PoolConfigure now pool mx paused) db))"
  by (auto simp: pool_configure_def Let_def js_same split: option.split)

lemma step_insert:
  "jobs_step (\<lambda>t. mints t (StartInsert mx fresh now token row)) (jobs db)
     (jobs (job_do (StartInsert mx fresh now token row) db))"
  by (auto simp: start_insert_def Let_def js_same intro!: js_insert)

theorem job_do_step: "jobs_step (\<lambda>t. mints t c) (jobs db) (jobs (job_do c db))"
  by (cases c) (simp_all only: step_keep step_clear step_move step_terminal step_claim step_publish
      step_revert step_hold step_pool step_insert)

section \<open>Histories\<close>

lemma jobs_step_row:
  "jobs_step mine t t' \<Longrightarrow> r \<in> set t \<Longrightarrow> \<exists>r' \<in> set t'. row_change mine r r'"
proof (induction rule: jobs_step.induct)
  case (js_upd t P f)
  then show ?case
    using upd_hit [of r t P f] upd_miss [of r t P f] by (cases "P r") (auto intro: row_change_refl)
qed (auto intro: row_change_refl)

lemma jobs_step_origin:
  "jobs_step mine t t' \<Longrightarrow> r' \<in> set t' \<Longrightarrow>
   (\<exists>r \<in> set t. row_change mine r r') \<or> jb_id r' \<notin> jb_id ` set t \<and> (\<forall>k. jb_token r' = Some k \<longrightarrow> mine k)"
proof (induction rule: jobs_step.induct)
  case (js_upd t P f)
  then obtain q where "q \<in> set t" "r' = (if P q then f q else q)" by (auto simp: in_set_upd)
  with js_upd.hyps [of q] have "row_change mine q r'" by (cases "P q") (auto intro: row_change_refl)
  with \<open>q \<in> set t\<close> show ?case by blast
qed (auto intro: row_change_refl)

lemma jobs_step_ids: "jobs_step mine t t' \<Longrightarrow> distinct (map jb_id t) \<Longrightarrow> distinct (map jb_id t')"
proof (induction rule: jobs_step.induct)
  case (js_upd t P f)
  then have "map jb_id (upd P f t) = map jb_id t"
    by (simp add: upd_def row_change_def same_job_def)
  with js_upd show ?case by simp
qed auto

definition ids_ok :: "vanth_db \<Rightarrow> bool" where
  "ids_ok db = distinct (map jb_id (jobs db))"

lemma jobs_do_ids: "ids_ok db \<Longrightarrow> ids_ok (jobs_do cs db)"
  by (induction cs arbitrary: db) (auto simp: ids_ok_def intro: jobs_step_ids [OF job_do_step])

text \<open>No row of the job holds the token.\<close>

definition lacks :: "string \<Rightarrow> string \<Rightarrow> vanth_db \<Rightarrow> bool" where
  "lacks job t db = (\<forall>r \<in> set (jobs db). jb_id r = job \<longrightarrow> jb_token r \<noteq> Some t)"

lemma job_do_lacks: "lacks job t db \<Longrightarrow> \<not> mints t c \<Longrightarrow> lacks job t (job_do c db)"
proof (unfold lacks_def, intro ballI impI)
  fix r'
  assume l: "\<forall>r \<in> set (jobs db). jb_id r = job \<longrightarrow> jb_token r \<noteq> Some t" and m: "\<not> mints t c"
    and r': "r' \<in> set (jobs (job_do c db))" "jb_id r' = job"
  from jobs_step_origin [OF job_do_step r'(1)] l m r'(2) show "jb_token r' \<noteq> Some t"
    by (auto simp: row_change_def same_job_def)
qed

lemma jobs_do_lacks: "lacks job t db \<Longrightarrow> \<forall>c \<in> set cs. \<not> mints t c \<Longrightarrow> lacks job t (jobs_do cs db)"
  by (induction cs arbitrary: db) (auto intro: job_do_lacks)

lemma update_lacks:
  assumes "lacks job t db" "\<And>r. P r \<Longrightarrow> jb_id r = job \<and> jb_token r = Some t"
  shows "update_jobs P f db = (0, db)"
proof -
  have "\<forall>r \<in> set (jobs db). \<not> P r" using assms by (auto simp: lacks_def)
  then show ?thesis by (simp add: update_jobs_def upd_id)
qed

text \<open>A process without the token writes nothing.\<close>

lemma lacks_writes_nothing:
  assumes "lacks job t db" "t \<noteq> []"
  shows "publish_workload now own pid job (Some t) db = (False, db)"
    and "heartbeat now pid job (Some t) db = (0, db)"
    and "record_worker now pid job t db = (0, db)"
    and "terminal st \<Longrightarrow> transition_terminal now job st ex (Some t) w rl ew db = (Inr False, db)"
    and "restore_pending_restart_after now job (Some t) so db = (False, db)"
    and "revert_abandoned_claim now job (Some t) st db = (False, db)"
    and "request_stop now actor reason job (Some t) wp pp db = (0, db)"
proof -
  have tr: "truthy (Some t)" using assms(2) by (simp add: truthy_def)
  note u = update_lacks [OF assms(1)]
  show "publish_workload now own pid job (Some t) db = (False, db)"
    unfolding publish_workload_def by (simp only: tr if_True) (subst u; simp)
  show "heartbeat now pid job (Some t) db = (0, db)"
    unfolding heartbeat_def by (simp only: tr if_True) (rule u; simp)
  show "record_worker now pid job t db = (0, db)"
    unfolding record_worker_def by (rule u) simp
  show "transition_terminal now job st ex (Some t) w rl ew db = (Inr False, db)" if "terminal st"
    unfolding transition_terminal_def using that
    by (simp, subst u) (auto simp: terminal_guard_def tr)
  show "restore_pending_restart_after now job (Some t) so db = (False, db)"
    unfolding restore_pending_restart_after_def by (subst u; simp add: tr)
  show "revert_abandoned_claim now job (Some t) st db = (False, db)"
    unfolding revert_abandoned_claim_def by (simp only: tr if_True) (subst u; simp)
  show "request_stop now actor reason job (Some t) wp pp db = (0, db)"
    unfolding request_stop_def by (simp only: tr if_True) (rule u; simp)
qed

text \<open>A row keeps its job and moves along the edges; three statuses are final.\<close>

lemma job_moves_final: "s \<in> {''completed'', ''timeout'', ''cancelled''} \<Longrightarrow> \<not> job_moves s t"
  by (auto simp: job_moves.simps active_def)

lemma row_change_final:
  "row_change mine r r' \<Longrightarrow> jb_status r \<in> {''completed'', ''timeout'', ''cancelled''} \<Longrightarrow>
   jb_status r' = jb_status r \<and> jb_token r' = jb_token r"
  using job_moves_final [of "jb_status r"] by (auto simp: row_change_def)

lemma same_job_trans: "same_job a b \<Longrightarrow> same_job b c \<Longrightarrow> same_job a c"
  by (simp add: same_job_def)

definition job_later :: "job_row \<Rightarrow> job_row \<Rightarrow> bool" where
  "job_later r r' =
     (same_job r r' \<and> rtranclp job_moves (jb_status r) (jb_status r')
      \<and> (jb_status r \<in> {''completed'', ''timeout'', ''cancelled''} \<longrightarrow>
           jb_status r' = jb_status r \<and> jb_token r' = jb_token r))"

lemma job_later_refl: "job_later r r"
  by (simp add: job_later_def same_job_def)

lemma job_later_step: "row_change mine a b \<Longrightarrow> job_later b c \<Longrightarrow> job_later a c"
proof -
  assume r: "row_change mine a b" and l: "job_later b c"
  have "same_job a c" using r l same_job_trans by (simp add: row_change_def job_later_def) blast
  moreover have "rtranclp job_moves (jb_status a) (jb_status c)"
    using r l unfolding row_change_def job_later_def by (metis converse_rtranclp_into_rtranclp)
  moreover have "jb_status c = jb_status a \<and> jb_token c = jb_token a"
    if "jb_status a \<in> {''completed'', ''timeout'', ''cancelled''}"
    using row_change_final [OF r that] l that unfolding job_later_def by metis
  ultimately show ?thesis unfolding job_later_def by blast
qed

lemma jobs_do_row: "r \<in> set (jobs db) \<Longrightarrow> \<exists>r' \<in> set (jobs (jobs_do cs db)). job_later r r'"
proof (induction cs arbitrary: db r)
  case Nil
  then show ?case by (auto intro: job_later_refl)
next
  case (Cons c cs)
  from jobs_step_row [OF job_do_step Cons.prems] obtain r1 where
    "r1 \<in> set (jobs (job_do c db))" "row_change (\<lambda>t. mints t c) r r1" by blast
  with Cons.IH [of r1 "job_do c db"] show ?case by (auto intro: job_later_step)
qed

lemma find_job_iff: "ids_ok db \<Longrightarrow> find_job db job = Some r \<longleftrightarrow> r \<in> set (jobs db) \<and> jb_id r = job"
  by (simp add: ids_ok_def find_job_def find_key_iff)

lemma ids_unique: "ids_ok db \<Longrightarrow> r \<in> set (jobs db) \<Longrightarrow> q \<in> set (jobs db) \<Longrightarrow> jb_id r = jb_id q \<Longrightarrow> r = q"
  unfolding ids_ok_def by (rule key_unique)

text \<open>A guarded update of one job, on the found row.\<close>

lemma cnt_one:
  assumes "ids_ok db" "\<And>r. P r \<Longrightarrow> jb_id r = job"
  shows "cnt P (jobs db) = (case find_job db job of None \<Rightarrow> 0 | Some r \<Rightarrow> if P r then 1 else 0)"
proof -
  have "cnt P t = (case find (\<lambda>r. jb_id r = job) t of None \<Rightarrow> 0 | Some r \<Rightarrow> if P r then 1 else 0)"
    if "distinct (map jb_id t)" for t
    using that
  proof (induction t)
    case (Cons q t)
    have "find (\<lambda>r. jb_id r = job) t = None" if "jb_id q = job"
      using Cons.prems that by (simp add: find_None_image)
    with Cons assms(2) [of q] show ?case by (auto split: option.split)
  qed simp
  then show ?thesis using assms(1) by (simp add: ids_ok_def find_job_def)
qed

lemma find_job_update:
  assumes "\<And>r. jb_id (f r) = jb_id r"
  shows "find_job (snd (update_jobs P f db)) job =
    map_option (\<lambda>r. if P r then f r else r) (find_job db job)"
  using assms by (simp add: find_job_def update_jobs_def find_upd_key)

text \<open>How a guarded update of one row changes the number of rows with a property.\<close>

lemma cnt_upd_le:
  "(\<And>r. P r \<Longrightarrow> Q (f r) \<Longrightarrow> Q r) \<Longrightarrow> cnt Q (upd P f t) \<le> cnt Q t"
  by (induction t) auto

lemma cnt_upd_bound: "cnt Q (upd P f t) \<le> cnt Q t + cnt P t"
  by (induction t) auto

lemma cnt_upd_gain:
  "(\<And>r. P r \<Longrightarrow> Q (f r) \<and> \<not> Q r) \<Longrightarrow> cnt Q (upd P f t) = cnt Q t + cnt P t"
  by (induction t) auto

section \<open>Capacity\<close>

lemma launch_queued_cases:
  assumes "ids_ok db" "launch_queued_if_capacity mx token now job pool db = (n, db')" "n \<noteq> 0"
  obtains r where "find_job db job = Some r" "jb_status r = ''queued''" "\<not> jb_paused r" "\<not> jb_disabled r"
    "mx = 0 \<or> running_count db < mx" "truthy pool \<longrightarrow> pool_open db (the pool)" "n = 1"
    "db' = db\<lparr>jobs := upd (\<lambda>q. q = r) (\<lambda>r. r\<lparr>jb_status := ''launching'', jb_token := Some token, jb_updated := now\<rparr>) (jobs db)\<rparr>"
proof -
  let ?P = "\<lambda>r. jb_id r = job \<and> jb_status r = ''queued'' \<and> \<not> jb_paused r \<and> \<not> jb_disabled r
          \<and> (mx = 0 \<or> running_count db < mx) \<and> (if truthy pool then pool_open db (the pool) else True)"
  have n: "n = cnt ?P (jobs db)" and d: "db' = snd (update_jobs ?P
      (\<lambda>r. r\<lparr>jb_status := ''launching'', jb_token := Some token, jb_updated := now\<rparr>) db)"
    using assms(2) by (simp_all add: launch_queued_if_capacity_def update_jobs_def)
  have "n = (case find_job db job of None \<Rightarrow> 0 | Some r \<Rightarrow> if ?P r then 1 else 0)"
    unfolding n by (rule cnt_one [OF assms(1)]) blast
  then obtain r where r: "find_job db job = Some r" "?P r" "n = 1"
    using assms(3) by (auto split: option.splits if_splits)
  have "?P q \<longleftrightarrow> q = r" if "q \<in> set (jobs db)" for q
    using r(2) ids_unique [OF assms(1) that, of r] r(1) find_job_iff [OF assms(1)] by auto
  then have "upd ?P f (jobs db) = upd (\<lambda>q. q = r) f (jobs db)" for f
    by (simp add: upd_def)
  with d have "db' = db\<lparr>jobs := upd (\<lambda>q. q = r)
      (\<lambda>r. r\<lparr>jb_status := ''launching'', jb_token := Some token, jb_updated := now\<rparr>) (jobs db)\<rparr>"
    by (simp add: update_jobs_def)
  with r show ?thesis by (intro that) auto
qed

lemma cnt_single: "distinct (map k t) \<Longrightarrow> cnt (\<lambda>q. q = r) t \<le> 1"
  by (induction t) auto

lemma ids_cnt: "ids_ok db \<Longrightarrow> cnt (\<lambda>q. q = r) (jobs db) \<le> 1"
  unfolding ids_ok_def by (rule cnt_single)

lemma queued_launch_limits:
  assumes "ids_ok db" "launch_queued_if_capacity mx token now job pool db = (n, db')"
  shows "if n = 0 then db' = db
    else n = 1 \<and> (\<exists>r. find_job db job = Some r \<and> jb_status r = ''queued'' \<and> \<not> jb_paused r \<and> \<not> jb_disabled r)
      \<and> (mx \<noteq> 0 \<longrightarrow> running_count db' \<le> mx)
      \<and> (\<forall>p pl. pool = Some p \<longrightarrow> p \<noteq> [] \<longrightarrow> find_pool db' p = Some pl \<longrightarrow>
           \<not> pl_paused pl \<and> (pl_max pl \<noteq> 0 \<longrightarrow> int (pool_count p db') \<le> pl_max pl))"
proof (cases "n = 0")
  case True
  let ?P = "\<lambda>r. jb_id r = job \<and> jb_status r = ''queued'' \<and> \<not> jb_paused r \<and> \<not> jb_disabled r
          \<and> (mx = 0 \<or> running_count db < mx) \<and> (if truthy pool then pool_open db (the pool) else True)"
  from assms(2) True have "cnt ?P (jobs db) = 0"
    by (simp only: launch_queued_if_capacity_def update_jobs_def prod.inject)
  then have "upd ?P f (jobs db) = jobs db" for f by (simp add: upd_id)
  with assms(2) True show ?thesis by (simp add: launch_queued_if_capacity_def update_jobs_def)
next
  case False
  from launch_queued_cases [OF assms False] obtain r where
    r: "find_job db job = Some r" "jb_status r = ''queued''" "\<not> jb_paused r" "\<not> jb_disabled r"
    and mx: "mx = 0 \<or> running_count db < mx" and po: "truthy pool \<longrightarrow> pool_open db (the pool)" and n: "n = 1"
    and db': "db' = db\<lparr>jobs := upd (\<lambda>q. q = r) (\<lambda>r. r\<lparr>jb_status := ''launching'', jb_token := Some token, jb_updated := now\<rparr>) (jobs db)\<rparr>"
    by metis
  have b: "cnt Q (jobs db') \<le> cnt Q (jobs db) + 1" for Q
  proof -
    obtain g where "jobs db' = upd (\<lambda>q. q = r) g (jobs db)" by (simp add: db')
    then show ?thesis
      using cnt_upd_bound [of Q "\<lambda>q. q = r" g "jobs db"] ids_cnt [OF assms(1), of r] by simp
  qed
  have "mx \<noteq> 0 \<longrightarrow> running_count db' \<le> mx"
    using mx b [of "\<lambda>r. active (jb_status r)"] by (auto simp: running_count_def)
  moreover have "\<not> pl_paused pl \<and> (pl_max pl \<noteq> 0 \<longrightarrow> int (pool_count p db') \<le> pl_max pl)"
    if "pool = Some p" "p \<noteq> []" "find_pool db' p = Some pl" for p pl
  proof -
    have "find_pool db p = Some pl" using that(3) by (simp add: find_pool_def db')
    then have "\<not> pl_paused pl \<and> (pl_max pl = 0 \<or> int (pool_count p db) < pl_max pl)"
      using po that(1,2) by (simp add: truthy_def pool_open_def)
    then show ?thesis
      using b [of "\<lambda>r. jb_pool r = Some p \<and> active (jb_status r)"] by (auto simp: pool_count_def)
  qed
  ultimately show ?thesis using n r by auto
qed

text \<open>
  C4. The dispatcher's claim of a queued job respects every limit at the moment it wins: the job was
  queued, not held and not disabled, the jobs running or launching are within the global quota
  with it, and its pool was not paused and is within its own limit with it; otherwise nothing is written.
\<close>

theorem queued_launch_within_limits:
  assumes "ids_ok db" "launch_queued_if_capacity mx token now job pool db = (n, db')"
  shows "if n = 0 then db' = db
    else n = 1 \<and> (\<exists>r. find_job db job = Some r \<and> jb_status r = ''queued'' \<and> \<not> jb_paused r \<and> \<not> jb_disabled r)
      \<and> (mx \<noteq> 0 \<longrightarrow> running_count db' \<le> mx)
      \<and> (\<forall>p pl. pool = Some p \<longrightarrow> p \<noteq> [] \<longrightarrow> find_pool db' p = Some pl \<longrightarrow>
           \<not> pl_paused pl \<and> (pl_max pl \<noteq> 0 \<longrightarrow> int (pool_count p db') \<le> pl_max pl))"
  by (rule queued_launch_limits [OF assms])

text \<open>The statements that respect the quota: starts and the dispatcher's claims under it, none that relaunches.\<close>

fun quota_call :: "nat \<Rightarrow> job_call \<Rightarrow> bool" where
  "quota_call mx (StartInsert m fresh now token row) = (m = mx)"
| "quota_call mx (LaunchQueued m token now job pool) = (m = mx)"
| "quota_call mx (ClaimUpdate token now job state) = False"
| "quota_call mx (RevertClaim now job token pending) = False"
| "quota_call mx _ = True"

lemma job_do_quota:
  assumes "ids_ok db" "quota_call mx c" "mx \<noteq> 0" "running_count db \<le> mx"
  shows "running_count (job_do c db) \<le> mx"
proof -
  note le = order_trans [OF cnt_upd_le assms(4) [unfolded running_count_def]]
  show ?thesis
  proof (cases c)
    case (StartInsert m fresh now token row)
    with assms(2-4) show ?thesis by (auto simp: start_insert_def Let_def running_count_def active_def)
  next
    case (LaunchQueued m token now job pool)
    then have m: "m = mx" using assms(2) by simp
    obtain n db' where l: "launch_queued_if_capacity mx token now job pool db = (n, db')" by fastforce
    have "running_count db' \<le> mx"
    proof (cases "n = 0")
      case True
      with queued_launch_limits [OF assms(1) l] assms(4) show ?thesis by simp
    next
      case False
      with queued_launch_limits [OF assms(1) l] assms(3) show ?thesis by simp
    qed
    then show ?thesis using l by (simp add: LaunchQueued m)
  next
    case (Terminal now job st ex tok w rl ew)
    then show ?thesis
      using assms(4) by (auto simp: transition_terminal_def running_count_def case_prod_beta
          intro!: le dest: terminal_guard_active)
  next
    case (PublishWorkload now own pid job tok)
    then show ?thesis
      by (cases "truthy tok") (auto simp: publish_workload_def running_count_def intro!: le)
  next
    case (Hold h now job)
    have "snd (job_hold h now job db) =
      snd (update_jobs (\<lambda>r. jb_id r = job \<and> jb_status r = ''queued'' \<and> jb_paused r = (\<not> h))
         (\<lambda>r. r\<lparr>jb_paused := h, jb_updated := now\<rparr>) db)"
      by (auto simp: job_hold_def split: prod.split option.split)
    then show ?thesis using Hold by (auto simp: running_count_def intro!: le)
  next
    case (ClearPending now job tok)
    then show ?thesis
      using assms(4) by (cases "truthy tok") (auto simp: clear_pending_restart_after_def running_count_def intro!: le)
  next
    case (PoolConfigure now pool m paused)
    then show ?thesis
      using assms(4) by (auto simp: pool_configure_def Let_def running_count_def split: option.split)
  qed (use assms(2) in \<open>auto simp: job_defs running_count_def abandoned_to_def to_terminal_def
        comp_def intro!: le\<close>)
qed

text \<open>
  C5. The quota is kept by any interleaving of starts, dispatcher claims, runners, stops and recoveries
  of any processes: as long as nothing relaunches a job outside the dispatcher, the jobs running or
  launching never exceed \<^verbatim>\<open>VANTH_MAX_RUNNING_JOBS\<close>.
\<close>

theorem quota_is_kept:
  assumes "ids_ok db" "mx \<noteq> 0" "running_count db \<le> mx" "\<forall>c \<in> set cs. quota_call mx c"
  shows "running_count (jobs_do cs db) \<le> mx"
  using assms
proof (induction cs arbitrary: db)
  case (Cons c cs)
  have "ids_ok (job_do c db)" using jobs_do_ids [OF Cons.prems(1), of "[c]"] by simp
  moreover have "running_count (job_do c db) \<le> mx" using job_do_quota Cons.prems by simp
  ultimately show ?case using Cons by simp
qed simp

text \<open>The claim of a due restart, on the found row.\<close>

lemma claim_launch_Some:
  assumes "ids_ok db"
  shows "claim_launch token now job require updates db = (Some t, db') \<longleftrightarrow>
    (\<exists>r. find_job db job = Some r \<and> runnable r \<and> t = token
       \<and> list_all (\<lambda>i. dget (case jb_state r of None \<Rightarrow> [] | Some s \<Rightarrow> s) (fst i) = snd i) require
       \<and> db' = snd (claim_update token now job
           (claim_state updates (case jb_state r of None \<Rightarrow> [] | Some s \<Rightarrow> s)) db))"
proof -
  have c: "fst (claim_update token now job st db) = 1" if "find_job db job = Some r" "runnable r" for r st
    using cnt_one [OF assms, of "\<lambda>r. jb_id r = job \<and> runnable r" job] that find_job_iff [OF assms]
    by (simp add: claim_update_def)
  show ?thesis
    by (auto simp: claim_launch_def case_prod_beta c split: option.splits)
qed

section \<open>Restarts\<close>

definition state_of :: "job_row \<Rightarrow> obj" where
  "state_of r = (case jb_state r of None \<Rightarrow> [] | Some s \<Rightarrow> s)"

lemma find_job_claim:
  assumes "ids_ok db" "find_job db job = Some r" "runnable r"
  shows "find_job (snd (claim_update token now job st db)) job =
    Some (r\<lparr>jb_status := ''launching'', jb_token := Some token, jb_state := Some st,
          jb_updated := now, jb_worker := None, jb_pid := None, jb_heartbeat := None\<rparr>)"
  using assms find_job_iff [OF assms(1), of job r] by (simp add: claim_update_def find_job_update)

lemma running_count_claim:
  assumes "ids_ok db" "find_job db job = Some r" "runnable r"
  shows "running_count (snd (claim_update token now job st db)) = Suc (running_count db)"
proof -
  have "cnt (\<lambda>r. jb_id r = job \<and> runnable r) (jobs db) = 1"
    using cnt_one [OF assms(1), of "\<lambda>r. jb_id r = job \<and> runnable r" job] assms find_job_iff [OF assms(1)] by simp
  moreover have "\<not> active (jb_status q)" if "runnable q" for q
    using that by (auto simp: runnable_def active_def)
  ultimately show ?thesis
    by (simp add: claim_update_def running_count_def) (subst cnt_upd_gain; simp)
qed

lemma claim_due_restart_Some:
  assumes "ids_ok db" "d \<noteq> []"
  shows "claim_due_restart token now job d db = (Some t, db') \<longleftrightarrow>
    (\<exists>r. find_job db job = Some r \<and> runnable r \<and> t = token \<and> dget (state_of r) ''restart_after'' = JStr d
       \<and> db' = snd (claim_update token now job (dput ''pending_restart_after'' (JStr d)
           (dput ''restart_after'' JNull (state_of r))) db))"
  unfolding claim_due_restart_def claim_launch_Some [OF assms(1)]
  by (auto simp: claim_state_def state_of_def has_key_def)

text \<open>
  A restart is claimed whatever the quota says: the claim of a due restart looks at the job only, so it
  succeeds for every enabled failed job with that deadline and always adds one to the jobs that run
  or launch, also when the global quota is already used up.
\<close>

theorem restart_claim_ignores_quota:
  assumes "ids_ok db" "find_job db job = Some r" "jb_status r = ''failed''" "\<not> jb_disabled r"
    and "dget (state_of r) ''restart_after'' = JStr d" "d \<noteq> []"
  shows "\<exists>db'. claim_due_restart token now job d db = (Some token, db')
    \<and> running_count db' = Suc (running_count db)"
proof -
  have "runnable r" using assms(3,4) by (simp add: runnable_def)
  then show ?thesis
    using claim_due_restart_Some [OF assms(1,6)] assms(2,5) running_count_claim [OF assms(1,2)] by blast
qed

section \<open>Restart intents\<close>

text \<open>Statements that leave the intent of a launching claim alone.\<close>

fun keeps_intent :: "string \<Rightarrow> string \<Rightarrow> job_call \<Rightarrow> bool" where
  "keeps_intent job t (SavePolicyState now j state) = (j \<noteq> job)"
| "keeps_intent job t (ClearPending now j tok) = (j \<noteq> job)"
| "keeps_intent job t (RevertClaim now j tok pending) = (j \<noteq> job)"
| "keeps_intent job t (RestorePending now j tok st) = (j \<noteq> job \<or> (\<exists>s. st = Some s \<and> s \<noteq> ''launching''))"
| "keeps_intent job t c = (\<not> mints t c)"

definition intent_held :: "string \<Rightarrow> string \<Rightarrow> json \<Rightarrow> job_row list \<Rightarrow> bool" where
  "intent_held job t d rows = (\<forall>r \<in> set rows. jb_id r = job \<and> jb_token r = Some t \<and> jb_status r = ''launching'' \<longrightarrow>
     jextract (jb_state r) ''pending_restart_after'' = d)"

lemma intent_upd:
  "intent_held job t d rows \<Longrightarrow>
   (\<And>r. P r \<Longrightarrow> jb_id (f r) = job \<Longrightarrow> jb_token (f r) = Some t \<Longrightarrow> jb_status (f r) = ''launching'' \<Longrightarrow>
      jb_id r = job \<and> jb_token r = Some t \<and> jb_status r = ''launching''
      \<and> jextract (jb_state (f r)) ''pending_restart_after'' = jextract (jb_state r) ''pending_restart_after'') \<Longrightarrow>
   intent_held job t d (upd P f rows)"
  by (auto simp: intent_held_def in_set_upd)

lemma job_do_intent:
  assumes "intent_held job t d (jobs db)" "keeps_intent job t c"
  shows "intent_held job t d (jobs (job_do c db))"
proof -
  note u = intent_upd [OF assms(1)]
  show ?thesis
  proof (cases c)
    case (StartInsert m fresh now token row)
    with assms show ?thesis
      by (auto simp: start_insert_def Let_def intent_held_def)
  next
    case (Terminal now job st ex tok w rl ew)
    then show ?thesis
      using assms(1) by (auto simp: transition_terminal_def case_prod_beta to_terminal_def terminal_iff intro!: u)
  next
    case (PublishWorkload now own pid job tok)
    then show ?thesis by (cases "truthy tok") (auto simp: publish_workload_def intro!: u)
  next
    case (Hold h now job)
    have "snd (job_hold h now job db) =
      snd (update_jobs (\<lambda>r. jb_id r = job \<and> jb_status r = ''queued'' \<and> jb_paused r = (\<not> h))
         (\<lambda>r. r\<lparr>jb_paused := h, jb_updated := now\<rparr>) db)"
      by (auto simp: job_hold_def split: prod.split option.split)
    then show ?thesis using Hold by (auto intro!: u)
  next
    case (ClearPending now job tok)
    then show ?thesis
      using assms by (cases "truthy tok") (auto simp: clear_pending_restart_after_def intro!: u)
  next
    case (RevertClaim now j tok pending)
    then show ?thesis
      using assms by (cases "truthy tok") (auto simp: revert_abandoned_claim_def intro!: u)
  next
    case (PoolConfigure now pool m paused)
    then show ?thesis
      using assms(1) by (auto simp: pool_configure_def Let_def split: option.split)
  next
    case (ClaimUpdate token now j state)
    then show ?thesis using assms(2) by (simp add: claim_update_def) (rule u; simp)
  next
    case (LaunchQueued m token now j pool)
    then show ?thesis using assms(2) by (cases "truthy pool") (simp add: launch_queued_if_capacity_def, rule u, simp_all)+
  next
    case (RestorePending now j tok st)
    then show ?thesis
      using assms(2) by (simp add: restore_pending_restart_after_def) (rule u; auto)
  next
    case (RecoverLegacy now j pending ew)
    then show ?thesis by (simp add: recover_legacy_def) (rule u; simp add: abandoned_to_def split: if_splits)
  next
    case (SpawnFailed now j token)
    then show ?thesis by (simp add: spawn_failed_update_def) (rule u; simp add: to_terminal_def)
  next
    case (RecordWorker now pid j token)
    then show ?thesis by (simp add: record_worker_def) (rule u; simp)
  next
    case (Heartbeat now pid j tok)
    then show ?thesis by (simp add: heartbeat_def) (rule u; simp)
  next
    case (CancelQueued now actor reason j)
    then show ?thesis by (simp add: cancel_queued_def) (rule u; simp)
  next
    case (RequestStop now actor reason j tok w p)
    then show ?thesis by (simp add: request_stop_def) (rule u; simp)
  next
    case (ClearStop j st oa)
    then show ?thesis by (simp add: clear_stop_def) (rule u; simp)
  next
    case (SavePolicyState now j state)
    then show ?thesis using assms(2) by (simp add: save_policy_state_def) (rule u; auto)
  next
    case (PolicyDisable now j)
    then show ?thesis by (simp add: policy_disable_def) (rule u; simp)
  qed
qed

lemma jobs_do_intent:
  "intent_held job t d (jobs db) \<Longrightarrow> \<forall>c \<in> set cs. keeps_intent job t c \<Longrightarrow>
   intent_held job t d (jobs (jobs_do cs db))"
  by (induction cs arbitrary: db) (auto intro: job_do_intent)

text \<open>The recovery of an abandoned claim that carries an intent.\<close>

lemma abandon_with_intent:
  assumes "ids_ok db" "find_job db job = Some r" "jb_status r = ''launching''" "jb_token r = Some t" "t \<noteq> []"
    and "jextract (jb_state r) ''pending_restart_after'' = JStr d" "d \<noteq> []"
  shows "\<exists>db' r'. abandon_launch_claim now job (Some t) (Given (jb_worker r)) db = ((True, ''failed''), db')
    \<and> ids_ok db' \<and> find_job db' job = Some r' \<and> jb_status r' = ''failed'' \<and> jb_disabled r' = jb_disabled r
    \<and> dget (state_of r') ''restart_after'' = JStr d \<and> dget (state_of r') ''pending_restart_after'' = JNull"
proof -
  have tr: "truthy (Some t)" using assms(5) by (simp add: truthy_def)
  obtain st where st: "jb_state r = Some st" "dget st ''pending_restart_after'' = JStr d"
    using assms(6) by (cases "jb_state r") (auto simp: jextract_def)
  let ?G = "terminal_guard job (Some t) Unset True (Given (jb_worker r))"
  let ?db1 = "snd (update_jobs ?G (to_terminal now ''failed'' None) db)"
  have id: "jb_id r = job" using assms(1,2) by (simp add: find_job_iff)
  have g: "?G r" using assms(3,4) id tr by (simp add: terminal_guard_def)
  have one: "cnt ?G (jobs db) = 1"
    using cnt_one [OF assms(1), of ?G job] assms(2) g by (simp add: terminal_guard_def tr)
  have tt: "transition_terminal now job ''failed'' None (Some t) Unset True (Given (jb_worker r)) db = (Inr True, ?db1)"
    using one by (simp add: transition_terminal_def terminal_iff update_jobs_def)
  have f1: "find_job ?db1 job = Some (to_terminal now ''failed'' None r)"
    using assms(2) g by (subst find_job_update) (simp_all add: to_terminal_def)
  have ids1: "ids_ok ?db1"
    using assms(1) by (simp add: ids_ok_def map_upd_same to_terminal_def)
  let ?H = "\<lambda>r. jb_id r = job \<and> (truthy (Some t) \<longrightarrow> jb_token r = Some t) \<and> jb_status r = ''failed''
     \<and> jextract (jb_state r) ''pending_restart_after'' \<noteq> JNull"
  let ?h = "\<lambda>r. r\<lparr>jb_state := restore_state (jb_state r), jb_updated := now\<rparr>"
  let ?db2 = "snd (update_jobs ?H ?h ?db1)"
  have "abandon_launch_claim now job (Some t) (Given (jb_worker r)) db = ((True, ''failed''), ?db2)"
    using assms(2) st tr tt assms(7)
    by (simp add: abandon_launch_claim_def Let_def restore_pending_restart_after_def jextract_def)
  moreover have "find_job ?db2 job = Some (?h (to_terminal now ''failed'' None r))"
    using f1 assms(4) id st by (subst find_job_update) (simp_all add: to_terminal_def jextract_def)
  moreover have "ids_ok ?db2" using ids1 by (simp add: ids_ok_def map_upd_same)
  moreover have "dget (state_of (?h (to_terminal now ''failed'' None r))) ''restart_after'' = JStr d"
    "dget (state_of (?h (to_terminal now ''failed'' None r))) ''pending_restart_after'' = JNull"
    using st by (simp_all add: state_of_def restore_state_def to_terminal_def jextract_def)
  ultimately show ?thesis by (intro exI conjI) (assumption | simp add: to_terminal_def)+
qed

text \<open>
  C2. A budgeted restart is never lost to a crash between the claim and the start of its runner: when a
  due restart was claimed and, whatever the processes did meanwhile (short of rewriting the policy
  state of the job), the claim is still only launching, its recovery leaves the job failed with the
  same deadline as before the claim, so the same restart can be claimed again without consuming
  another attempt.
\<close>

theorem abandoned_restart_keeps_deadline:
  assumes "ids_ok db" "claim_due_restart t now job d db = (Some t, db1)" "t \<noteq> []" "d \<noteq> []"
    and "\<forall>c \<in> set cs. keeps_intent job t c"
    and "find_job (jobs_do cs db1) job = Some r" "jb_status r = ''launching''" "jb_token r = Some t" "\<not> jb_disabled r"
  shows "\<exists>db2 db3. abandon_launch_claim now' job (Some t) (Given (jb_worker r)) (jobs_do cs db1) = ((True, ''failed''), db2)
    \<and> claim_due_restart t' now'' job d db2 = (Some t', db3)"
proof -
  from assms(2) obtain r0 where r0: "find_job db job = Some r0" "runnable r0"
    and db1: "db1 = snd (claim_update t now job (dput ''pending_restart_after'' (JStr d)
           (dput ''restart_after'' JNull (state_of r0))) db)"
    using claim_due_restart_Some [OF assms(1,4)] by blast
  have ids1: "ids_ok db1"
    using jobs_do_ids [OF assms(1), of "[ClaimUpdate t now job (dput ''pending_restart_after'' (JStr d)
      (dput ''restart_after'' JNull (state_of r0)))]"] by (simp add: db1)
  have "intent_held job t (JStr d) (jobs db1)"
  proof (unfold intent_held_def, intro ballI impI)
    fix q
    assume q: "q \<in> set (jobs db1)" "jb_id q = job \<and> jb_token q = Some t \<and> jb_status q = ''launching''"
    then have "find_job db1 job = Some q" using ids1 by (simp add: find_job_iff)
    then show "jextract (jb_state q) ''pending_restart_after'' = JStr d"
      unfolding db1 find_job_claim [OF assms(1) r0] by (auto simp: jextract_def)
  qed
  from jobs_do_intent [OF this assms(5)] assms(6-8) jobs_do_ids [OF ids1, of cs]
  have p: "jextract (jb_state r) ''pending_restart_after'' = JStr d"
    by (auto simp: intent_held_def find_job_iff)
  from abandon_with_intent [OF jobs_do_ids [OF ids1] assms(6-8,3) p assms(4)] obtain db2 r2 where
    a: "abandon_launch_claim now' job (Some t) (Given (jb_worker r)) (jobs_do cs db1) = ((True, ''failed''), db2)"
    and r2: "ids_ok db2" "find_job db2 job = Some r2" "jb_status r2 = ''failed''" "jb_disabled r2 = jb_disabled r"
      "dget (state_of r2) ''restart_after'' = JStr d" by blast
  have "runnable r2" using r2(3,4) assms(9) by (simp add: runnable_def)
  with a r2 claim_due_restart_Some [OF r2(1) assms(4)] show ?thesis by blast
qed

section \<open>Fencing\<close>



section \<open>A claim as a lease\<close>

definition lease_holder :: "vanth_db \<Rightarrow> string \<Rightarrow> string option" where
  "lease_holder db job =
     (case find_job db job of
        None \<Rightarrow> None | Some r \<Rightarrow> if active (jb_status r) then jb_token r else None)"

type_synonym lease_args = "int \<times> obj \<times> obj option \<times> string \<times> int option"

fun lease_claim :: "string \<Rightarrow> string \<Rightarrow> lease_args \<Rightarrow> vanth_db \<Rightarrow> (unit + unit) \<times> vanth_db" where
  "lease_claim job token (now, require, updates, status, ex) db =
     (case claim_launch token now job require updates db of
        (None, db') \<Rightarrow> (Inl (), db') | (Some _, db') \<Rightarrow> (Inr (), db'))"

fun lease_settle :: "string \<Rightarrow> string \<Rightarrow> lease_args \<Rightarrow> vanth_db \<Rightarrow> (unit + unit) \<times> vanth_db" where
  "lease_settle job token (now, require, updates, status, ex) db =
     (case finish now job status ex (Some token) db of
        (Inr True, db') \<Rightarrow> if token = [] then (Inl (), db) else (Inr (), db')
      | _ \<Rightarrow> (Inl (), db))"

lemma find_other_update:
  "(\<And>r. P r \<Longrightarrow> jb_id r = job) \<Longrightarrow> (\<And>r. jb_id (f r) = jb_id r) \<Longrightarrow> j \<noteq> job \<Longrightarrow>
   find_job (snd (update_jobs P f db)) j = find_job db j"
  by (subst find_job_update) (auto simp: map_option_case find_job_def dest!: find_SomeD split: option.splits)

lemma lease_claim_ok:
  assumes "ids_ok db" "lease_claim job t x db = (Inr u, db')"
  shows "ids_ok db' \<and> lease_holder db' job = Some t \<and> (\<forall>j. j \<noteq> job \<longrightarrow> lease_holder db' j = lease_holder db j)"
proof -
  obtain now require updates status ex where x: "x = (now, require, updates, status, ex)" by (cases x) auto
  from assms(2) obtain tt where "claim_launch t now job require updates db = (Some tt, db')"
    by (auto simp: x split: prod.splits option.splits)
  then obtain r st where r: "find_job db job = Some r" "runnable r" and db': "db' = snd (claim_update t now job st db)"
    unfolding claim_launch_Some [OF assms(1)] by blast
  have "ids_ok db'" using jobs_do_ids [OF assms(1), of "[ClaimUpdate t now job st]"] by (simp add: db')
  moreover have "lease_holder db' job = Some t"
    unfolding lease_holder_def db' find_job_claim [OF assms(1) r] by simp
  moreover have "lease_holder db' j = lease_holder db j" if "j \<noteq> job" for j
    unfolding lease_holder_def db' claim_update_def using that by (subst find_other_update [where job = job]) auto
  ultimately show ?thesis by blast
qed

lemma claim_launch_None: "claim_launch token now job require updates db = (None, db') \<Longrightarrow> ids_ok db \<Longrightarrow> db' = db"
proof -
  assume c: "claim_launch token now job require updates db = (None, db')" and i: "ids_ok db"
  show "db' = db"
  proof (cases "find_job db job")
    case None
    with c show ?thesis by (simp add: claim_launch_def)
  next
    case (Some r)
    have "fst (claim_update token now job st db) = 1" if "runnable r" for st
      using cnt_one [OF i, of "\<lambda>r. jb_id r = job \<and> runnable r" job] Some that find_job_iff [OF i]
      by (simp add: claim_update_def)
    with Some c show ?thesis by (auto simp: claim_launch_def case_prod_beta Let_def split: if_splits)
  qed
qed

lemma lease_settle_ok:
  assumes "ids_ok db" "lease_settle job t x db = (Inr u, db')"
  shows "ids_ok db' \<and> lease_holder db job = Some t \<and> lease_holder db' job = None
    \<and> (\<forall>j. j \<noteq> job \<longrightarrow> lease_holder db' j = lease_holder db j)"
proof -
  obtain now require updates status ex where x: "x = (now, require, updates, status, ex)" by (cases x) auto
  from assms(2) have f: "finish now job status ex (Some t) db = (Inr True, db')" and t: "t \<noteq> []"
    by (auto simp: x split: prod.splits sum.splits bool.splits if_splits)
  then obtain st where st: "transition_terminal now job st ex (Some t) Unset False Unset db = (Inr True, db')"
    by (auto simp: finish_def Let_def)
  let ?G = "terminal_guard job (Some t) Unset False Unset"
  have g: "?G r \<longleftrightarrow> jb_id r = job \<and> jb_token r = Some t \<and> active (jb_status r)" for r
    using t by (simp add: terminal_guard_def truthy_def)
  from st have tm: "terminal st" and n: "cnt ?G (jobs db) \<noteq> 0"
    and db': "db' = snd (update_jobs ?G (to_terminal now st ex) db)"
    by (auto simp: transition_terminal_def case_prod_beta cnt_pos_iff split: if_splits)
  have "cnt ?G (jobs db) = (case find_job db job of None \<Rightarrow> 0 | Some r \<Rightarrow> if ?G r then 1 else 0)"
    by (rule cnt_one [OF assms(1)]) (simp add: g)
  with n obtain r where r: "find_job db job = Some r" "?G r" by (auto split: option.splits if_splits)
  have "ids_ok db'"
    using jobs_do_ids [OF assms(1), of "[Terminal now job st ex (Some t) Unset False Unset]"] st by simp
  moreover have "lease_holder db job = Some t" using r by (simp add: lease_holder_def g)
  moreover have "find_job db' job = Some (to_terminal now st ex r)"
    unfolding db' using r by (subst find_job_update) (simp_all add: to_terminal_def)
  then have "lease_holder db' job = None"
    using tm active_not_terminal by (auto simp: lease_holder_def to_terminal_def)
  moreover have "lease_holder db' j = lease_holder db j" if "j \<noteq> job" for j
    unfolding lease_holder_def db' using that
    by (subst find_other_update [where job = job]) (auto simp: g to_terminal_def)
  ultimately show ?thesis by blast
qed

interpretation job_lease: leased_work lease_holder lease_claim lease_settle ids_ok
proof unfold_locales
  fix s i t x e s'
  assume "ids_ok s" "lease_claim i t x s = (Inl e, s')"
  then show "s' = s"
    by (cases x) (auto split: prod.splits option.splits dest: claim_launch_None)
next
  fix s i t x e s'
  assume "ids_ok s" "lease_settle i t x s = (Inl e, s')"
  then show "s' = s" by (cases x) (auto split: prod.splits sum.splits bool.splits if_splits)
qed (use lease_claim_ok lease_settle_ok in blast)+

text \<open>
  A run ends at most once: when a run recorded its end under its token, then after any further
  claims and ends of any jobs by other tokens no end can be recorded under that token again.
\<close>

theorem run_ends_once:
  assumes "ids_ok db" "lease_settle job t x db = (Inr u, db')" "\<not> claims_with t as"
  shows "\<nexists>v db''. lease_settle job t y (job_lease.run as db') = (Inr v, db'')"
  by (rule job_lease.settled_once [OF assms])

section \<open>A small database\<close>

definition demo_job :: "string \<Rightarrow> string \<Rightarrow> string option \<Rightarrow> obj \<Rightarrow> string option \<Rightarrow> job_row" where
  "demo_job job status token state pool = \<lparr>jb_id = job, jb_name = None, jb_command = ''make'', jb_cwd = None,
     jb_status = status, jb_pid = None, jb_worker = None, jb_heartbeat = None, jb_stop_at = None,
     jb_created = 0, jb_updated = 0, jb_started = None, jb_ended = None, jb_exit = None, jb_timeout = None,
     jb_notify_on = [], jb_tags = [], jb_env = [], jb_notes = None, jb_interactive = False,
     jb_trigger = None, jb_policy = None, jb_state = Some state, jb_disabled = False, jb_token = token,
     jb_stop_actor = None, jb_stop_reason = None, jb_secret_env = [], jb_pool = pool, jb_priority = 0,
     jb_paused = False, jb_schedule = None\<rparr>"

definition demo_jobs :: vanth_db where
  "demo_jobs = \<lparr>jobs =
       [demo_job ''j1'' ''failed'' (Some ''c0'') [(''restart_after'', JStr ''9'')] None,
        demo_job ''j2'' ''queued'' None [] (Some ''gpu''),
        demo_job ''j3'' ''running'' (Some ''c3'') [] (Some ''gpu'')],
     pools = [\<lparr>pl_name = ''gpu'', pl_max = 2, pl_paused = False, pl_created = 0, pl_updated = 0\<rparr>],
     events = [], series = [], targets = [], deliveries = [], attempts = [], relays = [], decisions = [], cursors = []\<rparr>"

lemma demo_ids: "ids_ok demo_jobs"
  by (simp add: ids_ok_def demo_jobs_def demo_job_def)

lemma demo_find1: "find_job demo_jobs ''j1'' = Some (demo_job ''j1'' ''failed'' (Some ''c0'') [(''restart_after'', JStr ''9'')] None)"
  by code_simp

lemma demo_find3: "find_job demo_jobs ''j3'' = Some (demo_job ''j3'' ''running'' (Some ''c3'') [] (Some ''gpu''))"
  by code_simp

lemma demo_launch: "fst (launch_queued_if_capacity 2 ''c2'' 5 ''j2'' (Some ''gpu'') demo_jobs) = 1"
  by code_simp

lemma queued_launch_within_limits_witness:
  "running_count (snd (launch_queued_if_capacity 2 ''c2'' 5 ''j2'' (Some ''gpu'') demo_jobs)) \<le> 2"
  using queued_launch_within_limits [OF demo_ids prod.collapse [symmetric],
      of 2 "''c2''" 5 "''j2''" "Some ''gpu''"] demo_launch by simp

lemma quota_is_kept_witness:
  "running_count (jobs_do [LaunchQueued 2 ''c2'' 5 ''j2'' (Some ''gpu''), Heartbeat 6 1 ''j3'' (Some ''c3'')] demo_jobs) \<le> 2"
proof (rule quota_is_kept [OF demo_ids])
  show "running_count demo_jobs \<le> 2" by code_simp
qed simp_all

lemma restart_claim_ignores_quota_witness:
  "running_count demo_jobs = 1
   \<and> (\<exists>db'. claim_due_restart ''c1'' 7 ''j1'' ''9'' demo_jobs = (Some ''c1'', db') \<and> running_count db' = Suc 1)"
proof -
  have "running_count demo_jobs = 1" by code_simp
  with restart_claim_ignores_quota [OF demo_ids demo_find1, of "''9''" "''c1''" 7] show ?thesis
    by (simp add: demo_job_def state_of_def dget_def)
qed

definition demo_claimed :: vanth_db where
  "demo_claimed = snd (claim_due_restart ''c1'' 7 ''j1'' ''9'' demo_jobs)"

lemma demo_claim: "claim_due_restart ''c1'' 7 ''j1'' ''9'' demo_jobs = (Some ''c1'', demo_claimed)"
proof -
  have "fst (claim_due_restart ''c1'' 7 ''j1'' ''9'' demo_jobs) = Some ''c1''" by code_simp
  then show ?thesis by (simp add: demo_claimed_def prod_eq_iff)
qed

definition demo_launching :: job_row where
  "demo_launching = (demo_job ''j1'' ''launching'' (Some ''c1'')
     [(''restart_after'', JNull), (''pending_restart_after'', JStr ''9'')] None)\<lparr>jb_worker := Some 44, jb_updated := 8\<rparr>"

lemma demo_worker_recorded: "find_job (jobs_do [RecordWorker 8 44 ''j1'' ''c1''] demo_claimed) ''j1'' = Some demo_launching"
  by code_simp

lemma abandoned_restart_keeps_deadline_witness:
  "\<exists>db2 db3. abandon_launch_claim 9 ''j1'' (Some ''c1'') (Given (Some 44)) (jobs_do [RecordWorker 8 44 ''j1'' ''c1''] demo_claimed)
       = ((True, ''failed''), db2) \<and> claim_due_restart ''c5'' 10 ''j1'' ''9'' db2 = (Some ''c5'', db3)"
  using abandoned_restart_keeps_deadline [OF demo_ids demo_claim _ _ _ demo_worker_recorded, of 9 "''c5''" 10]
  by (simp add: demo_launching_def demo_job_def)



definition demo_args :: lease_args where
  "demo_args = (9, [], None, ''completed'', Some 0)"

lemma demo_settle: "lease_settle ''j3'' ''c3'' demo_args demo_jobs = (Inr (), snd (lease_settle ''j3'' ''c3'' demo_args demo_jobs))"
proof -
  have "fst (lease_settle ''j3'' ''c3'' demo_args demo_jobs) = Inr ()" by code_simp
  then show ?thesis by (simp add: prod_eq_iff)
qed

lemma run_ends_once_witness:
  "\<nexists>v db''. lease_settle ''j3'' ''c3'' demo_args (job_lease.run [Claim ''j1'' ''c1'' demo_args]
     (snd (lease_settle ''j3'' ''c3'' demo_args demo_jobs))) = (Inr v, db'')"
  by (rule run_ends_once [OF demo_ids demo_settle]) simp

end
