(* ===== verification/WakeTargets.thy ===== *)
theory WakeTargets
  imports JobLaunch
begin

text \<open>
  Wake targets of \<^verbatim>\<open>src/vanth/server.py\<close>: whom to wake when a job emits an event.  A target is a JSON
  object of the caller; it is completed, validated, brought to one name for its destination and
  stored, and the relays read the destination back out of the stored payload by that name.
  The outbound policy of webhook URLs (\<open>url_scheme\<close>, \<open>url_allowed\<close>) and \<^verbatim>\<open>str.lower\<close> are arguments.
\<close>

datatype everr = Invalid string | TypeErr | Overflow | DbIntegrity

definition WAKE_TARGET_TYPES :: "string list" where
  "WAKE_TARGET_TYPES =
     [''local_command'', ''codex_cli_thread'', ''codex_thread'', ''codex_desktop'', ''opencode_thread'', ''webhook'']"

definition RELAY_CLIENT_TYPES :: "string list" where
  "RELAY_CLIENT_TYPES = [''codex_desktop'', ''opencode_thread'']"

definition RELAY_IDENTITY_KEYS :: "string \<Rightarrow> string list option" where
  "RELAY_IDENTITY_KEYS t =
     (if t = ''codex_desktop'' then Some [''thread_id'', ''threadId'']
      else if t = ''opencode_thread'' then Some [''session_id'', ''sessionId''] else None)"

definition THREAD_TYPES :: "string list" where
  "THREAD_TYPES = [''codex_desktop'', ''codex_thread'', ''codex_cli_thread'']"

section \<open>One name for the destination\<close>

definition session_identity :: "obj \<Rightarrow> json" where
  "session_identity d =
     por (dget d ''session_id'') (por (dget d ''sessionId'') (por (dget d ''thread_id'') (dget d ''threadId'')))"

definition thread_identity :: "obj \<Rightarrow> json" where
  "thread_identity d =
     por (dget d ''thread_id'') (por (dget d ''threadId'') (por (dget d ''session_id'') (dget d ''sessionId'')))"

definition rename_identity :: "string \<Rightarrow> json \<Rightarrow> string list \<Rightarrow> obj \<Rightarrow> obj" where
  "rename_identity key identity aliases d =
     fold dpop aliases (if is_set identity then dput key identity d else d)"

definition canonicalize_wake_target :: "obj \<Rightarrow> obj" where
  "canonicalize_wake_target d =
     (case dget d ''type'' of
        JStr t \<Rightarrow>
          if t = ''opencode_thread'' then
            rename_identity ''session_id'' (session_identity d) [''sessionId'', ''thread_id'', ''threadId''] d
          else if t \<in> set THREAD_TYPES then
            rename_identity ''thread_id'' (thread_identity d) [''threadId'', ''session_id'', ''sessionId''] d
          else
            dpop ''threadId''
              (if has_key d ''threadId'' \<and> \<not> has_key d ''thread_id''
               then dput ''thread_id'' (dget d ''threadId'') d else d)
      | _ \<Rightarrow>
          dpop ''threadId''
            (if has_key d ''threadId'' \<and> \<not> has_key d ''thread_id''
             then dput ''thread_id'' (dget d ''threadId'') d else d))"

definition resolve_wake_target_identity :: "obj list \<Rightarrow> string option \<Rightarrow> obj list" where
  "resolve_wake_target_identity ts origin =
     (if truthy origin then
        map (\<lambda>d. if (case dget d ''type'' of JStr t \<Rightarrow> t \<in> set THREAD_TYPES | _ \<Rightarrow> False)
                 \<and> \<not> is_set (por (dget d ''thread_id'') (dget d ''threadId''))
               then dput ''thread_id'' (JStr (the origin)) d else d) ts
      else ts)"

section \<open>Validation\<close>

definition nonempty_str :: "json \<Rightarrow> bool" where
  "nonempty_str j = (case j of JStr s \<Rightarrow> s \<noteq> [] | _ \<Rightarrow> False)"

definition target_events :: "obj \<Rightarrow> json" where
  "target_events d =
     (if has_key d ''events'' then dget d ''events''
      else if has_key d ''notify_on'' then dget d ''notify_on'' else JArr [])"

definition nonempty_strings :: "json \<Rightarrow> bool" where
  "nonempty_strings j = (case j of JArr xs \<Rightarrow> xs \<noteq> [] \<and> list_all is_str xs | _ \<Rightarrow> False)"

definition valid_webhook :: "(string \<Rightarrow> string option) \<Rightarrow> (string \<Rightarrow> bool) \<Rightarrow> obj \<Rightarrow> everr + unit" where
  "valid_webhook url_scheme url_allowed d =
     ebind (ensure (nonempty_str (dget d ''url'')) (Invalid ''webhook target requires url'')) (\<lambda>_.
     let url = the (str_of (dget d ''url'')) in
     ebind (ensure (url_scheme url \<noteq> None) (Invalid ''webhook target url must be a valid URL'')) (\<lambda>_.
     ebind (ensure (url_scheme url = Some ''http'' \<or> url_scheme url = Some ''https'')
       (Invalid ''webhook target url must be an http(s) URL'')) (\<lambda>_.
     ebind (ensure (url_allowed url) (Invalid ''webhook target url is blocked by policy'')) (\<lambda>_.
     case dget d ''headers'' of
       JNull \<Rightarrow> Inr ()
     | JObj h \<Rightarrow> ensure (list_all (\<lambda>i. is_str (snd i)) h)
         (Invalid ''webhook target headers must be string key/value pairs'')
     | _ \<Rightarrow> Inl (Invalid ''webhook target headers must be an object'')))))"

definition valid_number :: "obj \<Rightarrow> string \<times> int \<Rightarrow> everr + unit" where
  "valid_number d km =
     ensure (has_key d (fst km) \<longrightarrow> (case dget d (fst km) of JInt i \<Rightarrow> snd km \<le> i | _ \<Rightarrow> False))
       (Invalid (''wake target '' @ fst km @ '' must be an integer''))"

definition valid_destination :: "string \<Rightarrow> obj \<Rightarrow> everr + unit" where
  "valid_destination t d =
     ebind (ensure (\<not> (t = ''codex_desktop'' \<and> dget d ''command'' \<noteq> JNull \<and> \<not> nonempty_str (thread_identity d)))
       (Invalid ''codex_desktop target requires thread_id'')) (\<lambda>_.
     if t = ''opencode_thread'' \<and> dget d ''command'' = JNull then
       ebind (ensure (nonempty_str (session_identity d)) (Invalid ''opencode_thread target requires session_id''))
         (\<lambda>_. ensure (dget d ''attach'' = JNull \<or> nonempty_str (dget d ''attach''))
           (Invalid ''opencode_thread attach must be a non-empty string when set''))
     else if t \<noteq> ''local_command'' \<and> t \<noteq> ''webhook'' \<and> dget d ''command'' = JNull then
       ensure (nonempty_str (thread_identity d)) (Invalid (t @ '' target requires thread_id''))
     else Inr ())"

definition validate_wake_target ::
  "(string \<Rightarrow> string option) \<Rightarrow> (string \<Rightarrow> bool) \<Rightarrow> json \<Rightarrow> everr + unit" where
  "validate_wake_target url_scheme url_allowed j =
     ebind (ensure (is_obj j) (Invalid ''each wake target must be an object'')) (\<lambda>_.
     let d = obj_of j; command = dget d ''command'' in
     ebind (ensure (case dget d ''type'' of JStr t \<Rightarrow> t \<in> set WAKE_TARGET_TYPES | _ \<Rightarrow> False)
       (Invalid ''unsupported wake target type'')) (\<lambda>_.
     let t = the (str_of (dget d ''type'')) in
     ebind (ensure (nonempty_strings (target_events d))
       (Invalid ''wake target events must be a non-empty list of strings'')) (\<lambda>_.
     ebind (ensure (case command of JNull \<Rightarrow> True | JStr s \<Rightarrow> s \<noteq> [] | JArr xs \<Rightarrow> xs \<noteq> [] | _ \<Rightarrow> False)
       (Invalid ''wake target command must be a non-empty string or argv list'')) (\<lambda>_.
     ebind (ensure (\<not> (t = ''local_command'' \<and> command = JNull))
       (Invalid ''local_command target requires command'')) (\<lambda>_.
     ebind (if t = ''webhook'' then valid_webhook url_scheme url_allowed d else Inr ()) (\<lambda>_.
     ebind (valid_destination t d) (\<lambda>_.
     efor [(''timeout_seconds'', 1), (''max_attempts'', 1), (''retry_delay_seconds'', 0)] (valid_number d))))))))"

definition validate_wake_targets ::
  "(string \<Rightarrow> string option) \<Rightarrow> (string \<Rightarrow> bool) \<Rightarrow> json \<Rightarrow> everr + unit" where
  "validate_wake_targets url_scheme url_allowed ts =
     (case ts of
        JNull \<Rightarrow> Inr ()
      | JArr xs \<Rightarrow> efor xs (validate_wake_target url_scheme url_allowed)
      | _ \<Rightarrow> Inl (Invalid ''wake_targets must be a list''))"

section \<open>Relay client ids are not destinations\<close>

fun first_str :: "obj \<Rightarrow> string list \<Rightarrow> string option" where
  "first_str d [] = None"
| "first_str d (k # ks) =
     (case dget d k of JStr s \<Rightarrow> if s \<noteq> [] then Some s else first_str d ks | _ \<Rightarrow> first_str d ks)"

definition wake_target_identity :: "obj \<Rightarrow> string option" where
  "wake_target_identity d =
     (case dget d ''type'' of
        JStr t \<Rightarrow> if RELAY_IDENTITY_KEYS t = None \<or> is_set (dget d ''command'') then None
          else first_str d [''session_id'', ''sessionId'', ''thread_id'', ''threadId'']
      | _ \<Rightarrow> None)"

text \<open>\<^verbatim>\<open>re.match\<close> of \<^verbatim>\<open>^opencode-\d+-[a-z0-9]+$\<close>, with the line feed that \<^verbatim>\<open>$\<close> lets through.\<close>

definition opencode_client_body :: "string \<Rightarrow> bool" where
  "opencode_client_body s =
     (take 9 s = ''opencode-'' \<and>
      (let r = drop 9 s; digits = takeWhile is_digit r; rest = dropWhile is_digit r
       in digits \<noteq> [] \<and> rest \<noteq> [] \<and> hd rest = CHR ''-'' \<and> tl rest \<noteq> []
          \<and> list_all (\<lambda>c. is_digit c \<or> 97 \<le> (of_char c :: nat) \<and> (of_char c :: nat) \<le> 122) (tl rest)))"

definition opencode_client_id_re :: "string \<Rightarrow> bool" where
  "opencode_client_id_re s =
     (opencode_client_body s
      \<or> s \<noteq> [] \<and> last s = CHR 0x0A \<and> opencode_client_body (butlast s))"

definition is_relay_client_id :: "string \<Rightarrow> string \<Rightarrow> string list \<Rightarrow> bool" where
  "is_relay_client_id t identity client_ids =
     (t = ''opencode_thread'' \<and> opencode_client_id_re identity \<or> identity \<in> set client_ids)"

definition relay_client_ids :: "vanth_db \<Rightarrow> string list" where
  "relay_client_ids db = map rl_client (relays db)"

definition reject_relay_client_id_targets :: "vanth_db \<Rightarrow> obj list \<Rightarrow> everr + unit" where
  "reject_relay_client_id_targets db ts =
     efor ts (\<lambda>d. case wake_target_identity d of
        None \<Rightarrow> Inr ()
      | Some identity \<Rightarrow> ensure (\<not> is_relay_client_id (the (str_of (dget d ''type''))) identity (relay_client_ids db))
          (Invalid ''target id is a relay client id, not a wake destination''))"

section \<open>The live relay of a directory\<close>

definition norm_dir :: "(string \<Rightarrow> string) \<Rightarrow> string \<Rightarrow> string" where
  "norm_dir lower s = lower (rstrip_by (\<lambda>c. c = CHR 0x5C \<or> c = CHR ''/'') s)"

definition best_relay :: "(string \<times> string) option \<Rightarrow> string \<times> string \<Rightarrow> (string \<times> string) option" where
  "best_relay best cand = (case best of None \<Rightarrow> Some cand | Some b \<Rightarrow> if fst b < fst cand then Some cand else best)"

fun relay_item ::
  "(string \<Rightarrow> string) \<Rightarrow> string \<Rightarrow> string \<Rightarrow> json \<Rightarrow> (string \<times> string) option \<Rightarrow> everr + (string \<times> string) option" where
  "relay_item lower wanted stamp (JObj d) best =
     (if \<not> nonempty_str (dget d ''session_id'') then Inr best
      else (case por (dget d ''directory'') (JStr []) of
        JStr dir \<Rightarrow>
          let item_dir = norm_dir lower dir
          in if wanted \<noteq> [] \<and> item_dir \<noteq> [] \<and> item_dir \<noteq> wanted then Inr best
             else Inr (best_relay best (stamp, the (str_of (dget d ''session_id''))))
      | _ \<Rightarrow> Inl TypeErr))"
| "relay_item lower wanted stamp j best = Inr best"

fun relay_items ::
  "(string \<Rightarrow> string) \<Rightarrow> string \<Rightarrow> (string \<times> json) list \<Rightarrow> (string \<times> string) option \<Rightarrow> everr + (string \<times> string) option" where
  "relay_items lower wanted [] best = Inr best"
| "relay_items lower wanted ((stamp, j) # js) best =
     ebind (relay_item lower wanted stamp j best) (relay_items lower wanted js)"

definition latest_relay_session ::
  "(string \<Rightarrow> string) \<Rightarrow> json \<Rightarrow> vanth_db \<Rightarrow> everr + string option" where
  "latest_relay_session lower directory db =
     ebind
       (relay_items lower (norm_dir lower (case directory of JStr s \<Rightarrow> s | _ \<Rightarrow> []))
         (concat (map (\<lambda>r. map (Pair (case rl_poll r of None \<Rightarrow> [] | Some t \<Rightarrow> now_iso t)) (rl_destinations r))
            (filter (\<lambda>r. rl_type r = ''opencode_thread'') (relays db)))) None)
       (\<lambda>best. Inr (map_option snd best))"

definition resolve_relay_session ::
  "(string \<Rightarrow> string) \<Rightarrow> json \<Rightarrow> vanth_db \<Rightarrow> obj \<Rightarrow> everr + obj" where
  "resolve_relay_session lower directory db d =
     (let c = canonicalize_wake_target d in
      if dget c ''type'' \<noteq> JStr ''opencode_thread'' \<or> is_set (dget c ''attach'') \<or> is_set (dget c ''session_id'')
      then Inr c
      else ebind (latest_relay_session lower (por (dget c ''cwd'') directory) db)
        (\<lambda>s. Inr (if truthy s then dput ''session_id'' (JStr (the s)) c else c)))"

section \<open>Storing a target\<close>

definition str_items :: "json \<Rightarrow> string list" where
  "str_items j = (case j of JArr xs \<Rightarrow> map (\<lambda>x. case x of JStr s \<Rightarrow> s | _ \<Rightarrow> []) xs | _ \<Rightarrow> [])"

definition target_config :: "obj \<Rightarrow> obj" where
  "target_config d = filter (\<lambda>i. fst i \<noteq> ''type'' \<and> fst i \<noteq> ''events'' \<and> fst i \<noteq> ''notify_on'') d"

fun insert_wake_targets ::
  "(nat \<Rightarrow> string) \<Rightarrow> int \<Rightarrow> string \<Rightarrow> string option \<Rightarrow> obj list \<Rightarrow> vanth_db \<Rightarrow> everr + (string list \<times> vanth_db)" where
  "insert_wake_targets fresh now job remote [] db = Inr ([], db)"
| "insert_wake_targets fresh now job remote (d # ds) db =
     (let c = canonicalize_wake_target d in
      case dget c ''type'' of
        JStr t \<Rightarrow>
          let tid = fresh (length ds);
            row = \<lparr>tg_id = tid, tg_job = job, tg_remote = remote, tg_type = t,
              tg_events = str_items (por (dget c ''events'') (por (dget c ''notify_on'') (JArr []))),
              tg_config = target_config c, tg_created = now\<rparr>
          in if (\<exists>r \<in> set (targets db). tg_id r = tid) then Inl DbIntegrity
             else ebind (insert_wake_targets fresh now job remote ds (db\<lparr>targets := targets db @ [row]\<rparr>))
               (\<lambda>(ids, db'). Inr (tid # ids, db'))
      | _ \<Rightarrow> insert_wake_targets fresh now job remote ds db)"

definition remote_binding_id :: "string \<Rightarrow> string \<Rightarrow> everr + string" where
  "remote_binding_id remote job =
     ebind (efor [remote, job] (\<lambda>v.
       ebind (ensure (v \<noteq> []) (Invalid ''must be a non-empty string'')) (\<lambda>_.
       ensure (\<not> has_char CHR '':'' v) (Invalid ''must not contain a colon''))))
     (\<lambda>_. Inr (''remote:'' @ remote @ '':'' @ job))"

fun emap :: "('a \<Rightarrow> 'e + 'b) \<Rightarrow> 'a list \<Rightarrow> 'e + 'b list" where
  "emap f [] = Inr []"
| "emap f (x # xs) = ebind (f x) (\<lambda>y. ebind (emap f xs) (\<lambda>ys. Inr (y # ys)))"

text \<open>
  \<^verbatim>\<open>register_remote_wake_targets\<close>: a second registration of the same remote job keeps the first.
\<close>

definition register_remote_wake_targets ::
  "(string \<Rightarrow> string option) \<Rightarrow> (string \<Rightarrow> bool) \<Rightarrow> (string \<Rightarrow> string) \<Rightarrow> (nat \<Rightarrow> string) \<Rightarrow> int \<Rightarrow>
   string \<Rightarrow> string \<Rightarrow> obj list \<Rightarrow> vanth_db \<Rightarrow> (everr + string list) \<times> vanth_db" where
  "register_remote_wake_targets url_scheme url_allowed lower fresh now remote job ts db =
     txn (\<lambda>db.
       ebind (remote_binding_id remote job) (\<lambda>binding.
       ebind (emap (resolve_relay_session lower JNull db) (resolve_wake_target_identity ts None)) (\<lambda>resolved.
       ebind (reject_relay_client_id_targets db resolved) (\<lambda>_.
       ebind (validate_wake_targets url_scheme url_allowed (JArr (map JObj resolved))) (\<lambda>_.
       (case filter (\<lambda>r. tg_job r = binding) (targets db) of
          [] \<Rightarrow> insert_wake_targets fresh now binding (Some remote) resolved db
        | existing \<Rightarrow> Inr (map tg_id existing, db))))))) db"
text \<open>\<^verbatim>\<open>add_wake_target\<close>: a target for the future events of a local job.\<close>

definition default_events :: "obj \<Rightarrow> obj" where
  "default_events d =
     (if \<not> has_key d ''events'' \<and> \<not> has_key d ''notify_on''
      then dput ''events'' (JArr [JStr ''completed'', JStr ''failed'']) d else d)"

definition given_events :: "obj \<Rightarrow> json" where
  "given_events d =
     (if dget d ''events'' = JNull then por (dget d ''notify_on'') (JArr [JStr ''completed'', JStr ''failed''])
      else dget d ''events'')"

definition cwd_json :: "job_row \<Rightarrow> json" where
  "cwd_json r = jstr_opt (jb_cwd r)"

definition prepared_target ::
  "(string \<Rightarrow> string option) \<Rightarrow> (string \<Rightarrow> bool) \<Rightarrow> (string \<Rightarrow> string) \<Rightarrow> string \<Rightarrow> obj \<Rightarrow> vanth_db \<Rightarrow> everr + obj" where
  "prepared_target url_scheme url_allowed lower job d0 db =
     (let d1 = default_events d0 in
      ebind (case find_job db job of
          None \<Rightarrow> Inr d1
        | Some r \<Rightarrow> ebind (resolve_relay_session lower (cwd_json r) db d1) (\<lambda>d.
            ebind (reject_relay_client_id_targets db [d]) (\<lambda>_. Inr d))) (\<lambda>d.
      ebind (validate_wake_targets url_scheme url_allowed (JArr [JObj d])) (\<lambda>_.
      ebind (ensure (is_set (given_events d)) (Invalid ''target events must not be empty'')) (\<lambda>_. Inr d))))"

definition stored_target :: "obj \<Rightarrow> obj" where
  "stored_target d =
     dupdate [(''type'', dget d ''type''), (''events'', given_events d)] (target_config d)"

definition add_wake_target ::
  "(string \<Rightarrow> string option) \<Rightarrow> (string \<Rightarrow> bool) \<Rightarrow> (string \<Rightarrow> string) \<Rightarrow> (nat \<Rightarrow> string) \<Rightarrow> int \<Rightarrow>
   string \<Rightarrow> obj \<Rightarrow> vanth_db \<Rightarrow> (everr + string list) \<times> vanth_db" where
  "add_wake_target url_scheme url_allowed lower fresh now job d0 =
     txn (\<lambda>db.
       ebind (prepared_target url_scheme url_allowed lower job d0 db) (\<lambda>d.
       ebind (ensure (find_job db job \<noteq> None) (Invalid ''Unknown job_id'')) (\<lambda>_.
       insert_wake_targets fresh now job None [stored_target d] db)))"

section \<open>A validated target keeps its destination\<close>

lemma dget_fold_dpop [simp]: "dget (fold dpop ks d) l = (if l \<in> set ks then JNull else dget d l)"
  by (induction ks arbitrary: d) auto

lemma dget_filter: "dget (filter (\<lambda>i. P (fst i)) d) k = (if P k then dget d k else JNull)"
  by (induction d) (auto simp: dget_def)

lemma dget_target_config [simp]:
  "dget (target_config d) k = (if k \<in> {''type'', ''events'', ''notify_on''} then JNull else dget d k)"
  unfolding target_config_def using dget_filter [of "\<lambda>k. k \<noteq> ''type'' \<and> k \<noteq> ''events'' \<and> k \<noteq> ''notify_on''" d k]
  by auto

lemma keys_filter: "distinct (map fst d) \<Longrightarrow> distinct (map fst (filter P d))"
  by (simp add: distinct_map_filter)

lemma keys_dput_set: "fst ` set (dput k v d) = insert k (fst ` set d)"
  by (induction k v d rule: dput.induct) auto

lemma keys_dput: "distinct (map fst d) \<Longrightarrow> distinct (map fst (dput k v d))"
  by (induction k v d rule: dput.induct) (auto simp: keys_dput_set)

lemma keys_dpop: "distinct (map fst d) \<Longrightarrow> distinct (map fst (dpop k d))"
  by (simp add: dpop_def keys_filter)

lemma keys_fold_dpop: "distinct (map fst d) \<Longrightarrow> distinct (map fst (fold dpop ks d))"
  by (induction ks arbitrary: d) (auto intro: keys_dpop)

lemma keys_canonical: "distinct (map fst d) \<Longrightarrow> distinct (map fst (canonicalize_wake_target d))"
  by (auto simp: canonicalize_wake_target_def rename_identity_def
      intro: keys_fold_dpop keys_dput keys_dpop split: json.split)

lemma dget_Cons: "dget (i # u) k = (if fst i = k then snd i else dget u k)"
  by (cases i) (simp add: dget_def)

lemma has_key_Cons: "has_key (i # u) k \<longleftrightarrow> fst i = k \<or> has_key u k"
  by (cases i) (simp add: has_key_def)

lemma dget_dupdate: "distinct (map fst u) \<Longrightarrow> dget (dupdate d u) k = (if has_key u k then dget u k else dget d k)"
proof (induction u arbitrary: d)
  case (Cons i u)
  from Cons.prems have "fst i \<notin> fst ` set u" by simp
  then have "\<not> has_key u (fst i)" unfolding has_key_def by (simp add: map_of_eq_None_iff)
  with Cons show ?case by (auto simp: has_key_Cons dget_Cons)
qed (simp add: has_key_def)

text \<open>What is stored and sent for a target: its type and its configuration, with one identity key.\<close>

definition sent_target :: "string \<Rightarrow> obj \<Rightarrow> obj" where
  "sent_target t config = canonicalize_wake_target (dupdate [(''type'', JStr t)] config)"

lemma has_key_dget: "\<not> has_key d k \<Longrightarrow> dget d k = JNull"
  by (simp add: has_key_def dget_def)

lemma dget_typed:
  assumes "distinct (map fst d)"
  shows "dget (dupdate [(''type'', JStr t)] (target_config d)) k =
    (if k = ''type'' then JStr t else if k \<in> {''events'', ''notify_on''} then JNull else dget d k)"
proof -
  have k: "distinct (map fst (target_config d))" by (simp add: target_config_def keys_filter assms)
  have "\<not> has_key (target_config d) ''type''"
    by (auto simp: has_key_def target_config_def map_of_eq_None_iff)
  then show ?thesis
    using has_key_dget [of "target_config d" k]
    by (auto simp: dget_dupdate [OF k] dget_def [of "[(''type'', JStr t)]"] simp del: dupdate_simps)
qed

lemma canonical_session:
  assumes "dget d ''type'' = JStr ''opencode_thread''"
  shows "dget (canonicalize_wake_target d) ''session_id'' =
    (if is_set (session_identity d) then session_identity d else dget d ''session_id'')"
  using assms by (simp add: canonicalize_wake_target_def rename_identity_def)

lemma canonical_thread:
  assumes "dget d ''type'' = JStr t" "t \<in> set THREAD_TYPES"
  shows "dget (canonicalize_wake_target d) ''thread_id'' =
    (if is_set (thread_identity d) then thread_identity d else dget d ''thread_id'')"
proof -
  have "t \<noteq> ''opencode_thread''" using assms(2) by (auto simp: THREAD_TYPES_def)
  with assms show ?thesis by (simp add: canonicalize_wake_target_def rename_identity_def)
qed

lemma canonical_other:
  "dget d ''type'' = JStr t \<Longrightarrow> k \<notin> {''session_id'', ''sessionId'', ''thread_id'', ''threadId''} \<Longrightarrow>
   dget (canonicalize_wake_target d) k = dget d k"
  by (auto simp: canonicalize_wake_target_def rename_identity_def)

lemma nonempty_str_iff: "nonempty_str j \<longleftrightarrow> (\<exists>s. j = JStr s \<and> s \<noteq> [])"
  by (cases j) (auto simp: nonempty_str_def)

lemma nonempty_is_set: "nonempty_str j \<Longrightarrow> is_set j"
  by (auto simp: nonempty_str_iff)

lemma validated_destination:
  "validate_wake_target us ua (JObj d) = Inr u \<Longrightarrow> dget d ''type'' = JStr t \<Longrightarrow> valid_destination t d = Inr ()"
  by (auto simp: validate_wake_target_def Let_def ebind_Inr_iff)

lemma validated_thread:
  assumes "valid_destination t d = Inr ()" "t \<in> set THREAD_TYPES" "t = ''codex_desktop'' \<or> dget d ''command'' = JNull"
  shows "nonempty_str (thread_identity d)"
  using assms by (auto simp: valid_destination_def ebind_Inr_iff THREAD_TYPES_def split: if_splits)

lemma validated_session:
  assumes "valid_destination ''opencode_thread'' d = Inr ()" "dget d ''command'' = JNull"
  shows "nonempty_str (session_identity d)"
  using assms by (simp add: valid_destination_def ebind_Inr_iff)

lemma canonical_type: "dget d ''type'' = JStr t \<Longrightarrow> dget (canonicalize_wake_target d) ''type'' = JStr t"
  by (subst canonical_other) auto

lemma sent_thread:
  assumes "distinct (map fst d)" "dget d ''type'' = JStr t" "t \<in> set THREAD_TYPES" "nonempty_str (thread_identity d)"
  shows "dget (sent_target t (target_config (canonicalize_wake_target d))) ''thread_id'' = thread_identity d"
proof -
  let ?c = "canonicalize_wake_target d"
  let ?e = "dupdate [(''type'', JStr t)] (target_config ?c)"
  note e = dget_typed [OF keys_canonical [OF assms(1)], of t]
  have "is_set (thread_identity d)" by (rule nonempty_is_set) (rule assms(4))
  then have c: "dget ?c ''thread_id'' = thread_identity d" "is_set (dget ?c ''thread_id'')"
    by (simp_all add: canonical_thread [OF assms(2,3)])
  then have i: "thread_identity ?e = thread_identity d"
    unfolding thread_identity_def [of ?e] by (simp add: e por_def del: dupdate_simps)
  have t: "dget ?e ''type'' = JStr t" by (simp add: e del: dupdate_simps)
  show ?thesis
    unfolding sent_target_def canonical_thread [OF t assms(3)] i using nonempty_is_set [OF assms(4)] by simp
qed

lemma sent_session:
  assumes "distinct (map fst d)" "dget d ''type'' = JStr ''opencode_thread''" "nonempty_str (session_identity d)"
  shows "dget (sent_target ''opencode_thread'' (target_config (canonicalize_wake_target d))) ''session_id'' = session_identity d"
proof -
  let ?c = "canonicalize_wake_target d"
  let ?e = "dupdate [(''type'', JStr ''opencode_thread'')] (target_config ?c)"
  note e = dget_typed [OF keys_canonical [OF assms(1)], of "''opencode_thread''"]
  have "is_set (session_identity d)" by (rule nonempty_is_set) (rule assms(3))
  then have c: "dget ?c ''session_id'' = session_identity d" "is_set (dget ?c ''session_id'')"
    by (simp_all add: canonical_session [OF assms(2)])
  then have i: "session_identity ?e = session_identity d"
    unfolding session_identity_def [of ?e] by (simp add: e por_def del: dupdate_simps)
  have t: "dget ?e ''type'' = JStr ''opencode_thread''" by (simp add: e del: dupdate_simps)
  show ?thesis
    unfolding sent_target_def canonical_session [OF t] i using nonempty_is_set [OF assms(3)] by simp
qed
end
