(* ===== verification/Events.thy ===== *)
theory Events
  imports WakeTargets
begin

text \<open>
  The event log of the daemon (\<^verbatim>\<open>_emit\<close>, \<^verbatim>\<open>_emit_transactional\<close> and the retention of
  \<^verbatim>\<open>src/vanth/server.py\<close>).  One transaction checks the cap of the job, runs the state change the event
  reports, inserts the event with the next sequence number of its job, one pending delivery per
  matching wake target, and the metric points the event carries.

  Minted identifiers and the clock are arguments (\<open>mint\<close>; one instant stands for the stamps taken
  inside one transaction).  Float arithmetic of the progress percentage is an argument too
  (\<open>floats\<close>): the quotient, which may overflow, and the comparison of a float with 0 and 100.  The mirror
  file of the events and the retries of a busy database are not modelled.
\<close>

record mint =
  mint_event :: string
  mint_delivery :: "string \<Rightarrow> string"
  mint_series :: "nat \<Rightarrow> string"

record floats =
  fl_percent :: "json \<Rightarrow> json \<Rightarrow> everr + json"
  fl_clamp :: "string \<Rightarrow> json"

record event_payload =
  ep_type :: string
  ep_level :: string
  ep_message :: "string option"
  ep_data :: obj

section \<open>Normalising a payload\<close>

text \<open>\<^verbatim>\<open>max(0, min(100, p))\<close>\<close>

definition clamp_percent :: "floats \<Rightarrow> json \<Rightarrow> json" where
  "clamp_percent fl p = (case p of
      JInt i \<Rightarrow> JInt (max 0 (min 100 i))
    | JBool b \<Rightarrow> (if b then JBool True else JInt 0)
    | JFloat r \<Rightarrow> fl_clamp fl r
    | _ \<Rightarrow> p)"

definition with_percent :: "floats \<Rightarrow> obj \<Rightarrow> everr + obj" where
  "with_percent fl d =
     (if \<not> has_key d ''percent'' \<and> is_number (dget d ''current'') \<and> is_number (dget d ''total'') then
        (if is_set (dget d ''total'') then
           ebind (fl_percent fl (dget d ''current'') (dget d ''total'')) (\<lambda>p. Inr (dput ''percent'' p d))
         else Inr (dput ''percent'' (JInt 0) d))
      else Inr d)"

definition normalize_event_payload ::
  "floats \<Rightarrow> string \<Rightarrow> string \<Rightarrow> string option \<Rightarrow> json \<Rightarrow> everr + event_payload" where
  "normalize_event_payload fl type level message data =
     ebind
       (if type = ''progress'' then
          ebind (with_percent fl (obj_of data)) (\<lambda>d.
            Inr (if is_number (dget d ''percent'') then dput ''percent'' (clamp_percent fl (dget d ''percent'')) d else d))
        else Inr (obj_of data))
       (\<lambda>d. Inr \<lparr>ep_type = type, ep_level = level, ep_message = message, ep_data = d\<rparr>)"

definition data_fits :: "nat \<Rightarrow> obj \<Rightarrow> bool" where
  "data_fits max_bytes d = (length (dumps (JObj d)) \<le> max_bytes)"

text \<open>An oversized payload keeps its type and loses its data.\<close>

definition bounded_payload :: "nat \<Rightarrow> event_payload \<Rightarrow> event_payload" where
  "bounded_payload max_bytes p =
     (if data_fits max_bytes (ep_data p) then p
      else p\<lparr>ep_data := [(''truncated'', JBool True), (''max_bytes'', JInt (int max_bytes))],
             ep_message := (if truthy (ep_message p) then ep_message p else Some ''Event payload exceeded max bytes''),
             ep_level := ''warning''\<rparr>)"

section \<open>Metric points\<close>

fun is_finite_number :: "json \<Rightarrow> bool" where
  "is_finite_number (JInt i) = True"
| "is_finite_number (JFloat r) = (\<not> nonfinite r)"
| "is_finite_number j = False"

text \<open>\<^verbatim>\<open>float(x)\<close>: an integer that rounds above the largest double raises \<^verbatim>\<open>OverflowError\<close>.\<close>

definition float_limit :: int where "float_limit = 2 ^ 1024 - 2 ^ 970"

fun to_float :: "json \<Rightarrow> everr + json" where
  "to_float (JInt i) = (if float_limit \<le> \<bar>i\<bar> then Inl Overflow else Inr (JInt i))"
| "to_float j = Inr j"

definition metric_x :: "obj \<Rightarrow> int \<Rightarrow> everr + json" where
  "metric_x d seq = to_float (if is_finite_number (dget d ''_step'') then dget d ''_step'' else JInt seq)"

definition metric_points :: "string \<Rightarrow> obj \<Rightarrow> (string \<times> json) list" where
  "metric_points type d =
     (if type = ''metric'' then
        filter (\<lambda>(k, v). \<not> (k \<noteq> [] \<and> hd k = CHR ''_'') \<and> k \<noteq> ''stage'' \<and> k \<noteq> ''phase'' \<and> is_finite_number v) d
      else
        filter (\<lambda>(k, v). is_finite_number v)
          [(''progress.current'', dget d ''current''), (''progress.total'', dget d ''total''),
           (''progress.percent'', dget d ''percent'')])"

definition persist_metric_series :: "mint \<Rightarrow> event_row \<Rightarrow> vanth_db \<Rightarrow> everr + vanth_db" where
  "persist_metric_series m e db =
     (if ev_type e \<noteq> ''metric'' \<and> ev_type e \<noteq> ''progress'' then Inr db
      else
        let d = ev_data e; points = metric_points (ev_type e) d;
          stage = str_of (por (dget d ''stage'') (dget d ''phase''))
        in ebind (efor points (\<lambda>p. ebind (to_float (snd p)) (\<lambda>_. Inr ()))) (\<lambda>_.
           ebind (metric_x d (ev_seq e)) (\<lambda>x.
           Inr (db\<lparr>series := series db @ map (\<lambda>(i, k, v).
             \<lparr>ms_id = mint_series m i, ms_job = ev_job e, ms_metric = k, ms_x = x, ms_y = v, ms_stage = stage,
              ms_event = ev_id e, ms_seq = ev_seq e, ms_created = ev_created e\<rparr>) (enumerate 0 points)\<rparr>))))"

section \<open>Enqueueing deliveries\<close>

definition event_json :: "event_row \<Rightarrow> json" where
  "event_json e = JObj
     [(''event_id'', JStr (ev_id e)), (''job_id'', JStr (ev_job e)), (''seq'', JInt (ev_seq e)),
      (''type'', JStr (ev_type e)), (''level'', JStr (ev_level e)), (''message'', jstr_opt (ev_message e)),
      (''data'', JObj (ev_data e)), (''source'', JStr (ev_source e)), (''created_at'', JStr (now_iso (ev_created e)))]"

definition line :: "string \<Rightarrow> string \<Rightarrow> string" where
  "line label text = label @ '': '' @ text @ [CHR 0x0A]"

definition default_prompt :: "event_row \<Rightarrow> string \<Rightarrow> string" where
  "default_prompt e delivery_id =
     ''vanth event'' @ [CHR 0x0A] @ line ''delivery_id'' delivery_id @ line ''job_id'' (ev_job e)
     @ line ''event'' (ev_type e) @ line ''message'' (case ev_message e of None \<Rightarrow> [] | Some s \<Rightarrow> s)
     @ line ''data'' (dumps (JObj (ev_data e))) @ [CHR 0x0A]
     @ ''Continue from this event. Use vanth job_status/job_events/job_tail for details instead of polling.''"

definition delivery_payload :: "event_row \<Rightarrow> target_row \<Rightarrow> string \<Rightarrow> obj" where
  "delivery_payload e t delivery_id =
     [(''target'', JObj (sent_target (tg_type t) (tg_config t))),
      (''event'', event_json e),
      (''prompt'', por (dget (tg_config t) ''prompt'') (JStr (default_prompt e delivery_id))),
      (''delivery_id'', JStr delivery_id)]"

definition wants :: "event_row \<Rightarrow> target_row \<Rightarrow> bool" where
  "wants e t = (tg_job t = ev_job e \<and> (tg_events t = [] \<or> ev_type e \<in> set (tg_events t)))"

definition new_delivery :: "mint \<Rightarrow> int \<Rightarrow> event_row \<Rightarrow> target_row \<Rightarrow> delivery_row" where
  "new_delivery m now e t =
     \<lparr>dl_id = mint_delivery m (tg_id t), dl_event = ev_id e, dl_target = tg_id t, dl_job = ev_job e,
      dl_type = tg_type t, dl_status = ''pending'', dl_attempts = 0,
      dl_payload = delivery_payload e t (mint_delivery m (tg_id t)), dl_created = now, dl_next = None,
      dl_delivered = None, dl_error = None, dl_token = None, dl_claimed = None, dl_lease = None, dl_client = None\<rparr>"

text \<open>\<^verbatim>\<open>INSERT OR IGNORE\<close> under the primary key and \<^verbatim>\<open>UNIQUE(event_id, target_id)\<close>.\<close>

definition insert_delivery :: "delivery_row \<Rightarrow> delivery_row list \<Rightarrow> delivery_row list" where
  "insert_delivery d ds =
     (if (\<exists>r \<in> set ds. dl_id r = dl_id d \<or> dl_event r = dl_event d \<and> dl_target r = dl_target d) then ds
      else ds @ [d])"

definition enqueue_deliveries :: "mint \<Rightarrow> int \<Rightarrow> event_row \<Rightarrow> vanth_db \<Rightarrow> vanth_db" where
  "enqueue_deliveries m now e db =
     db\<lparr>deliveries := fold (\<lambda>t ds. if wants e t then insert_delivery (new_delivery m now e t) ds else ds)
          (targets db) (deliveries db)\<rparr>"

section \<open>Emitting an event\<close>

datatype mut = NoOp | Raises everr | Writes vanth_db
datatype emitted = Persisted event_row | Capped int | Unchanged

definition job_seqs :: "vanth_db \<Rightarrow> string \<Rightarrow> int list" where
  "job_seqs db job = map ev_seq (filter (\<lambda>e. ev_job e = job) (events db))"

definition max_seq :: "vanth_db \<Rightarrow> string \<Rightarrow> int" where
  "max_seq db job = (case job_seqs db job of [] \<Rightarrow> 0 | s # ss \<Rightarrow> fold max ss s)"

definition event_of :: "mint \<Rightarrow> int \<Rightarrow> string \<Rightarrow> event_payload \<Rightarrow> string \<Rightarrow> int \<Rightarrow> event_row" where
  "event_of m now job p source seq =
     \<lparr>ev_id = mint_event m, ev_job = job, ev_seq = seq, ev_type = ep_type p, ev_level = ep_level p,
      ev_message = ep_message p, ev_data = ep_data p, ev_source = source, ev_created = now\<rparr>"

definition commit_event ::
  "mint \<Rightarrow> int \<Rightarrow> string \<Rightarrow> event_payload \<Rightarrow> string \<Rightarrow> vanth_db \<Rightarrow> everr + emitted \<times> vanth_db" where
  "commit_event m now job p source db1 =
     (let e = event_of m now job p source (max_seq db1 job + 1) in
      if (\<exists>r \<in> set (events db1). ev_id r = ev_id e) then Inl DbIntegrity
      else ebind (persist_metric_series m e (enqueue_deliveries m now e (db1\<lparr>events := events db1 @ [e]\<rparr>)))
        (\<lambda>db2. Inr (Persisted e, db2)))"

definition at_cap :: "nat \<Rightarrow> string \<Rightarrow> event_payload \<Rightarrow> bool \<Rightarrow> vanth_db \<Rightarrow> bool" where
  "at_cap max_events job p exempt db =
     (\<not> terminal (ep_type p) \<and> \<not> exempt \<and> max_events \<le> cnt (\<lambda>e. ev_job e = job) (events db))"

definition emit_transactional ::
  "nat \<Rightarrow> mint \<Rightarrow> int \<Rightarrow> string \<Rightarrow> event_payload \<Rightarrow> string \<Rightarrow> bool \<Rightarrow> (vanth_db \<Rightarrow> mut) \<Rightarrow>
   vanth_db \<Rightarrow> (everr + emitted) \<times> vanth_db" where
  "emit_transactional max_events m now job p source exempt mutate =
     txn (\<lambda>db.
       if at_cap max_events job p exempt db
       then Inr (Capped (int (cnt (\<lambda>e. ev_job e = job) (events db)) + 1), db)
       else (case mutate db of
           NoOp \<Rightarrow> Inr (Unchanged, db)
         | Raises e \<Rightarrow> Inl e
         | Writes db1 \<Rightarrow> commit_event m now job p source db1))"

record emit_cfg =
  max_events_per_job :: nat
  max_event_bytes :: nat
  cfg_floats :: floats

definition emit_event ::
  "emit_cfg \<Rightarrow> mint \<Rightarrow> int \<Rightarrow> string \<Rightarrow> string \<Rightarrow> string option \<Rightarrow> obj \<Rightarrow> string \<Rightarrow> string \<Rightarrow> bool \<Rightarrow>
   (vanth_db \<Rightarrow> mut) \<Rightarrow> vanth_db \<Rightarrow> (everr + emitted) \<times> vanth_db" where
  "emit_event cfg m now job type message data level source exempt mutate db =
     (case normalize_event_payload (cfg_floats cfg) type level message (JObj data) of
        Inl e \<Rightarrow> (Inl e, db)
      | Inr p \<Rightarrow> emit_transactional (max_events_per_job cfg) m now job
          (bounded_payload (max_event_bytes cfg) p) source exempt mutate db)"

text \<open>\<^verbatim>\<open>_emit_safely\<close> of the log readers: only database errors are caught.\<close>

definition emit_safely ::
  "emit_cfg \<Rightarrow> mint \<Rightarrow> int \<Rightarrow> string \<Rightarrow> string \<Rightarrow> string option \<Rightarrow> obj \<Rightarrow> string \<Rightarrow> string \<Rightarrow>
   vanth_db \<Rightarrow> (everr + unit) \<times> vanth_db" where
  "emit_safely cfg m now job type message data level source db =
     (case emit_event cfg m now job type message data level source False Writes db of
        (Inl DbIntegrity, db') \<Rightarrow> (Inr (), db')
      | (Inl e, db') \<Rightarrow> (Inl e, db')
      | (Inr x, db') \<Rightarrow> (Inr (), db'))"

section \<open>Reading and retention\<close>

text \<open>Events after a sequence number, in order (\<^verbatim>\<open>_event_query\<close>, forwards).\<close>

definition event_query :: "string \<Rightarrow> string list \<Rightarrow> string option \<Rightarrow> nat \<Rightarrow> vanth_db \<Rightarrow> event_row list" where
  "event_query job types since limit db =
     (let since_seq = (case since of None \<Rightarrow> None
          | Some i \<Rightarrow> if i = [] then None else map_option ev_seq (find (\<lambda>e. ev_job e = job \<and> ev_id e = i) (events db)))
      in take limit (sort_key ev_seq (filter (\<lambda>e. ev_job e = job
           \<and> (case since_seq of None \<Rightarrow> 0 | Some s \<Rightarrow> s) < ev_seq e
           \<and> (types = [] \<or> ev_type e \<in> set types)) (events db))))"

definition settled :: "string \<Rightarrow> bool" where
  "settled s = (s = ''delivered'' \<or> s = ''failed'')"

text \<open>
  \<^verbatim>\<open>_apply_retention\<close>: \<open>keep_*\<close> are the seconds of each stream (0 keeps all), \<open>throttled\<close> the test of
  the stored deadline.
\<close>

definition prune_events :: "int \<Rightarrow> string \<Rightarrow> vanth_db \<Rightarrow> vanth_db" where
  "prune_events cutoff job db =
     db\<lparr>events := del (\<lambda>e. ev_job e = job \<and> sql_less (ev_created e) cutoff \<and> \<not> terminal (ev_type e)) (events db)\<rparr>"

definition prune_metrics :: "int \<Rightarrow> string \<Rightarrow> vanth_db \<Rightarrow> vanth_db" where
  "prune_metrics cutoff job db =
     db\<lparr>series := del (\<lambda>p. ms_job p = job \<and> sql_less (ms_created p) cutoff) (series db)\<rparr>"

definition prune_deliveries :: "int \<Rightarrow> string \<Rightarrow> vanth_db \<Rightarrow> vanth_db" where
  "prune_deliveries cutoff job db =
     (let old = (\<lambda>d. dl_job d = job \<and> sql_less (dl_created d) cutoff \<and> settled (dl_status d))
      in db\<lparr>attempts := del (\<lambda>a. \<exists>d \<in> set (deliveries db). old d \<and> dl_id d = at_delivery a) (attempts db),
            deliveries := del old (deliveries db)\<rparr>)"

record retention =
  keep_events :: int
  keep_metrics :: int
  keep_deliveries :: int

definition apply_retention :: "int \<Rightarrow> int \<Rightarrow> bool \<Rightarrow> string \<Rightarrow> retention \<Rightarrow> vanth_db \<Rightarrow> vanth_db" where
  "apply_retention min_interval now throttled job r db =
     (if throttled then db
      else
        let state = policy_state db job;
          db1 = (if keep_events r = 0 then db else prune_events (now - seconds (keep_events r)) job db);
          db2 = (if keep_metrics r = 0 then db1 else prune_metrics (now - seconds (keep_metrics r)) job db1);
          db3 = (if keep_deliveries r = 0 then db2 else prune_deliveries (now - seconds (keep_deliveries r)) job db2)
        in save_policy_state now job
             (dput ''retention_next_at'' (JStr (now_iso (now + seconds min_interval))) state) db3)"

text \<open>
  \<^verbatim>\<open>handle_events_request\<close> of \<^verbatim>\<open>src/vanth/remote/remote.py\<close>, for one job of the request: the events after a
  cursor, at most \<open>limit\<close>; a cursor that is \<^verbatim>\<open>None\<close> starts at the end.
\<close>

record event_page =
  pg_events :: "event_row list"
  pg_next :: int
  pg_high :: int
  pg_more :: bool

definition after_seq :: "string \<Rightarrow> int \<Rightarrow> vanth_db \<Rightarrow> event_row list" where
  "after_seq job since db = sort_key ev_seq (filter (\<lambda>e. ev_job e = job \<and> since < ev_seq e) (events db))"

definition read_events :: "string \<Rightarrow> int option \<Rightarrow> nat \<Rightarrow> vanth_db \<Rightarrow> event_page" where
  "read_events job since limit db =
     (case since of
        None \<Rightarrow> \<lparr>pg_events = [], pg_next = max_seq db job, pg_high = max_seq db job, pg_more = False\<rparr>
      | Some s \<Rightarrow>
          let es = take limit (after_seq job s db);
            next = (if es = [] then s else ev_seq (last es))
          in \<lparr>pg_events = es, pg_next = next, pg_high = max_seq db job,
              pg_more = (\<exists>e \<in> set (events db). ev_job e = job \<and> next < ev_seq e)\<rparr>)"

text \<open>Reading until nothing is left, at most \<open>fuel\<close> pages.\<close>

fun drain :: "nat \<Rightarrow> string \<Rightarrow> int \<Rightarrow> nat \<Rightarrow> vanth_db \<Rightarrow> event_row list" where
  "drain 0 job since limit db = []"
| "drain (Suc n) job since limit db =
     (let p = read_events job (Some since) limit db
      in pg_events p @ (if pg_more p then drain n job (pg_next p) limit db else []))"

section \<open>Sequence numbers\<close>

lemma max_seq_Max: "job_seqs db job \<noteq> [] \<Longrightarrow> max_seq db job = Max (set (job_seqs db job))"
  by (cases "job_seqs db job") (simp_all only: max_seq_def list.case Max.set_eq_fold not_Cons_self2)

lemma max_seq_ge: "s \<in> set (job_seqs db job) \<Longrightarrow> s \<le> max_seq db job"
  by (cases "job_seqs db job = []") (auto simp: max_seq_Max)

lemma in_job_seqs: "e \<in> set (events db) \<Longrightarrow> ev_seq e \<in> set (job_seqs db (ev_job e))"
  by (auto simp: job_seqs_def)

lemma event_below_max: "e \<in> set (events db) \<Longrightarrow> ev_seq e \<le> max_seq db (ev_job e)"
  by (intro max_seq_ge in_job_seqs)

lemma enqueue_keeps [simp]:
  "events (enqueue_deliveries m now e db) = events db"
  "jobs (enqueue_deliveries m now e db) = jobs db"
  "decisions (enqueue_deliveries m now e db) = decisions db"
  "targets (enqueue_deliveries m now e db) = targets db"
  "cursors (enqueue_deliveries m now e db) = cursors db"
  "attempts (enqueue_deliveries m now e db) = attempts db"
  "relays (enqueue_deliveries m now e db) = relays db"
  "pools (enqueue_deliveries m now e db) = pools db"
  by (simp_all add: enqueue_deliveries_def)

text \<open>The metric points are the only other table that an emission writes.\<close>

lemma persist_keeps:
  "persist_metric_series m e db = Inr db' \<Longrightarrow> \<exists>new. db' = db\<lparr>series := series db @ new\<rparr>"
proof (cases "ev_type e \<noteq> ''metric'' \<and> ev_type e \<noteq> ''progress''")
  case True
  moreover assume "persist_metric_series m e db = Inr db'"
  ultimately have "db' = db\<lparr>series := series db @ []\<rparr>" by (simp add: persist_metric_series_def)
  then show ?thesis by blast
next
  case False
  moreover assume "persist_metric_series m e db = Inr db'"
  ultimately show ?thesis
    unfolding persist_metric_series_def Let_def by (auto simp: ebind_Inr_iff)
qed

section \<open>What an emission commits\<close>

definition emitted_db :: "mint \<Rightarrow> int \<Rightarrow> event_row \<Rightarrow> vanth_db \<Rightarrow> vanth_db" where
  "emitted_db m now e db1 = enqueue_deliveries m now e (db1\<lparr>events := events db1 @ [e]\<rparr>)"

lemma commit_cases:
  assumes "commit_event m now job p source db1 = r"
  obtains (failed) x where "r = Inl x"
    | (committed) e new where "e = event_of m now job p source (max_seq db1 job + 1)"
        "ev_id e \<notin> ev_id ` set (events db1)"
        "r = Inr (Persisted e, (emitted_db m now e db1)\<lparr>series := series db1 @ new\<rparr>)"
proof (cases r)
  case (Inl x)
  then show thesis by (rule failed)
next
  case (Inr q)
  let ?e = "event_of m now job p source (max_seq db1 job + 1)"
  have f: "\<not> (\<exists>q \<in> set (events db1). ev_id q = ev_id ?e)"
  proof
    assume e: "\<exists>q \<in> set (events db1). ev_id q = ev_id ?e"
    from assms Inr show False unfolding commit_event_def Let_def if_P [OF e] by simp
  qed
  from assms Inr obtain db2 where p: "persist_metric_series m ?e (emitted_db m now ?e db1) = Inr db2"
      and q: "q = (Persisted ?e, db2)"
    unfolding commit_event_def Let_def if_not_P [OF f] emitted_db_def by (auto simp: ebind_Inr_iff)
  from persist_keeps [OF p] obtain new
    where "db2 = (emitted_db m now ?e db1)\<lparr>series := series (emitted_db m now ?e db1) @ new\<rparr>" by auto
  then have "r = Inr (Persisted ?e, (emitted_db m now ?e db1)\<lparr>series := series db1 @ new\<rparr>)"
    using Inr q by (simp add: emitted_db_def enqueue_deliveries_def)
  with f show thesis by (intro committed) auto
qed

lemma emit_cases:
  assumes "emit_transactional mx m now job p source exempt mutate db = (res, db')"
  obtains (error) x where "res = Inl x" "db' = db"
    | (capped) n where "res = Inr (Capped n)" "db' = db" "at_cap mx job p exempt db"
    | (unchanged) "res = Inr Unchanged" "db' = db" "mutate db = NoOp"
    | (persisted) db1 e new where "mutate db = Writes db1" "res = Inr (Persisted e)"
        "e = event_of m now job p source (max_seq db1 job + 1)"
        "ev_id e \<notin> ev_id ` set (events db1)"
        "db' = (emitted_db m now e db1)\<lparr>series := series db1 @ new\<rparr>"
        "\<not> at_cap mx job p exempt db"
proof (cases "at_cap mx job p exempt db")
  case True
  with assms have "res = Inr (Capped (int (cnt (\<lambda>e. ev_job e = job) (events db)) + 1))" "db' = db"
    by (auto simp: emit_transactional_def txn_def)
  then show thesis using True by (rule capped)
next
  case False
  show thesis
  proof (cases "mutate db")
    case NoOp
    with False assms have "res = Inr Unchanged" "db' = db" by (auto simp: emit_transactional_def txn_def)
    then show thesis using NoOp by (rule unchanged)
  next
    case (Raises x)
    with False assms have "res = Inl x" "db' = db" by (auto simp: emit_transactional_def txn_def)
    then show thesis by (rule error)
  next
    case (Writes db1)
    with False assms have c: "(case commit_event m now job p source db1 of
        Inl e \<Rightarrow> (Inl e, db) | Inr (a, s) \<Rightarrow> (Inr a, s)) = (res, db')"
      by (simp add: emit_transactional_def txn_def)
    show thesis
    proof (cases rule: commit_cases [OF refl, of m now job p source db1])
      case (1 x)
      with c have "res = Inl x" "db' = db" by simp_all
      then show thesis by (rule error)
    next
      case (2 e new)
      with c have "res = Inr (Persisted e)" "db' = (emitted_db m now e db1)\<lparr>series := series db1 @ new\<rparr>" by simp_all
      then show thesis using Writes 2 False by (intro persisted)
    qed
  qed
qed

text \<open>Fresh identifiers: what a random 64-bit \<^verbatim>\<open>uuid4\<close> fragment gives.\<close>

definition fresh_mint :: "mint \<Rightarrow> vanth_db \<Rightarrow> bool" where
  "fresh_mint m db =
     (distinct (map tg_id (targets db)) \<and> distinct (map (\<lambda>t. mint_delivery m (tg_id t)) (targets db))
      \<and> (\<forall>d \<in> set (deliveries db). dl_event d \<noteq> mint_event m
            \<and> (\<forall>t \<in> set (targets db). dl_id d \<noteq> mint_delivery m (tg_id t))))"

lemma fold_insert:
  assumes "distinct (map tg_id ts)" "distinct (map (\<lambda>t. mint_delivery m (tg_id t)) ts)"
    and "\<forall>t \<in> set ts. \<forall>d \<in> set ds. dl_id d \<noteq> mint_delivery m (tg_id t) \<and> \<not> (dl_event d = ev_id e \<and> dl_target d = tg_id t)"
  shows "fold (\<lambda>t ds. if wants e t then insert_delivery (new_delivery m now e t) ds else ds) ts ds =
    ds @ map (new_delivery m now e) (filter (wants e) ts)"
  using assms
proof (induction ts arbitrary: ds)
  case (Cons t ts)
  show ?case
  proof (cases "wants e t")
    case True
    from Cons.prems(3) have "insert_delivery (new_delivery m now e t) ds = ds @ [new_delivery m now e t]"
      by (auto simp: insert_delivery_def new_delivery_def)
    moreover have "fold (\<lambda>t ds. if wants e t then insert_delivery (new_delivery m now e t) ds else ds) ts
        (ds @ [new_delivery m now e t]) =
      (ds @ [new_delivery m now e t]) @ map (new_delivery m now e) (filter (wants e) ts)"
      by (rule Cons.IH) (use Cons.prems in \<open>auto simp: new_delivery_def\<close>)
    ultimately show ?thesis using True by simp
  next
    case False
    with Cons show ?thesis by simp
  qed
qed simp

lemma emitted_deliveries:
  assumes "fresh_mint m db" "ev_id e = mint_event m"
  shows "deliveries (emitted_db m now e db) = deliveries db @ map (new_delivery m now e) (filter (wants e) (targets db))"
  unfolding emitted_db_def enqueue_deliveries_def
  using assms by (simp add: fresh_mint_def) (rule fold_insert, auto)

lemma length_nat_str: "0 < k \<Longrightarrow> n < 10 ^ k \<Longrightarrow> length (nat_str n) \<le> k"
proof (induction k arbitrary: n)
  case (Suc k)
  show ?case
  proof (cases "n < 10")
    case True
    then show ?thesis by (subst nat_str.simps) simp
  next
    case False
    with Suc.prems have "n div 10 < 10 ^ k" "0 < k" by (auto intro: gr0I)
    with Suc.IH False show ?thesis by (subst nat_str.simps) simp
  qed
qed simp

lemma length_int_str:
  assumes "0 < k" "0 \<le> i" "i < 10 ^ k"
  shows "length (int_str i) \<le> k"
proof -
  have "nat i < 10 ^ k" using assms(2,3) by (simp add: nat_less_iff)
  with length_nat_str [OF assms(1)] assms(2) show ?thesis by (simp add: int_str_def)
qed

section \<open>Properties\<close>

text \<open>
  C13. An emission commits everything or nothing.  If it raises, is refused by the event cap or finds
  nothing to change, the database is as before.  Otherwise the state change of the
  caller, one event with a sequence number above every earlier one of its job, and one pending
  delivery for exactly the wake targets of the job that ask for the event's type are all written,
  and nothing else but the metric points.
\<close>

theorem event_and_wakes_commit_together:
  assumes "emit_transactional mx m now job p source exempt mutate db = (res, db')"
    and "\<And>db1. mutate db = Writes db1 \<Longrightarrow> fresh_mint m db1"
  shows "case res of
      Inl x \<Rightarrow> db' = db
    | Inr (Capped n) \<Rightarrow> db' = db \<and> at_cap mx job p exempt db
    | Inr Unchanged \<Rightarrow> db' = db \<and> mutate db = NoOp
    | Inr (Persisted e) \<Rightarrow> \<exists>db1. mutate db = Writes db1 \<and> \<not> at_cap mx job p exempt db
        \<and> ev_job e = job \<and> ev_type e = ep_type p \<and> ev_data e = ep_data p
        \<and> (\<forall>q \<in> set (events db1). ev_job q = job \<longrightarrow> ev_seq q < ev_seq e)
        \<and> db' = db1\<lparr>events := events db1 @ [e],
             deliveries := deliveries db1 @ map (new_delivery m now e) (filter (wants e) (targets db1)),
             series := series db'\<rparr>"
  using assms(1)
proof (cases rule: emit_cases)
  case (persisted db1 e new)
  have i: "ev_id e = mint_event m" "ev_job e = job" "ev_type e = ep_type p" "ev_data e = ep_data p"
      "ev_seq e = max_seq db1 job + 1"
    by (simp_all add: persisted(3) event_of_def)
  have "\<forall>q \<in> set (events db1). ev_job q = job \<longrightarrow> ev_seq q < ev_seq e"
    using event_below_max [of _ db1] i(5) by fastforce
  moreover have "db' = db1\<lparr>events := events db1 @ [e],
      deliveries := deliveries db1 @ map (new_delivery m now e) (filter (wants e) (targets db1)),
      series := series db'\<rparr>"
    using emitted_deliveries [OF assms(2) [OF persisted(1)] i(1), of now]
    by (simp add: persisted(5) emitted_db_def enqueue_deliveries_def)
  ultimately show ?thesis using persisted(1,2,6) i by auto
qed auto

text \<open>Each job's events have strictly increasing numbers, in the order they were written.\<close>

definition seqs_ok :: "vanth_db \<Rightarrow> bool" where
  "seqs_ok db = (\<forall>job. sorted_wrt (<) (job_seqs db job))"

lemma job_seqs_append:
  "job_seqs (db\<lparr>events := es @ [e]\<rparr>) job = job_seqs (db\<lparr>events := es\<rparr>) job @ (if ev_job e = job then [ev_seq e] else [])"
  by (simp add: job_seqs_def)

lemma seqs_ok_snoc:
  assumes "seqs_ok db" "ev_seq e = max_seq db (ev_job e) + 1"
  shows "seqs_ok (db\<lparr>events := events db @ [e]\<rparr>)"
proof -
  have "sorted_wrt (<) (job_seqs (db\<lparr>events := events db @ [e]\<rparr>) job)" for job
  proof (cases "ev_job e = job")
    case True
    then have "\<forall>s \<in> set (job_seqs db job). s < ev_seq e" using assms(2) max_seq_ge by fastforce
    with True assms(1) show ?thesis by (simp add: job_seqs_append sorted_wrt_append seqs_ok_def)
  next
    case False
    with assms(1) show ?thesis by (simp add: job_seqs_append seqs_ok_def)
  qed
  then show ?thesis by (simp add: seqs_ok_def)
qed

lemma seqs_ok_events: "events db' = events db \<Longrightarrow> seqs_ok db' \<longleftrightarrow> seqs_ok db"
  by (simp add: seqs_ok_def job_seqs_def)

lemma emit_seqs:
  assumes "seqs_ok db" "\<And>db1. mutate db = Writes db1 \<Longrightarrow> events db1 = events db"
  shows "seqs_ok (snd (emit_transactional mx m now job p source exempt mutate db))"
proof (cases "emit_transactional mx m now job p source exempt mutate db")
  case (Pair res db')
  from Pair show ?thesis
  proof (cases rule: emit_cases)
    case (persisted db1 e new)
    from seqs_ok_events [OF assms(2) [OF persisted(1)]] assms(1) have "seqs_ok db1" by simp
    then have "seqs_ok (db1\<lparr>events := events db1 @ [e]\<rparr>)"
      by (rule seqs_ok_snoc) (simp add: persisted(3) event_of_def)
    moreover have "events db' = events (db1\<lparr>events := events db1 @ [e]\<rparr>)"
      by (simp add: persisted(5) emitted_db_def)
    ultimately have "seqs_ok db'" using seqs_ok_events by blast
    then show ?thesis by (simp add: Pair)
  qed (use Pair assms(1) in auto)
qed

lemma emit_count:
  assumes "\<And>db1. mutate db = Writes db1 \<Longrightarrow> events db1 = events db"
    and "\<not> terminal (ep_type p)" "\<not> exempt" "cnt (\<lambda>e. ev_job e = j) (events db) \<le> mx"
  shows "cnt (\<lambda>e. ev_job e = j) (events (snd (emit_transactional mx m now job p source exempt mutate db))) \<le> mx"
proof (cases "emit_transactional mx m now job p source exempt mutate db")
  case (Pair res db')
  from Pair show ?thesis
  proof (cases rule: emit_cases)
    case (persisted db1 e new)
    have "ev_job e = job" by (simp add: persisted(3) event_of_def)
    moreover have "events db' = events db @ [e]"
      by (simp add: persisted(5) emitted_db_def assms(1) [OF persisted(1)])
    ultimately have "cnt (\<lambda>e. ev_job e = j) (events db') \<le> mx"
      using assms(2-) persisted(6) by (auto simp: at_cap_def)
    then show ?thesis by (simp add: Pair)
  qed (use Pair assms(4) in auto)
qed

text \<open>
  Emitting keeps every job's event numbers strictly increasing, and an event that is neither
  terminal nor exempt never takes a job's log above the cap.
\<close>

theorem event_numbers_increase:
  assumes "seqs_ok db" "\<And>db1. mutate db = Writes db1 \<Longrightarrow> events db1 = events db"
  shows "seqs_ok (snd (emit_transactional mx m now job p source exempt mutate db))
    \<and> (\<not> terminal (ep_type p) \<longrightarrow> \<not> exempt \<longrightarrow> (\<forall>j. cnt (\<lambda>e. ev_job e = j) (events db) \<le> mx \<longrightarrow>
        cnt (\<lambda>e. ev_job e = j) (events (snd (emit_transactional mx m now job p source exempt mutate db))) \<le> mx))"
  using emit_seqs [OF assms] emit_count [OF assms(2)] by blast

lemma after_seq_sorted:
  assumes "seqs_ok db"
  shows "after_seq job s db = filter (\<lambda>e. s < ev_seq e) (filter (\<lambda>e. ev_job e = job) (events db))"
    and "sorted_wrt (\<lambda>a b. ev_seq a < ev_seq b) (after_seq job s db)"
proof -
  let ?l = "filter (\<lambda>e. s < ev_seq e) (filter (\<lambda>e. ev_job e = job) (events db))"
  from assms have j: "sorted_wrt (\<lambda>a b. ev_seq a < ev_seq b) (filter (\<lambda>e. ev_job e = job) (events db))"
    by (simp add: seqs_ok_def job_seqs_def sorted_wrt_map)
  then have l: "sorted_wrt (\<lambda>a b. ev_seq a < ev_seq b) ?l" by (rule sorted_wrt_filter)
  then have "sorted (map ev_seq ?l)" unfolding sorted_map by (rule sorted_wrt_mono_rel [rotated]) auto
  then have "sort_key ev_seq ?l = ?l" by (rule sort_key_id_if_sorted)
  then show a: "after_seq job s db = ?l" by (simp add: after_seq_def conj_commute)
  show "sorted_wrt (\<lambda>a b. ev_seq a < ev_seq b) (after_seq job s db)" unfolding a by (rule l)
qed

lemma last_is_max:
  fixes f :: "'a \<Rightarrow> int"
  shows "sorted_wrt (\<lambda>a b. f a < f b) xs \<Longrightarrow> x \<in> set xs \<Longrightarrow> \<not> f (last xs) < f x"
proof (induction xs)
  case (Cons y xs)
  then show ?case by (cases "xs = []") (auto, meson last_in_set less_asym)
qed simp

lemma sorted_after_last:
  fixes f :: "'a \<Rightarrow> int"
  assumes "sorted_wrt (\<lambda>a b. f a < f b) xs" "0 < n" "xs \<noteq> []"
  shows "filter (\<lambda>x. f (last (take n xs)) < f x) xs = drop n xs"
proof -
  have s: "sorted_wrt (\<lambda>a b. f a < f b) (take n xs @ drop n xs)" using assms(1) by simp
  from assms have ne: "take n xs \<noteq> []" by simp
  have "\<forall>x \<in> set (drop n xs). f (last (take n xs)) < f x"
    using s ne unfolding sorted_wrt_append by simp
  moreover have "\<forall>x \<in> set (take n xs). \<not> f (last (take n xs)) < f x"
    using s ne unfolding sorted_wrt_append by (intro ballI last_is_max) auto
  ultimately have "filter (\<lambda>x. f (last (take n xs)) < f x) (take n xs @ drop n xs) = drop n xs"
    unfolding filter_append by (simp add: filter_empty_conv)
  then show ?thesis by simp
qed

lemma after_seq_next:
  assumes "seqs_ok db" "0 < limit" "after_seq job s db \<noteq> []"
  shows "after_seq job (ev_seq (last (take limit (after_seq job s db)))) db = drop limit (after_seq job s db)"
proof -
  let ?A = "after_seq job s db"
  let ?n = "ev_seq (last (take limit ?A))"
  have "last (take limit ?A) \<in> set ?A"
    using assms(2,3) by (metis in_set_takeD last_in_set take_eq_Nil less_not_refl)
  then have "s < ?n" by (simp add: after_seq_def)
  then have "after_seq job ?n db = filter (\<lambda>e. ?n < ev_seq e) ?A"
    unfolding after_seq_sorted(1) [OF assms(1)] filter_filter by (intro filter_cong) auto
  also have "\<dots> = drop limit ?A"
    by (rule sorted_after_last [OF after_seq_sorted(2) [OF assms(1)] assms(2,3)])
  finally show ?thesis .
qed

lemma read_events_Some:
  "pg_events (read_events job (Some s) limit db) = take limit (after_seq job s db)"
  "pg_next (read_events job (Some s) limit db) =
     (if take limit (after_seq job s db) = [] then s else ev_seq (last (take limit (after_seq job s db))))"
  by (simp_all add: read_events_def Let_def)

lemma read_events_more:
  "pg_more (read_events job (Some s) limit db) \<longleftrightarrow> after_seq job (pg_next (read_events job (Some s) limit db)) db \<noteq> []"
proof -
  have "(\<exists>e \<in> set (events db). ev_job e = job \<and> x < ev_seq e) \<longleftrightarrow> after_seq job x db \<noteq> []" for x
  proof -
    have "after_seq job x db \<noteq> [] \<longleftrightarrow> set (after_seq job x db) \<noteq> {}" by simp
    then show ?thesis by (auto simp: after_seq_def simp del: set_empty set_empty2)
  qed
  then show ?thesis by (simp add: read_events_def Let_def)
qed

lemma drain_all:
  assumes "seqs_ok db" "0 < limit"
  shows "length (after_seq job s db) < n \<Longrightarrow> drain n job s limit db = after_seq job s db"
proof (induction n arbitrary: s)
  case (Suc n)
  let ?A = "after_seq job s db"
  show ?case
  proof (cases "?A = []")
    case True
    then show ?thesis using read_events_more [of job s limit db] by (simp add: read_events_Some Let_def)
  next
    case False
    note following = after_seq_next [OF assms False]
    have n: "pg_next (read_events job (Some s) limit db) = ev_seq (last (take limit ?A))"
      using False assms(2) by (simp add: read_events_Some)
    have "length (drop limit ?A) < n" using Suc.prems assms(2) False by (cases "length ?A") auto
    then have "drain n job (ev_seq (last (take limit ?A))) limit db = drop limit ?A"
      using Suc.IH [of "ev_seq (last (take limit ?A))"] by (simp add: following)
    then show ?thesis
      using read_events_more [of job s limit db] unfolding n following
      by (simp add: read_events_Some(1) Let_def n)
  qed
qed simp

text \<open>
  C20. A remote reader that follows \<^verbatim>\<open>next_seq\<close> while \<^verbatim>\<open>has_more\<close> holds terminates, and gets each event of the
  job after its cursor exactly once and in order, whatever the page size.
\<close>

theorem reading_by_cursor_is_complete:
  assumes "seqs_ok db" "0 < limit" "length (events db) < n"
  shows "drain n job s limit db = filter (\<lambda>e. s < ev_seq e) (filter (\<lambda>e. ev_job e = job) (events db))
    \<and> sorted_wrt (\<lambda>a b. ev_seq a < ev_seq b) (drain n job s limit db)"
proof -
  have "length (after_seq job s db) \<le> length (events db)"
    by (simp add: after_seq_def)
  with assms(3) have "drain n job s limit db = after_seq job s db" by (intro drain_all [OF assms(1,2)]) simp
  then show ?thesis using after_seq_sorted [OF assms(1), of job s] by simp
qed

lemma retention_keeps [simp]:
  "events (prune_metrics c job db) = events db" "events (prune_deliveries c job db) = events db"
  "events (save_policy_state now job st db) = events db"
  by (simp_all add: prune_metrics_def prune_deliveries_def save_policy_state_def update_jobs_def Let_def)

lemma retention_events:
  "events (apply_retention mi now False job r db) =
     (if keep_events r = 0 then events db
      else del (\<lambda>e. ev_job e = job \<and> sql_less (ev_created e) (now - seconds (keep_events r)) \<and> \<not> terminal (ev_type e))
        (events db))"
  by (simp add: apply_retention_def Let_def prune_events_def)

text \<open>
  Event retention can reset the numbering of a job: when it removes every event of the job (all
  non-terminal and older than the limit), the next event is numbered 1 again, and a remote reader
  whose cursor is at 1 or beyond neither gets it nor is told that there is more.
\<close>

theorem retention_restarts_numbering:
  assumes "keep_events r \<noteq> 0" "1 \<le> c"
    and "\<And>e. e \<in> set (events db) \<Longrightarrow> ev_job e = job \<Longrightarrow>
      sql_less (ev_created e) (now - seconds (keep_events r)) \<and> \<not> terminal (ev_type e)"
    and "emit_transactional mx m later job p source exempt Writes (apply_retention mi now False job r db)
      = (Inr (Persisted e), db')"
  shows "ev_seq e = 1 \<and> pg_events (read_events job (Some c) limit db') = []
    \<and> \<not> pg_more (read_events job (Some c) limit db')"
proof -
  let ?d = "apply_retention mi now False job r db"
  have gone: "\<forall>q \<in> set (events ?d). ev_job q \<noteq> job"
    using assms(1,3) by (auto simp: retention_events)
  then have seqs: "job_seqs ?d job = []" by (auto simp: job_seqs_def filter_empty_conv)
  from assms(4) have e: "ev_seq e = 1 \<and> ev_job e = job \<and> events db' = events ?d @ [e]"
  proof (cases rule: emit_cases)
    case (persisted db1 e' new)
    then show ?thesis using seqs by (simp add: event_of_def emitted_db_def max_seq_def)
  qed simp_all
  have "after_seq job c db' = []"
    using e gone assms(2) by (auto simp: after_seq_def filter_empty_conv)
  then show ?thesis using e assms(2) gone by (auto simp: read_events_def Let_def)
qed

lemma commit_overflow:
  assumes "ep_type p = ''metric''" "\<not> at_cap mx job p False db" "\<forall>r \<in> set (events db). ev_id r \<noteq> mint_event m"
    and "(k, JInt i) \<in> set (ep_data p)" "float_limit \<le> \<bar>i\<bar>" "k \<notin> {''stage'', ''phase''}" "k \<noteq> []" "hd k \<noteq> CHR ''_''"
  shows "emit_transactional mx m now job p source False Writes db = (Inl Overflow, db)"
proof -
  let ?e = "event_of m now job p source (max_seq db job + 1)"
  have e: "ev_id ?e = mint_event m" "ev_type ?e = ''metric''" "ev_data ?e = ep_data p"
    by (simp_all add: event_of_def assms(1))
  have one: "efor xs (\<lambda>q. ebind (to_float (snd q)) (\<lambda>_. Inr ())) = Inl Overflow"
    if "(k, JInt i) \<in> set xs" "\<forall>q \<in> set xs. is_finite_number (snd q)" for xs
    using that
  proof (induction xs)
    case (Cons x xs)
    obtain l v where x: "x = (l, v)" by force
    have "ebind (to_float v) (\<lambda>_. Inr ()) = Inl Overflow \<or> ebind (to_float v) (\<lambda>_. Inr ()) = Inr ()"
      by (cases v) auto
    then show ?case using Cons assms(5) x by auto
  qed simp
  have "(k, JInt i) \<in> set (metric_points ''metric'' (ep_data p))"
    using assms(4,6-8) by (simp add: metric_points_def)
  moreover have "\<forall>q \<in> set (metric_points ''metric'' (ep_data p)). is_finite_number (snd q)"
    by (auto simp: metric_points_def)
  ultimately have "efor (metric_points ''metric'' (ep_data p)) (\<lambda>q. ebind (to_float (snd q)) (\<lambda>_. Inr ())) = Inl Overflow"
    by (rule one)
  then have "persist_metric_series m ?e d = Inl Overflow" for d
    by (simp add: persist_metric_series_def e Let_def)
  moreover have "\<not> (\<exists>r \<in> set (events db). ev_id r = ev_id ?e)" using assms(3) by (simp add: e)
  ultimately have "commit_event m now job p source db = Inl Overflow"
    by (simp add: commit_event_def Let_def)
  with assms(2) show ?thesis by (simp add: emit_transactional_def txn_def)
qed

text \<open>
  A metric event with an integer too large for a double is not skipped: converting it raises
  \<^verbatim>\<open>OverflowError\<close> inside the transaction, which \<^verbatim>\<open>_emit_safely\<close> does not catch, so the error leaves the
  loop that reads the job's output.
\<close>

theorem huge_metric_escapes_reader:
  assumes "data_fits (max_event_bytes cfg) d" "cnt (\<lambda>e. ev_job e = job) (events db) < max_events_per_job cfg"
    and "\<forall>r \<in> set (events db). ev_id r \<noteq> mint_event m"
    and "(k, JInt i) \<in> set d" "float_limit \<le> \<bar>i\<bar>" "k \<notin> {''stage'', ''phase''}" "k \<noteq> []" "hd k \<noteq> CHR ''_''"
  shows "emit_safely cfg m now job ''metric'' message d level source db = (Inl Overflow, db)"
proof -
  let ?p = "\<lparr>ep_type = ''metric'', ep_level = level, ep_message = message, ep_data = d\<rparr>"
  have "normalize_event_payload (cfg_floats cfg) ''metric'' level message (JObj d) = Inr ?p"
    by (simp add: normalize_event_payload_def)
  moreover have "bounded_payload (max_event_bytes cfg) ?p = ?p" using assms(1) by (simp add: bounded_payload_def)
  moreover have "emit_transactional (max_events_per_job cfg) m now job ?p source False Writes db = (Inl Overflow, db)"
    by (rule commit_overflow) (use assms in \<open>auto simp: at_cap_def\<close>)
  ultimately show ?thesis by (simp add: emit_safely_def emit_event_def)
qed

section \<open>Examples\<close>

lemma emit_persists:
  assumes "mutate db = Writes db1" "\<not> at_cap mx job p exempt db"
    and "\<forall>r \<in> set (events db1). ev_id r \<noteq> mint_event m" "ep_type p \<notin> {''metric'', ''progress''}"
  shows "emit_transactional mx m now job p source exempt mutate db =
    (Inr (Persisted (event_of m now job p source (max_seq db1 job + 1))),
     emitted_db m now (event_of m now job p source (max_seq db1 job + 1)) db1)"
proof -
  let ?e = "event_of m now job p source (max_seq db1 job + 1)"
  have "\<not> (\<exists>r \<in> set (events db1). ev_id r = ev_id ?e)" using assms(3) by (simp add: event_of_def)
  moreover have "persist_metric_series m ?e d = Inr d" for d
    using assms(4) by (simp add: persist_metric_series_def event_of_def)
  ultimately have "commit_event m now job p source db1 = Inr (Persisted ?e, emitted_db m now ?e db1)"
    by (simp add: commit_event_def Let_def emitted_db_def)
  with assms(1,2) show ?thesis by (simp add: emit_transactional_def txn_def)
qed

definition demo_floats :: floats where
  "demo_floats = \<lparr>fl_percent = (\<lambda>a b. Inr (JInt 50)), fl_clamp = JFloat\<rparr>"

definition demo_cfg :: emit_cfg where
  "demo_cfg = \<lparr>max_events_per_job = 3, max_event_bytes = 1000, cfg_floats = demo_floats\<rparr>"

definition demo_mint :: mint where
  "demo_mint = \<lparr>mint_event = ''e9'', mint_delivery = (\<lambda>t. ''d'' @ t), mint_series = (\<lambda>n. ''s'')\<rparr>"

definition demo_target :: "string \<Rightarrow> string list \<Rightarrow> target_row" where
  "demo_target i evs = \<lparr>tg_id = i, tg_job = ''j1'', tg_remote = None, tg_type = ''codex_desktop'', tg_events = evs,
     tg_config = [(''thread_id'', JStr ''th''), (''prompt'', JStr ''go'')], tg_created = 1\<rparr>"

definition demo_event :: "string \<Rightarrow> int \<Rightarrow> string \<Rightarrow> event_row" where
  "demo_event i n t = \<lparr>ev_id = i, ev_job = ''j1'', ev_seq = n, ev_type = t, ev_level = ''info'', ev_message = None,
     ev_data = [], ev_source = ''stdout'', ev_created = 2\<rparr>"

definition demo_log :: vanth_db where
  "demo_log = demo_jobs\<lparr>targets := [demo_target ''t1'' [''done''], demo_target ''t2'' [''failed'']],
     events := [demo_event ''e1'' 1 ''started'', demo_event ''e2'' 2 ''checkpoint'']\<rparr>"

definition demo_payload :: event_payload where
  "demo_payload = \<lparr>ep_type = ''done'', ep_level = ''info'', ep_message = Some ''ok'', ep_data = []\<rparr>"

definition demo_done :: event_row where
  "demo_done = event_of demo_mint 9 ''j1'' demo_payload ''stdout'' 3"

lemma demo_open: "\<not> at_cap 3 ''j1'' demo_payload False demo_log"
  by code_simp

lemma demo_emitted:
  "emit_transactional 3 demo_mint 9 ''j1'' demo_payload ''stdout'' False Writes demo_log =
     (Inr (Persisted demo_done), emitted_db demo_mint 9 demo_done demo_log)"
proof -
  have "max_seq demo_log ''j1'' = 2" "\<forall>r \<in> set (events demo_log). ev_id r \<noteq> mint_event demo_mint"
      "ep_type demo_payload \<notin> {''metric'', ''progress''}"
    by code_simp+
  then show ?thesis using emit_persists [OF _ demo_open, of Writes demo_log demo_mint 9] by (simp add: demo_done_def)
qed

lemma demo_fresh: "Writes demo_log = Writes db1 \<Longrightarrow> fresh_mint demo_mint db1"
proof -
  have "fresh_mint demo_mint demo_log" by code_simp
  then show "Writes demo_log = Writes db1 \<Longrightarrow> fresh_mint demo_mint db1" by simp
qed

lemma demo_wants: "filter (wants demo_done) (targets demo_log) = [demo_target ''t1'' [''done'']]"
  by code_simp

theorem event_and_wakes_commit_together_witness:
  "deliveries (emitted_db demo_mint 9 demo_done demo_log) = [new_delivery demo_mint 9 demo_done (demo_target ''t1'' [''done''])]"
proof -
  have "\<exists>x. emitted_db demo_mint 9 demo_done demo_log = demo_log\<lparr>events := events demo_log @ [demo_done],
      deliveries := deliveries demo_log @ map (new_delivery demo_mint 9 demo_done) (filter (wants demo_done) (targets demo_log)),
      series := x\<rparr>"
    using event_and_wakes_commit_together [OF demo_emitted demo_fresh] by auto
  moreover have "deliveries demo_log = []" by code_simp
  ultimately show ?thesis by (auto simp: demo_wants)
qed

lemma demo_seqs: "seqs_ok demo_log"
  by (simp add: seqs_ok_def job_seqs_def demo_log_def demo_event_def)

theorem event_numbers_increase_witness:
  "seqs_ok (snd (emit_transactional 3 demo_mint 9 ''j1'' demo_payload ''stdout'' False Writes demo_log))"
  using event_numbers_increase [OF demo_seqs, of Writes 3 demo_mint 9 "''j1''" demo_payload "''stdout''" False] by simp

theorem reading_by_cursor_is_complete_witness:
  "drain 3 ''j1'' 1 1 demo_log = [demo_event ''e2'' 2 ''checkpoint'']"
proof -
  have "length (events demo_log) < 3" by code_simp
  moreover have "filter (\<lambda>e. 1 < ev_seq e) (filter (\<lambda>e. ev_job e = ''j1'') (events demo_log)) = [demo_event ''e2'' 2 ''checkpoint'']"
    by code_simp
  ultimately show ?thesis using reading_by_cursor_is_complete [OF demo_seqs, of 1 3 "''j1''" 1] by simp
qed

definition demo_retention :: retention where
  "demo_retention = \<lparr>keep_events = 60, keep_metrics = 0, keep_deliveries = 0\<rparr>"

lemma demo_old:
  "e \<in> set (events demo_log) \<Longrightarrow> ev_job e = ''j1'' \<Longrightarrow>
     sql_less (ev_created e) (90000000 - seconds (keep_events demo_retention)) \<and> \<not> terminal (ev_type e)"
proof -
  have "\<forall>e \<in> set (events demo_log). ev_job e = ''j1'' \<longrightarrow>
     sql_less (ev_created e) (90000000 - seconds (keep_events demo_retention)) \<and> \<not> terminal (ev_type e)"
    by code_simp
  then show "e \<in> set (events demo_log) \<Longrightarrow> ev_job e = ''j1'' \<Longrightarrow>
     sql_less (ev_created e) (90000000 - seconds (keep_events demo_retention)) \<and> \<not> terminal (ev_type e)" by blast
qed

lemma demo_pruned: "events (apply_retention 60 90000000 False ''j1'' demo_retention demo_log) = []"
proof -
  have "\<forall>e \<in> set (events demo_log). ev_job e = ''j1''" by code_simp
  with demo_old show ?thesis by (auto simp: retention_events demo_retention_def del_def filter_empty_conv)
qed

theorem retention_restarts_numbering_witness:
  "\<exists>e db'. emit_transactional 3 demo_mint 95000000 ''j1'' demo_payload ''stdout'' False Writes
       (apply_retention 60 90000000 False ''j1'' demo_retention demo_log) = (Inr (Persisted e), db')
     \<and> ev_seq e = 1 \<and> pg_events (read_events ''j1'' (Some 2) 10 db') = []"
proof -
  let ?d = "apply_retention 60 90000000 False ''j1'' demo_retention demo_log"
  have o: "\<not> at_cap 3 ''j1'' demo_payload False ?d" "\<forall>r \<in> set (events ?d). ev_id r \<noteq> mint_event demo_mint"
      "ep_type demo_payload \<notin> {''metric'', ''progress''}"
    by (simp_all add: at_cap_def demo_pruned demo_payload_def)
  have "\<exists>e db'. emit_transactional 3 demo_mint 95000000 ''j1'' demo_payload ''stdout'' False Writes ?d =
      (Inr (Persisted e), db')"
    by (intro exI) (rule emit_persists [where mutate = Writes, OF refl o])
  then obtain e db' where em: "emit_transactional 3 demo_mint 95000000 ''j1'' demo_payload ''stdout'' False Writes ?d =
      (Inr (Persisted e), db')" by blast
  have "ev_seq e = 1 \<and> pg_events (read_events ''j1'' (Some 2) 10 db') = []
      \<and> \<not> pg_more (read_events ''j1'' (Some 2) 10 db')"
  proof (rule retention_restarts_numbering [OF _ _ _ em])
    show "keep_events demo_retention \<noteq> 0" by (simp add: demo_retention_def)
  qed (simp_all only: demo_old, simp)
  with em show ?thesis by blast
qed

definition demo_huge :: obj where
  "demo_huge = [(''loss'', JInt (2 ^ 1024))]"

lemma demo_huge_fits: "data_fits 1000 demo_huge"
proof -
  have "length (int_str (2 ^ 1024)) \<le> 309" by (rule length_int_str) simp_all
  moreover have "length (dumps_string ''loss'') = 6" by code_simp
  ultimately show ?thesis by (simp only: data_fits_def demo_huge_def dumps.simps dumps_items.simps join.simps) simp
qed

theorem huge_metric_escapes_reader_witness:
  "emit_safely demo_cfg demo_mint 9 ''j1'' ''metric'' None demo_huge ''info'' ''stdout'' demo_log = (Inl Overflow, demo_log)"
proof (rule huge_metric_escapes_reader [of _ _ _ _ _ "''loss''" "2 ^ 1024"])
  show "data_fits (max_event_bytes demo_cfg) demo_huge" using demo_huge_fits by (simp add: demo_cfg_def)
  show "float_limit \<le> \<bar>2 ^ 1024\<bar>" by (simp add: float_limit_def)
qed (code_simp | simp add: demo_huge_def)+
end
