(* ===== verification/Deliveries.thy ===== *)
theory Deliveries
  imports Events Contracts
begin

text \<open>
  Wake deliveries of \<^verbatim>\<open>src/vanth/server.py\<close>.  A delivery waits as \<^verbatim>\<open>pending\<close> or \<^verbatim>\<open>retrying\<close>; the daemon's
  dispatcher or a client's relay claims it with a fresh token and a lease, sends the wake, and settles it
  under the token: delivered, failed, retrying with a backoff, or (relays) released as if never
  claimed.  An expired lease may be claimed by another worker, which fences the first one.

  Minted tokens and attempt ids, the clock and what the adapter that sends the wake answers are arguments.
\<close>

section \<open>Claiming\<close>

definition find_delivery :: "vanth_db \<Rightarrow> string \<Rightarrow> delivery_row option" where
  "find_delivery db d = find (\<lambda>r. dl_id r = d) (deliveries db)"

definition payload_target :: "obj \<Rightarrow> obj" where
  "payload_target p = obj_of (dget p ''target'')"

text \<open>\<^verbatim>\<open>int(target.get(key, default))\<close> for the integer a validated target has.\<close>

definition target_int :: "obj \<Rightarrow> string \<Rightarrow> int \<Rightarrow> int" where
  "target_int t k dflt = (case dget t k of JInt i \<Rightarrow> i | _ \<Rightarrow> dflt)"

definition default_timeout :: "string \<Rightarrow> int" where
  "default_timeout type =
     (if type \<in> {''codex_thread'', ''codex_cli_thread'', ''codex_desktop'', ''opencode_thread''} then 300 else 30)"

text \<open>The deadlines of a Desktop wake (\<^verbatim>\<open>src/vanth/codex_pipe.py\<close>), in seconds.\<close>

definition wake_sequence_budget :: "int \<Rightarrow> int" where "wake_sequence_budget timeout = max 1 timeout"
definition helper_hard_deadline :: "int \<Rightarrow> int" where "helper_hard_deadline timeout = wake_sequence_budget timeout + 1"
definition claim_lease_seconds :: "int \<Rightarrow> int \<Rightarrow> int" where
  "claim_lease_seconds timeout margin = helper_hard_deadline timeout + max 1 margin"

definition adapter_timeout :: "delivery_row \<Rightarrow> int" where
  "adapter_timeout r = target_int (payload_target (dl_payload r)) ''timeout_seconds'' (default_timeout (dl_type r))"

definition lease_seconds :: "int \<Rightarrow> delivery_row \<Rightarrow> int" where
  "lease_seconds margin r =
     (if dl_type r = ''codex_desktop'' then claim_lease_seconds (adapter_timeout r) margin
      else adapter_timeout r + max 1 margin)"

definition waiting :: "string \<Rightarrow> bool" where
  "waiting s = (s = ''pending'' \<or> s = ''retrying'')"

definition expired :: "int \<Rightarrow> delivery_row \<Rightarrow> bool" where
  "expired now r = (dl_status r = ''dispatching'' \<and> (case dl_lease r of None \<Rightarrow> False | Some l \<Rightarrow> sql_leq l now))"

definition due :: "int \<Rightarrow> delivery_row \<Rightarrow> bool" where
  "due now r = (waiting (dl_status r) \<and> (case dl_next r of None \<Rightarrow> True | Some n \<Rightarrow> sql_leq n now) \<or> expired now r)"

definition update_deliveries ::
  "(delivery_row \<Rightarrow> bool) \<Rightarrow> (delivery_row \<Rightarrow> delivery_row) \<Rightarrow> vanth_db \<Rightarrow> nat \<times> vanth_db" where
  "update_deliveries P f db = (cnt P (deliveries db), db\<lparr>deliveries := upd P f (deliveries db)\<rparr>)"

definition claim_delivery_update ::
  "int \<Rightarrow> string \<Rightarrow> string option \<Rightarrow> int \<Rightarrow> int \<Rightarrow> string \<Rightarrow> vanth_db \<Rightarrow> nat \<times> vanth_db" where
  "claim_delivery_update now token client attempt lease d =
     update_deliveries (\<lambda>r. dl_id r = d \<and> (waiting (dl_status r) \<or> expired now r))
       (\<lambda>r. r\<lparr>dl_status := ''dispatching'', dl_attempts := attempt, dl_token := Some token,
          dl_claimed := Some now, dl_lease := Some lease, dl_client := client\<rparr>)"

definition reclaim_attempts :: "int \<Rightarrow> string \<Rightarrow> vanth_db \<Rightarrow> vanth_db" where
  "reclaim_attempts now d db =
     db\<lparr>attempts := upd (\<lambda>a. at_delivery a = d \<and> at_ended a = None)
       (\<lambda>a. a\<lparr>at_status := ''reclaimed'', at_ended := Some now, at_error := Some ''delivery lease expired''\<rparr>)
       (attempts db)\<rparr>"

definition new_attempt :: "string \<Rightarrow> int \<Rightarrow> string \<Rightarrow> int \<Rightarrow> bool \<Rightarrow> delivery_row \<Rightarrow> attempt_row" where
  "new_attempt aid now token attempt reclaimed r =
     \<lparr>at_id = aid, at_delivery = dl_id r, at_attempt = attempt, at_token = Some token, at_type = dl_type r,
      at_started = Some now, at_ended = None, at_status = ''dispatching'', at_error = None,
      at_reclaimed = reclaimed, at_created = now\<rparr>"

definition claim_delivery ::
  "int \<Rightarrow> int \<Rightarrow> string \<Rightarrow> string \<Rightarrow> string option \<Rightarrow> string \<Rightarrow> vanth_db \<Rightarrow> delivery_row option \<times> vanth_db" where
  "claim_delivery margin now token aid client d db =
     (case find_delivery db d of
        None \<Rightarrow> (None, db)
      | Some r \<Rightarrow>
          if \<not> due now r then (None, db)
          else
            let attempt = dl_attempts r + 1; reclaimed = (dl_status r = ''dispatching'')
            in (case claim_delivery_update now token client attempt (now + seconds (lease_seconds margin r)) d db of
                 (n, db1) \<Rightarrow>
                   if n = 0 then (None, db)
                   else
                     let db2 = (if reclaimed then reclaim_attempts now d db1 else db1);
                       db3 = db2\<lparr>attempts := attempts db2 @ [new_attempt aid now token attempt reclaimed r]\<rparr>
                     in (find_delivery db3 d, db3)))"

section \<open>Settling\<close>

text \<open>\<^verbatim>\<open>(error or "")[:n] or None\<close>, cut at code points.\<close>

fun clip :: "nat \<Rightarrow> string \<Rightarrow> string" where
  "clip n [] = []"
| "clip n (c # s) = (if utf8_cont c then c # clip n s else (case n of 0 \<Rightarrow> [] | Suc m \<Rightarrow> c # clip m s))"

definition clip_error :: "string option \<Rightarrow> string option" where
  "clip_error e = (case e of None \<Rightarrow> None | Some s \<Rightarrow> if clip 4096 s = [] then None else Some (clip 4096 s))"

definition retry_delay :: "obj \<Rightarrow> int \<Rightarrow> int" where
  "retry_delay t attempt = min (target_int t ''retry_delay_seconds'' 5 * 3 ^ nat (attempt - 1)) 300"

definition final_status :: "obj \<Rightarrow> string \<Rightarrow> int \<Rightarrow> string" where
  "final_status t status attempt =
     (if status = ''failed'' \<and> attempt < target_int t ''max_attempts'' 1 then ''retrying'' else status)"

definition settle_row :: "string \<Rightarrow> int option \<Rightarrow> string option \<Rightarrow> int option \<Rightarrow> delivery_row \<Rightarrow> delivery_row" where
  "settle_row status delivered error next_at r =
     r\<lparr>dl_status := status, dl_delivered := (if delivered = None then dl_delivered r else delivered),
       dl_error := error, dl_next := next_at, dl_token := None, dl_claimed := None, dl_lease := None, dl_client := None\<rparr>"

definition owned :: "string \<Rightarrow> string option \<Rightarrow> string option \<Rightarrow> delivery_row \<Rightarrow> bool" where
  "owned d token require_client r =
     (dl_id r = d \<and> dl_status r = ''dispatching'' \<and> token \<noteq> None \<and> dl_token r = token
      \<and> (require_client \<noteq> None \<longrightarrow> dl_client r = require_client))"

datatype dlerr = BadStatus | NoLeaseToken | NotClaimed | UnknownDelivery | UnknownClient | BadClient | BadQuery

text \<open>The statements of \<^verbatim>\<open>_complete_delivery\<close>, with the row count of the guarded update.\<close>

definition complete_update ::
  "int \<Rightarrow> string \<Rightarrow> string option \<Rightarrow> int \<Rightarrow> obj \<Rightarrow> string \<Rightarrow> string option \<Rightarrow> string option \<Rightarrow> vanth_db \<Rightarrow> nat \<times> vanth_db" where
  "complete_update now d token attempt t status error require_client db =
     (let final = final_status t status attempt;
        next_at = (if status = ''failed'' \<and> attempt < target_int t ''max_attempts'' 1
                   then Some (now + seconds (retry_delay t attempt)) else None);
        delivered = (if final = ''delivered'' then Some now else None);
        err = clip_error error
      in case update_deliveries (owned d token require_client) (settle_row final delivered err next_at) db of
           (n, db1) \<Rightarrow>
             (n, if n = 0 then db1
                 else db1\<lparr>attempts := upd (\<lambda>a. at_delivery a = d \<and> at_token a = token \<and> at_ended a = None)
                   (\<lambda>a. a\<lparr>at_status := final, at_error := err, at_ended := Some now\<rparr>) (attempts db1)\<rparr>))"

text \<open>\<open>delivery\<close> is the row the worker got from its claim; \<open>t\<close> the target options it uses.\<close>

definition complete_delivery ::
  "int \<Rightarrow> delivery_row \<Rightarrow> obj \<Rightarrow> string \<Rightarrow> string option \<Rightarrow> string option \<Rightarrow> vanth_db \<Rightarrow>
   (dlerr + delivery_row option) \<times> vanth_db" where
  "complete_delivery now delivery t status error require_client db =
     (if status \<noteq> ''delivered'' \<and> status \<noteq> ''failed'' then (Inl BadStatus, db)
      else (case complete_update now (dl_id delivery) (dl_token delivery) (dl_attempts delivery) t status error require_client db of
        (n, db1) \<Rightarrow>
          if require_client \<noteq> None \<and> n = 0 then (Inl NotClaimed, db1)
          else (Inr (find_delivery db1 (dl_id delivery)), db1)))"

definition relay_ack ::
  "int \<Rightarrow> string \<Rightarrow> string \<Rightarrow> string \<Rightarrow> string option \<Rightarrow> string option \<Rightarrow> vanth_db \<Rightarrow> (dlerr + delivery_row option) \<times> vanth_db" where
  "relay_ack now client d status error lease_token db =
     (if status \<noteq> ''delivered'' \<and> status \<noteq> ''failed'' then (Inl BadStatus, db)
      else if \<not> truthy lease_token then (Inl NoLeaseToken, db)
      else (case find (owned d lease_token (Some client)) (deliveries db) of
        None \<Rightarrow> (Inl NotClaimed, db)
      | Some r \<Rightarrow> complete_delivery now r (payload_target (dl_payload r)) status error (Some client) db))"

definition release_row :: "delivery_row \<Rightarrow> delivery_row" where
  "release_row r = r\<lparr>dl_status := ''pending'', dl_attempts := max 0 (dl_attempts r - 1), dl_next := None,
     dl_token := None, dl_claimed := None, dl_lease := None, dl_client := None\<rparr>"

definition relay_release ::
  "string \<Rightarrow> string \<Rightarrow> string option \<Rightarrow> vanth_db \<Rightarrow> (dlerr + unit) \<times> vanth_db" where
  "relay_release client d lease_token db =
     (if \<not> truthy lease_token then (Inl NoLeaseToken, db)
      else (case update_deliveries (owned d lease_token (Some client)) release_row db of
        (n, db1) \<Rightarrow>
          if n = 0 then (Inl NotClaimed, db1)
          else (Inr (), db1\<lparr>attempts := del (\<lambda>a. at_delivery a = d \<and> at_token a = lease_token \<and> at_ended a = None)
                  (attempts db1)\<rparr>)))"

section \<open>Relays\<close>

definition relay_register ::
  "int \<Rightarrow> string \<Rightarrow> string \<Rightarrow> json list \<Rightarrow> vanth_db \<Rightarrow> (dlerr + unit) \<times> vanth_db" where
  "relay_register now client type destinations db =
     (if client = [] \<or> type \<notin> set RELAY_CLIENT_TYPES \<or> \<not> list_all is_obj destinations then (Inl BadClient, db)
      else
        let row = \<lparr>rl_client = client, rl_type = type, rl_destinations = destinations, rl_updated = now, rl_poll = Some now\<rparr>
        in (Inr (), db\<lparr>relays := (if (\<exists>r \<in> set (relays db). rl_client r = client)
              then upd (\<lambda>r. rl_client r = client) (\<lambda>_. row) (relays db) else relays db @ [row])\<rparr>))"

definition relay_unregister :: "string \<Rightarrow> vanth_db \<Rightarrow> vanth_db" where
  "relay_unregister client db = db\<lparr>relays := del (\<lambda>r. rl_client r = client) (relays db)\<rparr>"

definition relay_expire_stale :: "int \<Rightarrow> int \<Rightarrow> vanth_db \<Rightarrow> nat \<times> vanth_db" where
  "relay_expire_stale now stale_after db =
     (let stale = (\<lambda>r. case rl_poll r of None \<Rightarrow> True | Some p \<Rightarrow> sql_less p (now - seconds stale_after))
      in (cnt stale (relays db), db\<lparr>relays := del stale (relays db)\<rparr>))"

text \<open>The identities a relay registered, under every alias of its type.\<close>

definition relay_identities :: "string list \<Rightarrow> json list \<Rightarrow> string list" where
  "relay_identities keys destinations =
     concat (map (\<lambda>j. case j of
         JObj d \<Rightarrow> concat (map (\<lambda>k. case dget d k of JStr s \<Rightarrow> if s \<noteq> [] then [s] else [] | _ \<Rightarrow> []) keys)
       | _ \<Rightarrow> []) destinations)"

definition addressed :: "string list \<Rightarrow> string list \<Rightarrow> delivery_row \<Rightarrow> bool" where
  "addressed identities keys r =
     list_ex (\<lambda>k. case dget (payload_target (dl_payload r)) k of JStr s \<Rightarrow> s \<in> set identities | _ \<Rightarrow> False) keys"

definition relay_eligible :: "int \<Rightarrow> string \<Rightarrow> string list \<Rightarrow> string list \<Rightarrow> vanth_db \<Rightarrow> delivery_row list" where
  "relay_eligible now type keys identities db =
     take 20 (sort_key (sql_key \<circ> dl_created)
       (filter (\<lambda>r. dl_type r = type \<and> addressed identities keys r \<and> due now r) (deliveries db)))"

fun claim_all ::
  "int \<Rightarrow> int \<Rightarrow> (string \<Rightarrow> string) \<Rightarrow> (string \<Rightarrow> string) \<Rightarrow> string option \<Rightarrow> delivery_row list \<Rightarrow> vanth_db \<Rightarrow>
   delivery_row list \<times> vanth_db" where
  "claim_all margin now tok aid client [] db = ([], db)"
| "claim_all margin now tok aid client (r # rs) db =
     (case claim_delivery margin now (tok (dl_id r)) (aid (dl_id r)) client (dl_id r) db of
        (c, db1) \<Rightarrow> (case claim_all margin now tok aid client rs db1 of
           (cs, db2) \<Rightarrow> ((case c of None \<Rightarrow> cs | Some d \<Rightarrow> d # cs), db2)))"

definition relay_due_deliveries ::
  "int \<Rightarrow> int \<Rightarrow> (string \<Rightarrow> string) \<Rightarrow> (string \<Rightarrow> string) \<Rightarrow> string \<Rightarrow> string list \<Rightarrow> string list \<Rightarrow> string \<Rightarrow> vanth_db \<Rightarrow>
   delivery_row list \<times> vanth_db" where
  "relay_due_deliveries margin now tok aid type keys identities client db =
     (if identities = [] \<or> keys = [] then ([], db)
      else claim_all margin now tok aid (Some client) (relay_eligible now type keys identities db) db)"

text \<open>One pass of \<^verbatim>\<open>relay_poll\<close>; the loop around it repeats the pass until it claims something or times out.\<close>

definition relay_poll ::
  "int \<Rightarrow> int \<Rightarrow> (string \<Rightarrow> string) \<Rightarrow> (string \<Rightarrow> string) \<Rightarrow> string \<Rightarrow> vanth_db \<Rightarrow>
   (dlerr + delivery_row list) \<times> vanth_db" where
  "relay_poll margin now tok aid client db =
     (case find (\<lambda>r. rl_client r = client) (relays db) of
        None \<Rightarrow> (Inl UnknownClient, db)
      | Some c \<Rightarrow> (case RELAY_IDENTITY_KEYS (rl_type c) of
          None \<Rightarrow> (Inl BadClient, db)
        | Some keys \<Rightarrow>
            let db1 = db\<lparr>relays := upd (\<lambda>r. rl_client r = client) (\<lambda>r. r\<lparr>rl_poll := Some now\<rparr>) (relays db)\<rparr>
            in (case relay_due_deliveries margin now tok aid (rl_type c) keys (relay_identities keys (rl_destinations c)) client db1 of
                  (ds, db2) \<Rightarrow> (Inr ds, db2))))"

section \<open>The daemon's dispatcher\<close>

definition auto_dispatch_off :: "obj \<Rightarrow> bool" where
  "auto_dispatch_off t = (dget t ''auto_dispatch'' = JBool False)"

text \<open>The rows that \<^verbatim>\<open>_dispatch_due_deliveries\<close> starts a thread for, while fewer than \<open>max_threads\<close> run.\<close>

definition dispatch_candidates :: "int \<Rightarrow> nat \<Rightarrow> nat \<Rightarrow> vanth_db \<Rightarrow> delivery_row list" where
  "dispatch_candidates now max_threads running db =
     take (max_threads - running)
       (filter (\<lambda>r. \<not> auto_dispatch_off (payload_target (dl_payload r)) \<and> dl_type r \<noteq> ''codex_desktop'')
         (filter (due now) (deliveries db)))"

text \<open>The early returns of \<^verbatim>\<open>_dispatch_delivery\<close>: whether the daemon itself sends this wake.\<close>

definition daemon_sends :: "delivery_row \<Rightarrow> bool" where
  "daemon_sends r =
     (let t = payload_target (dl_payload r); command = is_set (dget t ''command''); type = dget t ''type''
      in type \<noteq> JStr ''codex_desktop''
         \<and> \<not> (\<not> command \<and> type \<in> {JStr ''codex_cli_thread'', JStr ''codex_thread'', JStr ''opencode_thread''}
              \<and> auto_dispatch_off t)
         \<and> \<not> (\<not> command \<and> type = JStr ''opencode_thread'' \<and> \<not> is_set (dget t ''attach''))
         \<and> \<not> (\<not> command \<and> type \<notin> {JStr ''codex_cli_thread'', JStr ''codex_thread'', JStr ''opencode_thread'', JStr ''webhook''}))"

datatype adapter = Sent | SendFailed string | NeverRetry string

definition dispatch_claim ::
  "int \<Rightarrow> int \<Rightarrow> string \<Rightarrow> string \<Rightarrow> delivery_row \<Rightarrow> vanth_db \<Rightarrow> delivery_row option \<times> vanth_db" where
  "dispatch_claim margin now token aid r db =
     (if daemon_sends r then claim_delivery margin now token aid None (dl_id r) db else (None, db))"

definition dispatch_settle ::
  "int \<Rightarrow> delivery_row \<Rightarrow> adapter \<Rightarrow> vanth_db \<Rightarrow> (dlerr + delivery_row option) \<times> vanth_db" where
  "dispatch_settle now delivery answer =
     (let t = payload_target (dl_payload delivery) in
      case answer of
        Sent \<Rightarrow> complete_delivery now delivery t ''delivered'' None None
      | SendFailed e \<Rightarrow> complete_delivery now delivery t ''failed'' (Some e) None
      | NeverRetry e \<Rightarrow> complete_delivery now delivery (dput ''max_attempts'' (JInt 1) t) ''failed'' (Some e) None)"

section \<open>Operator commands\<close>

definition mark_delivery ::
  "int \<Rightarrow> string \<Rightarrow> string \<Rightarrow> string \<Rightarrow> string option \<Rightarrow> vanth_db \<Rightarrow> (dlerr + unit) \<times> vanth_db" where
  "mark_delivery now aid d status error db =
     (if status \<notin> {''pending'', ''retrying'', ''delivered'', ''failed''} then (Inl BadStatus, db)
      else (case find_delivery db d of
        None \<Rightarrow> (Inl UnknownDelivery, db)
      | Some r \<Rightarrow>
          let attempt = dl_attempts r + 1; err = clip_error error;
            a = \<lparr>at_id = aid, at_delivery = d, at_attempt = attempt, at_token = None, at_type = dl_type r,
              at_started = Some now, at_ended = Some now, at_status = status, at_error = err,
              at_reclaimed = False, at_created = now\<rparr>
          in (Inr (), db\<lparr>deliveries := upd (\<lambda>r. dl_id r = d)
                (\<lambda>r. r\<lparr>dl_status := status, dl_attempts := attempt,
                   dl_delivered := (if status = ''delivered'' then Some now else dl_delivered r),
                   dl_error := err, dl_next := None\<rparr>) (deliveries db),
              attempts := attempts db @ [a]\<rparr>)))"

definition retry_delivery :: "string \<Rightarrow> vanth_db \<Rightarrow> (dlerr + delivery_row option) \<times> vanth_db" where
  "retry_delivery d db =
     (case find_delivery db d of
        None \<Rightarrow> (Inl UnknownDelivery, db)
      | Some r0 \<Rightarrow>
          let db1 = snd (update_deliveries (\<lambda>r. dl_id r = d \<and> (dl_status r = ''failed'' \<or> dl_status r = ''retrying''))
                (\<lambda>r. r\<lparr>dl_status := ''retrying'', dl_next := None, dl_error := None\<rparr>) db)
          in (Inr (find_delivery db1 d), db1))"

record drain_query =
  dq_job :: "string option"
  dq_status :: "string option"
  dq_older :: "int option"
  dq_stale :: bool

definition drain_matches :: "int \<Rightarrow> drain_query \<Rightarrow> vanth_db \<Rightarrow> delivery_row \<Rightarrow> bool" where
  "drain_matches now q db r =
     ((case dq_job q of None \<Rightarrow> True | Some j \<Rightarrow> dl_job r = j)
      \<and> (case dq_status q of None \<Rightarrow> waiting (dl_status r) | Some s \<Rightarrow> dl_status r = s)
      \<and> (case dq_older q of None \<Rightarrow> True | Some n \<Rightarrow> sql_less (dl_created r) (now - seconds n))
      \<and> (dq_stale q \<longrightarrow> (\<exists>e \<in> set (events db). ev_id e = dl_event r
            \<and> (\<exists>j \<in> set (jobs db). jb_id j = ev_job e \<and> terminal (jb_status j)))))"

definition drained :: "delivery_row \<Rightarrow> delivery_row" where
  "drained r = r\<lparr>dl_status := ''failed'', dl_error := Some ''drained via clear_deliveries'', dl_next := None,
     dl_token := None, dl_claimed := None, dl_lease := None\<rparr>"

definition clear_deliveries ::
  "int \<Rightarrow> drain_query \<Rightarrow> nat \<Rightarrow> bool \<Rightarrow> vanth_db \<Rightarrow> (dlerr + nat \<times> nat) \<times> vanth_db" where
  "clear_deliveries now q limit dry_run db =
     (if limit < 1 \<or> 10000 < limit
         \<or> (case dq_status q of None \<Rightarrow> False | Some s \<Rightarrow> s \<notin> {''pending'', ''retrying'', ''dispatching'', ''delivered'', ''failed''})
         \<or> (case dq_older q of None \<Rightarrow> False | Some n \<Rightarrow> n < 0) \<or> dq_job q = Some []
      then (Inl BadQuery, db)
      else
        let rows = filter (drain_matches now q db) (deliveries db) in
        if dry_run \<or> rows = [] then (Inr (length rows, 0), db)
        else
          let ids = map dl_id (take limit rows);
            db1 = db\<lparr>attempts := upd (\<lambda>a. at_delivery a \<in> set ids \<and> at_ended a = None)
                (\<lambda>a. a\<lparr>at_status := ''failed'', at_ended := Some now, at_error := Some ''drained via clear_deliveries''\<rparr>)
                (attempts db)\<rparr>;
            u = update_deliveries (\<lambda>r. dl_id r \<in> set ids) drained db1
          in (Inr (length rows, fst u), snd u))"

section \<open>A claim in one piece\<close>

definition claimed_row :: "int \<Rightarrow> int \<Rightarrow> string \<Rightarrow> string option \<Rightarrow> delivery_row \<Rightarrow> delivery_row" where
  "claimed_row margin now token client r =
     r\<lparr>dl_status := ''dispatching'', dl_attempts := dl_attempts r + 1, dl_token := Some token, dl_claimed := Some now,
       dl_lease := Some (now + seconds (lease_seconds margin r)), dl_client := client\<rparr>"

definition deliveries_ok :: "vanth_db \<Rightarrow> bool" where
  "deliveries_ok db = distinct (map dl_id (deliveries db))"

lemma deliveries_update [simp]: "deliveries (snd (update_deliveries P f db)) = upd P f (deliveries db)"
  by (simp add: update_deliveries_def)

lemma fst_update_deliveries [simp]: "fst (update_deliveries P f db) = cnt P (deliveries db)"
  by (simp add: update_deliveries_def)

lemma deliveries_reclaim [simp]: "deliveries (reclaim_attempts now d db) = deliveries db"
  by (simp add: reclaim_attempts_def)

lemma find_delivery_iff: "deliveries_ok db \<Longrightarrow> find_delivery db d = Some r \<longleftrightarrow> r \<in> set (deliveries db) \<and> dl_id r = d"
  unfolding find_delivery_def deliveries_ok_def by (rule find_key_iff)

lemma find_deliveries: "deliveries db' = deliveries db \<Longrightarrow> find_delivery db' d = find_delivery db d"
  by (simp add: find_delivery_def)

lemma find_delivery_upd:
  assumes "\<And>r. dl_id (f r) = dl_id r" "deliveries db' = upd P f (deliveries db)"
  shows "find_delivery db' d = map_option (\<lambda>r. if P r then f r else r) (find_delivery db d)"
  unfolding find_delivery_def assms(2) using find_upd_key [of dl_id f d P, OF assms(1)] .

lemma ok_upd: "\<lbrakk>\<And>r. dl_id (f r) = dl_id r; deliveries db' = upd P f (deliveries db); deliveries_ok db\<rbrakk> \<Longrightarrow> deliveries_ok db'"
  by (simp add: deliveries_ok_def map_upd_same)

lemma due_guard: "due now r \<Longrightarrow> waiting (dl_status r) \<or> expired now r"
  by (auto simp: due_def)

lemma claim_delivery_cases:
  assumes "claim_delivery margin now token aid client d db = (res, db')"
  obtains (refused) "res = None" "db' = db" "find_delivery db d = None \<or> (\<exists>r. find_delivery db d = Some r \<and> \<not> due now r)"
    | (claimed) r where "find_delivery db d = Some r" "due now r" "res = Some (claimed_row margin now token client r)"
        "deliveries db' = upd (\<lambda>q. dl_id q = d \<and> (waiting (dl_status q) \<or> expired now q))
           (\<lambda>q. q\<lparr>dl_status := ''dispatching'', dl_attempts := dl_attempts r + 1, dl_token := Some token,
              dl_claimed := Some now, dl_lease := Some (now + seconds (lease_seconds margin r)), dl_client := client\<rparr>) (deliveries db)"
        "attempts db' = (if dl_status r = ''dispatching'' then attempts (reclaim_attempts now d db) else attempts db)
           @ [new_attempt aid now token (dl_attempts r + 1) (dl_status r = ''dispatching'') r]"
        "db' = db\<lparr>deliveries := deliveries db', attempts := attempts db'\<rparr>"
proof (cases "find_delivery db d")
  case None
  with assms show thesis by (intro refused) (simp_all add: claim_delivery_def)
next
  case (Some r)
  show thesis
  proof (cases "due now r")
    case False
    with Some assms show thesis by (intro refused) (simp_all add: claim_delivery_def)
  next
    case True
    let ?P = "\<lambda>q. dl_id q = d \<and> (waiting (dl_status q) \<or> expired now q)"
    let ?f = "\<lambda>q. q\<lparr>dl_status := ''dispatching'', dl_attempts := dl_attempts r + 1, dl_token := Some token,
              dl_claimed := Some now, dl_lease := Some (now + seconds (lease_seconds margin r)), dl_client := client\<rparr>"
    have r: "r \<in> set (deliveries db)" "dl_id r = d" using Some by (auto simp: find_delivery_def dest: find_SomeD)
    then have p: "?P r" using due_guard [OF True] by simp
    then have n: "cnt ?P (deliveries db) \<noteq> 0" using r(1) by (auto simp: cnt_pos_iff)
    have f: "find (\<lambda>q. dl_id q = d) (upd ?P ?f (deliveries db)) = Some (?f r)"
      using find_delivery_upd [of ?f "db\<lparr>deliveries := upd ?P ?f (deliveries db)\<rparr>" ?P db d] Some p
      by (simp add: find_delivery_def)
    show thesis
      by (rule claimed [OF Some True])
        (use assms Some True n f in \<open>auto simp: claim_delivery_def claim_delivery_update_def update_deliveries_def
            Let_def find_delivery_def claimed_row_def reclaim_attempts_def split: if_splits\<close>)
  qed
qed

section \<open>Deliveries are leased work\<close>

definition delivery_holder :: "vanth_db \<Rightarrow> string \<Rightarrow> string option" where
  "delivery_holder db d = (case find_delivery db d of
      None \<Rightarrow> None | Some r \<Rightarrow> if dl_status r = ''dispatching'' then dl_token r else None)"

datatype settlement = Complete int obj string "string option" | Release

record work_args =
  wa_now :: int
  wa_margin :: int
  wa_aid :: string
  wa_client :: "string option"
  wa_settlement :: settlement

definition delivery_claim :: "string \<Rightarrow> string \<Rightarrow> work_args \<Rightarrow> vanth_db \<Rightarrow> (unit + delivery_row) \<times> vanth_db" where
  "delivery_claim d t x db =
     (case claim_delivery (wa_margin x) (wa_now x) t (wa_aid x) (wa_client x) d db of
        (None, db') \<Rightarrow> (Inl (), db') | (Some r, db') \<Rightarrow> (Inr r, db'))"

definition delivery_settle :: "string \<Rightarrow> string \<Rightarrow> work_args \<Rightarrow> vanth_db \<Rightarrow> (unit + unit) \<times> vanth_db" where
  "delivery_settle d t x db =
     (case wa_settlement x of
        Complete attempt target status error \<Rightarrow>
          (case complete_update (wa_now x) d (Some t) attempt target status error (wa_client x) db of
             (n, db') \<Rightarrow> ((if n = 0 then Inl () else Inr ()), db'))
      | Release \<Rightarrow>
          (case relay_release (case wa_client x of None \<Rightarrow> [] | Some c \<Rightarrow> c) d (Some t) db of
             (Inl e, db') \<Rightarrow> (Inl (), db') | (Inr u, db') \<Rightarrow> (Inr (), db')))"

lemma claim_ok_delivery:
  assumes "deliveries_ok db" "delivery_claim d t x db = (Inr r, db')"
  shows "deliveries_ok db' \<and> delivery_holder db' d = Some t \<and> (\<forall>j. j \<noteq> d \<longrightarrow> delivery_holder db' j = delivery_holder db j)"
proof -
  from assms(2) have "claim_delivery (wa_margin x) (wa_now x) t (wa_aid x) (wa_client x) d db = (Some r, db')"
    by (simp add: delivery_claim_def split: prod.splits option.splits)
  then show ?thesis
  proof (cases rule: claim_delivery_cases)
    case (claimed q)
    let ?P = "\<lambda>q. dl_id q = d \<and> (waiting (dl_status q) \<or> expired (wa_now x) q)"
    have q: "?P q" using due_guard [OF claimed(2)] claimed(1) by (auto simp: find_delivery_def dest: find_SomeD)
    note f = find_delivery_upd [OF _ claimed(4)]
    have "delivery_holder db' d = Some t" using q by (simp add: delivery_holder_def f claimed(1))
    moreover have "delivery_holder db' j = delivery_holder db j" if "j \<noteq> d" for j
    proof (cases "find_delivery db j")
      case None
      then show ?thesis by (simp add: delivery_holder_def f)
    next
      case (Some p)
      then have "dl_id p = j" by (auto simp: find_delivery_def dest: find_SomeD)
      with Some that show ?thesis by (simp add: delivery_holder_def f)
    qed
    moreover have "deliveries_ok db'" by (rule ok_upd [OF _ claimed(4) assms(1)]) simp
    ultimately show ?thesis by blast
  qed simp
qed

lemma claim_err_delivery: "delivery_claim d t x db = (Inl e, db') \<Longrightarrow> db' = db"
  by (auto simp: delivery_claim_def split: prod.splits option.splits elim: claim_delivery_cases)

lemma settle_upd:
  assumes "deliveries_ok db" "\<And>r. dl_id (f r) = dl_id r \<and> dl_token (f r) = None"
    and "deliveries db' = upd (owned d (Some t) client) f (deliveries db)" "cnt (owned d (Some t) client) (deliveries db) \<noteq> 0"
  shows "deliveries_ok db' \<and> delivery_holder db d = Some t \<and> delivery_holder db' d = None
    \<and> (\<forall>j. j \<noteq> d \<longrightarrow> delivery_holder db' j = delivery_holder db j)"
proof -
  from assms(4) obtain r where r: "r \<in> set (deliveries db)" "owned d (Some t) client r" by (auto simp: cnt_pos_iff)
  then have fr: "find_delivery db d = Some r" by (simp add: find_delivery_iff [OF assms(1)] owned_def)
  note f = find_delivery_upd [OF conjunct1 [OF assms(2)] assms(3)]
  have "delivery_holder db d = Some t" using r(2) by (simp add: delivery_holder_def fr owned_def)
  moreover have "delivery_holder db' d = None" using r(2) assms(2) by (simp add: delivery_holder_def f fr)
  moreover have "delivery_holder db' j = delivery_holder db j" if "j \<noteq> d" for j
  proof (cases "find_delivery db j")
    case None
    then show ?thesis by (simp add: delivery_holder_def f)
  next
    case (Some p)
    then have "dl_id p = j" by (auto simp: find_delivery_def dest: find_SomeD)
    with Some that show ?thesis by (simp add: delivery_holder_def f owned_def)
  qed
  moreover have "deliveries_ok db'" by (rule ok_upd [OF conjunct1 [OF assms(2)] assms(3,1)])
  ultimately show ?thesis by blast
qed

lemma complete_update_deliveries:
  "complete_update now d token attempt t status error client db = (n, db') \<Longrightarrow>
     n = cnt (owned d token client) (deliveries db)
     \<and> deliveries db' = upd (owned d token client)
         (settle_row (final_status t status attempt) (if final_status t status attempt = ''delivered'' then Some now else None)
           (clip_error error) (if status = ''failed'' \<and> attempt < target_int t ''max_attempts'' 1
             then Some (now + seconds (retry_delay t attempt)) else None)) (deliveries db)
     \<and> (n = 0 \<longrightarrow> db' = db)"
  by (auto simp: complete_update_def update_deliveries_def Let_def upd_id)

lemma complete_update_attempts:
  "complete_update now d token attempt t status error client db = (n, db') \<Longrightarrow> n \<noteq> 0 \<Longrightarrow>
     attempts db' = upd (\<lambda>a. at_delivery a = d \<and> at_token a = token \<and> at_ended a = None)
       (\<lambda>a. a\<lparr>at_status := final_status t status attempt, at_error := clip_error error, at_ended := Some now\<rparr>)
       (attempts db)"
  by (auto simp: complete_update_def update_deliveries_def Let_def simp del: cnt_eq_0_iff)

lemma relay_release_Inr:
  "relay_release client d (Some t) db = (Inr u, db') \<Longrightarrow>
     cnt (owned d (Some t) (Some client)) (deliveries db) \<noteq> 0
     \<and> deliveries db' = upd (owned d (Some t) (Some client)) release_row (deliveries db)
     \<and> attempts db' = del (\<lambda>a. at_delivery a = d \<and> at_token a = Some t \<and> at_ended a = None) (attempts db)"
  by (auto simp: relay_release_def update_deliveries_def split: if_splits)

lemma relay_release_Inl: "relay_release client d t db = (Inl e, db') \<Longrightarrow> db' = db"
  by (auto simp: relay_release_def update_deliveries_def upd_id split: if_splits)

lemma settle_ok_delivery:
  assumes "deliveries_ok db" "delivery_settle d t x db = (Inr u, db')"
  shows "deliveries_ok db' \<and> delivery_holder db d = Some t \<and> delivery_holder db' d = None
    \<and> (\<forall>j. j \<noteq> d \<longrightarrow> delivery_holder db' j = delivery_holder db j)"
proof (cases "wa_settlement x")
  case (Complete a tg st er)
  obtain n db1 where c: "complete_update (wa_now x) d (Some t) a tg st er (wa_client x) db = (n, db1)" by force
  with assms(2) Complete have "n \<noteq> 0" "db1 = db'" by (auto simp: delivery_settle_def split: if_splits)
  with complete_update_deliveries [OF c] show ?thesis
    by (intro settle_upd [OF assms(1)]) (auto simp: settle_row_def)
next
  case Release
  from assms(2) Release obtain v where
    "relay_release (case wa_client x of None \<Rightarrow> [] | Some c \<Rightarrow> c) d (Some t) db = (Inr v, db')"
    by (auto simp: delivery_settle_def split: prod.splits sum.splits)
  from relay_release_Inr [OF this] show ?thesis
    by (intro settle_upd [OF assms(1)]) (auto simp: release_row_def)
qed

lemma settle_err_delivery: "delivery_settle d t x db = (Inl e, db') \<Longrightarrow> db' = db"
proof (cases "wa_settlement x")
  case (Complete a tg st er)
  moreover assume "delivery_settle d t x db = (Inl e, db')"
  ultimately show ?thesis
    using complete_update_deliveries [of "wa_now x" d "Some t" a tg st er "wa_client x" db]
    by (auto simp: delivery_settle_def split: prod.splits if_splits)
qed (auto simp: delivery_settle_def dest: relay_release_Inl split: prod.splits sum.splits)

interpretation delivery_work: leased_work delivery_holder delivery_claim delivery_settle deliveries_ok
proof unfold_locales
  show "deliveries_ok s' \<and> delivery_holder s' i = Some t \<and> (\<forall>j. j \<noteq> i \<longrightarrow> delivery_holder s' j = delivery_holder s j)"
    if "deliveries_ok s" "delivery_claim i t x s = (Inr a, s')" for s i t x a s'
    by (rule claim_ok_delivery [OF that])
  show "s' = s" if "delivery_claim i t x s = (Inl e, s')" for s i t x e s'
    by (rule claim_err_delivery [OF that])
  show "deliveries_ok s' \<and> delivery_holder s i = Some t \<and> delivery_holder s' i = None
      \<and> (\<forall>j. j \<noteq> i \<longrightarrow> delivery_holder s' j = delivery_holder s j)"
    if "deliveries_ok s" "delivery_settle i t x s = (Inr b, s')" for s i t x b s'
    by (rule settle_ok_delivery [OF that])
  show "s' = s" if "delivery_settle i t x s = (Inl e, s')" for s i t x e s'
    by (rule settle_err_delivery [OF that])
qed

section \<open>A lease is exclusive while it runs\<close>

datatype delivery_call =
    ClaimD int int string string "string option" string
  | PollD int int "string \<Rightarrow> string" "string \<Rightarrow> string" string
  | CompleteD int delivery_row obj string "string option" "string option"
  | AckD int string string string "string option" "string option"
  | ReleaseD string string "string option"
  | RetryD string

fun delivery_do :: "delivery_call \<Rightarrow> vanth_db \<Rightarrow> vanth_db" where
  "delivery_do (ClaimD margin now token aid client d) db = snd (claim_delivery margin now token aid client d db)"
| "delivery_do (PollD margin now tok aid client) db = snd (relay_poll margin now tok aid client db)"
| "delivery_do (CompleteD now r t status error client) db = snd (complete_delivery now r t status error client db)"
| "delivery_do (AckD now client d status error token) db = snd (relay_ack now client d status error token db)"
| "delivery_do (ReleaseD client d token) db = snd (relay_release client d token db)"
| "delivery_do (RetryD d) db = snd (retry_delivery d db)"

fun deliveries_do :: "delivery_call list \<Rightarrow> vanth_db \<Rightarrow> vanth_db" where
  "deliveries_do [] db = db"
| "deliveries_do (c # cs) db = deliveries_do cs (delivery_do c db)"

text \<open>A call by somebody else than the holder of token \<open>t\<close>, made no later than \<open>limit\<close>.\<close>

fun other_call :: "string \<Rightarrow> int \<Rightarrow> delivery_call \<Rightarrow> bool" where
  "other_call t limit (ClaimD margin now token aid client d) = (now \<le> limit)"
| "other_call t limit (PollD margin now tok aid client) = (now \<le> limit)"
| "other_call t limit (CompleteD now r tg status error client) = (dl_token r \<noteq> Some t)"
| "other_call t limit (AckD now client d status error token) = (token \<noteq> Some t)"
| "other_call t limit (ReleaseD client d token) = (token \<noteq> Some t)"
| "other_call t limit (RetryD d) = True"

definition held :: "string \<Rightarrow> string \<Rightarrow> int \<Rightarrow> vanth_db \<Rightarrow> bool" where
  "held d t lease db = (deliveries_ok db \<and> (\<exists>r. find_delivery db d = Some r \<and> dl_status r = ''dispatching''
     \<and> dl_token r = Some t \<and> dl_lease r = Some lease))"

lemma held_upd:
  assumes "held d t lease db" "\<And>r. dl_id (f r) = dl_id r" "deliveries db' = upd P f (deliveries db)"
    and "\<And>r. dl_id r = d \<Longrightarrow> dl_status r = ''dispatching'' \<Longrightarrow> dl_token r = Some t \<Longrightarrow> dl_lease r = Some lease \<Longrightarrow> \<not> P r"
  shows "held d t lease db'"
proof -
  from assms(1) obtain r where r: "find_delivery db d = Some r" "dl_status r = ''dispatching''" "dl_token r = Some t"
      "dl_lease r = Some lease" by (auto simp: held_def)
  then have "dl_id r = d" by (auto simp: find_delivery_def dest: find_SomeD)
  with assms(4) r have "\<not> P r" by blast
  then have "find_delivery db' d = Some r" using r by (simp add: find_delivery_upd [OF assms(2,3)])
  moreover have "deliveries_ok db'" using assms(1) by (intro ok_upd [OF assms(2,3)]) (simp add: held_def)
  ultimately show ?thesis using r by (simp add: held_def)
qed

lemma held_same: "held d t lease db \<Longrightarrow> deliveries db' = deliveries db \<Longrightarrow> held d t lease db'"
  by (simp add: held_def deliveries_ok_def find_delivery_def)

lemma held_claim:
  assumes "held d t lease db" "\<not> sql_leq lease now"
  shows "held d t lease (snd (claim_delivery margin now token aid client e db))"
proof (cases "claim_delivery margin now token aid client e db")
  case (Pair res db')
  from Pair show ?thesis
  proof (cases rule: claim_delivery_cases)
    case (claimed r)
    have "held d t lease db'"
      by (rule held_upd [OF assms(1) _ claimed(4)]) (use assms(2) in \<open>auto simp: waiting_def expired_def\<close>)
    then show ?thesis by (simp add: Pair)
  qed (use Pair assms(1) in simp)
qed

lemma held_claim_all:
  "held d t lease db \<Longrightarrow> \<not> sql_leq lease now \<Longrightarrow> held d t lease (snd (claim_all margin now tok aid client rs db))"
proof (induction rs arbitrary: db)
  case (Cons r rs)
  obtain c db1 where c: "claim_delivery margin now (tok (dl_id r)) (aid (dl_id r)) client (dl_id r) db = (c, db1)" by force
  obtain cs db2 where cs: "claim_all margin now tok aid client rs db1 = (cs, db2)" by force
  from held_claim [OF Cons.prems, of margin "tok (dl_id r)" "aid (dl_id r)" client "dl_id r"] c have "held d t lease db1" by simp
  from Cons.IH [OF this Cons.prems(2)] c cs show ?case by simp
qed simp

lemma held_poll:
  assumes "held d t lease db" "\<not> sql_leq lease now"
  shows "held d t lease (snd (relay_poll margin now tok aid client db))"
proof (cases "find (\<lambda>r. rl_client r = client) (relays db)")
  case None
  with assms(1) show ?thesis by (simp add: relay_poll_def)
next
  case (Some c)
  show ?thesis
  proof (cases "RELAY_IDENTITY_KEYS (rl_type c)")
    case None
    with Some assms(1) show ?thesis by (simp add: relay_poll_def)
  next
    case keys: (Some keys)
    let ?db1 = "db\<lparr>relays := upd (\<lambda>r. rl_client r = client) (\<lambda>r. r\<lparr>rl_poll := Some now\<rparr>) (relays db)\<rparr>"
    let ?ids = "relay_identities keys (rl_destinations c)"
    have h: "held d t lease ?db1" by (rule held_same [OF assms(1)]) simp
    have "snd (relay_poll margin now tok aid client db) =
        snd (relay_due_deliveries margin now tok aid (rl_type c) keys ?ids client ?db1)"
      by (simp add: relay_poll_def Some keys Let_def split: prod.split)
    then show ?thesis
      using h held_claim_all [OF h assms(2)] by (simp add: relay_due_deliveries_def)
  qed
qed

lemma held_complete:
  assumes "held d t lease db" "token \<noteq> Some t"
  shows "held d t lease (snd (complete_update now e token a tg st er client db))"
proof (cases "complete_update now e token a tg st er client db")
  case (Pair n db')
  from complete_update_deliveries [OF Pair] obtain s dv er' nx
    where d: "deliveries db' = upd (owned e token client) (settle_row s dv er' nx) (deliveries db)" by blast
  have "held d t lease db'"
    by (rule held_upd [OF assms(1) _ d]) (use assms(2) in \<open>auto simp: settle_row_def owned_def\<close>)
  then show ?thesis by (simp add: Pair)
qed

lemma held_complete_delivery:
  "held d t lease db \<Longrightarrow> dl_token r \<noteq> Some t \<Longrightarrow> held d t lease (snd (complete_delivery now r tg st er client db))"
  using held_complete [of d t lease db "dl_token r" now "dl_id r" "dl_attempts r" tg st er client]
  by (auto simp: complete_delivery_def split: prod.splits)

lemma held_do:
  assumes "held d t lease db" "other_call t limit c" "limit + 1000000 \<le> lease"
  shows "held d t lease (delivery_do c db)"
proof (cases c)
  case (ClaimD margin now token aid client e)
  then have "\<not> sql_leq lease now" using assms(2,3) by (simp add: sql_not_leq sql_less_second_apart)
  with ClaimD held_claim [OF assms(1)] show ?thesis by simp
next
  case (PollD margin now tok aid client)
  then have "\<not> sql_leq lease now" using assms(2,3) by (simp add: sql_not_leq sql_less_second_apart)
  with PollD held_poll [OF assms(1)] show ?thesis by simp
next
  case (CompleteD now r tg st er client)
  with assms held_complete_delivery show ?thesis by simp
next
  case (AckD now client e st er token)
  have "held d t lease (snd (relay_ack now client e st er token db))"
  proof (cases "find (owned e token (Some client)) (deliveries db)")
    case None
    then show ?thesis using assms(1) by (simp add: relay_ack_def)
  next
    case (Some r)
    then have "dl_token r \<noteq> Some t" using assms(2) AckD by (auto simp: owned_def dest: find_SomeD)
    from held_complete_delivery [OF assms(1) this] Some assms(1) show ?thesis by (simp add: relay_ack_def)
  qed
  with AckD show ?thesis by simp
next
  case (ReleaseD client e token)
  have "held d t lease (snd (update_deliveries (owned e token (Some client)) release_row db))"
    by (rule held_upd [OF assms(1) _ deliveries_update]) (use assms(2) ReleaseD in \<open>auto simp: release_row_def owned_def\<close>)
  then have "held d t lease (snd (relay_release client e token db))"
    using assms(1) by (auto simp: relay_release_def update_deliveries_def intro: held_same)
  with ReleaseD show ?thesis by simp
next
  case (RetryD e)
  let ?P = "\<lambda>r. dl_id r = e \<and> (dl_status r = ''failed'' \<or> dl_status r = ''retrying'')"
  have "held d t lease (snd (update_deliveries ?P (\<lambda>r. r\<lparr>dl_status := ''retrying'', dl_next := None, dl_error := None\<rparr>) db))"
    by (rule held_upd [OF assms(1) _ deliveries_update]) auto
  with RetryD assms(1) show ?thesis by (auto simp: retry_delivery_def Let_def split: option.splits)
qed

lemma held_dos:
  "held d t lease db \<Longrightarrow> \<forall>c \<in> set cs. other_call t limit c \<Longrightarrow> limit + 1000000 \<le> lease \<Longrightarrow> held d t lease (deliveries_do cs db)"
  by (induction cs arbitrary: db) (auto intro: held_do)

lemma lease_covers: "adapter_timeout r + 1 \<le> lease_seconds margin r"
  by (simp add: lease_seconds_def claim_lease_seconds_def helper_hard_deadline_def wake_sequence_budget_def max_def)


text \<open>
  C15. A delivery is settled at most once per claim: when another worker claimed it with another token,
  or the claim was settled already, nobody can settle it under the old token any more, whatever
  claims and settlements others make, unless the token is minted again.
\<close>

theorem stale_claim_cannot_settle:
  assumes "deliveries_ok db" "\<not> claims_with t acts"
    and "(\<exists>u x r. u \<noteq> t \<and> delivery_claim d u x db = (Inr r, db1)) \<or> (\<exists>x v. delivery_settle d t x db = (Inr v, db1))"
  shows "\<nexists>v db2. delivery_settle d t y (delivery_work.run acts db1) = (Inr v, db2)"
  using assms(3) delivery_work.fenced [OF assms(1) _ _ assms(2)] delivery_work.settled_once [OF assms(1) _ assms(2)]
  by blast

section \<open>Retries\<close>

lemma owned_find:
  "deliveries_ok db \<Longrightarrow> find_delivery db d = Some r \<Longrightarrow> dl_status r = ''dispatching'' \<Longrightarrow> dl_token r = Some t \<Longrightarrow>
   owned d (Some t) None r \<and> cnt (owned d (Some t) None) (deliveries db) \<noteq> 0"
  by (auto simp: owned_def find_delivery_iff cnt_pos_iff)

lemma complete_delivery_row:
  assumes "deliveries_ok db" "find_delivery db d = Some r" "dl_status r = ''dispatching''" "dl_token r = Some t"
    and "status = ''delivered'' \<or> status = ''failed''"
    and "complete_delivery now r tg status error None db = (Inr res, db')"
  shows "find_delivery db' d = Some (settle_row (final_status tg status (dl_attempts r))
      (if final_status tg status (dl_attempts r) = ''delivered'' then Some now else None) (clip_error error)
      (if status = ''failed'' \<and> dl_attempts r < target_int tg ''max_attempts'' 1
       then Some (now + seconds (retry_delay tg (dl_attempts r))) else None) r)"
    and "res = find_delivery db' d"
    and "\<forall>a \<in> set (attempts db'). at_delivery a = d \<and> at_token a = Some t \<longrightarrow> at_ended a \<noteq> None"
proof -
  have id: "dl_id r = d" using assms(2) by (auto simp: find_delivery_def dest: find_SomeD)
  note o = owned_find [OF assms(1-4)]
  obtain n db1 where c: "complete_update now d (Some t) (dl_attempts r) tg status error None db = (n, db1)" by force
  then have e: "db1 = db'" "res = find_delivery db' d"
    using assms(5,6) by (auto simp: complete_delivery_def id assms(4))
  note u = complete_update_deliveries [OF c, unfolded e(1)]
  show "find_delivery db' d = Some (settle_row (final_status tg status (dl_attempts r))
      (if final_status tg status (dl_attempts r) = ''delivered'' then Some now else None) (clip_error error)
      (if status = ''failed'' \<and> dl_attempts r < target_int tg ''max_attempts'' 1
       then Some (now + seconds (retry_delay tg (dl_attempts r))) else None) r)"
    using o assms(2) by (subst find_delivery_upd [OF _ conjunct1 [OF conjunct2 [OF u]]]) (simp_all add: settle_row_def)
  show "res = find_delivery db' d" by (rule e(2))
  have "n \<noteq> 0" using o u by simp
  then have at: "attempts db' = upd (\<lambda>a. at_delivery a = d \<and> at_token a = Some t \<and> at_ended a = None)
       (\<lambda>a. a\<lparr>at_status := final_status tg status (dl_attempts r), at_error := clip_error error, at_ended := Some now\<rparr>)
       (attempts db)"
    using complete_update_attempts [OF c] by (simp add: e(1))
  have "\<not> (at_delivery a = d \<and> at_token a = Some t \<and> at_ended a = None)" if "a \<in> set (attempts db')" for a
    by (rule upd_off [OF _ that [unfolded at]]) simp
  then show "\<forall>a \<in> set (attempts db'). at_delivery a = d \<and> at_token a = Some t \<longrightarrow> at_ended a \<noteq> None" by simp
qed


section \<open>Releasing\<close>

text \<open>
  A relay that claims a waiting delivery and then releases it leaves no trace: the delivery is pending
  with as many attempts as before, due at once, and the attempt log is what it was.
\<close>

theorem release_undoes_claim:
  assumes "deliveries_ok db" "find_delivery db d = Some r" "waiting (dl_status r)" "0 \<le> dl_attempts r"
    and "claim_delivery margin now t aid (Some client) d db = (Some c, db1)"
    and "\<forall>a \<in> set (attempts db). at_token a \<noteq> Some t" "t \<noteq> []"
  shows "\<exists>db2. relay_release client d (Some t) db1 = (Inr (), db2) \<and> attempts db2 = attempts db
    \<and> find_delivery db2 d = Some (r\<lparr>dl_status := ''pending'', dl_next := None, dl_token := None, dl_claimed := None,
        dl_lease := None, dl_client := None\<rparr>)"
  using assms(5)
proof (cases rule: claim_delivery_cases)
  case (claimed q)
  with assms(2) have q: "q = r" by simp
  have id: "dl_id r = d" using assms(2) by (auto simp: find_delivery_def dest: find_SomeD)
  let ?c = "claimed_row margin now t (Some client) r"
  have f: "find_delivery db1 d = Some ?c"
    using assms(2,3) id by (simp add: find_delivery_upd [OF _ claimed(4)] q claimed_row_def)
  have ok: "deliveries_ok db1" by (rule ok_upd [OF _ claimed(4) assms(1)]) simp
  have own: "owned d (Some t) (Some client) ?c" using id by (simp add: owned_def claimed_row_def)
  have n: "cnt (owned d (Some t) (Some client)) (deliveries db1) \<noteq> 0"
    using f own by (auto simp: find_delivery_iff [OF ok])
  have "dl_status r \<noteq> ''dispatching''" using assms(3) by (auto simp: waiting_def)
  then have at: "attempts db1 = attempts db @ [new_attempt aid now t (dl_attempts r + 1) False r]"
    using claimed(5) by (simp add: q)
  have own_off: "at_ended (new_attempt aid now t (dl_attempts r + 1) False r) = None"
    "at_token (new_attempt aid now t (dl_attempts r + 1) False r) = Some t"
    "at_delivery (new_attempt aid now t (dl_attempts r + 1) False r) = d"
    using id by (simp_all add: new_attempt_def)
  obtain res db2 where rel: "relay_release client d (Some t) db1 = (res, db2)" by force
  then have "res = Inr ()" using n assms(7) by (auto simp: relay_release_def update_deliveries_def truthy_def split: if_splits)
  note rel' = relay_release_Inr [OF rel [unfolded this]]
  have "attempts db2 = attempts db"
    using rel' assms(6) own_off by (auto simp: at del_def)
  moreover have "find_delivery db2 d = Some (release_row ?c)"
    using f own rel' by (subst find_delivery_upd [OF _ conjunct1 [OF conjunct2 [OF rel']]]) (simp_all add: release_row_def)
  moreover have "release_row ?c = r\<lparr>dl_status := ''pending'', dl_next := None, dl_token := None, dl_claimed := None,
        dl_lease := None, dl_client := None\<rparr>"
    using assms(4) by (simp add: release_row_def claimed_row_def)
  ultimately show ?thesis using rel \<open>res = Inr ()\<close> by simp
qed simp

section \<open>Addressing\<close>

text \<open>
  A wake target that passes validation and is delivered by a relay can be claimed by the relay of its
  destination, whichever alias names it: every delivery made for the stored target carries the destination under the key that
  the relay's poll reads.
\<close>

theorem relay_target_is_addressed:
  assumes "validate_wake_target url_scheme url_allowed (JObj d) = Inr u" "distinct (map fst d)"
    and "dget d ''type'' = JStr type" "RELAY_IDENTITY_KEYS type = Some keys"
    and "type = ''opencode_thread'' \<Longrightarrow> dget d ''command'' = JNull"
    and "tg_type t = type" "tg_config t = target_config (canonicalize_wake_target d)"
  shows "\<exists>dest. dest \<noteq> [] \<and> (if type = ''codex_desktop'' then thread_identity d else session_identity d) = JStr dest
    \<and> (\<forall>ids e. dest \<in> set ids \<longrightarrow> addressed ids keys (new_delivery m now e t))"
proof -
  note v = validated_destination [OF assms(1,3)]
  from assms(4) consider "type = ''codex_desktop''" "keys = [''thread_id'', ''threadId'']"
    | "type = ''opencode_thread''" "keys = [''session_id'', ''sessionId'']"
    by (auto simp: RELAY_IDENTITY_KEYS_def split: if_splits)
  then show ?thesis
  proof cases
    case 1
    then have ty: "type \<in> set THREAD_TYPES" by (simp add: THREAD_TYPES_def)
    from validated_thread [OF v ty] 1(1) have n: "nonempty_str (thread_identity d)" by blast
    from sent_thread [OF assms(2,3) ty n] n 1 assms(6,7) show ?thesis
      by (auto simp: addressed_def new_delivery_def delivery_payload_def payload_target_def dget_Cons nonempty_str_iff)
  next
    case 2
    from validated_session [of d] v 2(1) assms(5) have n: "nonempty_str (session_identity d)" by simp
    from sent_session [of d, OF assms(2) _ n] assms(3) n 2 assms(6,7) show ?thesis
      by (auto simp: addressed_def new_delivery_def delivery_payload_def payload_target_def dget_Cons nonempty_str_iff)
  qed
qed

section \<open>Examples\<close>

definition demo_empty :: vanth_db where
  "demo_empty = \<lparr>jobs = [], pools = [], events = [], series = [], targets = [], deliveries = [], attempts = [],
     relays = [], decisions = [], cursors = []\<rparr>"

definition demo_delivery :: "string \<Rightarrow> int \<Rightarrow> string option \<Rightarrow> int option \<Rightarrow> delivery_row" where
  "demo_delivery status n token lease = \<lparr>dl_id = ''d1'', dl_event = ''e1'', dl_target = ''t1'', dl_job = ''j1'',
     dl_type = ''webhook'', dl_status = status, dl_attempts = n,
     dl_payload = [(''target'', JObj [(''type'', JStr ''webhook''), (''max_attempts'', JInt 3)])],
     dl_created = 1, dl_next = None, dl_delivered = None, dl_error = None, dl_token = token, dl_claimed = None,
     dl_lease = lease, dl_client = None\<rparr>"

definition demo_waiting :: vanth_db where
  "demo_waiting = demo_empty\<lparr>deliveries := [demo_delivery ''pending'' 0 None None]\<rparr>"

definition demo_leased :: vanth_db where
  "demo_leased = demo_empty\<lparr>deliveries := [demo_delivery ''dispatching'' 1 (Some ''tok'') (Some 30000000)],
     attempts := [new_attempt ''a1'' 1 ''tok'' 1 False (demo_delivery ''pending'' 0 None None)]\<rparr>"

lemma demo_deliveries_ok: "deliveries_ok demo_waiting" "deliveries_ok demo_leased"
  by (simp_all add: deliveries_ok_def demo_waiting_def demo_leased_def)

lemma demo_find_deliveries:
  "find_delivery demo_waiting ''d1'' = Some (demo_delivery ''pending'' 0 None None)"
  "find_delivery demo_leased ''d1'' = Some (demo_delivery ''dispatching'' 1 (Some ''tok'') (Some 30000000))"
  by code_simp+

lemma demo_claimed_delivery:
  "claim_delivery 5 7 ''tok'' ''a1'' (Some ''c'') ''d1'' demo_waiting =
     (Some (claimed_row 5 7 ''tok'' (Some ''c'') (demo_delivery ''pending'' 0 None None)),
      snd (claim_delivery 5 7 ''tok'' ''a1'' (Some ''c'') ''d1'' demo_waiting))"
  by code_simp


definition demo_work :: work_args where
  "demo_work = \<lparr>wa_now = 31000007, wa_margin = 5, wa_aid = ''a2'', wa_client = None,
     wa_settlement = Complete 1 [] ''delivered'' None\<rparr>"

lemma demo_reclaim: "\<exists>r db1. delivery_claim ''d1'' ''new'' demo_work demo_leased = (Inr r, db1)"
proof -
  have "\<not> (case fst (delivery_claim ''d1'' ''new'' demo_work demo_leased) of Inl _ \<Rightarrow> True | Inr _ \<Rightarrow> False)"
    by code_simp
  then show ?thesis
    by (cases "delivery_claim ''d1'' ''new'' demo_work demo_leased"; cases "fst (delivery_claim ''d1'' ''new'' demo_work demo_leased)") auto
qed

theorem stale_claim_cannot_settle_witness:
  "\<exists>db1. (\<exists>r. delivery_claim ''d1'' ''new'' demo_work demo_leased = (Inr r, db1))
     \<and> (\<nexists>v db2. delivery_settle ''d1'' ''tok'' demo_work db1 = (Inr v, db2))"
proof -
  from demo_reclaim obtain r db1 where c: "delivery_claim ''d1'' ''new'' demo_work demo_leased = (Inr r, db1)" by blast
  have "''new'' \<noteq> ''tok'' \<and> delivery_claim ''d1'' ''new'' demo_work demo_leased = (Inr r, db1)" by (simp add: c)
  then have u: "(\<exists>u x r. u \<noteq> ''tok'' \<and> delivery_claim ''d1'' u x demo_leased = (Inr r, db1))
      \<or> (\<exists>x v. delivery_settle ''d1'' ''tok'' x demo_leased = (Inr v, db1))" by (intro disjI1 exI)
  have "\<not> claims_with ''tok'' []" by simp
  from stale_claim_cannot_settle [OF demo_deliveries_ok(2) this u, of demo_work, unfolded delivery_work.run.simps] c
  show ?thesis by blast
qed

lemma demo_failed:
  "\<exists>res db'. complete_delivery 9000000 (demo_delivery ''dispatching'' 1 (Some ''tok'') (Some 30000000))
     (payload_target (dl_payload (demo_delivery ''pending'' 0 None None))) ''failed'' (Some ''x'') None demo_leased = (Inr res, db')"
  by (simp add: complete_delivery_def case_prod_beta)


theorem release_undoes_claim_witness:
  "\<exists>db2. relay_release ''c'' ''d1'' (Some ''tok'') (snd (claim_delivery 5 7 ''tok'' ''a1'' (Some ''c'') ''d1'' demo_waiting)) = (Inr (), db2)
     \<and> attempts db2 = []"
proof -
  have "waiting (dl_status (demo_delivery ''pending'' 0 None None))" "0 \<le> dl_attempts (demo_delivery ''pending'' 0 None None)"
      "\<forall>a \<in> set (attempts demo_waiting). at_token a \<noteq> Some ''tok''" "attempts demo_waiting = []" "''tok'' \<noteq> []"
    by code_simp+
  then show ?thesis
    using release_undoes_claim [OF demo_deliveries_ok(1) demo_find_deliveries(1) _ _ demo_claimed_delivery] by auto
qed

definition demo_wake :: obj where
  "demo_wake = [(''type'', JStr ''opencode_thread''), (''threadId'', JStr ''ses_1''), (''events'', JArr [JStr ''failed''])]"

theorem relay_target_is_addressed_witness:
  "addressed [''ses_1''] [''session_id'', ''sessionId'']
     (new_delivery demo_mint 3 demo_done \<lparr>tg_id = ''t'', tg_job = ''j1'', tg_remote = None, tg_type = ''opencode_thread'',
        tg_events = [''failed''], tg_config = target_config (canonicalize_wake_target demo_wake), tg_created = 1\<rparr>)"
proof -
  have "validate_wake_target (\<lambda>_. None) (\<lambda>_. True) (JObj demo_wake) = Inr ()" "distinct (map fst demo_wake)"
      "dget demo_wake ''type'' = JStr ''opencode_thread''"
      "RELAY_IDENTITY_KEYS ''opencode_thread'' = Some [''session_id'', ''sessionId'']"
      "dget demo_wake ''command'' = JNull" "session_identity demo_wake = JStr ''ses_1''"
    by code_simp+
  then show ?thesis
    using relay_target_is_addressed [of "\<lambda>_. None" "\<lambda>_. True" demo_wake "()" "''opencode_thread''" "[''session_id'', ''sessionId'']"
      "\<lparr>tg_id = ''t'', tg_job = ''j1'', tg_remote = None, tg_type = ''opencode_thread'',
        tg_events = [''failed''], tg_config = target_config (canonicalize_wake_target demo_wake), tg_created = 1\<rparr>" demo_mint 3]
    by auto
qed
end
