(* ===== verification/RemoteWake.thy ===== *)
theory RemoteWake
  imports Deliveries
begin

text \<open>
  Wakes for jobs of paired hosts and the immediate wake (\<^verbatim>\<open>src/vanth/server.py\<close>).  A remote job has a binding
  \<^verbatim>\<open>remote:<host>:<job>\<close> under which its wake targets, its mirrored events and its event cursor are stored.
  Every mirrored event advances the cursor in the transaction that emits it, so an event that the
  host sends again is not emitted again; the terminal event removes the binding.
\<close>

section \<open>Cursors\<close>

definition find_cursor :: "vanth_db \<Rightarrow> string \<Rightarrow> cursor_row option" where
  "find_cursor db b = find (\<lambda>c. cu_binding c = b) (cursors db)"

definition remote_cursor_upsert :: "int \<Rightarrow> string \<Rightarrow> int \<Rightarrow> vanth_db \<Rightarrow> vanth_db" where
  "remote_cursor_upsert now b next db =
     db\<lparr>cursors := (if find_cursor db b = None
        then cursors db @ [\<lparr>cu_binding = b, cu_next = next, cu_updated = now\<rparr>]
        else upd (\<lambda>c. cu_binding c = b) (\<lambda>c. c\<lparr>cu_next := max (cu_next c) next, cu_updated := now\<rparr>) (cursors db))\<rparr>"

definition remote_event_cursor :: "string \<Rightarrow> string \<Rightarrow> vanth_db \<Rightarrow> everr + int option" where
  "remote_event_cursor remote job db =
     ebind (remote_binding_id remote job) (\<lambda>b. Inr (map_option cu_next (find_cursor db b)))"

definition set_remote_event_cursor :: "int \<Rightarrow> string \<Rightarrow> string \<Rightarrow> int \<Rightarrow> vanth_db \<Rightarrow> (everr + unit) \<times> vanth_db" where
  "set_remote_event_cursor now remote job next =
     txn (\<lambda>db. ebind (remote_binding_id remote job) (\<lambda>b. Inr ((), remote_cursor_upsert now b next db)))"

section \<open>Mirrored events\<close>

record remote_event =
  re_seq :: int
  re_type :: string
  re_message :: "string option"
  re_level :: "string option"
  re_data :: json

definition mirrored_data :: "string \<Rightarrow> string \<Rightarrow> remote_event \<Rightarrow> obj" where
  "mirrored_data remote job e =
     dupdate (obj_of (re_data e)) [(''remote_seq'', JInt (re_seq e)), (''remote_id'', JStr remote), (''remote_job_id'', JStr job)]"

definition bound :: "vanth_db \<Rightarrow> string \<Rightarrow> bool" where
  "bound db b = (\<exists>t \<in> set (targets db). tg_job t = b)"

definition or_info :: "string option \<Rightarrow> string" where
  "or_info l = (case l of None \<Rightarrow> ''info'' | Some s \<Rightarrow> if s = [] then ''info'' else s)"

definition emit_remote_event ::
  "emit_cfg \<Rightarrow> mint \<Rightarrow> int \<Rightarrow> string \<Rightarrow> string \<Rightarrow> remote_event \<Rightarrow> int \<Rightarrow> vanth_db \<Rightarrow> (everr + event_row option) \<times> vanth_db" where
  "emit_remote_event cfg m now remote job e next db =
     (case remote_binding_id remote job of
        Inl x \<Rightarrow> (Inl x, db)
      | Inr b \<Rightarrow>
          if \<not> bound db b then (Inr None, db)
          else if (case find_cursor db b of None \<Rightarrow> False | Some c \<Rightarrow> re_seq e \<le> cu_next c) then (Inr None, db)
          else (case emit_event cfg m now b (re_type e) (re_message e) (mirrored_data remote job e) (or_info (re_level e))
                  ''remote'' False (\<lambda>d. Writes (remote_cursor_upsert now b next d)) db of
              (Inl x, db') \<Rightarrow> (Inl x, db')
            | (Inr (Persisted ev), db') \<Rightarrow> (Inr (Some ev), db')
            | (Inr Unchanged, db') \<Rightarrow> (Inr None, db')
            | (Inr (Capped n), db') \<Rightarrow> (Inr None, remote_cursor_upsert now b next db')))"

definition drop_binding :: "string \<Rightarrow> vanth_db \<Rightarrow> vanth_db" where
  "drop_binding b db = db\<lparr>targets := del (\<lambda>t. tg_job t = b) (targets db), cursors := del (\<lambda>c. cu_binding c = b) (cursors db)\<rparr>"

text \<open>\<^verbatim>\<open>bind_of remote job\<close> is the message text of the terminal event.\<close>

definition remote_terminal_message :: "string \<Rightarrow> string \<Rightarrow> string \<Rightarrow> string" where
  "remote_terminal_message remote job status = ''Remote job '' @ remote @ ''/'' @ job @ '' '' @ status"

definition emit_remote_terminal ::
  "emit_cfg \<Rightarrow> mint \<Rightarrow> int \<Rightarrow> string \<Rightarrow> string \<Rightarrow> string \<Rightarrow> json \<Rightarrow> vanth_db \<Rightarrow> (everr + emitted option) \<times> vanth_db" where
  "emit_remote_terminal cfg m now remote job status exit_code db =
     (if \<not> terminal status then (Inr None, db)
      else (case remote_binding_id remote job of
        Inl x \<Rightarrow> (Inl x, db)
      | Inr b \<Rightarrow>
          if (\<exists>e \<in> set (events db). ev_job e = b \<and> terminal (ev_type e)) then (Inr None, drop_binding b db)
          else (case emit_event cfg m now b status (Some (remote_terminal_message remote job status))
                  [(''remote_id'', JStr remote), (''remote_job_id'', JStr job), (''exit_code'', exit_code)]
                  ''info'' ''remote'' False Writes db of
              (Inl x, db') \<Rightarrow> (Inl x, db')
            | (Inr r, db') \<Rightarrow> (Inr (Some r), drop_binding b db'))))"

text \<open>\<^verbatim>\<open>drop_remote_wake_binding\<close>: the remote job is gone.\<close>

definition failed_by :: "string \<Rightarrow> delivery_row \<Rightarrow> delivery_row" where
  "failed_by reason r = r\<lparr>dl_status := ''failed'', dl_error := Some reason, dl_next := None,
     dl_token := None, dl_claimed := None, dl_lease := None\<rparr>"

definition owed :: "delivery_row \<Rightarrow> bool" where
  "owed r = (dl_status r = ''pending'' \<or> dl_status r = ''dispatching'')"

definition drop_remote_wake_binding :: "string \<Rightarrow> string \<Rightarrow> string \<Rightarrow> vanth_db \<Rightarrow> (everr + bool) \<times> vanth_db" where
  "drop_remote_wake_binding reason remote job =
     txn (\<lambda>db. ebind (remote_binding_id remote job) (\<lambda>b.
       if \<not> bound db b then Inr (False, db)
       else Inr (True, drop_binding b (snd (update_deliveries (\<lambda>r. dl_job r = b \<and> owed r) (failed_by reason) db)))))"

definition after_last_colon :: "string \<Rightarrow> string" where
  "after_last_colon s = last (split_on CHR '':'' s)"

definition remote_wake_bindings :: "vanth_db \<Rightarrow> (string \<times> string \<times> string \<times> string \<times> string list) list" where
  "remote_wake_bindings db =
     map (\<lambda>t. (the (tg_remote t), after_last_colon (tg_job t), tg_job t, tg_id t, tg_events t))
       (filter (\<lambda>t. tg_remote t \<noteq> None) (targets db))"

section \<open>Startup sweep and pruning\<close>

text \<open>\<^verbatim>\<open>_reconcile_invalid_wake_targets\<close>: targets that name a relay's client id are failed and removed.\<close>

definition names_client :: "vanth_db \<Rightarrow> target_row \<Rightarrow> bool" where
  "names_client db t =
     (case wake_target_identity (dput ''type'' (JStr (tg_type t)) (tg_config t)) of
        None \<Rightarrow> False
      | Some identity \<Rightarrow> is_relay_client_id (tg_type t) identity (relay_client_ids db))"

definition sweep_target :: "target_row \<Rightarrow> vanth_db \<Rightarrow> vanth_db" where
  "sweep_target t db =
     (let db1 = snd (update_deliveries (\<lambda>r. dl_target r = tg_id t \<and> owed r)
            (failed_by ''target id is a relay client id, not a wake destination'') db);
        binding = find (\<lambda>q. tg_id q = tg_id t) (targets db1)
      in db1\<lparr>targets := del (\<lambda>q. tg_id q = tg_id t) (targets db1),
             cursors := (case binding of None \<Rightarrow> cursors db1 | Some q \<Rightarrow> del (\<lambda>c. cu_binding c = tg_job q) (cursors db1))\<rparr>)"

definition reconcile_invalid_wake_targets :: "vanth_db \<Rightarrow> vanth_db" where
  "reconcile_invalid_wake_targets db = fold sweep_target (filter (names_client db) (targets db)) db"

text \<open>\<^verbatim>\<open>LIKE 'remote:%'\<close>, which ignores the case of ASCII letters.\<close>

definition lower_ascii :: "char \<Rightarrow> char" where
  "lower_ascii c = (let n = (of_char c :: nat) in if 65 \<le> n \<and> n \<le> 90 then char_of (n + 32) else c)"

definition remote_key :: "string \<Rightarrow> bool" where
  "remote_key b = (map lower_ascii (take 7 b) = ''remote:'')"

definition prune_remote_rows :: "int \<Rightarrow> int \<Rightarrow> vanth_db \<Rightarrow> vanth_db" where
  "prune_remote_rows now older_than db =
     (let cutoff = now - seconds older_than;
        old = (\<lambda>d. remote_key (dl_job d) \<and> sql_leq (dl_created d) cutoff \<and> settled (dl_status d))
      in db\<lparr>attempts := del (\<lambda>a. \<exists>d \<in> set (deliveries db). old d \<and> dl_id d = at_delivery a) (attempts db),
            deliveries := del old (deliveries db),
            events := del (\<lambda>e. remote_key (ev_job e) \<and> sql_leq (ev_created e) cutoff) (events db),
            series := del (\<lambda>p. remote_key (ms_job p) \<and> sql_leq (ms_created p) cutoff) (series db),
            cursors := del (\<lambda>c. \<not> (\<exists>t \<in> set (targets db). tg_job t = cu_binding c \<and> tg_remote t \<noteq> None)) (cursors db)\<rparr>)"

section \<open>Waking now\<close>

definition wake_event :: "string \<Rightarrow> int \<Rightarrow> job_row \<Rightarrow> event_row" where
  "wake_event eid now r =
     \<lparr>ev_id = eid, ev_job = jb_id r, ev_seq = 0, ev_type = ''wake_now'', ev_level = ''info'',
      ev_message = Some ''wake_now requested by caller'',
      ev_data = [(''synthetic'', JBool True), (''requested_status'', JStr (jb_status r))],
      ev_source = ''server'', ev_created = now\<rparr>"

definition wake_now ::
  "(string \<Rightarrow> string option) \<Rightarrow> (string \<Rightarrow> bool) \<Rightarrow> (string \<Rightarrow> string) \<Rightarrow> (nat \<Rightarrow> string) \<Rightarrow> mint \<Rightarrow> int \<Rightarrow>
   string \<Rightarrow> obj \<Rightarrow> string option \<Rightarrow> vanth_db \<Rightarrow> (everr + string) \<times> vanth_db" where
  "wake_now url_scheme url_allowed lower fresh m now job d0 origin =
     txn (\<lambda>db.
       ebind (prepared_target url_scheme url_allowed lower job (hd (resolve_wake_target_identity [d0] origin)) db) (\<lambda>d.
       ebind (ensure (\<not> auto_dispatch_off d) (Invalid ''wake_now does not support auto_dispatch:false'')) (\<lambda>_.
       case find_job db job of
         None \<Rightarrow> Inl (Invalid ''Unknown job_id'')
       | Some r \<Rightarrow>
           ebind (insert_wake_targets fresh now job None [stored_target d] db) (\<lambda>(ids, db1).
           case find (\<lambda>t. tg_id t = hd ids) (targets db1) of
             None \<Rightarrow> Inl TypeErr
           | Some t \<Rightarrow> Inr (hd ids, db1\<lparr>deliveries :=
               insert_delivery (new_delivery m now (wake_event (mint_event m) now r) t) (deliveries db1)\<rparr>)))))"

section \<open>Mirrored events come once\<close>

text \<open>The remote sequence numbers of the events mirrored for a binding, in the order they were emitted.\<close>

definition remote_seq_of :: "event_row \<Rightarrow> int list" where
  "remote_seq_of e = (case dget (ev_data e) ''remote_seq'' of JInt i \<Rightarrow> [i] | _ \<Rightarrow> [])"

definition mirrored_seqs :: "vanth_db \<Rightarrow> string \<Rightarrow> int list" where
  "mirrored_seqs db b = concat (map remote_seq_of (filter (\<lambda>e. ev_job e = b) (events db)))"

definition mirror_ok :: "string \<Rightarrow> vanth_db \<Rightarrow> bool" where
  "mirror_ok b db = (sorted_wrt (<) (mirrored_seqs db b) \<and> distinct (map cu_binding (cursors db))
     \<and> (\<forall>s \<in> set (mirrored_seqs db b). \<exists>c. find_cursor db b = Some c \<and> s \<le> cu_next c))"

text \<open>The daemon's sync hands every event of a page on with its own number as the next cursor.\<close>

fun mirror_all :: "emit_cfg \<Rightarrow> string \<Rightarrow> string \<Rightarrow> (mint \<times> int \<times> remote_event) list \<Rightarrow> vanth_db \<Rightarrow> vanth_db" where
  "mirror_all cfg remote job [] db = db"
| "mirror_all cfg remote job ((m, now, e) # es) db =
     mirror_all cfg remote job es (snd (emit_remote_event cfg m now remote job e (re_seq e) db))"

lemma find_cursor_upsert:
  "find_cursor (remote_cursor_upsert now b next db) b =
     Some (case find_cursor db b of
         None \<Rightarrow> \<lparr>cu_binding = b, cu_next = next, cu_updated = now\<rparr>
       | Some c \<Rightarrow> c\<lparr>cu_next := max (cu_next c) next, cu_updated := now\<rparr>)"
proof (cases "find_cursor db b")
  case None
  then have "find (\<lambda>c. cu_binding c = b) (cursors db) = None" by (simp add: find_cursor_def)
  then show ?thesis by (simp add: None remote_cursor_upsert_def find_cursor_def find_append)
next
  case (Some c)
  let ?f = "\<lambda>c. c\<lparr>cu_next := max (cu_next c) next, cu_updated := now\<rparr>"
  have "cu_binding c = b" using Some by (auto simp: find_cursor_def dest: find_SomeD)
  moreover have "find (\<lambda>c. cu_binding c = b) (upd (\<lambda>c. cu_binding c = b) ?f (cursors db)) =
      map_option (\<lambda>c. if cu_binding c = b then ?f c else c) (find (\<lambda>c. cu_binding c = b) (cursors db))"
    by (rule find_upd_key) simp
  ultimately show ?thesis using Some by (simp add: remote_cursor_upsert_def find_cursor_def)
qed

lemma upsert_keeps [simp]:
  "events (remote_cursor_upsert now b next db) = events db"
  "targets (remote_cursor_upsert now b next db) = targets db"
  "deliveries (remote_cursor_upsert now b next db) = deliveries db"
  by (simp_all add: remote_cursor_upsert_def)

lemma upsert_distinct:
  "distinct (map cu_binding (cursors db)) \<Longrightarrow> distinct (map cu_binding (cursors (remote_cursor_upsert now b next db)))"
  by (auto simp: remote_cursor_upsert_def find_cursor_def find_None_iff map_upd_same)

lemma mirrored_seqs_events: "events db' = events db \<Longrightarrow> mirrored_seqs db' b = mirrored_seqs db b"
  by (simp add: mirrored_seqs_def)

lemma mirror_ok_upsert:
  assumes "mirror_ok b db" "events db' = events db" "cursors db' = cursors (remote_cursor_upsert now b next db)"
  shows "mirror_ok b db'"
proof -
  have f: "find_cursor db' b = find_cursor (remote_cursor_upsert now b next db) b"
    using assms(3) by (simp add: find_cursor_def)
  have "\<forall>s \<in> set (mirrored_seqs db b). \<exists>c. find_cursor db' b = Some c \<and> s \<le> cu_next c"
    using assms(1) by (auto simp: mirror_ok_def f find_cursor_upsert)
  then show ?thesis
    using assms upsert_distinct [of db now b "next"] by (simp add: mirror_ok_def mirrored_seqs_events [OF assms(2)])
qed

text \<open>Normalising and bounding keep the number or lose it with the whole data.\<close>

lemma with_percent_other:
  "with_percent fl d = Inr d' \<Longrightarrow> k \<noteq> ''percent'' \<Longrightarrow> dget d' k = dget d k"
  by (auto simp: with_percent_def ebind_Inr_iff split: if_splits)

lemma normalized_other:
  assumes "normalize_event_payload fl type l msg (JObj d) = Inr p" "k \<noteq> ''percent''"
  shows "dget (ep_data p) k = dget d k"
proof (cases "type = ''progress''")
  case True
  then obtain d' where d': "with_percent fl d = Inr d'"
      "ep_data p = (if is_number (dget d' ''percent'') then dput ''percent'' (clamp_percent fl (dget d' ''percent'')) d' else d')"
    using assms(1) by (auto simp: normalize_event_payload_def ebind_Inr_iff)
  with with_percent_other [OF d'(1) assms(2)] assms(2) show ?thesis by auto
next
  case False
  with assms(1) show ?thesis by (auto simp: normalize_event_payload_def)
qed

lemma bounded_other:
  "dget (ep_data (bounded_payload n p)) ''remote_seq'' \<in> {dget (ep_data p) ''remote_seq'', JNull}"
  by (simp add: bounded_payload_def dget_Cons)

lemma mirrored_data_seq: "dget (mirrored_data remote job e) ''remote_seq'' = JInt (re_seq e)"
  by (simp add: mirrored_data_def)

lemma emit_remote_event_ok:
  assumes "mirror_ok b db" "remote_binding_id remote job = Inr b"
  shows "mirror_ok b (snd (emit_remote_event cfg m now remote job e (re_seq e) db))"
proof (cases "\<not> bound db b \<or> (case find_cursor db b of None \<Rightarrow> False | Some c \<Rightarrow> re_seq e \<le> cu_next c)")
  case True
  then have "snd (emit_remote_event cfg m now remote job e (re_seq e) db) = db"
    using assms(2) by (auto simp: emit_remote_event_def)
  with assms(1) show ?thesis by simp
next
  case False
  let ?mut = "\<lambda>d. Writes (remote_cursor_upsert now b (re_seq e) d)"
  obtain res db' where em: "emit_event cfg m now b (re_type e) (re_message e) (mirrored_data remote job e)
      (or_info (re_level e)) ''remote'' False ?mut db = (res, db')" by force
  have out: "snd (emit_remote_event cfg m now remote job e (re_seq e) db) =
      (case res of Inr (Capped n) \<Rightarrow> remote_cursor_upsert now b (re_seq e) db' | _ \<Rightarrow> db')"
    using assms(2) False em by (auto simp: emit_remote_event_def split: sum.splits emitted.splits)
  have below: "\<forall>s \<in> set (mirrored_seqs db b). s < re_seq e"
    using assms(1) False by (fastforce simp: mirror_ok_def)
  show ?thesis
  proof (cases "normalize_event_payload (cfg_floats cfg) (re_type e) (or_info (re_level e)) (re_message e)
      (JObj (mirrored_data remote job e))")
    case (Inl x)
    with em have "res = Inl x" "db' = db" by (simp_all add: emit_event_def)
    with out assms(1) show ?thesis by simp
  next
    case (Inr p)
    let ?p = "bounded_payload (max_event_bytes cfg) p"
    from em Inr have "emit_transactional (max_events_per_job cfg) m now b ?p ''remote'' False ?mut db = (res, db')"
      by (simp add: emit_event_def)
    then show ?thesis
    proof (cases rule: emit_cases)
      case (error x)
      with out assms(1) show ?thesis by simp
    next
      case (capped n)
      with out have "snd (emit_remote_event cfg m now remote job e (re_seq e) db) = remote_cursor_upsert now b (re_seq e) db" by simp
      with mirror_ok_upsert [OF assms(1), of _ now "re_seq e"] show ?thesis by simp
    next
      case unchanged
      with out assms(1) show ?thesis by simp
    next
      case (persisted db1 ev new)
      from persisted(1) have db1: "db1 = remote_cursor_upsert now b (re_seq e) db" by simp
      have evs: "events db' = events db @ [ev]" and cs: "cursors db' = cursors db1"
        by (simp_all add: persisted(5) emitted_db_def db1)
      have ev: "ev_job ev = b" "ev_data ev = ep_data ?p" by (simp_all add: persisted(3) event_of_def)
      have "dget (ep_data p) ''remote_seq'' = JInt (re_seq e)"
        using normalized_other [OF Inr] mirrored_data_seq by simp
      then have "remote_seq_of ev = [re_seq e] \<or> remote_seq_of ev = []"
        using bounded_other [of "max_event_bytes cfg" p] by (auto simp: remote_seq_of_def ev(2))
      moreover have ms: "mirrored_seqs db' b = mirrored_seqs db b @ remote_seq_of ev"
        by (simp add: mirrored_seqs_def evs ev(1))
      moreover have up: "mirror_ok b db1" by (rule mirror_ok_upsert [OF assms(1)]) (simp_all add: db1)
      have fc: "find_cursor db' b = find_cursor db1 b" by (simp add: find_cursor_def cs)
      have "\<exists>c. find_cursor db' b = Some c \<and> re_seq e \<le> cu_next c"
        unfolding fc db1 find_cursor_upsert by (cases "find_cursor db b") auto
      moreover have "\<forall>s \<in> set (mirrored_seqs db b). \<exists>c. find_cursor db' b = Some c \<and> s \<le> cu_next c"
        using up unfolding fc mirror_ok_def by (simp add: db1 mirrored_seqs_def)
      ultimately have "mirror_ok b db'"
        using assms(1) up below cs by (auto simp: mirror_ok_def sorted_wrt_append)
      with out persisted(2) show ?thesis by simp
    qed
  qed
qed

lemma mirror_all_ok:
  "mirror_ok b db \<Longrightarrow> remote_binding_id remote job = Inr b \<Longrightarrow> mirror_ok b (mirror_all cfg remote job es db)"
  by (induction cfg remote job es db rule: mirror_all.induct) (auto intro: emit_remote_event_ok)

text \<open>
  C19. However often and in whatever order a paired host sends the events of a job, each one is emitted at most
  once to the local wake targets: the remote sequence numbers of the mirrored events are strictly
  increasing.
\<close>

theorem mirrored_events_come_once:
  assumes "mirror_ok b db" "remote_binding_id remote job = Inr b"
  shows "sorted_wrt (<) (mirrored_seqs (mirror_all cfg remote job es db) b)"
  using mirror_all_ok [OF assms, of cfg es] by (simp add: mirror_ok_def)

lemma unbound_after_drop [simp]: "\<not> bound (drop_binding b db) b"
  by (simp add: bound_def drop_binding_def)

lemma drop_binding_events [simp]: "events (drop_binding b db) = events db" "deliveries (drop_binding b db) = deliveries db"
  by (simp_all add: drop_binding_def)

lemma terminal_emitted:
  assumes "emit_remote_terminal cfg m now remote job status x db = (Inr (Some (Persisted e)), db')"
    and "remote_binding_id remote job = Inr b"
  shows "ev_job e = b \<and> ev_type e = status \<and> terminal status \<and> e \<in> set (events db') \<and> \<not> bound db' b"
proof -
  from assms have t: "terminal status" by (auto simp: emit_remote_terminal_def split: if_splits)
  have f: "\<not> (\<exists>e \<in> set (events db). ev_job e = b \<and> terminal (ev_type e))"
  proof
    assume old: "\<exists>e \<in> set (events db). ev_job e = b \<and> terminal (ev_type e)"
    have "emit_remote_terminal cfg m now remote job status x db = (Inr None, drop_binding b db)"
      unfolding emit_remote_terminal_def assms(2) by (simp only: t simp_thms if_False sum.case if_P [OF old])
    with assms(1) show False by simp
  qed
  let ?d = "[(''remote_id'', JStr remote), (''remote_job_id'', JStr job), (''exit_code'', x)]"
  let ?msg = "Some (remote_terminal_message remote job status)"
  obtain res d' where em: "emit_event cfg m now b status ?msg ?d ''info'' ''remote'' False Writes db = (res, d')" by force
  from assms t f em have r: "res = Inr (Persisted e)" "db' = drop_binding b d'"
    by (auto simp: emit_remote_terminal_def split: sum.splits)
  obtain p where p: "normalize_event_payload (cfg_floats cfg) status ''info'' ?msg (JObj ?d) = Inr p" "ep_type p = status"
    using em r(1) by (cases "normalize_event_payload (cfg_floats cfg) status ''info'' ?msg (JObj ?d)")
      (auto simp: emit_event_def normalize_event_payload_def ebind_Inr_iff)
  have "emit_transactional (max_events_per_job cfg) m now b (bounded_payload (max_event_bytes cfg) p) ''remote'' False Writes db = (res, d')"
    using em p(1) by (simp add: emit_event_def)
  then have "ev_job e = b \<and> ev_type e = status \<and> e \<in> set (events d')"
  proof (cases rule: emit_cases)
    case (persisted db1 e' new)
    have "ep_type (bounded_payload (max_event_bytes cfg) p) = status" by (simp add: bounded_payload_def p(2))
    with persisted r(1) show ?thesis by (simp add: event_of_def emitted_db_def)
  qed (use r(1) in simp_all)
  with t r(2) show ?thesis by simp
qed

text \<open>
  The terminal wake of a remote job fires once and last: after it, neither another terminal status nor
  another event of the job emits anything.
\<close>

theorem remote_terminal_fires_once:
  assumes "emit_remote_terminal cfg m now remote job status x db = (Inr (Some (Persisted e)), db')"
    and "remote_binding_id remote job = Inr b"
  shows "ev_type e = status \<and> terminal status
    \<and> fst (emit_remote_terminal cfg m' now' remote job status' x' db') = Inr None
    \<and> events (snd (emit_remote_terminal cfg m' now' remote job status' x' db')) = events db'
    \<and> emit_remote_event cfg m' now' remote job ev next db' = (Inr None, db')"
proof -
  note t = terminal_emitted [OF assms]
  then have "\<exists>e \<in> set (events db'). ev_job e = b \<and> terminal (ev_type e)" by auto
  with t assms(2) show ?thesis by (auto simp: emit_remote_terminal_def emit_remote_event_def)
qed

lemma drop_kept:
  assumes "drop_remote_wake_binding reason remote job db = (Inr True, db')" "remote_binding_id remote job = Inr b"
  shows "db' = drop_binding b (snd (update_deliveries (\<lambda>r. dl_job r = b \<and> owed r) (failed_by reason) db))"
  using assms by (auto simp: drop_remote_wake_binding_def txn_def split: if_splits)

text \<open>
  Dropping the binding of a vanished remote job fails its pending and dispatching deliveries, but one that
  waits for its retry stays: it keeps its row and becomes due at its retry time as before.
\<close>

theorem dropped_binding_keeps_retries:
  assumes "drop_remote_wake_binding reason remote job db = (Inr True, db')" "remote_binding_id remote job = Inr b"
    and "r \<in> set (deliveries db)" "dl_job r = b"
  shows "(owed r \<longrightarrow> failed_by reason r \<in> set (deliveries db'))
    \<and> (dl_status r = ''retrying'' \<longrightarrow> r \<in> set (deliveries db')
        \<and> (case dl_next r of None \<Rightarrow> due u r | Some n \<Rightarrow> due u r \<longleftrightarrow> sql_leq n u))"
proof -
  have d: "deliveries db' = upd (\<lambda>r. dl_job r = b \<and> owed r) (failed_by reason) (deliveries db)"
    using drop_kept [OF assms(1,2)] by simp
  show ?thesis
  proof (intro conjI impI)
    assume "owed r"
    with assms(3,4) show "failed_by reason r \<in> set (deliveries db')"
      unfolding d using upd_hit [of r "deliveries db" "\<lambda>r. dl_job r = b \<and> owed r" "failed_by reason"] by simp
  next
    assume s: "dl_status r = ''retrying''"
    then have "\<not> owed r" by (simp add: owed_def)
    with assms(3) show "r \<in> set (deliveries db')"
      unfolding d using upd_miss [of r "deliveries db" "\<lambda>r. dl_job r = b \<and> owed r" "failed_by reason"] by simp
    show "case dl_next r of None \<Rightarrow> due u r | Some n \<Rightarrow> due u r \<longleftrightarrow> sql_leq n u"
      using s by (auto simp: due_def waiting_def expired_def split: option.splits)
  qed
qed

section \<open>Examples\<close>

definition demo_binding :: vanth_db where
  "demo_binding = demo_empty\<lparr>targets := [(demo_target ''t1'' [''checkpoint''])\<lparr>tg_job := ''remote:h:j'', tg_remote := Some ''h''\<rparr>],
     deliveries := [(demo_delivery ''retrying'' 1 None None)\<lparr>dl_job := ''remote:h:j'', dl_next := Some 9\<rparr>],
     cursors := [\<lparr>cu_binding = ''remote:h:j'', cu_next = 4, cu_updated = 1\<rparr>]\<rparr>"

lemma demo_binding_id: "remote_binding_id ''h'' ''j'' = Inr ''remote:h:j''"
  by code_simp

lemma demo_mirror_ok: "mirror_ok ''remote:h:j'' demo_binding"
  by (simp add: mirror_ok_def mirrored_seqs_def demo_binding_def demo_empty_def)

definition demo_remote_event :: "int \<Rightarrow> remote_event" where
  "demo_remote_event n = \<lparr>re_seq = n, re_type = ''checkpoint'', re_message = None, re_level = None, re_data = JObj []\<rparr>"

theorem mirrored_events_come_once_witness:
  "sorted_wrt (<) (mirrored_seqs (mirror_all demo_cfg ''h'' ''j''
     [(demo_mint, 5, demo_remote_event 5), (demo_mint\<lparr>mint_event := ''e10''\<rparr>, 6, demo_remote_event 5)] demo_binding) ''remote:h:j'')"
  by (rule mirrored_events_come_once [OF demo_mirror_ok demo_binding_id])

lemma demo_terminal:
  "\<exists>e db'. emit_remote_terminal demo_cfg demo_mint 9 ''h'' ''j'' ''completed'' (JInt 0) demo_binding = (Inr (Some (Persisted e)), db')"
proof -
  have "(case fst (emit_remote_terminal demo_cfg demo_mint 9 ''h'' ''j'' ''completed'' (JInt 0) demo_binding) of
      Inr (Some (Persisted e)) \<Rightarrow> True | _ \<Rightarrow> False)" by code_simp
  then show ?thesis
    by (cases "emit_remote_terminal demo_cfg demo_mint 9 ''h'' ''j'' ''completed'' (JInt 0) demo_binding")
      (auto split: sum.splits option.splits emitted.splits)
qed

theorem remote_terminal_fires_once_witness:
  "\<exists>e db'. emit_remote_terminal demo_cfg demo_mint 9 ''h'' ''j'' ''completed'' (JInt 0) demo_binding = (Inr (Some (Persisted e)), db')
     \<and> fst (emit_remote_terminal demo_cfg demo_mint 10 ''h'' ''j'' ''failed'' (JInt 1) db') = Inr None"
proof -
  from demo_terminal obtain e db' where
    t: "emit_remote_terminal demo_cfg demo_mint 9 ''h'' ''j'' ''completed'' (JInt 0) demo_binding = (Inr (Some (Persisted e)), db')"
    by blast
  note remote_terminal_fires_once [OF t demo_binding_id, of demo_mint 10 "''failed''" "JInt 1"]
  then have "fst (emit_remote_terminal demo_cfg demo_mint 10 ''h'' ''j'' ''failed'' (JInt 1) db') = Inr None" by simp
  with t show ?thesis by blast
qed

theorem dropped_binding_keeps_retries_witness:
  "\<exists>db' r. drop_remote_wake_binding ''gone'' ''h'' ''j'' demo_binding = (Inr True, db')
     \<and> r \<in> set (deliveries db') \<and> dl_status r = ''retrying''"
proof -
  let ?r = "(demo_delivery ''retrying'' 1 None None)\<lparr>dl_job := ''remote:h:j'', dl_next := Some 9\<rparr>"
  have "bound demo_binding ''remote:h:j''" by code_simp
  then have "\<exists>db'. drop_remote_wake_binding ''gone'' ''h'' ''j'' demo_binding = (Inr True, db')"
    by (simp add: drop_remote_wake_binding_def demo_binding_id txn_def)
  then obtain db' where d: "drop_remote_wake_binding ''gone'' ''h'' ''j'' demo_binding = (Inr True, db')" by blast
  have r: "?r \<in> set (deliveries demo_binding)" "dl_job ?r = ''remote:h:j''" "dl_status ?r = ''retrying''"
    by (simp_all add: demo_binding_def demo_empty_def demo_delivery_def)
  from dropped_binding_keeps_retries [OF d demo_binding_id r(1,2)] r(3) d show ?thesis by blast
qed
end
