(* ===== verification/Decisions.thy ===== *)
theory Decisions
  imports RemoteWake
begin

text \<open>
  Durable decisions of \<^verbatim>\<open>src/vanth/server.py\<close>: a job asks its owner to choose, and the answer, a withdrawal
  or the timeout is recorded in the same transaction as the event that wakes whoever waits.
  Stored deadlines are compared as instants here (\<^verbatim>\<open>_row_isdue\<close> parses them), not as text.
\<close>

definition DECISION_STATUSES :: "string list" where
  "DECISION_STATUSES = [''pending'', ''resolved'', ''withdrawn'', ''expired'']"

definition DEFAULT_DECISION_OPTIONS :: "string list" where
  "DEFAULT_DECISION_OPTIONS = [''approve'', ''deny'']"

definition find_decision :: "vanth_db \<Rightarrow> string \<Rightarrow> decision_row option" where
  "find_decision db t = find (\<lambda>r. dc_id r = t) (decisions db)"

definition row_isdue :: "int option \<Rightarrow> string \<Rightarrow> int \<Rightarrow> bool" where
  "row_isdue expires status now =
     (status = ''pending'' \<and> (case expires of None \<Rightarrow> False | Some e \<Rightarrow> e \<le> now))"

section \<open>Validation\<close>

definition normalize_decision_actor :: "string \<Rightarrow> everr + string" where
  "normalize_decision_actor actor =
     ebind (ensure (\<not> blank actor) (Invalid ''actor must be a non-empty string'')) (\<lambda>_.
     ebind (ensure (pylen actor \<le> 200) (Invalid ''actor must be at most 200 characters'')) (\<lambda>_. Inr actor))"

definition valid_option :: "string \<Rightarrow> everr + unit" where
  "valid_option s =
     ebind (ensure (\<not> blank s) (Invalid ''options must be non-empty strings'')) (\<lambda>_.
     ensure (pylen s \<le> 200) (Invalid ''each option must be at most 200 characters''))"

fun dedupe :: "string list \<Rightarrow> string list \<Rightarrow> string list" where
  "dedupe seen [] = []"
| "dedupe seen (x # xs) = (if x \<in> set seen then dedupe seen xs else x # dedupe (x # seen) xs)"

definition normalize_decision_options :: "string list option \<Rightarrow> everr + string list" where
  "normalize_decision_options options =
     (let choices = (case options of None \<Rightarrow> DEFAULT_DECISION_OPTIONS | Some xs \<Rightarrow> xs) in
      ebind (ensure (choices \<noteq> []) (Invalid ''options must be a non-empty list of strings'')) (\<lambda>_.
      ebind (ensure (length choices \<le> 50) (Invalid ''options must contain at most 50 entries'')) (\<lambda>_.
      ebind (efor choices valid_option) (\<lambda>_. Inr (dedupe [] choices)))))"

section \<open>The state changes\<close>

definition insert_decision ::
  "string \<Rightarrow> int \<Rightarrow> string \<Rightarrow> string \<Rightarrow> string list \<Rightarrow> int option \<Rightarrow> vanth_db \<Rightarrow> mut" where
  "insert_decision did now job prompt options expires db =
     (case find_job db job of
        None \<Rightarrow> Raises (Invalid ''Unknown job_id'')
      | Some r \<Rightarrow>
          if terminal (jb_status r) then Raises (Invalid ''job is already terminal'')
          else if (\<exists>q \<in> set (decisions db). dc_id q = did) then Raises DbIntegrity
          else Writes (db\<lparr>decisions := decisions db @
            [\<lparr>dc_id = did, dc_job = job, dc_prompt = prompt, dc_options = options, dc_choice = None,
              dc_status = ''pending'', dc_resolved_by = None, dc_created = now, dc_expires = expires,
              dc_resolved = None\<rparr>]\<rparr>))"

definition update_decision ::
  "string \<Rightarrow> (decision_row \<Rightarrow> decision_row) \<Rightarrow> mut \<Rightarrow> vanth_db \<Rightarrow> mut" where
  "update_decision t f otherwise db =
     (if cnt (\<lambda>r. dc_id r = t \<and> dc_status r = ''pending'') (decisions db) \<noteq> 1 then otherwise
      else Writes (db\<lparr>decisions := upd (\<lambda>r. dc_id r = t \<and> dc_status r = ''pending'') f (decisions db)\<rparr>))"

definition resolve_mut :: "int \<Rightarrow> string \<Rightarrow> string \<Rightarrow> string \<Rightarrow> string \<Rightarrow> vanth_db \<Rightarrow> mut" where
  "resolve_mut now job t choice actor db =
     (case find_decision db t of
        None \<Rightarrow> Raises (Invalid ''Unknown decision'')
      | Some r \<Rightarrow>
          if dc_job r \<noteq> job then Raises (Invalid ''Unknown decision'')
          else if dc_status r = ''resolved'' then
            (if dc_choice r = Some choice then NoOp else Raises (Invalid ''decision already resolved''))
          else if dc_status r \<noteq> ''pending'' then Raises (Invalid (''decision is '' @ dc_status r))
          else if row_isdue (dc_expires r) (dc_status r) now then Raises (Invalid ''decision expired'')
          else if choice \<notin> set (dc_options r) then Raises (Invalid ''choice must be one of the options'')
          else update_decision t
            (\<lambda>r. r\<lparr>dc_status := ''resolved'', dc_choice := Some choice, dc_resolved_by := Some actor, dc_resolved := Some now\<rparr>)
            (Raises (Invalid ''decision changed concurrently'')) db)"

definition withdraw_mut :: "int \<Rightarrow> string \<Rightarrow> string \<Rightarrow> string \<Rightarrow> vanth_db \<Rightarrow> mut" where
  "withdraw_mut now job t actor db =
     (case find_decision db t of
        None \<Rightarrow> Raises (Invalid ''Unknown decision'')
      | Some r \<Rightarrow>
          if dc_job r \<noteq> job then Raises (Invalid ''Unknown decision'')
          else if dc_status r \<noteq> ''pending'' then Raises (Invalid (''decision is '' @ dc_status r))
          else if row_isdue (dc_expires r) (dc_status r) now then Raises (Invalid ''decision expired'')
          else update_decision t
            (\<lambda>r. r\<lparr>dc_status := ''withdrawn'', dc_resolved_by := Some actor, dc_resolved := Some now\<rparr>)
            (Raises (Invalid ''decision changed concurrently'')) db)"

definition expire_mut :: "int \<Rightarrow> string \<Rightarrow> vanth_db \<Rightarrow> mut" where
  "expire_mut now t db =
     (case find_decision db t of
        None \<Rightarrow> NoOp
      | Some r \<Rightarrow>
          if \<not> row_isdue (dc_expires r) (dc_status r) now then NoOp
          else update_decision t (\<lambda>r. r\<lparr>dc_status := ''expired'', dc_resolved := Some now\<rparr>) NoOp db)"

section \<open>The operations\<close>

definition jopt_time :: "int option \<Rightarrow> json" where
  "jopt_time e = (case e of None \<Rightarrow> JNull | Some t \<Rightarrow> JStr (now_iso t))"

definition reload_decision :: "string \<Rightarrow> (everr + emitted) \<times> vanth_db \<Rightarrow> (everr + decision_row) \<times> vanth_db" where
  "reload_decision t out =
     (case out of
        (Inl e, db) \<Rightarrow> (Inl e, db)
      | (Inr x, db) \<Rightarrow> (case find_decision db t of None \<Rightarrow> (Inl (Invalid ''Unknown decision''), db) | Some r \<Rightarrow> (Inr r, db)))"

definition request_decision ::
  "emit_cfg \<Rightarrow> mint \<Rightarrow> string \<Rightarrow> int \<Rightarrow> string \<Rightarrow> string \<Rightarrow> string list option \<Rightarrow> int option \<Rightarrow>
   vanth_db \<Rightarrow> (everr + decision_row) \<times> vanth_db" where
  "request_decision cfg m did now job prompt options timeout db =
     (if blank prompt then (Inl (Invalid ''prompt must be a non-empty string''), db)
      else if 10000 < pylen prompt then (Inl (Invalid ''prompt must be at most 10000 characters''), db)
      else (case normalize_decision_options options of
          Inl e \<Rightarrow> (Inl e, db)
        | Inr normalized \<Rightarrow>
            if (case timeout of None \<Rightarrow> False | Some t \<Rightarrow> t < 1) then (Inl (Invalid ''timeout_seconds must be an integer >= 1''), db)
            else
              let expires = map_option (\<lambda>t. now + seconds t) timeout;
                data = [(''decision_id'', JStr did), (''prompt'', JStr prompt),
                        (''options'', JArr (map JStr normalized)), (''expires_at'', jopt_time expires)]
              in if \<not> data_fits (max_event_bytes cfg) data
                 then (Inl (Invalid ''prompt/options are too large for the decision event payload''), db)
                 else reload_decision did (emit_event cfg m now job ''decision_requested'' (Some prompt) data ''info'' ''server''
                   True (insert_decision did now job prompt normalized expires) db)))"

definition resolve_decision ::
  "emit_cfg \<Rightarrow> mint \<Rightarrow> int \<Rightarrow> string \<Rightarrow> string \<Rightarrow> string \<Rightarrow> string \<Rightarrow> vanth_db \<Rightarrow> (everr + decision_row) \<times> vanth_db" where
  "resolve_decision cfg m now job t choice actor db =
     (if choice = [] then (Inl (Invalid ''choice must be a non-empty string''), db)
      else if t = [] then (Inl (Invalid ''token must be a non-empty string''), db)
      else (case normalize_decision_actor actor of
          Inl e \<Rightarrow> (Inl e, db)
        | Inr a \<Rightarrow>
            let data = [(''decision_id'', JStr t), (''choice'', JStr choice), (''actor'', JStr a)] in
            if \<not> data_fits (max_event_bytes cfg) data
            then (Inl (Invalid ''decision payload is too large for the event''), db)
            else reload_decision t (emit_event cfg m now job ''decision_resolved'' (Some choice) data ''info'' ''server''
              True (resolve_mut now job t choice a) db)))"

definition withdraw_decision ::
  "emit_cfg \<Rightarrow> mint \<Rightarrow> int \<Rightarrow> string \<Rightarrow> string \<Rightarrow> string \<Rightarrow> vanth_db \<Rightarrow> (everr + decision_row) \<times> vanth_db" where
  "withdraw_decision cfg m now job t actor db =
     (if t = [] then (Inl (Invalid ''token must be a non-empty string''), db)
      else (case normalize_decision_actor actor of
          Inl e \<Rightarrow> (Inl e, db)
        | Inr a \<Rightarrow>
            let data = [(''decision_id'', JStr t), (''actor'', JStr a)] in
            if \<not> data_fits (max_event_bytes cfg) data
            then (Inl (Invalid ''decision payload is too large for the event''), db)
            else reload_decision t (emit_event cfg m now job ''decision_withdrawn'' (Some ''decision withdrawn'') data ''info'' ''server''
              True (withdraw_mut now job t a) db)))"

definition list_decisions :: "string \<Rightarrow> string option \<Rightarrow> nat \<Rightarrow> vanth_db \<Rightarrow> everr + decision_row list" where
  "list_decisions job status limit db =
     ebind (ensure (case status of None \<Rightarrow> True | Some s \<Rightarrow> s \<in> set DECISION_STATUSES) (Invalid ''status must be one of'')) (\<lambda>_.
     ebind (ensure (1 \<le> limit \<and> limit \<le> 500) (Invalid ''limit must be an integer between 1 and 500'')) (\<lambda>_.
     Inr (take limit (rev (sort_key (sql_key \<circ> dc_created) (sort_key dc_id
       (filter (\<lambda>r. (job = [] \<or> dc_job r = job)
          \<and> (case status of None \<Rightarrow> True | Some s \<Rightarrow> s = [] \<or> dc_status r = s)) (decisions db))))))))"

text \<open>The sweep of the maintenance loop; an emission that raises ends it.\<close>

fun expire_rows :: "emit_cfg \<Rightarrow> (string \<Rightarrow> mint) \<Rightarrow> int \<Rightarrow> decision_row list \<Rightarrow> vanth_db \<Rightarrow> (everr + unit) \<times> vanth_db" where
  "expire_rows cfg mint_of now [] db = (Inr (), db)"
| "expire_rows cfg mint_of now (r # rs) db =
     (if \<not> row_isdue (dc_expires r) ''pending'' now then expire_rows cfg mint_of now rs db
      else (case emit_event cfg (mint_of (dc_id r)) now (dc_job r) ''decision_expired'' (Some ''decision timed out'')
              [(''decision_id'', JStr (dc_id r))] ''info'' ''server'' True (expire_mut now (dc_id r)) db of
            (Inl e, db') \<Rightarrow> (Inl e, db')
          | (Inr x, db') \<Rightarrow> expire_rows cfg mint_of now rs db'))"

definition expire_decisions :: "emit_cfg \<Rightarrow> (string \<Rightarrow> mint) \<Rightarrow> int \<Rightarrow> vanth_db \<Rightarrow> (everr + unit) \<times> vanth_db" where
  "expire_decisions cfg mint_of now db =
     expire_rows cfg mint_of now (filter (\<lambda>r. dc_status r = ''pending'' \<and> dc_expires r \<noteq> None) (decisions db)) db"

section \<open>Histories\<close>

datatype decision_call =
    RequestDecision mint string int string string "string list option" "int option"
  | ResolveDecision mint int string string string string
  | WithdrawDecision mint int string string string
  | ExpireDecisions "string \<Rightarrow> mint" int

fun decision_do :: "emit_cfg \<Rightarrow> decision_call \<Rightarrow> vanth_db \<Rightarrow> vanth_db" where
  "decision_do cfg (RequestDecision m did now job prompt options timeout) db =
     snd (request_decision cfg m did now job prompt options timeout db)"
| "decision_do cfg (ResolveDecision m now job t choice actor) db = snd (resolve_decision cfg m now job t choice actor db)"
| "decision_do cfg (WithdrawDecision m now job t actor) db = snd (withdraw_decision cfg m now job t actor db)"
| "decision_do cfg (ExpireDecisions ms now) db = snd (expire_decisions cfg ms now db)"

fun decisions_do :: "emit_cfg \<Rightarrow> decision_call list \<Rightarrow> vanth_db \<Rightarrow> vanth_db" where
  "decisions_do cfg [] db = db"
| "decisions_do cfg (c # cs) db = decisions_do cfg cs (decision_do cfg c db)"

text \<open>
  How a decision may change: not at all, or from pending to an answer among its options given before
  the deadline, to withdrawn, or to expired once the deadline has passed.
\<close>

definition same_question :: "decision_row \<Rightarrow> decision_row \<Rightarrow> bool" where
  "same_question r r' = (dc_id r' = dc_id r \<and> dc_job r' = dc_job r \<and> dc_prompt r' = dc_prompt r
     \<and> dc_options r' = dc_options r \<and> dc_created r' = dc_created r \<and> dc_expires r' = dc_expires r)"

definition decision_moves :: "decision_row \<Rightarrow> decision_row \<Rightarrow> bool" where
  "decision_moves r r' = (r' = r \<or> dc_status r = ''pending'' \<and> same_question r r' \<and>
     (dc_status r' = ''resolved'' \<and> (\<exists>c t. dc_choice r' = Some c \<and> c \<in> set (dc_options r) \<and> dc_resolved r' = Some t
          \<and> (case dc_expires r of None \<Rightarrow> True | Some e \<Rightarrow> t < e))
      \<or> dc_status r' = ''withdrawn'' \<and> dc_choice r' = dc_choice r
      \<or> dc_status r' = ''expired'' \<and> dc_choice r' = dc_choice r
          \<and> (\<exists>e t. dc_expires r = Some e \<and> dc_resolved r' = Some t \<and> e \<le> t)))"

definition decisions_ok :: "vanth_db \<Rightarrow> bool" where
  "decisions_ok db = distinct (map dc_id (decisions db))"

definition decisions_step :: "vanth_db \<Rightarrow> vanth_db \<Rightarrow> bool" where
  "decisions_step db db' = (decisions_ok db' \<and> (\<forall>r \<in> set (decisions db). \<exists>r' \<in> set (decisions db'). decision_moves r r'))"

lemma moves_refl [simp]: "decision_moves r r"
  by (simp add: decision_moves_def)

lemma moves_trans: "decision_moves a b \<Longrightarrow> decision_moves b c \<Longrightarrow> decision_moves a c"
  by (auto simp: decision_moves_def)

lemma step_subset: "decisions_ok db' \<Longrightarrow> set (decisions db) \<subseteq> set (decisions db') \<Longrightarrow> decisions_step db db'"
  unfolding decisions_step_def by (meson moves_refl subsetD)

lemma step_refl: "decisions_ok db \<Longrightarrow> decisions_step db db"
  by (rule step_subset) simp_all

lemma step_trans: "decisions_step a b \<Longrightarrow> decisions_step b c \<Longrightarrow> decisions_step a c"
  unfolding decisions_step_def by (meson moves_trans)

lemma step_same: "decisions_ok db \<Longrightarrow> decisions db' = decisions db \<Longrightarrow> decisions_step db db'"
  by (rule step_subset) (simp_all add: decisions_ok_def)

lemma find_decision_iff: "decisions_ok db \<Longrightarrow> find_decision db t = Some r \<longleftrightarrow> r \<in> set (decisions db) \<and> dc_id r = t"
  unfolding find_decision_def decisions_ok_def by (rule find_key_iff)

definition mut_ok :: "vanth_db \<Rightarrow> mut \<Rightarrow> bool" where
  "mut_ok db u = (case u of Writes db1 \<Rightarrow> decisions_step db db1 | _ \<Rightarrow> True)"

lemma mut_ok_simps [simp]: "mut_ok db NoOp" "mut_ok db (Raises e)" "mut_ok db (Writes db1) \<longleftrightarrow> decisions_step db db1"
  by (simp_all add: mut_ok_def)

lemma insert_decision_ok: "decisions_ok db \<Longrightarrow> mut_ok db (insert_decision did now job prompt options expires db)"
proof (cases "find_job db job")
  case (Some r)
  assume ok: "decisions_ok db"
  show ?thesis
  proof (cases "terminal (jb_status r) \<or> (\<exists>q \<in> set (decisions db). dc_id q = did)")
    case True
    with Some show ?thesis by (auto simp: insert_decision_def)
  next
    case False
    let ?n = "\<lparr>dc_id = did, dc_job = job, dc_prompt = prompt, dc_options = options, dc_choice = None,
              dc_status = ''pending'', dc_resolved_by = None, dc_created = now, dc_expires = expires, dc_resolved = None\<rparr>"
    have "decisions_step db (db\<lparr>decisions := decisions db @ [?n]\<rparr>)"
      using ok False by (intro step_subset) (auto simp: decisions_ok_def)
    with Some False show ?thesis by (simp add: insert_decision_def)
  qed
qed (simp add: insert_decision_def)

lemma update_decision_ok:
  assumes "decisions_ok db" "find_decision db t = Some r"
    and "\<And>q. dc_id (f q) = dc_id q" "dc_status r = ''pending'' \<Longrightarrow> decision_moves r (f r)" "mut_ok db otherwise"
  shows "mut_ok db (update_decision t f otherwise db)"
proof -
  let ?P = "\<lambda>r. dc_id r = t \<and> dc_status r = ''pending''"
  have only: "q = r" if "q \<in> set (decisions db)" "dc_id q = t" for q
    using assms(1,2) that by (metis find_decision_iff option.inject)
  have "decisions_step db (db\<lparr>decisions := upd ?P f (decisions db)\<rparr>)"
    unfolding decisions_step_def
  proof (intro conjI ballI)
    show "decisions_ok (db\<lparr>decisions := upd ?P f (decisions db)\<rparr>)"
      using assms(1,3) by (simp add: decisions_ok_def map_upd_same)
    fix q assume q: "q \<in> set (decisions db)"
    show "\<exists>r' \<in> set (decisions (db\<lparr>decisions := upd ?P f (decisions db)\<rparr>)). decision_moves q r'"
    proof (cases "?P q")
      case True
      then have "decision_moves q (f q)" using only [OF q] assms(4) by simp
      moreover have "f q \<in> set (upd ?P f (decisions db))" by (rule upd_hit [OF q]) (rule True)
      ultimately show ?thesis by auto
    next
      case False
      have "q \<in> set (upd ?P f (decisions db))" by (rule upd_miss [OF q]) (rule False)
      then show ?thesis by (intro bexI [of _ q]) simp_all
    qed
  qed
  with assms(5) show ?thesis by (simp add: update_decision_def)
qed

lemma resolve_mut_ok: "decisions_ok db \<Longrightarrow> mut_ok db (resolve_mut now job t choice actor db)"
proof (cases "find_decision db t")
  case (Some r)
  assume ok: "decisions_ok db"
  show ?thesis
    unfolding resolve_mut_def
    by (simp add: Some, intro impI update_decision_ok [OF ok Some])
      (auto simp: decision_moves_def same_question_def row_isdue_def split: option.splits)
qed (simp add: resolve_mut_def)

lemma withdraw_mut_ok: "decisions_ok db \<Longrightarrow> mut_ok db (withdraw_mut now job t actor db)"
proof (cases "find_decision db t")
  case (Some r)
  assume ok: "decisions_ok db"
  show ?thesis
    unfolding withdraw_mut_def
    by (simp add: Some, intro impI update_decision_ok [OF ok Some])
      (auto simp: decision_moves_def same_question_def)
qed (simp add: withdraw_mut_def)

lemma expire_mut_ok: "decisions_ok db \<Longrightarrow> mut_ok db (expire_mut now t db)"
proof (cases "find_decision db t")
  case (Some r)
  assume ok: "decisions_ok db"
  show ?thesis
    unfolding expire_mut_def
    by (simp add: Some, intro impI update_decision_ok [OF ok Some])
      (auto simp: decision_moves_def same_question_def row_isdue_def split: option.splits)
qed (simp add: expire_mut_def)

lemma emit_event_cases:
  assumes "emit_event cfg m now job type msg d level src ex mutate db = (res, db')"
  obtains (error) x where "res = Inl x" "db' = db"
    | (transaction) p where "normalize_event_payload (cfg_floats cfg) type level msg (JObj d) = Inr p"
        "emit_transactional (max_events_per_job cfg) m now job (bounded_payload (max_event_bytes cfg) p) src ex mutate db = (res, db')"
proof (cases "normalize_event_payload (cfg_floats cfg) type level msg (JObj d)")
  case (Inl x)
  with assms show thesis by (intro error) (auto simp: emit_event_def)
next
  case (Inr p)
  with assms show thesis by (intro transaction) (auto simp: emit_event_def)
qed

lemma emit_step:
  assumes "decisions_ok db" "mut_ok db (mutate db)"
  shows "decisions_step db (snd (emit_event cfg m now job type msg d level src ex mutate db))"
proof (cases "emit_event cfg m now job type msg d level src ex mutate db")
  case (Pair res db')
  from Pair have "decisions_step db db'"
  proof (cases rule: emit_event_cases)
    case (error x)
    then show ?thesis using step_refl [OF assms(1)] by simp
  next
    case (transaction p)
    from transaction(2) show ?thesis
    proof (cases rule: emit_cases)
      case (persisted db1 e new)
      have "decisions db' = decisions db1" by (simp add: persisted(5) emitted_db_def)
      moreover have "decisions_step db db1" using assms(2) persisted(1) by simp
      ultimately show ?thesis by (simp add: decisions_step_def decisions_ok_def)
    qed (use step_refl [OF assms(1)] in simp_all)
  qed
  then show ?thesis by (simp add: Pair)
qed

lemma snd_reload [simp]: "snd (reload_decision t out) = snd out"
  by (simp add: reload_decision_def split: prod.split sum.split option.split)

lemma expire_rows_step: "decisions_ok db \<Longrightarrow> decisions_step db (snd (expire_rows cfg ms now rs db))"
proof (induction rs arbitrary: db)
  case Nil
  then show ?case by (simp add: step_refl)
next
  case (Cons r rs)
  let ?em = "emit_event cfg (ms (dc_id r)) now (dc_job r) ''decision_expired'' (Some ''decision timed out'')
              [(''decision_id'', JStr (dc_id r))] ''info'' ''server'' True (expire_mut now (dc_id r)) db"
  have s: "decisions_step db (snd ?em)" by (intro emit_step expire_mut_ok Cons.prems)
  then have "decisions_step (snd ?em) (snd (expire_rows cfg ms now rs (snd ?em)))"
    by (intro Cons.IH) (simp add: decisions_step_def)
  from step_trans [OF s this] s Cons show ?case
    by (cases ?em; cases "fst ?em") auto
qed

lemma decision_do_step: "decisions_ok db \<Longrightarrow> decisions_step db (decision_do cfg c db)"
proof (cases c)
  case (RequestDecision m did now job prompt options timeout)
  assume ok: "decisions_ok db"
  show ?thesis
    by (auto simp: RequestDecision request_decision_def Let_def step_refl [OF ok] split: sum.split
        intro!: emit_step insert_decision_ok ok)
next
  case (ResolveDecision m now job t choice actor)
  assume ok: "decisions_ok db"
  show ?thesis
    by (auto simp: ResolveDecision resolve_decision_def Let_def step_refl [OF ok] split: sum.split
        intro!: emit_step resolve_mut_ok ok)
next
  case (WithdrawDecision m now job t actor)
  assume ok: "decisions_ok db"
  show ?thesis
    by (auto simp: WithdrawDecision withdraw_decision_def Let_def step_refl [OF ok] split: sum.split
        intro!: emit_step withdraw_mut_ok ok)
next
  case (ExpireDecisions ms now)
  assume ok: "decisions_ok db"
  show ?thesis by (simp add: ExpireDecisions expire_decisions_def expire_rows_step [OF ok])
qed

lemma decisions_do_step: "decisions_ok db \<Longrightarrow> decisions_step db (decisions_do cfg cs db)"
proof (induction cs arbitrary: db)
  case Nil
  then show ?case by (simp add: step_refl)
next
  case (Cons c cs)
  note s = decision_do_step [OF Cons.prems, of cfg c]
  then have "decisions_step (decision_do cfg c db) (decisions_do cfg cs (decision_do cfg c db))"
    by (intro Cons.IH) (simp add: decisions_step_def)
  with s show ?case by (auto intro: step_trans)
qed

text \<open>
  C18. Over any history of requests, answers, withdrawals and expiry sweeps a decision keeps its question,
  and once it is resolved, withdrawn or expired it never changes.  A pending one can only become resolved
  with one of its options before its deadline, withdrawn, or expired at or after its deadline.
\<close>

theorem decisions_are_final:
  assumes "decisions_ok db" "r \<in> set (decisions db)"
  shows "\<exists>r' \<in> set (decisions (decisions_do cfg cs db)). same_question r r' \<and> decision_moves r r'
    \<and> (dc_status r \<noteq> ''pending'' \<longrightarrow> r' = r)"
  using decisions_do_step [OF assms(1), of cfg cs] assms(2)
  by (auto simp: decisions_step_def decision_moves_def same_question_def Bex_def) blast+

section \<open>Answering a decision\<close>

lemma exempt_not_capped [simp]: "\<not> at_cap mx job p True db"
  by (simp add: at_cap_def)

lemma resolve_mut_Writes:
  assumes "resolve_mut now job t choice actor db = Writes db1"
  shows "\<exists>r. find_decision db t = Some r \<and> dc_job r = job \<and> dc_status r = ''pending''
    \<and> (case dc_expires r of None \<Rightarrow> True | Some e \<Rightarrow> now < e) \<and> choice \<in> set (dc_options r)
    \<and> db1 = db\<lparr>decisions := upd (\<lambda>r. dc_id r = t \<and> dc_status r = ''pending'')
        (\<lambda>r. r\<lparr>dc_status := ''resolved'', dc_choice := Some choice, dc_resolved_by := Some actor, dc_resolved := Some now\<rparr>)
        (decisions db)\<rparr>"
  using assms
  by (auto simp: resolve_mut_def update_decision_def row_isdue_def split: option.splits if_splits)

lemma resolve_mut_NoOp:
  "resolve_mut now job t choice actor db = NoOp \<Longrightarrow>
     \<exists>r. find_decision db t = Some r \<and> dc_job r = job \<and> dc_status r = ''resolved'' \<and> dc_choice r = Some choice"
  by (auto simp: resolve_mut_def update_decision_def split: option.splits if_splits)

lemma find_decision_updated:
  assumes "find_decision db t = Some r" "dc_status r = ''pending''" "\<And>q. dc_id (f q) = dc_id q"
    and "decisions db' = upd (\<lambda>r. dc_id r = t \<and> dc_status r = ''pending'') f (decisions db)"
  shows "find_decision db' t = Some (f r)"
proof -
  have "dc_id r = t" using assms(1) by (auto simp: find_decision_def dest: find_SomeD)
  moreover have "find (\<lambda>r. dc_id r = t) (upd (\<lambda>r. dc_id r = t \<and> dc_status r = ''pending'') f (decisions db)) =
      map_option (\<lambda>r. if dc_id r = t \<and> dc_status r = ''pending'' then f r else r) (find (\<lambda>r. dc_id r = t) (decisions db))"
    by (rule find_upd_key) (rule assms(3))
  ultimately show ?thesis using assms(1,2) by (simp add: find_decision_def assms(4))
qed

text \<open>
  C17. Answering a decision.  A successful call either repeats the recorded answer and changes nothing, or
  turns the pending decision, before its deadline and with one of its options, into a resolved
  one and in the same transaction emits one \<^verbatim>\<open>decision_resolved\<close> event that carries the choice,
  with a wake for every target that asks for it.  A call that raises changes nothing.
\<close>

theorem answer_is_recorded_with_its_event:
  assumes "resolve_decision cfg m now job t choice actor db = (res, db')" "fresh_mint m db"
  shows "case res of
      Inl x \<Rightarrow> db' = db
    | Inr r' \<Rightarrow> \<exists>r. find_decision db t = Some r \<and> dc_job r = job \<and> find_decision db' t = Some r' \<and>
        (dc_status r = ''resolved'' \<and> dc_choice r = Some choice \<and> r' = r \<and> db' = db
         \<or> dc_status r = ''pending'' \<and> choice \<in> set (dc_options r) \<and> (case dc_expires r of None \<Rightarrow> True | Some e \<Rightarrow> now < e)
           \<and> r' = r\<lparr>dc_status := ''resolved'', dc_choice := Some choice, dc_resolved_by := Some actor, dc_resolved := Some now\<rparr>
           \<and> (\<exists>e. events db' = events db @ [e] \<and> ev_job e = job \<and> ev_type e = ''decision_resolved''
                \<and> dget (ev_data e) ''choice'' = JStr choice \<and> dget (ev_data e) ''decision_id'' = JStr t
                \<and> deliveries db' = deliveries db @ map (new_delivery m now e) (filter (wants e) (targets db))))"
proof (cases "choice = [] \<or> t = [] \<or> (\<exists>x. normalize_decision_actor actor = Inl x)
    \<or> \<not> data_fits (max_event_bytes cfg) [(''decision_id'', JStr t), (''choice'', JStr choice), (''actor'', JStr actor)]")
  case True
  then have "\<exists>x. res = Inl x \<and> db' = db"
    using assms(1) by (auto simp: resolve_decision_def Let_def normalize_decision_actor_def ebind_Inr_iff split: sum.splits if_splits)
  then show ?thesis by auto
next
  case False
  let ?data = "[(''decision_id'', JStr t), (''choice'', JStr choice), (''actor'', JStr actor)]"
  let ?p = "\<lparr>ep_type = ''decision_resolved'', ep_level = ''info'', ep_message = Some choice, ep_data = ?data\<rparr>"
  let ?mut = "resolve_mut now job t choice actor"
  from False have actor: "normalize_decision_actor actor = Inr actor"
    by (cases "normalize_decision_actor actor") (auto simp: normalize_decision_actor_def ebind_Inr_iff)
  from False have fits: "data_fits (max_event_bytes cfg) ?data" by simp
  obtain o' db2 where tr: "emit_transactional (max_events_per_job cfg) m now job ?p ''server'' True ?mut db = (o', db2)" by force
  have "emit_event cfg m now job ''decision_resolved'' (Some choice) ?data ''info'' ''server'' True ?mut db = (o', db2)"
    using tr fits by (simp add: emit_event_def normalize_event_payload_def bounded_payload_def)
  then have rel: "reload_decision t (o', db2) = (res, db')"
    using assms(1) False actor by (auto simp: resolve_decision_def Let_def)
  from tr show ?thesis
  proof (cases rule: emit_cases)
    case (error x)
    with rel show ?thesis by (auto simp: reload_decision_def)
  next
    case (capped n)
    then show ?thesis by simp
  next
    case unchanged
    from resolve_mut_NoOp [OF unchanged(3)] obtain r
      where "find_decision db t = Some r" "dc_job r = job" "dc_status r = ''resolved''" "dc_choice r = Some choice" by blast
    with unchanged rel show ?thesis by (auto simp: reload_decision_def)
  next
    case (persisted db1 e new)
    from resolve_mut_Writes [OF persisted(1)] obtain r where r: "find_decision db t = Some r" "dc_job r = job"
        "dc_status r = ''pending''" "case dc_expires r of None \<Rightarrow> True | Some e \<Rightarrow> now < e" "choice \<in> set (dc_options r)"
      and db1: "db1 = db\<lparr>decisions := upd (\<lambda>r. dc_id r = t \<and> dc_status r = ''pending'')
        (\<lambda>r. r\<lparr>dc_status := ''resolved'', dc_choice := Some choice, dc_resolved_by := Some actor, dc_resolved := Some now\<rparr>)
        (decisions db)\<rparr>" by blast
    let ?r = "r\<lparr>dc_status := ''resolved'', dc_choice := Some choice, dc_resolved_by := Some actor, dc_resolved := Some now\<rparr>"
    have "decisions db2 = decisions db1" by (simp add: persisted(5) emitted_db_def)
    then have f: "find_decision db2 t = Some ?r"
      by (intro find_decision_updated [OF r(1,3)]) (simp_all add: db1)
    with rel persisted(2) have out: "res = Inr ?r" "db' = db2" by (simp_all add: reload_decision_def)
    have e: "ev_id e = mint_event m" "ev_job e = job" "ev_type e = ''decision_resolved''" "ev_data e = ?data"
      by (simp_all add: persisted(3) event_of_def)
    have "fresh_mint m db1" using assms(2) by (simp add: fresh_mint_def db1)
    from emitted_deliveries [OF this e(1)] have "deliveries db2 = deliveries db @ map (new_delivery m now e) (filter (wants e) (targets db))"
      by (simp add: persisted(5) db1)
    moreover have "events db2 = events db @ [e]" by (simp add: persisted(5) emitted_db_def db1)
    ultimately show ?thesis using r f out e by (auto simp: dget_Cons)
  qed
qed

section \<open>Examples\<close>

definition demo_question :: "string \<Rightarrow> string option \<Rightarrow> decision_row" where
  "demo_question status choice = \<lparr>dc_id = ''q1'', dc_job = ''j1'', dc_prompt = ''deploy?'', dc_options = [''approve'', ''deny''],
     dc_choice = choice, dc_status = status, dc_resolved_by = None, dc_created = 1, dc_expires = Some 50, dc_resolved = None\<rparr>"

definition demo_asked :: "string \<Rightarrow> string option \<Rightarrow> vanth_db" where
  "demo_asked status choice = demo_empty\<lparr>decisions := [demo_question status choice]\<rparr>"

lemma demo_asked_ok: "decisions_ok (demo_asked status choice)" "demo_question status choice \<in> set (decisions (demo_asked status choice))"
  by (simp_all add: decisions_ok_def demo_asked_def demo_empty_def)

theorem decisions_are_final_witness:
  "demo_question ''withdrawn'' None \<in> set (decisions (decisions_do demo_cfg
     [ResolveDecision demo_mint 9 ''j1'' ''q1'' ''approve'' ''user'', ExpireDecisions (\<lambda>_. demo_mint) 60] (demo_asked ''withdrawn'' None)))"
proof -
  have "dc_status (demo_question ''withdrawn'' None) \<noteq> ''pending''" by (simp add: demo_question_def)
  then show ?thesis
    using decisions_are_final [OF demo_asked_ok, of demo_cfg
      "[ResolveDecision demo_mint 9 ''j1'' ''q1'' ''approve'' ''user'', ExpireDecisions (\<lambda>_. demo_mint) 60]"] by blast
qed

theorem answer_is_recorded_with_its_event_witness:
  "\<exists>r' db'. resolve_decision demo_cfg demo_mint 9 ''j1'' ''q1'' ''approve'' ''user'' (demo_asked ''pending'' None) = (Inr r', db')
     \<and> dc_choice r' = Some ''approve'' \<and> (\<exists>e. events db' = [e] \<and> dget (ev_data e) ''choice'' = JStr ''approve'')"
proof -
  obtain res db' where r: "resolve_decision demo_cfg demo_mint 9 ''j1'' ''q1'' ''approve'' ''user'' (demo_asked ''pending'' None) = (res, db')"
    by force
  have "(case fst (resolve_decision demo_cfg demo_mint 9 ''j1'' ''q1'' ''approve'' ''user'' (demo_asked ''pending'' None)) of
      Inl x \<Rightarrow> False | Inr r \<Rightarrow> True)" by code_simp
  then obtain r' where ok: "res = Inr r'" by (auto simp: r split: sum.splits)
  have "find_decision (demo_asked ''pending'' None) ''q1'' = Some (demo_question ''pending'' None)"
      "dc_status (demo_question ''pending'' None) = ''pending''" "events (demo_asked ''pending'' None) = []"
      "fresh_mint demo_mint (demo_asked ''pending'' None)"
    by code_simp+
  then show ?thesis using answer_is_recorded_with_its_event [OF r] r ok by auto
qed
end
