(* ===== verification/RemoteOperations.thy ===== *)
theory RemoteOperations
  imports Transitions WakeTargets
begin

text \<open>
  What a paired host keeps for its controllers (\<^verbatim>\<open>RemoteOperationStore\<close> of \<^verbatim>\<open>src/vanth/remote/store.py\<close>
  and \<^verbatim>\<open>FeedStore\<close> of \<^verbatim>\<open>src/vanth/remote/feed.py\<close>): the operations it accepted, the jobs they started, replay
  tombstones, its state epoch and identity, and the feed of changes.  The tables are in the file of
  the daemon's own database, the component \<open>host\<close> of the state.

  The store has one SQLite connection.  \<open>committed\<close> is the file, \<open>pending\<close> the uncommitted state while
  a transaction is open.  An operation with \<^verbatim>\<open>commit=True\<close> is its body under \<open>own_tx\<close>: its
  \<^verbatim>\<open>BEGIN IMMEDIATE\<close> raises when a transaction is open already.  A write outside of a transaction opens one
  implicitly (\<open>dml\<close>), which stays open until somebody commits or rolls back.
\<close>

section \<open>Tables\<close>

record operation_row =
  op_id :: string
  op_key :: string
  op_method :: string
  op_payload :: obj
  op_digest :: string
  op_status :: string
  op_result :: "obj option"
  op_error :: "string option"
  op_created :: int
  op_updated :: int

record op_tombstone_row =
  ot_id :: string
  ot_key :: string
  ot_digest :: string
  ot_created :: int

record origin_row =
  og_op :: string
  og_job :: string
  og_origin :: string
  og_intent :: string
  og_created :: int

record feed_row =
  fd_seq :: int
  fd_state_epoch :: int
  fd_feed_epoch :: int
  fd_kind :: string
  fd_job :: "string option"
  fd_payload :: json
  fd_created :: int

text \<open>\<open>feed_last\<close> is the \<^verbatim>\<open>AUTOINCREMENT\<close> counter of the feed.\<close>

record remote_db =
  operations :: "operation_row list"
  op_tombstones :: "op_tombstone_row list"
  origins :: "origin_row list"
  feed :: "feed_row list"
  feed_last :: int
  rs_state_epoch :: int
  rs_feed_epoch :: int
  rs_instance :: string
  host :: vanth_db

record conn =
  committed :: remote_db
  pending :: "remote_db option"

type_synonym 'a rbody = "remote_db \<Rightarrow> serr + 'a \<times> remote_db"
type_synonym 'a cop = "conn \<Rightarrow> (serr + 'a) \<times> conn"

section \<open>The connection\<close>

definition view :: "conn \<Rightarrow> remote_db" where
  "view c = (case pending c of None \<Rightarrow> committed c | Some db \<Rightarrow> db)"

definition own_tx :: "'a rbody \<Rightarrow> 'a cop" where
  "own_tx body c =
     (if pending c \<noteq> None then (Inl TransactionOpen, c)
      else (case body (committed c) of
          Inl e \<Rightarrow> (Inl e, c)
        | Inr (a, db) \<Rightarrow> (Inr a, c\<lparr>committed := db\<rparr>)))"

definition dml :: "(remote_db \<Rightarrow> remote_db) \<Rightarrow> conn \<Rightarrow> conn" where
  "dml f c = c\<lparr>pending := Some (f (view c))\<rparr>"

definition commit :: "conn \<Rightarrow> conn" where
  "commit c = \<lparr>committed = view c, pending = None\<rparr>"

lemma view_commit [simp]: "view (commit c) = view c" "pending (commit c) = None"
  by (simp_all add: commit_def view_def)

lemma view_dml [simp]: "view (dml f c) = f (view c)" "pending (dml f c) \<noteq> None" "committed (dml f c) = committed c"
  by (simp_all add: dml_def view_def)

lemma own_tx_view: "pending c = None \<Longrightarrow> own_tx body c = (case txn body (view c) of (r, db) \<Rightarrow> (r, \<lparr>committed = db, pending = None\<rparr>))"
  by (cases c) (auto simp: own_tx_def txn_def view_def split: sum.splits)

section \<open>Operations\<close>

definition find_operation :: "remote_db \<Rightarrow> string \<Rightarrow> operation_row option" where
  "find_operation db key = find (\<lambda>r. op_key r = key) (operations db)"

definition operation_by_id :: "remote_db \<Rightarrow> string \<Rightarrow> operation_row option" where
  "operation_by_id db oid = find (\<lambda>r. op_id r = oid) (operations db)"

definition record_operation :: "string \<Rightarrow> int \<Rightarrow> string \<Rightarrow> string \<Rightarrow> obj \<Rightarrow> string \<Rightarrow> operation_row rbody" where
  "record_operation fresh now key method payload digest db =
     (case find_operation db key of
        Some existing \<Rightarrow>
          if op_digest existing \<noteq> digest then Inl ReplayMismatch else Inr (existing, db)
      | None \<Rightarrow>
          if (\<exists>r \<in> set (operations db). op_id r = fresh) then Inl serr.IntegrityError
          else
            let row = \<lparr>op_id = fresh, op_key = key, op_method = method, op_payload = payload,
              op_digest = digest, op_status = ''accepted'', op_result = None, op_error = None,
              op_created = now, op_updated = now\<rparr>
            in Inr (row, db\<lparr>operations := operations db @ [row]\<rparr>))"

definition get_operation :: "string \<Rightarrow> remote_db \<Rightarrow> serr + operation_row" where
  "get_operation key db = (case find_operation db key of None \<Rightarrow> Inl UnknownOperation | Some r \<Rightarrow> Inr r)"

definition update_operations :: "string \<Rightarrow> (operation_row \<Rightarrow> operation_row) \<Rightarrow> remote_db \<Rightarrow> remote_db" where
  "update_operations oid f db = db\<lparr>operations := upd (\<lambda>r. op_id r = oid) f (operations db)\<rparr>"

definition update_operation_status :: "int \<Rightarrow> string \<Rightarrow> string \<Rightarrow> obj option \<Rightarrow> operation_row rbody" where
  "update_operation_status now oid status payload db =
     (case operation_by_id db oid of
        None \<Rightarrow> Inl UnknownOperation
      | Some row \<Rightarrow> ebind (transition ''operation'' (op_status row) status) (\<lambda>_.
          let db' = update_operations oid (\<lambda>r. r\<lparr>op_status := status,
                op_payload := (case payload of None \<Rightarrow> op_payload r | Some p \<Rightarrow> p), op_updated := now\<rparr>) db
          in (case operation_by_id db' oid of None \<Rightarrow> Inl NoRow | Some r \<Rightarrow> Inr (r, db'))))"

section \<open>The jobs of the operations\<close>

text \<open>
  \<^verbatim>\<open>INSERT OR REPLACE\<close>: a row with the same operation or the same job is deleted first.
\<close>

definition record_queued_job :: "int \<Rightarrow> string \<Rightarrow> string \<Rightarrow> string \<Rightarrow> remote_db \<Rightarrow> remote_db" where
  "record_queued_job now oid job origin db =
     db\<lparr>origins := del (\<lambda>r. og_op r = oid \<or> og_job r = job) (origins db)
       @ [\<lparr>og_op = oid, og_job = job, og_origin = origin, og_intent = ''queued'', og_created = now\<rparr>]\<rparr>"

definition get_remote_job_origin :: "string \<Rightarrow> remote_db \<Rightarrow> origin_row option" where
  "get_remote_job_origin job db = find (\<lambda>r. og_job r = job) (origins db)"

definition get_remote_job_origin_op :: "string \<Rightarrow> remote_db \<Rightarrow> string option" where
  "get_remote_job_origin_op oid db = map_option og_job (find (\<lambda>r. og_op r = oid) (origins db))"

definition get_remote_operation_by_job :: "string \<Rightarrow> remote_db \<Rightarrow> string option" where
  "get_remote_operation_by_job job db = map_option og_op (find (\<lambda>r. og_job r = job) (origins db))"

section \<open>Replay tombstones\<close>

definition record_op_tombstone :: "string \<Rightarrow> int \<Rightarrow> string \<Rightarrow> string \<Rightarrow> op_tombstone_row rbody" where
  "record_op_tombstone fresh now key digest db =
     (case find (\<lambda>t. ot_key t = key) (op_tombstones db) of
        Some t \<Rightarrow> Inr (t, db)
      | None \<Rightarrow>
          if (\<exists>t \<in> set (op_tombstones db). ot_id t = fresh) then Inl serr.IntegrityError
          else
            let row = \<lparr>ot_id = fresh, ot_key = key, ot_digest = digest, ot_created = now\<rparr>
            in Inr (row, db\<lparr>op_tombstones := op_tombstones db @ [row]\<rparr>))"

definition get_op_tombstone :: "string \<Rightarrow> remote_db \<Rightarrow> serr + op_tombstone_row" where
  "get_op_tombstone key db =
     (case find (\<lambda>t. ot_key t = key) (op_tombstones db) of None \<Rightarrow> Inl NoRow | Some t \<Rightarrow> Inr t)"

section \<open>Epochs and identity\<close>

text \<open>The singleton row of \<^verbatim>\<open>remote_state\<close> exists from the start.\<close>

definition get_feed_epoch :: "remote_db \<Rightarrow> int" where
  "get_feed_epoch db = (if rs_feed_epoch db = 0 then 1 else rs_feed_epoch db)"

definition get_instance_id :: "remote_db \<Rightarrow> serr + string" where
  "get_instance_id db = (if rs_instance db = [] then Inl NoRow else Inr (rs_instance db))"

definition set_remote_epoch :: "int \<Rightarrow> unit rbody" where
  "set_remote_epoch epoch db =
     (if epoch < 1 then Inl BadArgument
      else if epoch < rs_state_epoch db then Inl EpochRewind
      else if epoch = rs_state_epoch db then Inr ((), db)
      else Inr ((), db\<lparr>rs_state_epoch := epoch, rs_feed_epoch := get_feed_epoch db + 1\<rparr>))"

section \<open>The feed\<close>

definition append_in_tx :: "int \<Rightarrow> string \<Rightarrow> string option \<Rightarrow> json option \<Rightarrow> remote_db \<Rightarrow> int \<times> remote_db" where
  "append_in_tx now kind job payload db =
     (let s = feed_last db + 1
      in (s, db\<lparr>feed_last := s, feed := feed db @
           [\<lparr>fd_seq = s, fd_state_epoch = rs_state_epoch db, fd_feed_epoch = get_feed_epoch db, fd_kind = kind,
             fd_job = job, fd_payload = (case payload of None \<Rightarrow> JObj [] | Some p \<Rightarrow> p), fd_created = now\<rparr>]\<rparr>))"

definition append :: "int \<Rightarrow> string \<Rightarrow> string option \<Rightarrow> json option \<Rightarrow> int cop" where
  "append now kind job payload = own_tx (\<lambda>db. Inr (append_in_tx now kind job payload db))"

definition current_feed :: "remote_db \<Rightarrow> feed_row list" where
  "current_feed db =
     filter (\<lambda>r. fd_state_epoch r = rs_state_epoch db \<and> fd_feed_epoch r = get_feed_epoch db) (feed db)"

text \<open>
  The position in a cursor, \<^verbatim>\<open>int(cursor.get("seq") or 0)\<close>: \<open>None\<close> where \<^verbatim>\<open>int\<close> raises
  \<^verbatim>\<open>TypeError\<close> or \<^verbatim>\<open>ValueError\<close>.  The integer part of a float is the argument \<open>trunc\<close>.
\<close>

definition int_of :: "(string \<Rightarrow> int option) \<Rightarrow> json \<Rightarrow> int option" where
  "int_of trunc v = (case v of JInt i \<Rightarrow> Some i | JBool b \<Rightarrow> Some (if b then 1 else 0) | JFloat r \<Rightarrow> trunc r
     | JStr s \<Rightarrow> py_int s | _ \<Rightarrow> None)"

definition cursor_seq :: "(string \<Rightarrow> int option) \<Rightarrow> json \<Rightarrow> int option" where
  "cursor_seq trunc cursor = (case cursor of JObj d \<Rightarrow> int_of trunc (por (dget d ''seq'') (JInt 0)) | _ \<Rightarrow> Some 0)"

record feed_batch =
  fb_state_epoch :: int
  fb_feed_epoch :: int
  fb_changes :: "feed_row list"
  fb_more :: bool
  fb_oldest :: "int option"
  fb_high :: "int option"

definition feed_after :: "int \<Rightarrow> remote_db \<Rightarrow> feed_row list" where
  "feed_after s db = sort_key fd_seq (filter (\<lambda>r. s < fd_seq r) (current_feed db))"

definition least :: "int list \<Rightarrow> int option" where
  "least xs = (case xs of [] \<Rightarrow> None | x # ys \<Rightarrow> Some (fold min ys x))"

definition greatest :: "int list \<Rightarrow> int option" where
  "greatest xs = (case xs of [] \<Rightarrow> None | x # ys \<Rightarrow> Some (fold max ys x))"

definition feed_read :: "int \<Rightarrow> int \<Rightarrow> remote_db \<Rightarrow> feed_batch" where
  "feed_read s limit db =
     (let rows = take (nat (max 0 limit)) (feed_after s db)
      in \<lparr>fb_state_epoch = rs_state_epoch db, fb_feed_epoch = get_feed_epoch db, fb_changes = rows,
          fb_more = (int (length rows) = limit \<and> 0 < length rows),
          fb_oldest = least (map fd_seq (current_feed db)),
          fb_high = greatest (map fd_seq (current_feed db))\<rparr>)"

definition feed_high_water :: "remote_db \<Rightarrow> int option" where
  "feed_high_water db = least (map fd_seq (current_feed db))"

section \<open>Consistency\<close>

definition remote_ok :: "remote_db \<Rightarrow> bool" where
  "remote_ok db = (distinct (map op_id (operations db)) \<and> distinct (map op_key (operations db))
     \<and> distinct (map og_op (origins db)) \<and> distinct (map og_job (origins db))
     \<and> sorted_wrt (\<lambda>a b. fd_seq a < fd_seq b) (feed db) \<and> (\<forall>r \<in> set (feed db). 0 < fd_seq r \<and> fd_seq r \<le> feed_last db)
     \<and> 0 \<le> feed_last db \<and> 1 \<le> rs_state_epoch db \<and> 0 \<le> rs_feed_epoch db
     \<and> (\<forall>r \<in> set (feed db). fd_state_epoch r \<le> rs_state_epoch db \<and> fd_feed_epoch r \<le> get_feed_epoch db))"

lemma operation_by_id_iff:
  "remote_ok db \<Longrightarrow> operation_by_id db oid = Some r \<longleftrightarrow> r \<in> set (operations db) \<and> op_id r = oid"
  by (simp add: operation_by_id_def remote_ok_def find_key_iff)

lemma find_operation_iff:
  "remote_ok db \<Longrightarrow> find_operation db key = Some r \<longleftrightarrow> r \<in> set (operations db) \<and> op_key r = key"
  by (simp add: find_operation_def remote_ok_def find_key_iff)

lemma find_operation_append:
  "find_operation (db\<lparr>operations := operations db @ [r]\<rparr>) key =
     (case find_operation db key of None \<Rightarrow> if op_key r = key then Some r else None | Some q \<Rightarrow> Some q)"
  by (auto simp: find_operation_def find_append split: option.splits)

lemma update_operations_simps [simp]:
  "operations (update_operations oid f db) = upd (\<lambda>r. op_id r = oid) f (operations db)"
  "origins (update_operations oid f db) = origins db" "feed (update_operations oid f db) = feed db"
  "feed_last (update_operations oid f db) = feed_last db" "host (update_operations oid f db) = host db"
  "rs_state_epoch (update_operations oid f db) = rs_state_epoch db"
  "rs_feed_epoch (update_operations oid f db) = rs_feed_epoch db"
  "rs_instance (update_operations oid f db) = rs_instance db"
  "get_feed_epoch (update_operations oid f db) = get_feed_epoch db"
  by (simp_all add: update_operations_def get_feed_epoch_def)

lemma update_operations_ok:
  "(\<And>r. op_id (f r) = op_id r \<and> op_key (f r) = op_key r) \<Longrightarrow> remote_ok db \<Longrightarrow> remote_ok (update_operations oid f db)"
  by (simp add: remote_ok_def map_upd_same)

lemma record_operation_cases:
  assumes "record_operation fresh now key method payload digest db = res"
  obtains (hit) r where "find_operation db key = Some r" "op_digest r = digest" "res = Inr (r, db)"
  | (new) r where "find_operation db key = None" "op_key r = key" "op_digest r = digest" "op_status r = ''accepted''"
      "op_id r = fresh" "op_id r \<notin> op_id ` set (operations db)" "res = Inr (r, db\<lparr>operations := operations db @ [r]\<rparr>)"
      "op_method r = method" "op_payload r = payload" "op_result r = None"
  | (error) e where "res = Inl e"
proof (cases "find_operation db key")
  case None
  show ?thesis
  proof (cases "\<exists>r \<in> set (operations db). op_id r = fresh")
    case True
    with None assms show ?thesis by (auto simp: record_operation_def intro: error)
  next
    case False
    let ?r = "\<lparr>op_id = fresh, op_key = key, op_method = method, op_payload = payload, op_digest = digest,
      op_status = ''accepted'', op_result = None, op_error = None, op_created = now, op_updated = now\<rparr>"
    have "res = Inr (?r, db\<lparr>operations := operations db @ [?r]\<rparr>)"
      using None False assms by (auto simp: record_operation_def Let_def)
    with None False show ?thesis by (intro new [of ?r]) auto
  qed
next
  case (Some r)
  with assms show ?thesis by (cases "op_digest r = digest") (auto simp: record_operation_def intro: error hit)
qed

lemma record_operation_ok:
  assumes "remote_ok db" "record_operation fresh now key method payload digest db = Inr (r, db')"
  shows "remote_ok db' \<and> find_operation db' key = Some r \<and> op_digest r = digest
    \<and> (\<forall>l. l \<noteq> key \<longrightarrow> find_operation db' l = find_operation db l)
    \<and> (\<forall>q. find_operation db key = Some q \<longrightarrow> r = q \<and> db' = db)"
  using assms(2)
proof (cases rule: record_operation_cases)
  case (new q)
  then have "key \<notin> op_key ` set (operations db)" by (simp add: find_operation_def find_None_image)
  with new assms(1) have "remote_ok db'" by (auto simp: remote_ok_def get_feed_epoch_def)
  with new show ?thesis by (auto simp: find_operation_append split: option.splits)
qed (use assms(1) in auto)

type_synonym operation_args = "string \<times> int \<times> string \<times> obj"

fun record_op :: "string \<Rightarrow> string \<Rightarrow> operation_args \<Rightarrow> remote_db \<Rightarrow> (serr + operation_row) \<times> remote_db" where
  "record_op key digest (fresh, now, method, payload) = txn (record_operation fresh now key method payload digest)"

interpretation operation_log: request_log find_operation op_digest record_op remote_ok
proof unfold_locales
  fix s k d x r s'
  assume "remote_ok s" "record_op k d x s = (Inr r, s')"
  then show "remote_ok s' \<and> find_operation s' k = Some r \<and> op_digest r = d
      \<and> (\<forall>l. l \<noteq> k \<longrightarrow> find_operation s' l = find_operation s l)"
    by (cases x) (auto simp: txn_Inr_iff dest: record_operation_ok)
next
  fix s k r d x r' s'
  assume "remote_ok s" "find_operation s k = Some r" "record_op k d x s = (Inr r', s')"
  then show "r' = r \<and> s' = s" by (cases x) (auto simp: txn_Inr_iff dest: record_operation_ok)
next
  fix k d x s e s'
  assume "record_op k d x s = (Inl e, s')"
  then show "s' = s" by (cases x) (auto simp: txn_Inl_iff)
qed

lemma update_operation_status_cases:
  assumes "update_operation_status now oid status payload db = Inr (r, db')" "remote_ok db"
  obtains q where "q \<in> set (operations db)" "op_id q = oid" "transition ''operation'' (op_status q) status = Inr status"
    "db' = update_operations oid (\<lambda>r. r\<lparr>op_status := status,
       op_payload := (case payload of None \<Rightarrow> op_payload r | Some p \<Rightarrow> p), op_updated := now\<rparr>) db"
    "op_status r = status" "op_id r = oid" "remote_ok db'"
proof -
  let ?f = "\<lambda>r. r\<lparr>op_status := status, op_payload := (case payload of None \<Rightarrow> op_payload r | Some p \<Rightarrow> p), op_updated := now\<rparr>"
  have ok: "remote_ok (update_operations oid ?f db)" by (rule update_operations_ok [OF _ assms(2)]) simp
  note u = assms(1) [unfolded update_operation_status_def Let_def]
  obtain q where q1: "operation_by_id db oid = Some q" using u by (cases "operation_by_id db oid") simp_all
  obtain t where t: "transition ''operation'' (op_status q) status = Inr t"
    using u q1 by (cases "transition ''operation'' (op_status q) status") simp_all
  have d: "db' = update_operations oid ?f db" "operation_by_id (update_operations oid ?f db) oid = Some r"
    using u q1 t by (cases "operation_by_id (update_operations oid ?f db) oid"; simp)+
  have "t = status" using t by (simp add: operation_table)
  with t have tr: "transition ''operation'' (op_status q) status = Inr status" by (simp only: HOL.simp_thms)
  from d(2) ok have r: "r \<in> set (upd (\<lambda>r. op_id r = oid) ?f (operations db))" "op_id r = oid"
    by (simp_all add: operation_by_id_iff)
  then obtain p where "r = (if op_id p = oid then ?f p else p)" unfolding in_set_upd by blast
  with r(2) have st: "op_status r = status" "op_id r = oid" by (cases "op_id p = oid"; simp)+
  have m: "q \<in> set (operations db)" "op_id q = oid" using q1 assms(2) by (simp_all add: operation_by_id_iff)
  have ok': "remote_ok db'" using ok by (simp only: d(1))
  show ?thesis by (rule that [OF m tr d(1) st ok'])
qed

lemma append_in_tx_simps [simp]:
  "operations (snd (append_in_tx now kind job payload db)) = operations db"
  "origins (snd (append_in_tx now kind job payload db)) = origins db"
  "host (snd (append_in_tx now kind job payload db)) = host db"
  "rs_state_epoch (snd (append_in_tx now kind job payload db)) = rs_state_epoch db"
  "rs_feed_epoch (snd (append_in_tx now kind job payload db)) = rs_feed_epoch db"
  "rs_instance (snd (append_in_tx now kind job payload db)) = rs_instance db"
  by (simp_all add: append_in_tx_def Let_def)

lemma append_in_tx_ok: "remote_ok db \<Longrightarrow> remote_ok (snd (append_in_tx now kind job payload db))"
  by (fastforce simp: remote_ok_def append_in_tx_def Let_def sorted_wrt_append get_feed_epoch_def)

lemma set_remote_epoch_ok: "remote_ok db \<Longrightarrow> set_remote_epoch epoch db = Inr ((), db') \<Longrightarrow> remote_ok db'"
  by (fastforce simp: remote_ok_def set_remote_epoch_def get_feed_epoch_def split: if_splits)

lemma record_queued_job_ok: "remote_ok db \<Longrightarrow> remote_ok (record_queued_job now oid job origin db)"
  by (auto simp: remote_ok_def record_queued_job_def distinct_map_del get_feed_epoch_def)

section \<open>The feed as a paged log\<close>

lemma current_sorted: "remote_ok db \<Longrightarrow> sorted_wrt (\<lambda>a b. fd_seq a < fd_seq b) (current_feed db)"
  by (simp add: current_feed_def remote_ok_def sorted_wrt_filter)

lemma sort_key_sorted: "sorted_wrt (\<lambda>a b. k a < k b) xs \<Longrightarrow> sort_key k xs = xs"
  by (rule sort_key_id_if_sorted) (simp add: sorted_map sorted_wrt_mono_rel [of _ "\<lambda>a b. k a < k b"])

lemma feed_after_filter: "remote_ok db \<Longrightarrow> feed_after s db = filter (\<lambda>r. s < fd_seq r) (current_feed db)"
  by (simp add: feed_after_def sort_key_sorted sorted_wrt_filter current_sorted)

interpretation feed_pages: paged_log current_feed fd_seq "\<lambda>db n s. fb_changes (feed_read s (int n) db)"
  "\<lambda>db n s. fb_more (feed_read s (int n) db)" remote_ok
  by unfold_locales (auto simp: current_sorted feed_read_def Let_def feed_after_filter)

end
