(* ===== verification/JobControl.thy ===== *)
theory JobControl
  imports Events
begin

text \<open>
  The operations of the job supervisor that span several statements (\<^verbatim>\<open>JobManager\<close> of
  \<^verbatim>\<open>src/vanth/server.py\<close>): launching a claimed job, stopping a job, finishing a run, and the recovery of
  runs and claims whose runner is gone.

  Other processes write the same rows between the statements.  Where an operation reads a row and writes
  it later, the interference is an argument, a list of statements (\<open>job_call\<close>) that
  others execute at that point.  Which processes are alive, and which could be killed, are
  arguments.  The process table of the daemon and the reader threads are not modelled.
\<close>

datatype cerr = BadKill | BadActor | BadReason | NoSuchJob | KillFailed "int list" | EmitFailed everr | StatusError jerr

definition STOP_ACTORS :: "string list" where
  "STOP_ACTORS = [''user'', ''tool'', ''watchdog'', ''timeout'', ''daemon'', ''policy'', ''remote'']"

definition or_str :: "string option \<Rightarrow> string \<Rightarrow> string" where
  "or_str v d = (case v of None \<Rightarrow> d | Some s \<Rightarrow> if s = [] then d else s)"

definition stop_event_data :: "job_row \<Rightarrow> string \<Rightarrow> string \<Rightarrow> obj" where
  "stop_event_data r default_actor default_reason =
     [(''actor'', JStr (or_str (jb_stop_actor r) default_actor)), (''reason'', JStr (or_str (jb_stop_reason r) default_reason))]"

text \<open>\<^verbatim>\<open>int(pid) if pid else None\<close>.\<close>

definition pid_of :: "int option \<Rightarrow> int option" where
  "pid_of p = (if p = Some 0 then None else p)"

definition emit :: "emit_cfg \<Rightarrow> mint \<Rightarrow> int \<Rightarrow> string \<Rightarrow> string \<Rightarrow> string option \<Rightarrow> obj \<Rightarrow> string \<Rightarrow> vanth_db \<Rightarrow> (cerr + emitted) \<times> vanth_db" where
  "emit cfg m now job type message data level db =
     (case emit_event cfg m now job type message data level ''server'' False Writes db of
        (Inl e, db') \<Rightarrow> (Inl (EmitFailed e), db') | (Inr x, db') \<Rightarrow> (Inr x, db'))"

definition emit_then :: "emit_cfg \<Rightarrow> mint \<Rightarrow> int \<Rightarrow> string \<Rightarrow> string \<Rightarrow> string option \<Rightarrow> obj \<Rightarrow> string \<Rightarrow> cerr + 'a \<Rightarrow> vanth_db \<Rightarrow> (cerr + 'a) \<times> vanth_db" where
  "emit_then cfg m now job type message data level res db =
     (case emit cfg m now job type message data level db of (Inl e, db') \<Rightarrow> (Inl e, db') | (Inr x, db') \<Rightarrow> (res, db'))"

definition report :: "string \<Rightarrow> vanth_db \<Rightarrow> (cerr + string) \<times> vanth_db" where
  "report job db = (case find_job db job of None \<Rightarrow> (Inl NoSuchJob, db) | Some r \<Rightarrow> (Inr (jb_status r), db))"

section \<open>Launching\<close>

text \<open>
  \<open>spawn\<close> is the runner's process or the error text of a failed spawn; \<open>others\<close> is what the runner and
  others do before the parent records the process.  The result is the reported status and
  whether the parent terminates the runner because its claim was lost.
\<close>

definition launch ::
  "emit_cfg \<Rightarrow> mint \<Rightarrow> int \<Rightarrow> string + int \<Rightarrow> job_call list \<Rightarrow> string \<Rightarrow> string \<Rightarrow> vanth_db \<Rightarrow> (cerr + string \<times> bool) \<times> vanth_db" where
  "launch cfg m now spawn others job token db =
     (case spawn of
        Inl err \<Rightarrow>
          emit_then cfg m now job ''failed'' (Some (''Job runner failed to start: '' @ err)) [(''error'', JStr err)] ''error''
            (Inr (''failed'', False)) (spawn_failed now job token db)
      | Inr pid \<Rightarrow>
          (case record_worker now pid job token (jobs_do others db) of
             (n, db1) \<Rightarrow>
               if n = 1 then (Inr (''running'', False), db1)
               else (case find_job db1 job of
                   None \<Rightarrow> (Inr (''lost'', True), db1)
                 | Some q \<Rightarrow> (Inr (jb_status q,
                     \<not> (jb_token q = Some token \<and> (active (jb_status q) \<or> terminal (jb_status q)))), db1))))"

section \<open>Finishing\<close>

definition finish_data :: "job_row option \<Rightarrow> string \<Rightarrow> int option \<Rightarrow> obj" where
  "finish_data row status exit_code =
     dupdate (case exit_code of None \<Rightarrow> [] | Some x \<Rightarrow> [(''exit_code'', JInt x)])
       (if status = ''cancelled'' then
          (case row of None \<Rightarrow> [(''actor'', JStr ''user''), (''reason'', JStr ''stop requested'')]
           | Some r \<Rightarrow> stop_event_data r ''user'' ''stop requested'')
        else if status = ''timeout'' then
          [(''actor'', JStr ''timeout''),
           (''reason'', JStr (case row of
               Some r \<Rightarrow> (case pid_of (jb_timeout r) of
                   Some s \<Rightarrow> ''exceeded timeout of '' @ int_str s @ ''s'' | None \<Rightarrow> ''exceeded configured timeout'')
             | None \<Rightarrow> ''exceeded configured timeout''))]
        else [])"

definition finish_run ::
  "emit_cfg \<Rightarrow> mint \<Rightarrow> int \<Rightarrow> job_call list \<Rightarrow> string \<Rightarrow> string \<Rightarrow> int option \<Rightarrow> string option \<Rightarrow> vanth_db \<Rightarrow> (cerr + unit) \<times> vanth_db" where
  "finish_run cfg m now others job status exit_code claim_token db =
     (let row = find_job db job;
        st = (if (case row of None \<Rightarrow> False | Some r \<Rightarrow> jb_stop_at r \<noteq> None) then ''cancelled'' else status)
      in (case transition_terminal now job st exit_code claim_token Unset False Unset (jobs_do others db) of
          (Inl e, db1) \<Rightarrow> (Inl (StatusError e), db1)
        | (Inr False, db1) \<Rightarrow> (Inr (), db1)
        | (Inr True, db1) \<Rightarrow> emit_then cfg m now job st None (finish_data row st exit_code) ''info'' (Inr ()) db1))"

section \<open>Stopping\<close>

record stop_env =
  se_others :: "nat \<Rightarrow> job_call list"
  se_now :: "nat \<Rightarrow> int"
  se_killed :: "int \<Rightarrow> bool"
  se_proc :: "int option"
  se_proc_ends :: bool

text \<open>Whether the row \<open>q\<close> has another owner than the row \<open>r\<close> that the stop observed.\<close>

definition ownership_changed :: "job_row \<Rightarrow> job_row \<Rightarrow> bool" where
  "ownership_changed r q =
     (if truthy (jb_token r) then jb_token q \<noteq> jb_token r
      else if pid_of (jb_worker r) \<noteq> None then jb_worker q \<noteq> pid_of (jb_worker r)
      else if pid_of (jb_pid r) \<noteq> None then jb_pid q \<noteq> pid_of (jb_pid r)
      else jb_token q \<noteq> None \<or> jb_worker q \<noteq> None \<or> jb_pid q \<noteq> None)"

definition not_killed :: "stop_env \<Rightarrow> int option \<Rightarrow> bool" where
  "not_killed e p = (case pid_of p of None \<Rightarrow> False | Some k \<Rightarrow> \<not> se_killed e k)"

text \<open>The processes that survive the end of a stop: the runner, and the daemon's own child.\<close>

definition survivors :: "stop_env \<Rightarrow> job_row option \<Rightarrow> int list" where
  "survivors e q =
     (let worker = (case q of None \<Rightarrow> None | Some r \<Rightarrow> pid_of (jb_worker r))
      in (if not_killed e worker then [the worker] else [])
         @ (case se_proc e of
              None \<Rightarrow> []
            | Some p \<Rightarrow> if worker = Some p then []
                else (if se_killed e p then [] else [p]) @ (if se_proc_ends e then [] else [p])))"

definition stop_final ::
  "emit_cfg \<Rightarrow> mint \<Rightarrow> stop_env \<Rightarrow> obj \<Rightarrow> string \<Rightarrow> string option \<Rightarrow> job_row option \<Rightarrow> vanth_db \<Rightarrow> (cerr + string) \<times> vanth_db" where
  "stop_final cfg m e data job token q db =
     (case transition_terminal (se_now e 3) job ''cancelled'' None token Unset False Unset db of
        (Inl x, db1) \<Rightarrow> (Inl (StatusError x), db1)
      | (Inr False, db1) \<Rightarrow> report job db1
      | (Inr True, db1) \<Rightarrow>
          emit_then cfg m (se_now e 3) job ''cancelled'' None data ''info''
            (if survivors e q = [] then Inr ''cancelled'' else Inl (KillFailed (survivors e q))) db1)"

definition stop_end ::
  "emit_cfg \<Rightarrow> mint \<Rightarrow> stop_env \<Rightarrow> obj \<Rightarrow> string \<Rightarrow> string option \<Rightarrow> job_row \<Rightarrow> vanth_db \<Rightarrow> (cerr + string) \<times> vanth_db" where
  "stop_end cfg m e data job token q db =
     (if jb_status q = ''launching'' then
        (case transition_terminal (se_now e 2) job ''cancelled'' None token Unset False Unset db of
           (Inl x, db1) \<Rightarrow> (Inl (StatusError x), db1)
         | (Inr True, db1) \<Rightarrow>
             emit_then cfg m (se_now e 2) job ''cancelled'' (Some ''Job cancelled while its runner was still launching'')
               data ''info'' (Inr ''cancelled'') db1
         | (Inr False, db1) \<Rightarrow>
             stop_final cfg m e data job token (find_job (jobs_do (se_others e 5) db1) job)
               (jobs_do (se_others e 6) (jobs_do (se_others e 5) db1)))
      else stop_final cfg m e data job token (Some q) db)"

text \<open>Stopping a row \<open>r\<close> that was seen running or launching.\<close>

definition stop_live ::
  "emit_cfg \<Rightarrow> mint \<Rightarrow> stop_env \<Rightarrow> string \<Rightarrow> string \<Rightarrow> string \<Rightarrow> job_row \<Rightarrow> vanth_db \<Rightarrow> (cerr + string) \<times> vanth_db" where
  "stop_live cfg m e actor reason job r db =
     (case request_stop (se_now e 1) actor reason job (jb_token r) (pid_of (jb_worker r)) (pid_of (jb_pid r))
             (jobs_do (se_others e 2) db) of
        (n, db1) \<Rightarrow>
          if n = 0 then report job db1
          else
            let db2 = jobs_do (se_others e 3) db1
            in (case find_job db2 job of
                 None \<Rightarrow> report job db2
               | Some q \<Rightarrow>
                   if \<not> active (jb_status q) then report job db2
                   else if ownership_changed r q then (Inr (jb_status q), clear_stop job (se_now e 1) False db2)
                   else if not_killed e (jb_pid q) then
                     (Inl (KillFailed [the (jb_pid q)]), clear_stop job (se_now e 1) True (jobs_do (se_others e 4) db2))
                   else stop_end cfg m e [(''actor'', JStr actor), (''reason'', JStr reason)] job (jb_token r) q
                          (jobs_do (se_others e 4) db2)))"

definition stop ::
  "emit_cfg \<Rightarrow> mint \<Rightarrow> stop_env \<Rightarrow> int \<Rightarrow> string \<Rightarrow> string option \<Rightarrow> string \<Rightarrow> vanth_db \<Rightarrow> (cerr + string) \<times> vanth_db" where
  "stop cfg m e kill_after actor reason job db =
     (if kill_after < 0 \<or> 86400 < kill_after then (Inl BadKill, db)
      else if actor \<notin> set STOP_ACTORS then (Inl BadActor, db)
      else if (case reason of None \<Rightarrow> False | Some s \<Rightarrow> blank s) then (Inl BadReason, db)
      else
        let why = (case reason of None \<Rightarrow> ''stop requested'' | Some s \<Rightarrow> strip s)
        in (case find_job db job of
             None \<Rightarrow> (Inl NoSuchJob, db)
           | Some r \<Rightarrow>
               if jb_status r = ''queued'' then
                 (case cancel_queued (se_now e 0) actor why job (jobs_do (se_others e 0) db) of
                    (n, db1) \<Rightarrow>
                      if n \<noteq> 0 then
                        emit_then cfg m (se_now e 0) job ''cancelled'' (Some ''Queued job cancelled before its trigger fired'')
                          [(''actor'', JStr actor), (''reason'', JStr why)] ''info'' (fst (report job db1)) db1
                      else
                        let db2 = jobs_do (se_others e 1) db1
                        in (case find_job db2 job of
                             None \<Rightarrow> (Inr ''unknown'', db2)
                           | Some q \<Rightarrow> if active (jb_status q) then stop_live cfg m e actor why job q db2
                                      else (Inr (jb_status q), db2)))
               else if \<not> active (jb_status r) then (Inr (jb_status r), db)
               else stop_live cfg m e actor why job r db))"

section \<open>Recovering runs without a runner\<close>

record watch_env =
  we_alive :: "int \<Rightarrow> bool"
  we_killed :: "int \<Rightarrow> bool"
  we_now :: int
  we_mint :: "string \<Rightarrow> mint"
  we_others :: "string \<Rightarrow> job_call list"

definition is_alive :: "watch_env \<Rightarrow> int option \<Rightarrow> bool" where
  "is_alive e p = (case pid_of p of None \<Rightarrow> False | Some k \<Rightarrow> we_alive e k)"

definition unkillable :: "watch_env \<Rightarrow> int option \<Rightarrow> bool" where
  "unkillable e p = (case pid_of p of None \<Rightarrow> False | Some k \<Rightarrow> \<not> we_killed e k)"

fun each :: "('r \<Rightarrow> vanth_db \<Rightarrow> (cerr + unit) \<times> vanth_db) \<Rightarrow> 'r list \<Rightarrow> vanth_db \<Rightarrow> (cerr + unit) \<times> vanth_db" where
  "each f [] db = (Inr (), db)"
| "each f (r # rs) db = (case f r db of (Inl e, db') \<Rightarrow> (Inl e, db') | (Inr _, db') \<Rightarrow> each f rs db')"

text \<open>
  One pass over a row \<open>r\<close> of the snapshot, in a database that may have moved on: the row is read again
  before its workload is killed, and \<open>we_others\<close> act between that and the guarded transition.
\<close>

definition recover_row ::
  "emit_cfg \<Rightarrow> watch_env \<Rightarrow> string \<Rightarrow> string \<Rightarrow> job_row \<Rightarrow> vanth_db \<Rightarrow> (cerr + unit) \<times> vanth_db" where
  "recover_row cfg e message reason r db =
     (if is_alive e (jb_worker r) then (Inr (), db)
      else (case find_job db (jb_id r) of
        None \<Rightarrow> (Inr (), db)
      | Some q \<Rightarrow>
          if jb_status q \<noteq> ''running'' then (Inr (), db)
          else if (if truthy (jb_token r) then jb_token q \<noteq> jb_token r else jb_worker q \<noteq> jb_worker r) then (Inr (), db)
          else if unkillable e (jb_pid q) then (Inr (), db)
          else
            let status = (if jb_stop_at r \<noteq> None then ''cancelled'' else ''orphaned'')
            in (case (if truthy (jb_token r)
                      then transition_terminal (we_now e) (jb_id r) status None (jb_token r) Unset False Unset
                             (jobs_do (we_others e (jb_id r)) db)
                      else transition_terminal (we_now e) (jb_id r) status None None (Given (jb_worker r)) False Unset
                             (jobs_do (we_others e (jb_id r)) db)) of
                 (Inl x, db1) \<Rightarrow> (Inl (StatusError x), db1)
               | (Inr False, db1) \<Rightarrow> (Inr (), db1)
               | (Inr True, db1) \<Rightarrow>
                   emit_then cfg (we_mint e (jb_id r)) (we_now e) (jb_id r) status (Some message)
                     (stop_event_data r ''watchdog'' reason) ''info'' (Inr ()) db1)))"

definition recover_jobs :: "emit_cfg \<Rightarrow> watch_env \<Rightarrow> vanth_db \<Rightarrow> (cerr + unit) \<times> vanth_db" where
  "recover_jobs cfg e db =
     each (recover_row cfg e ''Job runner was not alive during recovery'' ''runner not alive during recovery'')
       (filter (\<lambda>r. jb_status r = ''running'') (jobs db)) db"

definition reconcile_running_jobs :: "emit_cfg \<Rightarrow> watch_env \<Rightarrow> int \<Rightarrow> vanth_db \<Rightarrow> (cerr + unit) \<times> vanth_db" where
  "reconcile_running_jobs cfg e stale_after db =
     each (recover_row cfg e ''Runner heartbeat is stale and the runner is not alive'' ''runner heartbeat stale'')
       (filter (\<lambda>r. jb_status r = ''running''
          \<and> (case jb_heartbeat r of None \<Rightarrow> True | Some h \<Rightarrow> sql_less h (we_now e - seconds stale_after))) (jobs db)) db"

section \<open>Recovering abandoned claims\<close>

definition recover_claim :: "emit_cfg \<Rightarrow> watch_env \<Rightarrow> job_row \<Rightarrow> vanth_db \<Rightarrow> (cerr + unit) \<times> vanth_db" where
  "recover_claim cfg e r db =
     (case abandon_launch_claim (we_now e) (jb_id r) (jb_token r) (Given (jb_worker r)) db of
        ((recovered, target), db1) \<Rightarrow>
          if \<not> recovered then (Inr (), db1)
          else if unkillable e (jb_pid r) then
            (Inr (), snd (revert_abandoned_claim (we_now e) (jb_id r) (jb_token r) target (jobs_do (we_others e (jb_id r)) db1)))
          else
            emit_then cfg (we_mint e (jb_id r)) (we_now e) (jb_id r) target
              (Some (if target = ''failed''
                 then ''Launch claim went stale before the runner published its workload; restart intent preserved''
                 else ''Launch claim went stale before the runner published its workload''))
              [(''claim_token'', jstr_opt (jb_token r))] (if target = ''failed'' then ''error'' else ''info'') (Inr ())
              (jobs_do (we_others e (jb_id r)) db1))"

definition stale_claims :: "watch_env \<Rightarrow> int \<Rightarrow> vanth_db \<Rightarrow> job_row list" where
  "stale_claims e claim_timeout db =
     filter (\<lambda>r. \<not> is_alive e (jb_worker r))
       (filter (\<lambda>r. jb_status r = ''launching'' \<and> sql_less (jb_updated r) (we_now e - seconds claim_timeout)) (jobs db))"

text \<open>Every exception is logged.\<close>

definition recover_stale_launch_claims :: "emit_cfg \<Rightarrow> watch_env \<Rightarrow> int \<Rightarrow> vanth_db \<Rightarrow> vanth_db" where
  "recover_stale_launch_claims cfg e claim_timeout db =
     snd (each (recover_claim cfg e) (stale_claims e claim_timeout db) db)"

section \<open>Watching a runner process\<close>

text \<open>What \<^verbatim>\<open>_watch_runner\<close> does when the runner process \<open>proc\<close> has exited; database errors are swallowed.\<close>

definition watch_runner ::
  "emit_cfg \<Rightarrow> watch_env \<Rightarrow> string \<Rightarrow> int \<Rightarrow> string option \<Rightarrow> vanth_db \<Rightarrow> vanth_db" where
  "watch_runner cfg e job proc claim_token db =
     (case find_job db job of
        None \<Rightarrow> db
      | Some r \<Rightarrow>
          if truthy claim_token \<and> jb_status r = ''launching'' \<and> jb_token r = claim_token then
            (case abandon_launch_claim (we_now e) job claim_token (Given (jb_worker r)) db of
               ((recovered, target), db1) \<Rightarrow>
                 if \<not> recovered then db1
                 else if unkillable e (jb_pid r) then
                   snd (revert_abandoned_claim (we_now e) job claim_token target (jobs_do (we_others e job) db1))
                 else snd (emit cfg (we_mint e job) (we_now e) job target
                        (Some (if target = ''orphaned'' then ''Job runner exited before its workload was published''
                           else ''Job runner exited before its workload was published; restart intent preserved''))
                        [(''claim_token'', jstr_opt claim_token)] (if target = ''failed'' then ''error'' else ''info'')
                        (jobs_do (we_others e job) db1)))
          else if jb_status r \<noteq> ''running'' then db
          else if truthy claim_token \<and> truthy (jb_token r) \<and> jb_token r \<noteq> claim_token then db
          else if \<not> truthy claim_token \<and> pid_of (jb_worker r) \<noteq> None \<and> proc \<noteq> 0 \<and> pid_of (jb_worker r) \<noteq> Some proc then db
          else if unkillable e (jb_pid r) then db
          else
            let status = (if jb_stop_at r \<noteq> None then ''cancelled'' else ''orphaned'')
            in (case transition_terminal (we_now e) job status None claim_token Unset False Unset
                       (jobs_do (we_others e job) db) of
                 (Inr True, db1) \<Rightarrow>
                   snd (emit cfg (we_mint e job) (we_now e) job status
                     (Some ''Job runner exited before recording a terminal status'')
                     (stop_event_data r ''watchdog'' ''runner exited before terminal status'') ''info'' db1)
               | (_, db1) \<Rightarrow> db1))"

section \<open>A stop that lost its job\<close>

lemma report_snd [simp]: "snd (report job db) = db"
  by (simp add: report_def split: option.splits)

lemma terminal_cancelled [simp]: "terminal ''cancelled''"
  by (simp add: terminal_iff)

lemma jobs_do_append [simp]: "jobs_do (cs @ ds) db = jobs_do ds (jobs_do cs db)"
  by (simp add: jobs_do_def)

text \<open>The statements after a point of a stop, when only others and the clearing of its own flag write.\<close>

definition only_others :: "stop_env \<Rightarrow> string \<Rightarrow> job_call list \<Rightarrow> bool" where
  "only_others e job cs = (\<forall>c \<in> set cs. (\<exists>k. c \<in> set (se_others e k)) \<or> (\<exists>b. c = ClearStop job (se_now e 1) b))"

lemma only_others_simps [simp]:
  "only_others e job []" "only_others e job (cs @ ds) \<longleftrightarrow> only_others e job cs \<and> only_others e job ds"
  "only_others e job (se_others e k)" "only_others e job [ClearStop job (se_now e (Suc 0)) b]"
  by (auto simp: only_others_def)

lemma stop_final_lost:
  assumes "lacks job t db" "t \<noteq> []"
  shows "stop_final cfg m e data job (Some t) q db = report job db"
  by (simp add: stop_final_def lacks_writes_nothing(4) [OF assms])

lemma stop_end_lost:
  assumes "lacks job t db" "t \<noteq> []" "\<forall>k. \<forall>c \<in> set (se_others e k). \<not> mints t c"
  shows "\<exists>cs. only_others e job cs \<and> stop_end cfg m e data job (Some t) q db = report job (jobs_do cs db)"
proof (cases "jb_status q = ''launching''")
  case True
  let ?db = "jobs_do (se_others e 6) (jobs_do (se_others e 5) db)"
  have "lacks job t ?db" using assms(1,3) by (intro jobs_do_lacks) auto
  then have "stop_end cfg m e data job (Some t) q db = report job (jobs_do (se_others e 5 @ se_others e 6) db)"
    using True assms(2) by (simp add: stop_end_def lacks_writes_nothing(4) [OF assms(1,2)] stop_final_lost)
  then show ?thesis by (intro exI [of _ "se_others e 5 @ se_others e 6"]) simp
next
  case False
  then have "stop_end cfg m e data job (Some t) q db = report job (jobs_do [] db)"
    by (simp add: stop_end_def stop_final_lost [OF assms(1,2)])
  then show ?thesis by (intro exI [of _ "[]"]) simp
qed

lemma ownership_lost:
  "lacks job t db \<Longrightarrow> find_job db job = Some q \<Longrightarrow> jb_token r = Some t \<Longrightarrow> t \<noteq> [] \<Longrightarrow> ownership_changed r q"
  by (auto simp: lacks_def ownership_changed_def truthy_def find_job_def dest: find_SomeD)

definition stop_ok :: "int \<Rightarrow> string \<Rightarrow> string option \<Rightarrow> bool" where
  "stop_ok kill_after actor reason =
     (0 \<le> kill_after \<and> kill_after \<le> 86400 \<and> actor \<in> set STOP_ACTORS \<and> (case reason of None \<Rightarrow> True | Some s \<Rightarrow> \<not> blank s))"

definition why_of :: "string option \<Rightarrow> string" where
  "why_of reason = (case reason of None \<Rightarrow> ''stop requested'' | Some s \<Rightarrow> strip s)"

lemma stop_is_live:
  assumes "stop_ok kill_after actor reason" "find_job db job = Some r" "active (jb_status r)"
  shows "stop cfg m e kill_after actor reason job db = stop_live cfg m e actor (why_of reason) job r db"
  using assms by (auto simp: stop_def stop_ok_def why_of_def active_def Let_def split: option.splits)

text \<open>
  C22. A stop never harms a newer launch: when at a point that the stop reaches (before its request,
  before it reads the row again, or after it killed the workload) the job has come to carry another launch
  token than the one the stop saw, then all that is written from that point on is what others write and the
  removal of the stop's own flag; the stop ends no run and emits no event.
\<close>

theorem stop_spares_newer_launch:
  assumes "find_job db job = Some r" "active (jb_status r)" "jb_token r = Some t" "t \<noteq> []"
    and "stop_ok kill_after actor reason" "\<forall>k. \<forall>c \<in> set (se_others e k). \<not> mints t c"
    and "seen = jobs_do (se_others e 2) db"
    and "request_stop (se_now e 1) actor (why_of reason) job (Some t) (pid_of (jb_worker r)) (pid_of (jb_pid r)) seen = (n, db1)"
    and "asked = jobs_do (se_others e 3) db1" "find_job asked job = Some q"
    and "lacks job t d"
    and "d = seen \<or> n \<noteq> 0 \<and> (d = asked \<or> active (jb_status q) \<and> \<not> ownership_changed r q \<and> d = jobs_do (se_others e 4) asked)"
  shows "\<exists>cs. only_others e job cs \<and> snd (stop cfg m e kill_after actor reason job db) = jobs_do cs d"
proof -
  note live = stop_is_live [OF assms(5,1,2)]
  let ?killed = "jobs_do (se_others e 4) asked"
  let ?data = "[(''actor'', JStr actor), (''reason'', JStr (why_of reason))]"
  have step: "snd (stop cfg m e kill_after actor reason job db) =
      (if n = 0 then db1
       else if \<not> active (jb_status q) then asked
       else if ownership_changed r q then jobs_do [ClearStop job (se_now e 1) False] asked
       else if not_killed e (jb_pid q) then jobs_do [ClearStop job (se_now e 1) True] ?killed
       else snd (stop_end cfg m e ?data job (Some t) q ?killed))"
    unfolding live stop_live_def assms(3) assms(7) [symmetric] assms(8)
    by (simp add: assms(9) [symmetric] assms(10))
  from assms(12) consider "d = seen" | "n \<noteq> 0" "d = asked" | "n \<noteq> 0" "active (jb_status q)" "\<not> ownership_changed r q" "d = ?killed"
    by blast
  then show ?thesis
  proof cases
    case 1
    with lacks_writes_nothing(7) [OF assms(11,4)] assms(8) have "n = 0" "db1 = d" by simp_all
    with step show ?thesis by (intro exI [of _ "[]"]) simp
  next
    case 2
    show ?thesis
    proof (cases "active (jb_status q)")
      case True
      have "ownership_changed r q" using ownership_lost [of job t asked q r] assms(3,4,10,11) 2(2) by simp
      with True 2 step show ?thesis by (intro exI [of _ "[ClearStop job (se_now e 1) False]"]) simp
    next
      case False
      with 2 step show ?thesis by (intro exI [of _ "[]"]) simp
    qed
  next
    case 3
    show ?thesis
    proof (cases "not_killed e (jb_pid q)")
      case True
      with 3 step show ?thesis by (intro exI [of _ "[ClearStop job (se_now e 1) True]"]) simp
    next
      case False
      from stop_end_lost [OF assms(11,4,6), of cfg m ?data q] obtain cs where
        "only_others e job cs" "stop_end cfg m e ?data job (Some t) q d = report job (jobs_do cs d)" by blast
      with False 3 step show ?thesis by auto
    qed
  qed
qed

section \<open>A stop that succeeds, and one that fails\<close>

lemma update_jobs_hit:
  "find_job db job = Some r \<Longrightarrow> P r \<Longrightarrow> fst (update_jobs P f db) \<noteq> 0"
  by (auto simp: update_jobs_def find_job_def dest: find_SomeD)

lemma update_jobs_events [simp]:
  "events (snd (update_jobs P f db)) = events db" "targets (snd (update_jobs P f db)) = targets db"
  by (simp_all add: update_jobs_def)

lemma emitted_db_jobs [simp]: "jobs (emitted_db m now e db) = jobs db" "find_job (emitted_db m now e db) job = find_job db job"
  by (simp_all add: emitted_db_def enqueue_deliveries_def find_job_def)

text \<open>A terminal event is never dropped; its data is cut only when it is too large.\<close>

lemma emit_terminal:
  assumes "terminal ty" "\<forall>e \<in> set (events db). ev_id e \<noteq> mint_event m" "data_fits (max_event_bytes cfg) data"
  shows "\<exists>ev. emit cfg m now job ty message data level db = (Inr (Persisted ev), emitted_db m now ev db)
    \<and> ev_job ev = job \<and> ev_type ev = ty \<and> ev_data ev = data"
proof -
  let ?p = "\<lparr>ep_type = ty, ep_level = level, ep_message = message, ep_data = data\<rparr>"
  have "ty \<noteq> ''progress''" "ty \<noteq> ''metric''" using assms(1) by (auto simp: terminal_iff)
  then have n: "normalize_event_payload (cfg_floats cfg) ty level message (JObj data) = Inr ?p"
      and k: "ep_type ?p \<notin> {''metric'', ''progress''}"
    by (simp_all add: normalize_event_payload_def)
  have b: "bounded_payload (max_event_bytes cfg) ?p = ?p" using assms(3) by (simp add: bounded_payload_def)
  have c: "\<not> at_cap (max_events_per_job cfg) job ?p False db" using assms(1) by (simp add: at_cap_def)
  show ?thesis
    unfolding emit_def emit_event_def n b sum.case
    using emit_persists [where mutate = Writes, OF refl c assms(2) k]
    by (auto simp: n b event_of_def)
qed

text \<open>The three guarded writes of a stop of the row that carries the token.\<close>

lemma request_stop_hit:
  assumes "find_job db job = Some r" "active (jb_status r)" "jb_token r = Some t" "t \<noteq> []"
  obtains n db1 where "request_stop now actor why job (Some t) w p db = (n, db1)" "n \<noteq> 0" "events db1 = events db" "targets db1 = targets db"
    "find_job db1 job = Some (r\<lparr>jb_stop_at := Some now, jb_stop_actor := Some actor, jb_stop_reason := Some why\<rparr>)"
proof -
  let ?u = "request_stop now actor why job (Some t) w p db"
  have id: "jb_id r = job" using assms(1) by (auto simp: find_job_def dest: find_SomeD)
  have tr: "truthy (Some t)" using assms(4) by (simp add: truthy_def)
  have "fst ?u \<noteq> 0"
    unfolding request_stop_def by (rule update_jobs_hit [OF assms(1)]) (simp add: id tr assms)
  moreover have "find_job (snd ?u) job = Some (r\<lparr>jb_stop_at := Some now, jb_stop_actor := Some actor, jb_stop_reason := Some why\<rparr>)"
    unfolding request_stop_def by (subst find_job_update) (simp_all add: id tr assms)
  moreover have "events (snd ?u) = events db" "targets (snd ?u) = targets db" by (simp_all add: request_stop_def)
  ultimately show thesis by (intro that [of "fst ?u" "snd ?u"]) simp_all
qed

lemma transition_hit:
  assumes "find_job db job = Some r" "active (jb_status r)" "jb_token r = Some t" "t \<noteq> []" "terminal st"
  obtains db1 where "transition_terminal now job st x (Some t) Unset False Unset db = (Inr True, db1)"
    "events db1 = events db" "targets db1 = targets db" "find_job db1 job = Some (to_terminal now st x r)"
proof -
  let ?u = "update_jobs (terminal_guard job (Some t) Unset False Unset) (to_terminal now st x) db"
  have id: "jb_id r = job" using assms(1) by (auto simp: find_job_def dest: find_SomeD)
  have g: "terminal_guard job (Some t) Unset False Unset r"
    using assms by (simp add: terminal_guard_def truthy_def id)
  have "fst ?u \<noteq> 0" 
    by (rule update_jobs_hit [where P = "terminal_guard job (Some t) Unset False Unset", OF assms(1) g])
  moreover have "find_job (snd ?u) job = Some (to_terminal now st x r)"
    by (subst find_job_update) (simp_all add: to_terminal_def assms(1) g)
  moreover have "transition_terminal now job st x (Some t) Unset False Unset db = (Inr (fst ?u \<noteq> 0), snd ?u)"
    by (simp only: transition_terminal_def assms(5) not_True_eq_False if_False case_prod_beta)
  ultimately show thesis using that [of "snd ?u"] by (simp only: simp_thms update_jobs_events)
qed

lemma not_ownership_changed [simp]:
  "ownership_changed r (r\<lparr>jb_stop_at := a, jb_stop_actor := b, jb_stop_reason := c\<rparr>) \<longleftrightarrow> ownership_changed r r"
  by (simp add: ownership_changed_def)

lemma same_owner: "jb_token r = Some t \<Longrightarrow> t \<noteq> [] \<Longrightarrow> \<not> ownership_changed r r"
  by (simp add: ownership_changed_def truthy_def)

definition undisturbed :: "stop_env \<Rightarrow> bool" where
  "undisturbed e = (\<forall>k. se_others e k = [])"

lemma stop_undisturbed:
  assumes "find_job db job = Some r" "active (jb_status r)" "jb_token r = Some t" "t \<noteq> []"
    and "stop_ok kill_after actor reason" "undisturbed e"
  defines "q \<equiv> r\<lparr>jb_stop_at := Some (se_now e 1), jb_stop_actor := Some actor, jb_stop_reason := Some (why_of reason)\<rparr>"
  obtains db1 where "find_job db1 job = Some q" "events db1 = events db" "targets db1 = targets db"
    "stop cfg m e kill_after actor reason job db =
      (if not_killed e (jb_pid r) then (Inl (KillFailed [the (jb_pid r)]), clear_stop job (se_now e 1) True db1)
       else stop_end cfg m e [(''actor'', JStr actor), (''reason'', JStr (why_of reason))] job (Some t) q db1)"
proof -
  have o: "se_others e k = []" for k using assms(6) by (simp add: undisturbed_def)
  obtain n db1 where u: "request_stop (se_now e 1) actor (why_of reason) job (Some t) (pid_of (jb_worker r)) (pid_of (jb_pid r)) db = (n, db1)"
    and k: "n \<noteq> 0" "events db1 = events db" "targets db1 = targets db" "find_job db1 job = Some q"
    unfolding q_def using assms(1-4) by (rule request_stop_hit)
  have c: "\<not> ownership_changed r q" "active (jb_status q)" "jb_pid q = jb_pid r"
    using assms(2) same_owner [OF assms(3,4)] by (simp_all add: q_def)
  show thesis
    using k(4,2,3)
    by (rule that) (simp add: stop_is_live [OF assms(5,1,2)] stop_live_def assms(3) o u [simplified] k c Let_def)
qed

lemma not_in_tail: "find_job db job = Some r \<Longrightarrow> jb_id r = job"
  by (auto simp: find_job_def dest: find_SomeD)

text \<open>
  C23. A stop that nobody disturbs and whose processes can be killed ends the run: it reports
  \<^verbatim>\<open>cancelled\<close>, the row is cancelled with who asked and why, and exactly one event is added, a cancelled
  event of the job that names the actor and the reason, with its deliveries.
\<close>

theorem stop_ends_the_run:
  assumes "find_job db job = Some r" "active (jb_status r)" "jb_token r = Some t" "t \<noteq> []"
    and "stop_ok kill_after actor reason" "undisturbed e"
    and "\<forall>k. se_killed e k" "se_proc_ends e" "\<forall>v \<in> set (events db). ev_id v \<noteq> mint_event m"
    and "data_fits (max_event_bytes cfg) [(''actor'', JStr actor), (''reason'', JStr (why_of reason))]"
  shows "\<exists>db' ev. stop cfg m e kill_after actor reason job db = (Inr ''cancelled'', db')
    \<and> events db' = events db @ [ev] \<and> ev_job ev = job \<and> ev_type ev = ''cancelled''
    \<and> ev_data ev = [(''actor'', JStr actor), (''reason'', JStr (why_of reason))]
    \<and> (\<exists>q. find_job db' job = Some q \<and> jb_status q = ''cancelled'' \<and> jb_ended q \<noteq> None \<and> jb_stop_at q = None
        \<and> jb_token q = Some t \<and> jb_stop_actor q = Some actor \<and> jb_stop_reason q = Some (why_of reason))"
proof -
  let ?data = "[(''actor'', JStr actor), (''reason'', JStr (why_of reason))]"
  let ?q = "r\<lparr>jb_stop_at := Some (se_now e 1), jb_stop_actor := Some actor, jb_stop_reason := Some (why_of reason)\<rparr>"
  have k: "\<not> not_killed e p" for p using assms(7) by (simp add: not_killed_def split: option.splits)
  have s: "survivors e p = []" for p using assms(7,8) by (auto simp: survivors_def k Let_def split: option.splits)
  from stop_undisturbed [OF assms(1-6), of cfg m] obtain db1 where
    f: "find_job db1 job = Some ?q" "events db1 = events db" "targets db1 = targets db"
    and st: "stop cfg m e kill_after actor reason job db = stop_end cfg m e ?data job (Some t) ?q db1"
    by (auto simp: k)
  have a: "active (jb_status ?q)" "jb_token ?q = Some t" using assms(2,3) by simp_all
  let ?now = "se_now e (if jb_status r = ''launching'' then 2 else 3)"
  let ?msg = "if jb_status r = ''launching'' then Some ''Job cancelled while its runner was still launching'' else None"
  obtain db2 where t: "transition_terminal ?now job ''cancelled'' None (Some t) Unset False Unset db1 = (Inr True, db2)"
    and d: "events db2 = events db1" "targets db2 = targets db1" "find_job db2 job = Some (to_terminal ?now ''cancelled'' None ?q)"
    by (rule transition_hit [OF f(1) a assms(4) terminal_cancelled])
  have e: "stop_end cfg m e ?data job (Some t) ?q db1 = emit_then cfg m ?now job ''cancelled'' ?msg ?data ''info'' (Inr ''cancelled'') db2"
    using t by (simp add: stop_end_def stop_final_def s split: if_splits)
  have fresh: "\<forall>v \<in> set (events db2). ev_id v \<noteq> mint_event m" using assms(9) d(1) f(2) by simp
  from emit_terminal [OF terminal_cancelled fresh assms(10), of ?now job ?msg "''info''"] obtain ev where
    ev: "emit cfg m ?now job ''cancelled'' ?msg ?data ''info'' db2 = (Inr (Persisted ev), emitted_db m ?now ev db2)"
    "ev_job ev = job" "ev_type ev = ''cancelled''" "ev_data ev = ?data" by blast
  have "stop cfg m e kill_after actor reason job db = (Inr ''cancelled'', emitted_db m ?now ev db2)"
    by (simp only: st e emit_then_def ev(1) prod.case sum.case)
  moreover have "events (emitted_db m ?now ev db2) = events db @ [ev]"
    by (simp add: emitted_db_def enqueue_deliveries_def d(1) f(2))
  ultimately show ?thesis
    using ev d(3) a(2) by (auto simp: to_terminal_def)
qed

text \<open>
  A stop that cannot kill the workload raises and takes its flag back, but what it wrote of who stopped
  the job and why stays in the row: when the runner dies later by itself, the recovery reports
  the job as orphaned by that actor and for that reason.
\<close>

theorem failed_stop_taints_attribution:
  assumes "find_job db job = Some r" "jb_status r = ''running''" "jb_token r = Some t" "t \<noteq> []"
    and "stop_ok kill_after actor reason" "undisturbed e" "jb_pid r = Some k" "k \<noteq> 0" "\<not> se_killed e k"
    and "stop cfg m e kill_after actor reason job db = (res, db1)"
    and "find_job db1 job = Some q" "\<not> is_alive w (jb_worker q)" "\<forall>p. we_killed w p" "\<forall>j. we_others w j = []"
    and "\<forall>v \<in> set (events db). ev_id v \<noteq> mint_event (we_mint w job)"
    and "actor \<noteq> []" "why_of reason \<noteq> []"
    and "data_fits (max_event_bytes cfg) [(''actor'', JStr actor), (''reason'', JStr (why_of reason))]"
  shows "res = Inl (KillFailed [k]) \<and> jb_status q = ''running'' \<and> jb_stop_at q = None \<and> events db1 = events db
    \<and> (\<exists>db2 ev. recover_row cfg w msg default_reason q db1 = (Inr (), db2)
        \<and> events db2 = events db @ [ev] \<and> ev_job ev = job \<and> ev_type ev = ''orphaned''
        \<and> ev_data ev = [(''actor'', JStr actor), (''reason'', JStr (why_of reason))])"
proof -
  let ?q = "r\<lparr>jb_stop_at := Some (se_now e 1), jb_stop_actor := Some actor, jb_stop_reason := Some (why_of reason)\<rparr>"
  have id: "jb_id r = job" using assms(1) by (rule not_in_tail)
  have nk: "not_killed e (jb_pid r)" using assms(7-9) by (simp add: not_killed_def pid_of_def)
  have "active (jb_status r)" by (simp add: assms(2))
  from stop_undisturbed [OF assms(1) this assms(3-6), of cfg m] obtain d where
    f: "find_job d job = Some ?q" "events d = events db"
    and st: "stop cfg m e kill_after actor reason job db = (Inl (KillFailed [k]), clear_stop job (se_now e 1) True d)"
    using assms(7) nk by auto
  then have r1: "res = Inl (KillFailed [k])" "db1 = clear_stop job (se_now e 1) True d" using assms(10) by simp_all
  have q: "find_job db1 job = Some (?q\<lparr>jb_stop_at := None\<rparr>)" and ev1: "events db1 = events db"
    unfolding r1(2) clear_stop_def by (simp_all add: find_job_update f id assms(2))
  then have qq: "q = ?q\<lparr>jb_stop_at := None\<rparr>" using assms(11) by simp
  have id': "jb_id q = job" and tk: "jb_token q = Some t" and act: "active (jb_status q)" "jb_status q = ''running''"
    by (simp_all add: qq id assms(2,3))
  have so: "jb_stop_at q = None" by (simp add: qq)
  have tr: "truthy (Some t)" using assms(4) by (simp add: truthy_def)
  have un: "\<not> unkillable w p" for p using assms(13) by (simp add: unkillable_def split: option.splits)
  have ot: "terminal ''orphaned''" by (simp add: terminal_iff)
  obtain db2 where t: "transition_terminal (we_now w) job ''orphaned'' None (Some t) Unset False Unset db1 = (Inr True, db2)"
    and d2: "events db2 = events db1" "targets db2 = targets db1" "find_job db2 job = Some (to_terminal (we_now w) ''orphaned'' None q)"
    by (rule transition_hit [OF assms(11) act(1) tk assms(4) ot])
  have data: "stop_event_data q ''watchdog'' default_reason = [(''actor'', JStr actor), (''reason'', JStr (why_of reason))]"
    using assms(16,17) by (simp add: stop_event_data_def qq or_str_def)
  have fresh: "\<forall>v \<in> set (events db2). ev_id v \<noteq> mint_event (we_mint w job)" using assms(15) d2(1) ev1 by simp
  from emit_terminal [OF ot fresh assms(18), of "we_now w" job "Some msg" "''info''"] obtain ev where
    ev: "emit cfg (we_mint w job) (we_now w) job ''orphaned'' (Some msg) (stop_event_data q ''watchdog'' default_reason) ''info'' db2
       = (Inr (Persisted ev), emitted_db (we_mint w job) (we_now w) ev db2)"
    "ev_job ev = job" "ev_type ev = ''orphaned''" "ev_data ev = [(''actor'', JStr actor), (''reason'', JStr (why_of reason))]"
    unfolding data by blast
  have "recover_row cfg w msg default_reason q db1 = (Inr (), emitted_db (we_mint w job) (we_now w) ev db2)"
    using assms(11,12,14) act(2) tk tr un t ev(1) so
    by (simp add: recover_row_def id' emit_then_def Let_def)
  moreover have "events (emitted_db (we_mint w job) (we_now w) ev db2) = events db @ [ev]"
    by (simp add: emitted_db_def enqueue_deliveries_def d2(1) ev1)
  ultimately show ?thesis using r1 ev1 ev(2-4) by (auto simp: qq assms(2))
qed

section \<open>Witnesses\<close>

definition demo_live :: job_row where
  "demo_live = (demo_job ''j1'' ''running'' (Some ''c1'') [] None)\<lparr>jb_pid := Some 7, jb_worker := Some 8\<rparr>"

definition demo_running :: vanth_db where
  "demo_running = demo_log\<lparr>jobs := [demo_live]\<rparr>"

text \<open>Nobody disturbs the stop, or others end the run and claim a new launch while it kills the workload.\<close>

definition demo_stop :: "bool \<Rightarrow> bool \<Rightarrow> stop_env" where
  "demo_stop kills taken = \<lparr>se_others = (\<lambda>k. if taken \<and> k = 4
       then [Terminal 5 ''j1'' ''failed'' (Some 1) (Some ''c1'') Unset False Unset, ClaimUpdate ''c2'' 6 ''j1'' []] else []),
     se_now = (\<lambda>k. 100 + int k), se_killed = (\<lambda>_. kills), se_proc = None, se_proc_ends = True\<rparr>"

lemma demo_live_found: "find_job demo_running ''j1'' = Some demo_live"
  by (simp add: demo_running_def find_job_def demo_live_def demo_job_def)

lemma demo_live_row: "active (jb_status demo_live)" "jb_status demo_live = ''running''" "jb_token demo_live = Some ''c1''" "jb_pid demo_live = Some 7"
  by (simp_all add: demo_live_def demo_job_def)

lemma demo_stop_ok: "stop_ok 10 ''user'' None"
  by code_simp

lemma demo_quiet: "undisturbed (demo_stop k False)"
  by (simp add: undisturbed_def demo_stop_def)

lemma demo_running_fresh: "\<forall>v \<in> set (events demo_running). ev_id v \<noteq> mint_event demo_mint"
  by code_simp

lemma demo_stop_data: "data_fits (max_event_bytes demo_cfg) [(''actor'', JStr ''user''), (''reason'', JStr (why_of None))]"
  by code_simp

lemma stop_ends_the_run_witness:
  "fst (stop demo_cfg demo_mint (demo_stop True False) 10 ''user'' None ''j1'' demo_running) = Inr ''cancelled''"
proof -
  have "\<forall>k. se_killed (demo_stop True False) k" "se_proc_ends (demo_stop True False)"
    by (simp_all add: demo_stop_def)
  from stop_ends_the_run [OF demo_live_found demo_live_row(1,3) _ demo_stop_ok demo_quiet this demo_running_fresh demo_stop_data]
  show ?thesis by auto
qed

lemma failed_stop_taints_attribution_witness:
  "fst (stop demo_cfg demo_mint (demo_stop False False) 10 ''user'' None ''j1'' demo_running) = Inl (KillFailed [7])"
proof -
  let ?s = "stop demo_cfg demo_mint (demo_stop False False) 10 ''user'' None ''j1'' demo_running"
  let ?w = "\<lparr>we_alive = \<lambda>_. False, we_killed = \<lambda>_. True, we_now = 900, we_mint = \<lambda>_. demo_mint, we_others = \<lambda>_. []\<rparr>"
  have "(case find_job (snd ?s) ''j1'' of None \<Rightarrow> False | Some q \<Rightarrow> True)" by code_simp
  then obtain q where q: "find_job (snd ?s) ''j1'' = Some q" by (auto split: option.splits)
  have w: "\<not> is_alive ?w (jb_worker q)" "\<forall>p. we_killed ?w p" "\<forall>j. we_others ?w j = []"
    by (simp_all add: is_alive_def split: option.splits)
  have m: "\<forall>v \<in> set (events demo_running). ev_id v \<noteq> mint_event (we_mint ?w ''j1'')"
    using demo_running_fresh by simp
  have k: "\<not> se_killed (demo_stop False False) 7" by (simp add: demo_stop_def)
  from failed_stop_taints_attribution [OF demo_live_found demo_live_row(2,3) _ demo_stop_ok demo_quiet demo_live_row(4) _ k
      prod.collapse [symmetric] q w m _ _ demo_stop_data, of "''gone''" "''dead''"]
  show ?thesis by (simp add: why_of_def)
qed

lemma stop_spares_newer_launch_witness:
  "\<exists>cs. only_others (demo_stop True True) ''j1'' cs
    \<and> snd (stop demo_cfg demo_mint (demo_stop True True) 10 ''user'' None ''j1'' demo_running)
      = jobs_do cs (jobs_do (se_others (demo_stop True True) 4) (snd (request_stop 101 ''user'' ''stop requested'' ''j1'' (Some ''c1'') (Some 8) (Some 7) demo_running)))"
proof -
  let ?e = "demo_stop True True"
  have o: "se_others ?e 2 = []" "se_others ?e 3 = []" "se_now ?e 1 = 101" by (simp_all add: demo_stop_def)
  let ?u = "request_stop 101 ''user'' ''stop requested'' ''j1'' (Some ''c1'') (Some 8) (Some 7) demo_running"
  have p: "pid_of (jb_worker demo_live) = Some 8" "pid_of (jb_pid demo_live) = Some 7" "why_of None = ''stop requested''"
    by (simp_all add: demo_live_def pid_of_def why_of_def)
  have n: "fst ?u \<noteq> 0" by code_simp
  let ?q = "demo_live\<lparr>jb_stop_at := Some 101, jb_stop_actor := Some ''user'', jb_stop_reason := Some ''stop requested''\<rparr>"
  have q: "find_job (snd ?u) ''j1'' = Some ?q"
    by (simp add: request_stop_def find_job_update demo_live_found truthy_def demo_live_row)
      (simp add: demo_live_def demo_job_def)
  have c: "active (jb_status ?q)" "\<not> ownership_changed demo_live ?q"
    by (simp_all add: demo_live_row same_owner)
  have l: "lacks ''j1'' ''c1'' (jobs_do (se_others ?e 4) (snd ?u))" by code_simp
  have m: "\<forall>k. \<forall>c \<in> set (se_others ?e k). \<not> mints ''c1'' c" by (simp add: demo_stop_def)
  have u: "request_stop (se_now ?e 1) ''user'' (why_of None) ''j1'' (Some ''c1'') (pid_of (jb_worker demo_live))
      (pid_of (jb_pid demo_live)) (jobs_do (se_others ?e 2) demo_running) = (fst ?u, snd ?u)"
    by (simp only: o p prod.collapse jobs_do_simps)
  have a: "snd ?u = jobs_do (se_others ?e 3) (snd ?u)" by (simp only: o jobs_do_simps)
  show ?thesis
    using stop_spares_newer_launch [OF demo_live_found demo_live_row(1,3) _ demo_stop_ok m refl u a q l, of demo_cfg demo_mint] n c
    by blast
qed

end
