(* ===== verification/IsoTimes.thy ===== *)
theory IsoTimes
  imports Timestamps
begin

text \<open>
  Reading a stored time back (\<^verbatim>\<open>_parse_iso\<close> of \<^verbatim>\<open>src/vanth/server.py\<close>, and the same
  \<^verbatim>\<open>datetime.fromisoformat(text.replace("Z", "+00:00"))\<close> elsewhere).  Only the texts that \<^verbatim>\<open>now_iso\<close> writes
  are read here, a date, a time of day, an optional fraction of six digits and \<^verbatim>\<open>Z\<close>; the other forms that
  \<^verbatim>\<open>fromisoformat\<close> accepts are not modelled.
\<close>

fun year_days :: "nat \<Rightarrow> nat" where
  "year_days 0 = 0"
| "year_days (Suc k) = year_days k + (if leap (1970 + k) then 366 else 365)"

fun month_days :: "nat \<Rightarrow> nat \<Rightarrow> nat" where
  "month_days y 0 = 0"
| "month_days y (Suc m) = month_days y m + days_in_month y (Suc m)"

definition day_of_date :: "date \<Rightarrow> nat" where
  "day_of_date dt = (case dt of (y, m, d) \<Rightarrow> year_days (y - 1970) + month_days y (m - 1) + (d - 1))"

definition all_digits :: "string \<Rightarrow> bool" where
  "all_digits s = list_all is_digit s"

text \<open>The digits and the separators of the first 19 characters, and the fraction.\<close>

definition iso_shape :: "string \<Rightarrow> bool" where
  "iso_shape s = (19 < length s \<and> all_digits (take 4 s) \<and> take 1 (drop 4 s) = ''-'' \<and> all_digits (take 2 (drop 5 s))
     \<and> take 1 (drop 7 s) = ''-'' \<and> all_digits (take 2 (drop 8 s)) \<and> take 1 (drop 10 s) = ''T''
     \<and> all_digits (take 2 (drop 11 s)) \<and> take 1 (drop 13 s) = '':'' \<and> all_digits (take 2 (drop 14 s))
     \<and> take 1 (drop 16 s) = '':'' \<and> all_digits (take 2 (drop 17 s)))"

definition read_fraction :: "string \<Rightarrow> nat option" where
  "read_fraction s =
     (if s = ''Z'' then Some 0
      else if length s = 8 \<and> take 1 s = ''.'' \<and> all_digits (take 6 (drop 1 s)) \<and> drop 7 s = ''Z''
      then Some (digits_val (take 6 (drop 1 s))) else None)"

definition parse_iso :: "string \<Rightarrow> int option" where
  "parse_iso s =
     (let num = (\<lambda>i n. digits_val (take n (drop i s)));
        y = num 0 4; mo = num 5 2; d = num 8 2; h = num 11 2; mi = num 14 2; sec = num 17 2
      in if iso_shape s \<and> 1970 \<le> y \<and> 1 \<le> mo \<and> mo \<le> 12 \<and> 1 \<le> d \<and> d \<le> days_in_month y mo
            \<and> h < 24 \<and> mi < 60 \<and> sec < 60
         then map_option (\<lambda>u. int (day_of_date (y, mo, d) * day_us + (h * 3600 + mi * 60 + sec) * sec_us + u))
                (read_fraction (drop 19 s))
         else None)"

lemma all_digits_pad [simp]: "all_digits (pad w n)"
  by (induction w arbitrary: n) (simp_all add: all_digits_def)

lemma digits_val_snoc: "digits_val (s @ [c]) = 10 * digits_val s + (of_char c - 48)"
  by (simp add: digits_val_def)

lemma digits_val_pad: "n < 10 ^ w \<Longrightarrow> digits_val (pad w n) = n"
proof (induction w arbitrary: n)
  case (Suc w)
  then have "digits_val (pad w (n div 10)) = n div 10" by (intro Suc.IH) (simp add: less_mult_imp_div_less)
  then show ?case by (simp add: digits_val_snoc)
qed (simp add: digits_val_def)

lemma year_days_next: "1970 \<le> y \<Longrightarrow> year_days (Suc y - 1970) = year_days (y - 1970) + (if leap y then 366 else 365)"
  using le_Suc_ex [of 1970 y] by auto

lemma month_days_12: "month_days y 11 + 31 = (if leap y then 366 else 365)"
  by (simp add: eval_nat_numeral days_in_month_def)

lemma day_of_next:
  assumes "date_valid dt" "1970 \<le> fst dt"
  shows "day_of_date (next_day dt) = Suc (day_of_date dt)"
proof -
  obtain y m d where dt: "dt = (y, m, d)" by (cases dt) auto
  then have v: "1 \<le> m" "m \<le> 12" "1 \<le> d" "d \<le> days_in_month y m" "1970 \<le> y" using assms by simp_all
  consider "d < days_in_month y m" | "d = days_in_month y m" "m < 12" | "d = days_in_month y m" "m = 12"
    using v by linarith
  then show ?thesis
  proof cases
    case 1
    with v show ?thesis by (simp add: dt day_of_date_def)
  next
    case 2
    have "month_days y m = month_days y (m - 1) + days_in_month y m" using v(1) by (cases m) simp_all
    with 2 v show ?thesis by (simp add: dt day_of_date_def)
  next
    case 3
    then have "d = 31" by (simp add: days_in_month_def)
    with 3 v month_days_12 [of y] year_days_next [OF v(5)] show ?thesis by (simp add: dt day_of_date_def)
  qed
qed

lemma next_day_year: "fst dt \<le> fst (next_day dt)"
  by (cases dt) auto

lemma date_of_day_year: "1970 \<le> fst (date_of_day n)"
  by (induction n) (auto simp del: next_day.simps intro: order_trans [OF _ next_day_year])

lemma day_of_date_of_day: "day_of_date (date_of_day n) = n"
proof (induction n)
  case 0
  show ?case by (simp add: day_of_date_def)
next
  case (Suc n)
  then show ?case using day_of_next [OF date_of_day_valid date_of_day_year, of n] by simp
qed

lemma read_iso_fraction: "u < 1000000 \<Longrightarrow> read_fraction (iso_fraction u) = Some u"
  by (simp add: read_fraction_def iso_fraction_def digits_val_pad)

lemma parse_isoformat:
  assumes "date_valid dt" "1970 \<le> fst dt" "fst dt < 10000" "s < 86400" "u < 1000000"
  shows "parse_iso (isoformat_z dt s u) = Some (int (day_of_date dt * day_us + s * sec_us + u))"
proof -
  obtain y m d where dt: "dt = (y, m, d)" by (cases dt) auto
  note v = assms [unfolded dt, simplified]
  have d31: "d \<le> 31" using v(1) days_in_month_bounds [of y m] by linarith
  have q: "s div 3600 = s div 60 div 60" using div_mult2_eq [of s 60 60] by simp
  have hms: "s div 3600 < 24" "s div 60 mod 60 < 60" "s mod 60 < 60"
    using assms(4) by (simp_all add: less_mult_imp_div_less)
  have sum: "s div 3600 * 3600 + s div 60 mod 60 * 60 + s mod 60 = s"
    using mult_div_mod_eq [of 60 s] mult_div_mod_eq [of 60 "s div 60"] unfolding q by linarith
  have val: "digits_val (pad 4 y) = y" "digits_val (pad 2 m) = m" "digits_val (pad 2 d) = d"
    "digits_val (pad 2 (s div 3600)) = s div 3600" "digits_val (pad 2 (s div 60 mod 60)) = s div 60 mod 60"
    "digits_val (pad 2 (s mod 60)) = s mod 60"
    by (rule digits_val_pad, use v d31 hms in simp)+
  let ?t = "iso_fraction u"
  have ne: "?t \<noteq> []" by (simp add: iso_fraction_def)
  let ?x = "isoformat_z dt s u"
  have x: "?x = pad 4 y @ ''-'' @ pad 2 m @ ''-'' @ pad 2 d @ ''T'' @ pad 2 (s div 3600) @ '':''
      @ pad 2 (s div 60 mod 60) @ '':'' @ pad 2 (s mod 60) @ ?t"
    by (simp add: isoformat_z_def iso_seconds_def dt)
  have parts: "take 4 ?x = pad 4 y" "take 2 (drop 5 ?x) = pad 2 m" "take 2 (drop 8 ?x) = pad 2 d"
    "take 2 (drop 11 ?x) = pad 2 (s div 3600)" "take 2 (drop 14 ?x) = pad 2 (s div 60 mod 60)"
    "take 2 (drop 17 ?x) = pad 2 (s mod 60)" "drop 19 ?x = ?t" "take 1 (drop 4 ?x) = ''-''" "take 1 (drop 7 ?x) = ''-''"
    "take 1 (drop 10 ?x) = ''T''" "take 1 (drop 13 ?x) = '':''" "take 1 (drop 16 ?x) = '':''" "19 < length ?x"
    using ne by (simp_all add: x)
  have shape: "iso_shape ?x" using parts by (simp add: iso_shape_def)
  show ?thesis
    unfolding parse_iso_def Let_def drop_0 parts val read_iso_fraction [OF assms(5)]
    using v shape hms sum by (simp add: dt)
qed

lemma parse_now_iso:
  assumes "0 \<le> t" "year_ok (nat t div day_us)"
  shows "parse_iso (now_iso t) = Some t"
proof -
  let ?n = "nat t"
  have "?n mod day_us div sec_us < 86400" by (simp add: day_us_def sec_us_def less_mult_imp_div_less)
  moreover have "?n mod sec_us < 1000000" by (simp add: sec_us_def)
  moreover have "fst (date_of_day (?n div day_us)) < 10000" using assms(2) by (simp add: year_ok_def)
  ultimately have "parse_iso (now_iso t) = Some (int (?n div day_us * day_us + ?n mod day_us div sec_us * sec_us + ?n mod sec_us))"
    unfolding now_iso_def Let_def
    by (subst parse_isoformat [OF date_of_day_valid date_of_day_year]) (simp_all add: day_of_date_of_day)
  moreover have "?n mod sec_us = ?n mod day_us mod sec_us"
    by (simp add: day_us_def sec_us_def mod_mod_cancel)
  ultimately show ?thesis using assms(1) by simp
qed

text \<open>
  A stored time reads back as the same instant: for every instant from 1970 to the year 9999, reading
  the text that \<^verbatim>\<open>now_iso\<close> makes of it gives the instant, to the microsecond.
\<close>

theorem stored_time_reads_back:
  assumes "0 \<le> t" "year_ok (nat t div day_us)"
  shows "parse_iso (now_iso t) = Some t"
  using assms by (rule parse_now_iso)

lemma stored_time_reads_back_witness: "parse_iso (now_iso 86400000001) = Some 86400000001"
proof (rule stored_time_reads_back)
  show "year_ok (nat 86400000001 div day_us)" by (simp add: year_ok_def day_us_def days_in_month_def)
qed simp

end
