(* ===== verification/Policies.thy ===== *)
theory Policies
  imports WakeTargets
begin

text \<open>
  The policy block and the trigger of a job, as the daemon checks and stores them: \<^verbatim>\<open>validate_policy\<close> and
  \<^verbatim>\<open>_validate_trigger\<close> of \<^verbatim>\<open>src/vanth/server.py\<close>, \<^verbatim>\<open>validate_probe\<close> of \<^verbatim>\<open>src/vanth/probes.py\<close>.  What they return is
  stored; a rerun of the job sends the stored policy through \<^verbatim>\<open>validate_policy\<close> again.
\<close>

section \<open>Policies\<close>

definition dget_or :: "obj \<Rightarrow> string \<Rightarrow> json \<Rightarrow> json" where
  "dget_or d k v = (case map_of d k of None \<Rightarrow> v | Some x \<Rightarrow> x)"

text \<open>\<^verbatim>\<open>isinstance(x, int) and not isinstance(x, bool) and x >= minimum\<close>\<close>

definition int_at_least :: "int \<Rightarrow> json \<Rightarrow> string \<Rightarrow> everr + int" where
  "int_at_least minimum v field =
     (case v of
        JInt i \<Rightarrow> if minimum \<le> i then Inr i else Inl (Invalid (field @ '' must be an integer >= '' @ int_str minimum))
      | _ \<Rightarrow> Inl (Invalid (field @ '' must be an integer >= '' @ int_str minimum)))"

definition clean_schedule :: "json \<Rightarrow> everr + obj" where
  "clean_schedule v = (case v of
      JNull \<Rightarrow> Inr []
    | JObj d \<Rightarrow>
        ebind (int_at_least 1 (dget d ''expected_interval_seconds'') ''policy.schedule.expected_interval_seconds'') (\<lambda>i.
        ebind (int_at_least 0 (dget_or d ''grace_period_seconds'' (JInt 0)) ''policy.schedule.grace_period_seconds'') (\<lambda>g.
        Inr [(''schedule'', JObj [(''expected_interval_seconds'', JInt i), (''grace_period_seconds'', JInt g)])]))
    | _ \<Rightarrow> Inl (Invalid ''policy.schedule must be an object''))"

definition clean_on_failure :: "json \<Rightarrow> everr + obj" where
  "clean_on_failure v = (case v of
      JNull \<Rightarrow> Inr []
    | JObj d \<Rightarrow>
        ebind (int_at_least 1 (dget d ''after_n'') ''policy.on_failure.after_n'') (\<lambda>n.
        (case dget d ''action'' of
           JStr a \<Rightarrow>
             if a \<notin> {''alert'', ''disable'', ''run_job''} then
               Inl (Invalid ''policy.on_failure.action must be one of: alert, disable, run_job'')
             else if a = ''run_job'' then
               (case dget d ''job_id'' of
                  JStr j \<Rightarrow>
                    if j = [] then Inl (Invalid ''policy.on_failure.job_id is required when action is run_job'')
                    else Inr [(''on_failure'', JObj [(''after_n'', JInt n), (''action'', JStr a), (''job_id'', JStr j)])]
                | _ \<Rightarrow> Inl (Invalid ''policy.on_failure.job_id is required when action is run_job''))
             else Inr [(''on_failure'', JObj [(''after_n'', JInt n), (''action'', JStr a)])]
         | _ \<Rightarrow> Inl (Invalid ''policy.on_failure.action must be one of: alert, disable, run_job'')))
    | _ \<Rightarrow> Inl (Invalid ''policy.on_failure must be an object''))"

definition clean_restart :: "json \<Rightarrow> everr + obj" where
  "clean_restart v = (case v of
      JNull \<Rightarrow> Inr []
    | JObj d \<Rightarrow>
        ebind (int_at_least 1 (dget d ''max_retries'') ''policy.restart.max_retries'') (\<lambda>m.
        ebind (int_at_least 0 (dget_or d ''backoff_seconds'' (JInt 0)) ''policy.restart.backoff_seconds'') (\<lambda>b.
        ebind (int_at_least 0 (dget_or d ''backoff_max_seconds'' (JInt 0)) ''policy.restart.backoff_max_seconds'') (\<lambda>x.
        Inr [(''restart'', JObj [(''max_retries'', JInt m), (''backoff_seconds'', JInt b), (''backoff_max_seconds'', JInt x)])])))
    | _ \<Rightarrow> Inl (Invalid ''policy.restart must be an object''))"

definition clean_stream :: "obj \<Rightarrow> string \<Rightarrow> string \<Rightarrow> everr + obj" where
  "clean_stream d stream key =
     (if dget d stream = JNull then Inr []
      else ebind (int_at_least 1 (dget d stream) (''policy.retention.'' @ stream)) (\<lambda>i. Inr [(key, JInt i)]))"

definition clean_retention :: "json \<Rightarrow> everr + obj" where
  "clean_retention v = (case v of
      JNull \<Rightarrow> Inr []
    | JObj d \<Rightarrow>
        ebind (clean_stream d ''events_seconds'' ''events'') (\<lambda>a.
        ebind (clean_stream d ''metrics_seconds'' ''metrics'') (\<lambda>b.
        ebind (clean_stream d ''deliveries_seconds'' ''deliveries'') (\<lambda>c.
        if a @ b @ c = [] then
          Inl (Invalid ''policy.retention must set at least one of events_seconds, metrics_seconds, deliveries_seconds'')
        else Inr [(''retention'', JObj (a @ b @ c))])))
    | _ \<Rightarrow> Inl (Invalid ''policy.retention must be an object''))"

definition validate_policy :: "json \<Rightarrow> everr + json" where
  "validate_policy p = (case p of
      JNull \<Rightarrow> Inr JNull
    | JObj d \<Rightarrow>
        ebind (clean_schedule (dget d ''schedule'')) (\<lambda>s.
        ebind (clean_on_failure (dget d ''on_failure'')) (\<lambda>f.
        ebind (clean_restart (dget d ''restart'')) (\<lambda>r.
        ebind (clean_retention (dget d ''retention'')) (\<lambda>t.
        if s @ f @ r @ t = [] then Inl (Invalid ''policy must contain a schedule or on_failure block'')
        else Inr (JObj (s @ f @ r @ t))))))
    | _ \<Rightarrow> Inl (Invalid ''policy must be an object''))"

section \<open>Probes\<close>

definition PROBE_TYPES :: "string list" where
  "PROBE_TYPES = [''port'', ''http'', ''log_line'', ''file'']"

definition hashable :: "json \<Rightarrow> bool" where
  "hashable v = (\<not> is_arr v \<and> \<not> is_obj v)"

definition nonempty_str :: "json \<Rightarrow> bool" where
  "nonempty_str v = (case v of JStr s \<Rightarrow> s \<noteq> [] | _ \<Rightarrow> False)"

definition int_between :: "int \<Rightarrow> int \<Rightarrow> json \<Rightarrow> bool" where
  "int_between lo hi v = (case v of JInt i \<Rightarrow> lo \<le> i \<and> i \<le> hi | _ \<Rightarrow> False)"

definition is_http_url :: "json \<Rightarrow> bool" where
  "is_http_url v = (case v of JStr s \<Rightarrow> take 7 s = ''http://'' \<or> take 8 s = ''https://'' | _ \<Rightarrow> False)"

text \<open>The fields of each type, and the names it allows besides the common ones.\<close>

definition probe_fields :: "string \<Rightarrow> obj \<Rightarrow> everr + obj \<times> string list" where
  "probe_fields kind d =
     (if kind = ''port'' then
        let h = dget_or d ''host'' (JStr ''127.0.0.1'') in
        ebind (ensure (nonempty_str h) (Invalid ''port probe requires a non-empty host (or omit it for 127.0.0.1)'')) (\<lambda>_.
        ebind (ensure (int_between 1 65535 (dget d ''port'')) (Invalid ''port probe requires port in 1..65535'')) (\<lambda>_.
        Inr ([(''host'', h), (''port'', dget d ''port'')], [''host'', ''port''])))
      else if kind = ''http'' then
        let x = dget_or d ''expect_status'' (JInt 200) in
        ebind (ensure (is_http_url (dget d ''url'')) (Invalid ''http probe requires an http(s) url'')) (\<lambda>_.
        ebind (ensure (int_between 100 599 x) (Invalid ''http probe expect_status must be in 100..599'')) (\<lambda>_.
        Inr ([(''url'', dget d ''url''), (''expect_status'', x)], [''url'', ''expect_status''])))
      else if kind = ''log_line'' then
        let s = dget_or d ''stream'' (JStr ''all'') in
        ebind (ensure (nonempty_str (dget d ''job_id'')) (Invalid ''log_line probe requires a target job_id'')) (\<lambda>_.
        ebind (ensure (nonempty_str (dget d ''pattern'')) (Invalid ''log_line probe requires a non-empty pattern'')) (\<lambda>_.
        ebind (ensure (hashable s) TypeErr) (\<lambda>_.
        ebind (ensure (s \<in> {JStr ''stdout'', JStr ''stderr'', JStr ''all''}) (Invalid ''log_line probe stream must be stdout, stderr, or all'')) (\<lambda>_.
        Inr ([(''job_id'', dget d ''job_id''), (''pattern'', dget d ''pattern''), (''stream'', s)], [''job_id'', ''pattern'', ''stream''])))))
      else
        ebind (ensure (nonempty_str (dget d ''path'')) (Invalid ''file probe requires a non-empty path'')) (\<lambda>_.
        Inr ([(''path'', dget d ''path'')], [''path''])))"

definition common_field :: "obj \<Rightarrow> string \<Rightarrow> everr + obj" where
  "common_field d k =
     (if has_key d k then ebind (int_at_least 1 (dget d k) (''probe.'' @ k)) (\<lambda>i. Inr [(k, JInt i)]) else Inr [])"

definition validate_probe :: "json \<Rightarrow> everr + obj" where
  "validate_probe p = (case p of
      JObj d \<Rightarrow>
        ebind (ensure (hashable (dget d ''type'')) TypeErr) (\<lambda>_.
        (case dget d ''type'' of
           JStr kind \<Rightarrow>
             if kind \<notin> set PROBE_TYPES then Inl (Invalid ''probe.type must be one of the probe types'')
             else ebind (probe_fields kind d) (\<lambda>(out, allowed).
               ebind (ensure (list_all (\<lambda>k. k = ''type'' \<or> k \<in> set allowed \<or> k = ''timeout_seconds'' \<or> k = ''interval_seconds'') (map fst d))
                 (Invalid ''unknown probe fields'')) (\<lambda>_.
               ebind (common_field d ''timeout_seconds'') (\<lambda>a.
               ebind (common_field d ''interval_seconds'') (\<lambda>b.
               Inr ((''type'', JStr kind) # out @ a @ b)))))
         | _ \<Rightarrow> Inl (Invalid ''probe.type must be one of the probe types'')))
    | _ \<Rightarrow> Inl (Invalid ''trigger.probe must be an object''))"

section \<open>Triggers\<close>

text \<open>\<open>url_allowed\<close> is the outbound policy (\<^verbatim>\<open>check_outbound_url\<close>).\<close>

definition clean_gate :: "vanth_db \<Rightarrow> obj \<Rightarrow> everr + obj" where
  "clean_gate db d =
     (let j = dget d ''job_id''; s = dget d ''status'' in
      if j = JNull \<and> s = JNull then Inr []
      else (case j of
          JStr job \<Rightarrow>
            if job = [] then Inl (Invalid ''trigger.job_id must be a non-empty string'')
            else (case s of
                JStr st \<Rightarrow>
                  if \<not> terminal st then Inl (Invalid ''trigger.status must be a terminal status'')
                  else if find_job db job = None then Inl (Invalid (''Unknown trigger job_id: '' @ job))
                  else Inr [(''job_id'', j), (''status'', s)]
              | _ \<Rightarrow> Inl (Invalid ''trigger.status must be a terminal status''))
        | _ \<Rightarrow> Inl (Invalid ''trigger.job_id must be a non-empty string'')))"

definition clean_probe :: "(string \<Rightarrow> bool) \<Rightarrow> vanth_db \<Rightarrow> obj \<Rightarrow> everr + obj" where
  "clean_probe url_allowed db d =
     (if dget d ''probe'' = JNull then Inr []
      else ebind (validate_probe (dget d ''probe'')) (\<lambda>p.
        if dget p ''type'' = JStr ''log_line'' \<and> (case dget p ''job_id'' of JStr j \<Rightarrow> find_job db j = None | _ \<Rightarrow> True)
        then Inl (Invalid ''Unknown log_line probe job_id'')
        else if dget p ''type'' = JStr ''http'' \<and> (case dget p ''url'' of JStr u \<Rightarrow> \<not> url_allowed u | _ \<Rightarrow> True)
        then Inl (Invalid ''http probe url is blocked by policy'')
        else Inr [(''probe'', JObj p)]))"

definition validate_trigger :: "(string \<Rightarrow> bool) \<Rightarrow> vanth_db \<Rightarrow> json \<Rightarrow> everr + json" where
  "validate_trigger url_allowed db t = (case t of
      JNull \<Rightarrow> Inr JNull
    | JObj d \<Rightarrow>
        ebind (ensure (list_all (\<lambda>k. k \<in> {''job_id'', ''status'', ''probe''}) (map fst d)) (Invalid ''unknown trigger fields'')) (\<lambda>_.
        ebind (clean_gate db d) (\<lambda>g.
        ebind (clean_probe url_allowed db d) (\<lambda>p.
        if g @ p = [] then Inl (Invalid ''trigger must include a job_id/status gate, a probe, or both'')
        else Inr (JObj (g @ p)))))
    | _ \<Rightarrow> Inl (Invalid ''trigger must be an object''))"

section \<open>Checking a checked policy again\<close>

lemma dget_or_simps [simp]: "dget_or ((k, v) # d) l x = (if l = k then v else dget_or d l x)" "dget_or [] l x = x"
  by (simp_all add: dget_or_def)

lemma int_at_least_Inr [simp]: "int_at_least m v f = Inr i \<longleftrightarrow> v = JInt i \<and> m \<le> i"
  by (cases v) (auto simp: int_at_least_def)

text \<open>A cleaned block is missing or one entry; cleaning its value again gives the same.\<close>

definition entry :: "string \<Rightarrow> json \<Rightarrow> obj" where
  "entry k w = (if w = JNull then [] else [(k, w)])"

lemma dget_entry: "dget (entry k w @ d) l = (if l = k \<and> w \<noteq> JNull then w else dget d l)"
  by (auto simp: entry_def dget_Cons)

lemma clean_schedule_again: "clean_schedule v = Inr s \<Longrightarrow> \<exists>w. s = entry ''schedule'' w \<and> clean_schedule w = Inr s"
proof (cases v)
  case (JObj d)
  assume "clean_schedule v = Inr s"
  with JObj obtain i g where "1 \<le> i" "0 \<le> g"
      "s = [(''schedule'', JObj [(''expected_interval_seconds'', JInt i), (''grace_period_seconds'', JInt g)])]"
    by (auto simp: clean_schedule_def ebind_Inr_iff)
  then show ?thesis
    by (intro exI [of _ "JObj [(''expected_interval_seconds'', JInt i), (''grace_period_seconds'', JInt g)]"])
      (simp add: entry_def clean_schedule_def dget_Cons int_at_least_def)
qed (auto simp: clean_schedule_def entry_def)

lemma clean_restart_again: "clean_restart v = Inr s \<Longrightarrow> \<exists>w. s = entry ''restart'' w \<and> clean_restart w = Inr s"
proof (cases v)
  case (JObj d)
  assume "clean_restart v = Inr s"
  with JObj obtain m b x where "1 \<le> m" "0 \<le> b" "0 \<le> x"
      "s = [(''restart'', JObj [(''max_retries'', JInt m), (''backoff_seconds'', JInt b), (''backoff_max_seconds'', JInt x)])]"
    by (auto simp: clean_restart_def ebind_Inr_iff)
  then show ?thesis
    by (intro exI [of _ "JObj [(''max_retries'', JInt m), (''backoff_seconds'', JInt b), (''backoff_max_seconds'', JInt x)]"])
      (simp add: entry_def clean_restart_def dget_Cons int_at_least_def)
qed (auto simp: clean_restart_def entry_def)

lemma clean_on_failure_again: "clean_on_failure v = Inr s \<Longrightarrow> \<exists>w. s = entry ''on_failure'' w \<and> clean_on_failure w = Inr s"
proof (cases v)
  case (JObj d)
  assume c: "clean_on_failure v = Inr s"
  show ?thesis
  proof (cases "dget d ''action''")
    case (JStr a)
    show ?thesis
    proof (cases "a = ''run_job''")
      case True
      from c JObj JStr True obtain j where j: "dget d ''job_id'' = JStr j"
        by (cases "dget d ''job_id''") (auto simp: clean_on_failure_def ebind_Inr_iff)
      with c JObj JStr True obtain n where "1 \<le> n" "j \<noteq> []"
          "s = [(''on_failure'', JObj [(''after_n'', JInt n), (''action'', JStr ''run_job''), (''job_id'', JStr j)])]"
        by (auto simp: clean_on_failure_def ebind_Inr_iff split: if_splits)
      then show ?thesis
        by (intro exI [of _ "JObj [(''after_n'', JInt n), (''action'', JStr ''run_job''), (''job_id'', JStr j)]"])
          (simp add: entry_def clean_on_failure_def dget_Cons int_at_least_def)
    next
      case False
      with c JObj JStr obtain n where "1 \<le> n" "a = ''alert'' \<or> a = ''disable''"
          "s = [(''on_failure'', JObj [(''after_n'', JInt n), (''action'', JStr a)])]"
        by (auto simp: clean_on_failure_def ebind_Inr_iff split: if_splits)
      then show ?thesis
        by (intro exI [of _ "JObj [(''after_n'', JInt n), (''action'', JStr a)]"])
          (auto simp: entry_def clean_on_failure_def dget_Cons int_at_least_def)
    qed
  qed (use c JObj in \<open>auto simp: clean_on_failure_def ebind_Inr_iff\<close>)
qed (auto simp: clean_on_failure_def entry_def)

text \<open>A cleaned retention block has other names for its streams than the ones that cleaning reads.\<close>

lemma clean_stream_keys: "clean_stream d stream key = Inr a \<Longrightarrow> k \<noteq> key \<Longrightarrow> k \<notin> fst ` set a"
  by (auto simp: clean_stream_def err_simps split: if_splits)

lemma dget_notin: "k \<notin> fst ` set d \<Longrightarrow> dget d k = JNull"
  by (auto simp: dget_def split: option.splits dest: map_of_SomeD intro: rev_image_eqI)

definition empty_retention :: everr where
  "empty_retention = Invalid ''policy.retention must set at least one of events_seconds, metrics_seconds, deliveries_seconds''"

lemma clean_retention_again:
  assumes "clean_retention v = Inr s"
  shows "\<exists>w. s = entry ''retention'' w \<and> clean_retention w = (if v = JNull then Inr [] else Inl empty_retention)"
proof (cases v)
  case (JObj x)
  with assms obtain a b c where k: "clean_stream x ''events_seconds'' ''events'' = Inr a"
      "clean_stream x ''metrics_seconds'' ''metrics'' = Inr b" "clean_stream x ''deliveries_seconds'' ''deliveries'' = Inr c"
    and s: "s = [(''retention'', JObj (a @ b @ c))]"
    by (auto simp: clean_retention_def err_simps split: if_splits)
  have "dget (a @ b @ c) l = JNull" if "l \<notin> {''events'', ''metrics'', ''deliveries''}" for l
    using that clean_stream_keys [OF k(1), of l] clean_stream_keys [OF k(2), of l] clean_stream_keys [OF k(3), of l]
    by (intro dget_notin) auto
  then have "clean_retention (JObj (a @ b @ c)) = Inl empty_retention"
    by (simp add: clean_retention_def clean_stream_def empty_retention_def)
  with s JObj show ?thesis by (intro exI [of _ "JObj (a @ b @ c)"]) (simp add: entry_def)
qed (use assms in \<open>auto simp: clean_retention_def entry_def\<close>)

text \<open>
  Checking a policy that was checked and stored (which every rerun of the job does) gives the same
  policy again exactly when it has no retention block.  With one it always fails, as the stored block calls
  its streams by other names than the check reads, so a job with a retention policy cannot be rerun.
\<close>

theorem checked_policy_checks_again:
  assumes "validate_policy (JObj p) = Inr c"
  shows "if dget p ''retention'' = JNull then validate_policy c = Inr c else validate_policy c = Inl empty_retention"
proof -
  from assms obtain s f r t where k: "clean_schedule (dget p ''schedule'') = Inr s" "clean_on_failure (dget p ''on_failure'') = Inr f"
      "clean_restart (dget p ''restart'') = Inr r" "clean_retention (dget p ''retention'') = Inr t"
    and c: "c = JObj (s @ f @ r @ t)" and ne: "s @ f @ r @ t \<noteq> []"
    by (auto simp: validate_policy_def err_simps simp del: append_is_Nil_conv split: if_splits)
  obtain w1 w2 w3 w4 where w: "s = entry ''schedule'' w1" "f = entry ''on_failure'' w2" "r = entry ''restart'' w3" "t = entry ''retention'' w4"
    and again: "clean_schedule w1 = Inr s" "clean_on_failure w2 = Inr f" "clean_restart w3 = Inr r"
      "clean_retention w4 = (if dget p ''retention'' = JNull then Inr [] else Inl empty_retention)"
    using clean_schedule_again [OF k(1)] clean_on_failure_again [OF k(2)] clean_restart_again [OF k(3)] clean_retention_again [OF k(4)]
    by blast
  let ?d = "s @ f @ r @ t"
  have "dget ?d ''schedule'' = w1" "dget ?d ''on_failure'' = w2" "dget ?d ''restart'' = w3" "dget ?d ''retention'' = w4"
    using dget_entry [of "''retention''" w4 "[]"] unfolding w by (simp_all add: dget_entry)
  note g = this
  have v: "validate_policy c = ebind (clean_schedule w1) (\<lambda>s. ebind (clean_on_failure w2) (\<lambda>f. ebind (clean_restart w3) (\<lambda>r.
      ebind (clean_retention w4) (\<lambda>t.
        if s @ f @ r @ t = [] then Inl (Invalid ''policy must contain a schedule or on_failure block'') else Inr (JObj (s @ f @ r @ t))))))"
    by (simp only: c validate_policy_def json.case g)
  show ?thesis
  proof (cases "dget p ''retention'' = JNull")
    case True
    then have "t = []" using k(4) by (simp add: clean_retention_def)
    with ne have "s @ f @ r @ t \<noteq> []" by simp
    moreover have "clean_retention w4 = Inr t" using again(4) True \<open>t = []\<close> by simp
    ultimately have "validate_policy c = Inr (JObj (s @ f @ r @ t))" unfolding v again(1-3) ebind_simps by simp
    with True show ?thesis by (simp only: c if_True refl)
  next
    case False
    with again show ?thesis by (simp add: v)
  qed
qed

lemma checked_policy_checks_again_witness:
  "validate_policy (JObj [(''retention'', JObj [(''events'', JInt 9)])]) = Inl empty_retention"
proof -
  have "validate_policy (JObj [(''retention'', JObj [(''events_seconds'', JInt 9)])])
      = Inr (JObj [(''retention'', JObj [(''events'', JInt 9)])])" by code_simp
  from checked_policy_checks_again [OF this] show ?thesis by (simp add: dget_Cons)
qed

end
