(* ===== verification/JobPolicies.thy ===== *)
theory JobPolicies
  imports JobControl Policies IsoTimes
begin

text \<open>
  The policy watch of the dispatch loop (\<^verbatim>\<open>_watch_policies\<close> of \<^verbatim>\<open>src/vanth/server.py\<close>): the dead-man's
  switch of a schedule, reactions to failure streaks, restarts with a budget and a backoff, and
  retention.  The bookkeeping is the policy state of the job, a JSON object that each watch reads, changes
  and writes back.  Policies are read as \<open>validate_policy\<close> leaves them.

  An environment gives the time of the pass, the tokens and event ids minted in it, and for each
  job that it launches the spawned process and what others do meanwhile.  Writing the spec file of a
  launch is not modelled.
\<close>

record policy_env =
  pe_cfg :: emit_cfg
  pe_now :: int
  pe_mint :: "string \<Rightarrow> string \<Rightarrow> mint"
  pe_token :: "string \<Rightarrow> string"
  pe_spawn :: "string \<Rightarrow> string + int"
  pe_others :: "string \<Rightarrow> job_call list"
  pe_retention_interval :: int

text \<open>\<^verbatim>\<open>int(d.get(k, 0))\<close> of a stored number.\<close>

definition pint :: "obj \<Rightarrow> string \<Rightarrow> int" where
  "pint d k = (case dget d k of JInt i \<Rightarrow> i | _ \<Rightarrow> 0)"

definition notify ::
  "policy_env \<Rightarrow> string \<Rightarrow> string \<Rightarrow> string \<Rightarrow> obj \<Rightarrow> string \<Rightarrow> vanth_db \<Rightarrow> (cerr + unit) \<times> vanth_db" where
  "notify e job type message data level =
     emit_then (pe_cfg e) (pe_mint e job type) (pe_now e) job type (Some message) data level (Inr ())"

definition launch_prepared :: "policy_env \<Rightarrow> string \<Rightarrow> vanth_db \<Rightarrow> (cerr + string \<times> bool) \<times> vanth_db" where
  "launch_prepared e job =
     launch (pe_cfg e) (pe_mint e job ''failed'') (pe_now e) (pe_spawn e job) (pe_others e job) job (pe_token e job)"

definition then_do :: "(cerr + 'a) \<times> vanth_db \<Rightarrow> (vanth_db \<Rightarrow> (cerr + 'b) \<times> vanth_db) \<Rightarrow> (cerr + 'b) \<times> vanth_db" where
  "then_do m k = (case m of (Inl e, db) \<Rightarrow> (Inl e, db) | (Inr _, db) \<Rightarrow> k db)"

section \<open>The schedule watch\<close>

definition drop_keys :: "string list \<Rightarrow> obj \<Rightarrow> obj" where
  "drop_keys ks d = fold dpop ks d"

definition watch_schedule :: "policy_env \<Rightarrow> obj \<Rightarrow> job_row \<Rightarrow> vanth_db \<Rightarrow> (cerr + unit) \<times> vanth_db" where
  "watch_schedule e sched r db =
     (let job = jb_id r; interval = pint sched ''expected_interval_seconds''; grace = pint sched ''grace_period_seconds'';
        horizon = interval + grace; state = policy_state db job
      in if jb_status r \<in> {''queued'', ''cancelled'', ''launching''} then (Inr (), db)
      else (case jb_started r of
          None \<Rightarrow> (Inr (), db)
        | Some t \<Rightarrow>
            let elapsed = pe_now e - t; secs = elapsed div 1000000;
              rearm = (dget state ''observed_started_at'' \<noteq> JStr (now_iso t));
              st = (if rearm then dput ''observed_started_at'' (JStr (now_iso t))
                      (drop_keys [''stuck_emitted'', ''missed_emitted_at_elapsed''] state) else state);
              db1 = (if rearm then save_policy_state (pe_now e) job st db else db);
              data = [(''elapsed_seconds'', JInt secs), (''expected_interval_seconds'', JInt interval),
                      (''grace_period_seconds'', JInt grace)]
            in if jb_status r = ''running'' then
                 (if seconds horizon < elapsed \<and> \<not> is_set (dget st ''stuck_emitted'') then
                    then_do (notify e job ''job_stuck'' (''Job running for '' @ int_str secs @ ''s, past expected interval ''
                        @ int_str interval @ ''s + grace '' @ int_str grace @ ''s'') data ''warning'' db1)
                      (\<lambda>db2. (Inr (), save_policy_state (pe_now e) job (dput ''stuck_emitted'' (JBool True) st) db2))
                  else (Inr (), db1))
               else if seconds horizon < elapsed \<and> \<not> is_set (dget st ''missed_emitted_at_elapsed'') then
                 then_do (notify e job ''schedule_missed'' (''Expected re-run within '' @ int_str interval @ ''s (+''
                     @ int_str grace @ ''s grace) but no start for '' @ int_str secs @ ''s'') data ''warning'' db1)
                   (\<lambda>db2. (Inr (), save_policy_state (pe_now e) job (dput ''missed_emitted_at_elapsed'' (JInt secs) st) db2))
               else if elapsed \<le> seconds interval
                   \<and> (is_set (dget st ''missed_emitted_at_elapsed'') \<or> is_set (dget st ''stuck_emitted'')) then
                 (Inr (), save_policy_state (pe_now e) job (drop_keys [''missed_emitted_at_elapsed'', ''stuck_emitted''] st) db1)
               else (Inr (), db1)))"

section \<open>Reactions to failures\<close>

definition text_of :: "json \<Rightarrow> string" where
  "text_of v = (case v of JStr s \<Rightarrow> s | _ \<Rightarrow> [])"

definition streak_message :: "obj \<Rightarrow> int \<Rightarrow> string" where
  "streak_message pol streak = ''Failure streak reached '' @ int_str streak @ '' (after_n='' @ int_str (pint pol ''after_n'')
     @ ''); policy action: '' @ text_of (dget pol ''action'')"

definition react_to_failure :: "policy_env \<Rightarrow> string \<Rightarrow> obj \<Rightarrow> int \<Rightarrow> vanth_db \<Rightarrow> (cerr + unit) \<times> vanth_db" where
  "react_to_failure e job pol streak db =
     (let msg = streak_message pol streak;
        data = [(''failure_streak'', JInt streak), (''after_n'', dget pol ''after_n''), (''action'', dget pol ''action'')];
        action = text_of (dget pol ''action''); target = text_of (dget pol ''job_id'')
      in if action = ''alert'' then notify e job ''failure_threshold'' msg data ''error'' db
      else if action = ''disable'' then
        (case policy_disable (pe_now e) job db of
           (n, db1) \<Rightarrow>
             if n = 0 then (Inr (), db1)
             else notify e job ''failure_threshold'' (msg @ ''; job disabled'') (data @ [(''disabled'', JBool True)]) ''error'' db1)
      else if action = ''run_job'' \<and> target \<noteq> [] then
        (case prepare_launch (pe_token e target) (pe_now e) target db of
           (None, db1) \<Rightarrow>
             notify e job ''failure_threshold'' (msg @ ''; reaction job '' @ target @ '' is not idle'')
               (data @ [(''reaction_job_id'', JStr target)]) ''warning'' db1
         | (Some _, db1) \<Rightarrow>
             then_do (launch_prepared e target db1)
               (notify e job ''failure_threshold'' (msg @ ''; launched reaction job '' @ target)
                 (data @ [(''reaction_job_id'', JStr target)]) ''info''))
      else (Inr (), db))"

definition failed_seqs :: "vanth_db \<Rightarrow> string \<Rightarrow> int list" where
  "failed_seqs db job = map ev_seq (filter (\<lambda>v. ev_job v = job \<and> ev_type v = ''failed'') (events db))"

definition last_failed :: "vanth_db \<Rightarrow> string \<Rightarrow> int option" where
  "last_failed db job = (case failed_seqs db job of [] \<Rightarrow> None | s # ss \<Rightarrow> Some (fold max ss s))"

text \<open>The number up to which failures are counted, or the event that an older version recorded.\<close>

definition watermark :: "vanth_db \<Rightarrow> string \<Rightarrow> obj \<Rightarrow> int option" where
  "watermark db job state =
     (case dget state ''failure_streak_after_seq'' of
        JInt w \<Rightarrow> Some w
      | _ \<Rightarrow> (case dget state ''last_failure_event_id'' of
          JStr i \<Rightarrow> if i = [] then None else map_option ev_seq (find (\<lambda>v. ev_job v = job \<and> ev_id v = i) (events db))
        | _ \<Rightarrow> None))"

definition after_mark :: "int option \<Rightarrow> int \<Rightarrow> bool" where
  "after_mark w s = (case w of None \<Rightarrow> True | Some m \<Rightarrow> m < s)"

definition watch_on_failure :: "policy_env \<Rightarrow> obj \<Rightarrow> job_row \<Rightarrow> vanth_db \<Rightarrow> (cerr + unit) \<times> vanth_db" where
  "watch_on_failure e pol r db =
     (let job = jb_id r; after_n = pint pol ''after_n''; state = policy_state db job; streak = pint state ''failure_streak'';
        now = pe_now e
      in if jb_status r = ''failed'' then
        (case last_failed db job of
           None \<Rightarrow> (Inr (), db)
         | Some last_seq \<Rightarrow>
             let w = watermark db job state in
             if \<not> after_mark w last_seq then
               (if after_n \<le> streak \<and> dget state ''reacted_at_streak'' \<noteq> JInt streak then
                  then_do (react_to_failure e job pol streak db)
                    (\<lambda>db1. (Inr (), save_policy_state now job (dput ''reacted_at_streak'' (JInt streak) state) db1))
                else (Inr (), db))
             else
               let found = int (length (filter (\<lambda>s. after_mark w s \<and> s \<le> last_seq) (failed_seqs db job)));
                 new_streak = streak + max 1 found;
                 st = dput ''failure_streak_after_seq'' (JInt last_seq) (dput ''failure_streak'' (JInt new_streak) state);
                 db1 = save_policy_state now job st db
               in if after_n \<le> new_streak \<and> dget state ''reacted_at_streak'' \<noteq> JInt new_streak then
                    then_do (react_to_failure e job pol new_streak db1)
                      (\<lambda>db2. (Inr (), save_policy_state now job (dput ''reacted_at_streak'' (JInt new_streak) st) db2))
                  else (Inr (), db1))
      else if jb_status r \<in> {''completed'', ''timeout'', ''cancelled'', ''orphaned''}
          \<and> (is_set (dget state ''failure_streak'') \<or> dget state ''failure_streak_after_seq'' \<noteq> JNull) then
        (Inr (), save_policy_state now job
           (dput ''failure_streak_after_seq'' (JInt (case last_failed db job of None \<Rightarrow> 0 | Some s \<Rightarrow> s))
             (dpop ''reacted_at_streak'' (dput ''failure_streak'' (JInt 0) state))) db)
      else (Inr (), db))"

section \<open>Restarts\<close>

definition launch_due_restart ::
  "policy_env \<Rightarrow> string \<Rightarrow> int \<Rightarrow> string \<Rightarrow> int \<Rightarrow> obj \<Rightarrow> vanth_db \<Rightarrow> (cerr + unit) \<times> vanth_db" where
  "launch_due_restart e job attempt restart_after max_retries state db =
     (case claim_due_restart (pe_token e job) (pe_now e) job restart_after db of
        (None, db1) \<Rightarrow> (Inr (), db1)
      | (Some _, db1) \<Rightarrow>
          let delay = pint state ''last_restart_delay_seconds'' in
          then_do (launch_prepared e job db1)
            (notify e job ''restarted'' (''Restart attempt '' @ int_str attempt @ ''/'' @ int_str max_retries
                @ '' after failure (delay '' @ int_str delay @ ''s)'')
              [(''restart_attempt'', JInt attempt), (''max_retries'', JInt max_retries), (''delay_seconds'', JInt delay)] ''info''))"

definition restart_delay :: "obj \<Rightarrow> int \<Rightarrow> int" where
  "restart_delay pol used =
     (let base = pint pol ''backoff_seconds''; most = pint pol ''backoff_max_seconds''
      in if most \<noteq> 0 then min (base * (used + 1)) most else base * (used + 1))"

definition watch_restart :: "policy_env \<Rightarrow> obj \<Rightarrow> job_row \<Rightarrow> vanth_db \<Rightarrow> (cerr + unit) \<times> vanth_db" where
  "watch_restart e pol r db =
     (let job = jb_id r; now = pe_now e; state = policy_state db job; most = pint pol ''max_retries'';
        used = pint state ''restart_attempts''
      in if jb_status r = ''completed'' then
        (if is_set (dget state ''restart_attempts'') then
           (Inr (), save_policy_state now job (dpop ''restart_after'' (dput ''restart_attempts'' (JInt 0) state)) db)
         else (Inr (), db))
      else if jb_status r \<noteq> ''failed'' then (Inr (), db)
      else if is_set (dget state ''restart_after'') then
        (case dget state ''restart_after'' of
           JStr d \<Rightarrow> (case parse_iso d of
               None \<Rightarrow> (Inr (), db)
             | Some due_at \<Rightarrow>
                 if now < due_at then (Inr (), db) else launch_due_restart e job used d most state db)
         | _ \<Rightarrow> (Inr (), db))
      else if most \<le> used then
        (if is_set (dget state ''gave_up'') then (Inr (), db)
         else notify e job ''gave_up'' (''Job failed and the restart budget is exhausted ('' @ int_str used @ ''/''
                @ int_str most @ '' retries used)'')
                [(''restart_attempts'', JInt used), (''max_retries'', JInt most)] ''error''
                (save_policy_state now job (dput ''gave_up'' (JBool True) state) db))
      else
        let delay = restart_delay pol used; d = now_iso (now + seconds delay);
          st = dput ''restart_after'' (JStr d) (dput ''last_restart_delay_seconds'' (JInt delay)
                 (dpop ''gave_up'' (dput ''restart_attempts'' (JInt (used + 1)) state)));
          db1 = save_policy_state now job st db
        in if delay = 0 then launch_due_restart e job (used + 1) d most st db1 else (Inr (), db1))"

section \<open>The pass\<close>

definition retention_of :: "obj \<Rightarrow> retention" where
  "retention_of d = \<lparr>keep_events = pint d ''events'', keep_metrics = pint d ''metrics'', keep_deliveries = pint d ''deliveries''\<rparr>"

definition throttled :: "int \<Rightarrow> obj \<Rightarrow> bool" where
  "throttled now state =
     (case dget state ''retention_next_at'' of
        JStr d \<Rightarrow> (case parse_iso d of None \<Rightarrow> False | Some t \<Rightarrow> now < t)
      | _ \<Rightarrow> False)"

definition with_block :: "obj \<Rightarrow> string \<Rightarrow> (obj \<Rightarrow> vanth_db \<Rightarrow> (cerr + unit) \<times> vanth_db) \<Rightarrow> vanth_db \<Rightarrow> (cerr + unit) \<times> vanth_db" where
  "with_block pol k f db = (case dget pol k of JObj d \<Rightarrow> f d db | _ \<Rightarrow> (Inr (), db))"

definition watch_row :: "policy_env \<Rightarrow> job_row \<Rightarrow> vanth_db \<Rightarrow> (cerr + unit) \<times> vanth_db" where
  "watch_row e r db =
     (case jb_policy r of
        Some (JObj pol) \<Rightarrow>
          then_do (with_block pol ''schedule'' (\<lambda>d. watch_schedule e d r) db) (\<lambda>db1.
          then_do (with_block pol ''on_failure'' (\<lambda>d. watch_on_failure e d r) db1) (\<lambda>db2.
          then_do (with_block pol ''restart'' (\<lambda>d. watch_restart e d r) db2) (\<lambda>db3.
          with_block pol ''retention'' (\<lambda>d db. (Inr (), apply_retention (pe_retention_interval e) (pe_now e)
            (throttled (pe_now e) (policy_state db (jb_id r))) (jb_id r) (retention_of d) db)) db3)))
      | _ \<Rightarrow> (Inr (), db))"

text \<open>An exception ends the pass and is logged.\<close>

definition watch_policies :: "policy_env \<Rightarrow> vanth_db \<Rightarrow> vanth_db" where
  "watch_policies e db =
     snd (each (watch_row e) (filter (\<lambda>r. jb_policy r \<noteq> None \<and> \<not> jb_disabled r) (jobs db)) db)"

end
