(* ===== verification/RestartBudget.thy ===== *)
theory RestartBudget
  imports JobPolicies
begin

text \<open>
  Restart policies over time: the policy watch ticks again and again on one job, and between two ticks the
  runner, the user and the other passes of the daemon write the job.  A tick that gives the job a new launch
  token is a relaunch.
\<close>

definition restart_tick :: "obj \<Rightarrow> string \<Rightarrow> policy_env \<Rightarrow> vanth_db \<Rightarrow> vanth_db" where
  "restart_tick pol job e db = (case find_job db job of None \<Rightarrow> db | Some r \<Rightarrow> snd (watch_restart e pol r db))"

definition token_of :: "vanth_db \<Rightarrow> string \<Rightarrow> string option" where
  "token_of db job = (case find_job db job of None \<Rightarrow> None | Some r \<Rightarrow> jb_token r)"

fun restart_ticks :: "obj \<Rightarrow> string \<Rightarrow> (job_call list \<times> policy_env) list \<Rightarrow> vanth_db \<Rightarrow> vanth_db" where
  "restart_ticks pol job [] db = db"
| "restart_ticks pol job ((cs, e) # ts) db = restart_ticks pol job ts (restart_tick pol job e (jobs_do cs db))"

fun relaunches :: "obj \<Rightarrow> string \<Rightarrow> (job_call list \<times> policy_env) list \<Rightarrow> vanth_db \<Rightarrow> nat" where
  "relaunches pol job [] db = 0"
| "relaunches pol job ((cs, e) # ts) db =
     (let db1 = jobs_do cs db; db2 = restart_tick pol job e db1
      in (if token_of db2 job = token_of db1 job then 0 else 1) + relaunches pol job ts db2)"

section \<open>Emitting leaves the jobs alone\<close>

lemma persist_jobs: "persist_metric_series m e db = Inr db' \<Longrightarrow> jobs db' = jobs db"
  by (auto simp: persist_metric_series_def Let_def ebind_def split: if_splits sum.splits)

lemma commit_event_jobs: "commit_event m now job p source db = Inr (x, db') \<Longrightarrow> jobs db' = jobs db"
  unfolding commit_event_def Let_def ebind_def
  by (auto dest!: persist_jobs simp: enqueue_deliveries_def split: if_splits sum.splits)

lemma emit_jobs: "jobs (snd (emit cfg m now job ty msg data level db)) = jobs db"
proof -
  have "jobs (snd (emit_transactional mx m now job p source ex Writes db)) = jobs db" for mx p source ex
    using commit_event_jobs by (fastforce simp: emit_transactional_def txn_def split: sum.split)
  then have "jobs (snd (emit_event cfg m now job ty msg (data :: obj) level ''server'' False Writes db)) = jobs db"
    by (simp add: emit_event_def split: sum.split)
  then show ?thesis by (simp add: emit_def case_prod_beta split: sum.split)
qed

lemma emit_then_jobs [simp]: "jobs (snd (emit_then cfg m now job ty msg data level res db)) = jobs db"
  using emit_jobs [of cfg m now job ty msg data level db]
  by (cases "emit cfg m now job ty msg data level db") (auto simp: emit_then_def split: sum.split)

lemma notify_jobs [simp]: "jobs (snd (notify e job ty msg data level db)) = jobs db"
  by (simp add: notify_def)

lemma same_jobs_find: "jobs a = jobs b \<Longrightarrow> find_job a job = find_job b job"
  by (simp add: find_job_def)

lemma same_jobs_ids: "jobs a = jobs b \<Longrightarrow> ids_ok a \<longleftrightarrow> ids_ok b"
  by (simp add: ids_ok_def)

section \<open>The restarts that are left\<close>

definition restarts_left :: "obj \<Rightarrow> job_row \<Rightarrow> nat" where
  "restarts_left pol r =
     nat (pint pol ''max_retries'' - pint (state_of r) ''restart_attempts'')
     + (if is_set (dget (state_of r) ''restart_after'') then 1 else 0)"

text \<open>
  What others may write between the ticks: everything but the policy state of the job (which the policy watch
  and the recovery of a failed launch own), and the end of a run as completed, which starts a new budget.
\<close>

fun spares_budget :: "string \<Rightarrow> job_call \<Rightarrow> bool" where
  "spares_budget job (SavePolicyState now j state) = (j \<noteq> job)"
| "spares_budget job (ClaimUpdate token now j state) = (j \<noteq> job)"
| "spares_budget job (RestorePending now j tok st) = (j \<noteq> job)"
| "spares_budget job (Terminal now j st ex tok w rl ew) = (j \<noteq> job \<or> st \<noteq> ''completed'')"
| "spares_budget job c = True"

definition within :: "obj \<Rightarrow> string \<Rightarrow> nat \<Rightarrow> vanth_db \<Rightarrow> bool" where
  "within pol job n db =
     (ids_ok db \<and> (\<exists>r. find_job db job = Some r \<and> jb_status r \<noteq> ''completed'' \<and> restarts_left pol r \<le> n))"

lemma within_update:
  assumes "within pol job n db" "ids_ok (snd (update_jobs P f db))"
    and "\<And>r. jb_id (f r) = jb_id r"
    and "\<And>r. jb_id r = job \<Longrightarrow> P r \<Longrightarrow> jb_status r \<noteq> ''completed'' \<Longrightarrow>
      jb_status (f r) \<noteq> ''completed'' \<and> restarts_left pol (f r) \<le> restarts_left pol r"
  shows "within pol job n (snd (update_jobs P f db))"
proof -
  from assms(1) obtain r where r: "ids_ok db" "find_job db job = Some r" "jb_status r \<noteq> ''completed''"
    "restarts_left pol r \<le> n" by (auto simp: within_def)
  then have "jb_id r = job" by (simp add: not_in_tail)
  with r assms(2-4) show ?thesis
    unfolding within_def by (auto simp: find_job_update intro: le_trans)
qed

lemma left_le:
  "jb_state r' \<in> {jb_state r, map_option (dpop ''pending_restart_after'') (jb_state r),
      map_option (\<lambda>d. dput ''pending_restart_after'' (dget d ''restart_after'') (dpop ''restart_after'' d)) (jb_state r)} \<Longrightarrow>
   restarts_left pol r' \<le> restarts_left pol r"
  by (cases "jb_state r"; auto simp: restarts_left_def state_of_def pint_def)

lemma spares_budget_keeps:
  assumes "within pol job n db" "spares_budget job c"
  shows "within pol job n (job_do c db)"
proof -
  have ids: "ids_ok (job_do c db)" 
    using assms(1) jobs_do_ids [of db "[c]"] by (simp add: within_def)
  note u = within_update [OF assms(1)]
  show ?thesis
  proof (cases c)
    case (StartInsert m fresh now token row)
    with assms(1) ids show ?thesis
      by (auto simp: start_insert_def Let_def within_def find_job_def find_append)
  next
    case (Terminal now j st ex tok w rl ew)
    have g: "jb_id r = j" if "terminal_guard j tok w rl ew r" for r
      using that by (auto simp: terminal_guard_def split: if_splits)
    show ?thesis
    proof (cases "terminal st")
      case True
      have e: "job_do c db = snd (update_jobs (terminal_guard j tok w rl ew) (to_terminal now st ex) db)"
        by (simp add: Terminal transition_terminal_def True case_prod_beta del: jobs_update)
      have n: "st \<noteq> ''completed''" if "j = job" using assms(2) Terminal that by simp
      show ?thesis
        unfolding e
      proof (rule u)
        show "ids_ok (snd (update_jobs (terminal_guard j tok w rl ew) (to_terminal now st ex) db))"
          using ids unfolding e .
        fix r
        show "jb_id (to_terminal now st ex r) = jb_id r" by (simp add: to_terminal_def)
        assume "jb_id r = job" "terminal_guard j tok w rl ew r"
        with g n have "st \<noteq> ''completed''" by metis
        then show "jb_status (to_terminal now st ex r) \<noteq> ''completed''
            \<and> restarts_left pol (to_terminal now st ex r) \<le> restarts_left pol r"
          by (auto simp: to_terminal_def intro!: left_le)
      qed
    next
      case False
      with Terminal assms(1) show ?thesis by (simp add: transition_terminal_def)
    qed
  next
    case (PublishWorkload now own pid j tok)
    with ids show ?thesis
      by (cases "truthy tok") (auto simp: publish_workload_def intro!: u left_le)
  next
    case (Hold h now j)
    have "snd (job_hold h now j db) =
      snd (update_jobs (\<lambda>r. jb_id r = j \<and> jb_status r = ''queued'' \<and> jb_paused r = (\<not> h))
         (\<lambda>r. r\<lparr>jb_paused := h, jb_updated := now\<rparr>) db)"
      by (auto simp: job_hold_def split: prod.split option.split)
    with Hold ids show ?thesis by (auto intro!: u left_le)
  next
    case (ClearPending now j tok)
    with assms(1) ids show ?thesis
      by (cases "truthy tok") (auto simp: clear_pending_restart_after_def intro!: u left_le)
  next
    case (RevertClaim now j tok pending)
    with ids show ?thesis
      by (cases "truthy tok") (auto simp: revert_abandoned_claim_def intro!: u left_le)
  next
    case (PoolConfigure now pool m paused)
    have "jobs (job_do c db) = jobs db"
      using PoolConfigure by (auto simp: pool_configure_def Let_def split: option.split)
    with assms(1) ids show ?thesis
      by (simp add: within_def same_jobs_find [of "job_do c db" db])
  next
    case (LaunchQueued m token now j pool)
    with ids show ?thesis 
      by (cases "truthy pool") (simp add: launch_queued_if_capacity_def, rule u, auto intro!: left_le)+
  next
    case (SavePolicyState now j state)
    with assms(2) ids show ?thesis by (simp add: save_policy_state_def) (rule u; simp)
  next
    case (ClaimUpdate token now j state)
    with assms(2) ids show ?thesis by (simp add: claim_update_def) (rule u; simp)
  next
    case (RestorePending now j tok st)
    with assms(2) ids show ?thesis by (simp add: restore_pending_restart_after_def) (rule u; simp)
  next
    case (RecoverLegacy now j pending ew)
    with ids show ?thesis
      by (simp add: recover_legacy_def) (rule u; auto simp: abandoned_to_def intro!: left_le split: if_splits)
  next
    case (SpawnFailed now j token)
    with ids show ?thesis by (simp add: spawn_failed_update_def) (rule u; auto simp: to_terminal_def intro!: left_le)
  next
    case (RecordWorker now pid j token)
    with ids show ?thesis by (simp add: record_worker_def) (rule u; auto intro!: left_le)
  next
    case (Heartbeat now pid j tok)
    with ids show ?thesis 
      by (cases "truthy tok") (simp add: heartbeat_def, rule u, auto intro!: left_le)+
  next
    case (CancelQueued now actor reason j)
    with ids show ?thesis by (simp add: cancel_queued_def) (rule u; auto intro!: left_le)
  next
    case (RequestStop now actor reason j tok w p)
    show ?thesis
      unfolding RequestStop job_do.simps request_stop_def
      by (rule u) (rule ids [unfolded RequestStop job_do.simps request_stop_def], auto intro!: left_le)
  next
    case (ClearStop j st oa)
    with ids show ?thesis by (simp add: clear_stop_def) (rule u; auto intro!: left_le)
  next
    case (PolicyDisable now j)
    with ids show ?thesis by (simp add: policy_disable_def) (rule u; auto intro!: left_le)
  qed
qed

lemma spared_budget:
  "within pol job n db \<Longrightarrow> \<forall>c \<in> set cs. spares_budget job c \<Longrightarrow> within pol job n (jobs_do cs db)"
  by (induction cs arbitrary: db) (auto intro: spares_budget_keeps)

section \<open>One tick\<close>

text \<open>The claim of a due restart takes one from the restarts that are left.\<close>

lemma claim_uses_one:
  assumes "within pol job n db" "claim_due_restart token now job d db = (Some t, db1)" "d \<noteq> []"
  shows "0 < n \<and> within pol job (n - 1) db1"
proof -
  from assms(1) obtain r where r: "ids_ok db" "find_job db job = Some r" "restarts_left pol r \<le> n"
    by (auto simp: within_def)
  let ?s = "dput ''pending_restart_after'' (JStr d) (dput ''restart_after'' JNull (state_of r))"
  from assms(2) r have c: "runnable r" "dget (state_of r) ''restart_after'' = JStr d"
    "db1 = snd (claim_update token now job ?s db)"
    using claim_due_restart_Some [OF r(1) assms(3)] by auto
  let ?q = "r\<lparr>jb_status := ''launching'', jb_token := Some token, jb_state := Some ?s,
          jb_updated := now, jb_worker := None, jb_pid := None, jb_heartbeat := None\<rparr>"
  have f: "find_job db1 job = Some ?q" unfolding c(3) by (rule find_job_claim [OF r(1,2) c(1)])
  have "ids_ok db1" using jobs_do_ids [OF r(1), of "[ClaimUpdate token now job ?s]"] c(3) by simp
  moreover have "restarts_left pol ?q < restarts_left pol r"
    using c(2) assms(3) by (simp add: restarts_left_def state_of_def pint_def)
  ultimately show ?thesis using f r(3) by (simp add: within_def)
qed

lemma claim_due_None:
  assumes "ids_ok db" "claim_due_restart token now job d db = (None, db1)"
  shows "db1 = db"
proof (cases "find_job db job")
  case None
  with assms(2) show ?thesis by (simp add: claim_due_restart_def claim_launch_def)
next
  case (Some r)
  let ?P = "\<lambda>r. jb_id r = job \<and> runnable r"
  have "runnable r \<Longrightarrow> cnt ?P (jobs db) = 1"
    using cnt_one [OF assms(1), of ?P job] Some not_in_tail [OF Some] by simp
  with Some assms(2) show ?thesis
    by (auto simp: claim_due_restart_def claim_launch_def claim_update_def update_jobs_def Let_def split: if_splits)
qed

lemma within_launch:
  assumes "within pol job n db" "pe_spawn e job = Inr pid" "\<forall>c \<in> set (pe_others e job). spares_budget job c"
  shows "within pol job n (snd (launch_prepared e job db))"
proof -
  have "within pol job n (job_do (RecordWorker (pe_now e) pid job (pe_token e job)) (jobs_do (pe_others e job) db))"
    using spared_budget [OF assms(1,3)] by (intro spares_budget_keeps) simp_all
  then show ?thesis
    by (simp add: launch_prepared_def launch_def assms(2) case_prod_beta split: option.split)
qed

lemma within_jobs: "jobs a = jobs b \<Longrightarrow> within pol job n a \<longleftrightarrow> within pol job n b"
  by (simp add: within_def same_jobs_find [of a b] same_jobs_ids [of a b])

lemma snd_then_do: "snd (then_do m k) = (if isl (fst m) then snd m else snd (k (snd m)))"
  by (cases m) (auto simp: then_do_def split: sum.splits)

lemma within_due_restart:
  assumes "within pol job n db" "d \<noteq> []" "pe_spawn e job = Inr pid" "\<forall>c \<in> set (pe_others e job). spares_budget job c"
  shows "snd (launch_due_restart e job a d mx st db) = db
    \<or> 0 < n \<and> within pol job (n - 1) (snd (launch_due_restart e job a d mx st db))"
proof (cases "claim_due_restart (pe_token e job) (pe_now e) job d db")
  case (Pair o1 db1)
  show ?thesis
  proof (cases o1)
    case None
    with Pair assms(1) claim_due_None show ?thesis by (simp add: launch_due_restart_def within_def)
  next
    case (Some t)
    with claim_uses_one [OF assms(1) _ assms(2)] Pair have c: "0 < n" "within pol job (n - 1) db1" by blast+
    from within_launch [OF c(2) assms(3,4)] have "within pol job (n - 1) (snd (launch_prepared e job db1))" .
    with c(1) Pair Some show ?thesis
      by (simp add: launch_due_restart_def Let_def snd_then_do within_jobs [OF notify_jobs])
  qed
qed

lemma within_save:
  assumes "within pol job n db" "find_job db job = Some r"
    and "restarts_left pol (r\<lparr>jb_state := Some st\<rparr>) \<le> n"
  shows "within pol job n (save_policy_state now job st db)"
    and "token_of (save_policy_state now job st db) job = token_of db job"
proof -
  have id: "jb_id r = job" by (rule not_in_tail [OF assms(2)])
  have f: "find_job (save_policy_state now job st db) job = Some (r\<lparr>jb_state := Some st, jb_updated := now\<rparr>)"
    unfolding save_policy_state_def comp_apply by (subst find_job_update) (simp_all add: assms(2) id)
  have "ids_ok (save_policy_state now job st db)"
    using assms(1) jobs_do_ids [of db "[SavePolicyState now job st]"] by (simp add: within_def)
  moreover have "restarts_left pol (r\<lparr>jb_state := Some st, jb_updated := now\<rparr>) = restarts_left pol (r\<lparr>jb_state := Some st\<rparr>)"
    by (simp add: restarts_left_def state_of_def)
  ultimately show "within pol job n (save_policy_state now job st db)"
    using assms f by (simp add: within_def)
  show "token_of (save_policy_state now job st db) job = token_of db job"
    using assms(2) f by (simp add: token_of_def)
qed

lemma state_of_policy: "find_job db job = Some r \<Longrightarrow> policy_state db job = state_of r"
  by (simp add: policy_state_def state_of_def)

lemma pint_dput [simp]:
  "pint (dput k v d) l = (if l = k then (case v of JInt i \<Rightarrow> i | _ \<Rightarrow> 0) else pint d l)"
  "pint (dpop k d) l = (if l = k then 0 else pint d l)"
  by (simp_all add: pint_def)

lemma state_of_set [simp]: "state_of (r\<lparr>jb_state := Some s\<rparr>) = s"
  by (simp add: state_of_def)

lemma tick_uses_one:
  assumes "within pol job n db" "pe_spawn e job = Inr pid" "\<forall>c \<in> set (pe_others e job). spares_budget job c"
  defines "db' \<equiv> restart_tick pol job e db"
  shows "within pol job n db' \<and> token_of db' job = token_of db job \<or> 0 < n \<and> within pol job (n - 1) db'"
proof -
  from assms(1) obtain r where r: "ids_ok db" "find_job db job = Some r" "jb_status r \<noteq> ''completed''"
    "restarts_left pol r \<le> n" by (auto simp: within_def)
  have id: "jb_id r = job" by (rule not_in_tail [OF r(2)])
  have st: "policy_state db job = state_of r" by (rule state_of_policy [OF r(2)])
  let ?s = "state_of r" let ?used = "pint ?s ''restart_attempts''" let ?most = "pint pol ''max_retries''"
  have db': "db' = snd (watch_restart e pol r db)" by (simp add: db'_def restart_tick_def r(2))
  note due = within_due_restart [OF _ _ assms(2,3)]
  consider (other) "jb_status r \<noteq> ''failed''" | (pending) "jb_status r = ''failed''" "is_set (dget ?s ''restart_after'')"
    | (spent) "jb_status r = ''failed''" "\<not> is_set (dget ?s ''restart_after'')" "?most \<le> ?used"
    | (fresh) "jb_status r = ''failed''" "\<not> is_set (dget ?s ''restart_after'')" "\<not> ?most \<le> ?used" by blast
  then show ?thesis
  proof cases
    case other
    with r(3) assms(1) show ?thesis by (simp add: db' watch_restart_def)
  next
    case pending
    show ?thesis
    proof (cases "dget ?s ''restart_after''")
      case (JStr d)
      with pending have d: "d \<noteq> []" by auto
      have "db' = db \<or> db' = snd (launch_due_restart e job ?used d ?most ?s db)"
        using pending JStr by (simp add: db' watch_restart_def Let_def id st split: option.split)
      with due [OF assms(1) d, of ?used ?most ?s] assms(1) show ?thesis by auto
    qed (use pending assms(1) in \<open>simp_all add: db' watch_restart_def Let_def id st\<close>)
  next
    case spent
    have g: "restarts_left pol (r\<lparr>jb_state := Some (dput ''gave_up'' (JBool True) ?s)\<rparr>) \<le> n"
      using r(4) by (simp add: restarts_left_def state_of_def pint_def)
    have "db' = db \<or> jobs db' = jobs (save_policy_state (pe_now e) job (dput ''gave_up'' (JBool True) ?s) db)"
      using spent by (simp add: db' watch_restart_def Let_def id st)
    then show ?thesis
    proof
      assume j: "jobs db' = jobs (save_policy_state (pe_now e) job (dput ''gave_up'' (JBool True) ?s) db)"
      show ?thesis
        using within_save [OF assms(1) r(2) g, of "pe_now e"]
        by (simp add: within_jobs [OF j] token_of_def same_jobs_find [OF j])
    qed (use assms(1) in simp)
  next
    case fresh
    let ?delay = "restart_delay pol ?used" let ?d = "now_iso (pe_now e + seconds ?delay)"
    let ?st = "dput ''restart_after'' (JStr ?d) (dput ''last_restart_delay_seconds'' (JInt ?delay)
                 (dpop ''gave_up'' (dput ''restart_attempts'' (JInt (?used + 1)) ?s)))"
    let ?db1 = "save_policy_state (pe_now e) job ?st db"
    have g: "restarts_left pol (r\<lparr>jb_state := Some ?st\<rparr>) \<le> n"
      using r(4) fresh by (auto simp: restarts_left_def)
    note sv = within_save [OF assms(1) r(2) g, of "pe_now e"]
    have d: "?d \<noteq> []" by (simp add: now_iso_def isoformat_z_def iso_fraction_def Let_def)
    have "db' = ?db1 \<or> (\<exists>a mx. db' = snd (launch_due_restart e job a ?d mx ?st ?db1))"
      using fresh by (auto simp: db' watch_restart_def Let_def id st)
    then show ?thesis
    proof
      assume "db' = ?db1"
      then show ?thesis using sv by simp
    next
      assume "\<exists>a mx. db' = snd (launch_due_restart e job a ?d mx ?st ?db1)"
      then obtain a mx where l: "db' = snd (launch_due_restart e job a ?d mx ?st ?db1)" by blast
      from due [OF sv(1) d, where a = a and mx = mx and st = ?st] show ?thesis
        unfolding l [symmetric] using sv by auto
    qed
  qed
qed


section \<open>Failed starts\<close>

text \<open>A failed job whose restart is due at \<open>d\<close>.\<close>

definition restart_due :: "string \<Rightarrow> string \<Rightarrow> int \<Rightarrow> string option \<Rightarrow> vanth_db \<Rightarrow> bool" where
  "restart_due job d used token db =
     (ids_ok db \<and> (\<exists>r. find_job db job = Some r \<and> jb_status r = ''failed'' \<and> \<not> jb_disabled r \<and> jb_token r = token
        \<and> dget (state_of r) ''restart_after'' = JStr d \<and> pint (state_of r) ''restart_attempts'' = used))"

lemma spawn_failed_restores:
  assumes "ids_ok db" "find_job db job = Some q" "jb_status q = ''launching''" "jb_token q = Some t" "\<not> jb_disabled q"
    and "dget (state_of q) ''pending_restart_after'' = JStr d" "pint (state_of q) ''restart_attempts'' = used"
  shows "restart_due job d used (Some t) (spawn_failed now job t db)"
proof -
  have id: "jb_id q = job" by (rule not_in_tail [OF assms(2)])
  obtain st where st: "jb_state q = Some st" "dget st ''pending_restart_after'' = JStr d" "pint st ''restart_attempts'' = used"
    using assms(6,7) by (cases "jb_state q") (auto simp: state_of_def)
  let ?db1 = "snd (spawn_failed_update now job t db)" let ?q = "to_terminal now ''failed'' (Some 1) q"
  have f: "find_job ?db1 job = Some ?q"
    unfolding spawn_failed_update_def by (subst find_job_update) (simp_all add: to_terminal_def assms id)
  have "find_job (spawn_failed now job t db) job = Some (?q\<lparr>jb_state := restore_state (jb_state q), jb_updated := now\<rparr>)"
    unfolding spawn_failed_def restore_pending_restart_after_def snd_pair_case
    by (subst find_job_update) (simp_all add: f to_terminal_def jextract_def assms id st)
  moreover have "ids_ok (spawn_failed now job t db)"
    using jobs_do_ids [OF assms(1), of "[SpawnFailed now job t, RestorePending now job (Some t) None]"]
    by (simp add: spawn_failed_def)
  ultimately show ?thesis
    using assms(4,5) st by (simp add: restart_due_def to_terminal_def restore_state_def jextract_def state_of_def)
qed

lemma restart_due_jobs: "jobs a = jobs b \<Longrightarrow> restart_due job d used t a \<longleftrightarrow> restart_due job d used t b"
  by (simp add: restart_due_def same_jobs_find [of a b] same_jobs_ids [of a b])

lemma tick_fails_again:
  assumes "restart_due job d used token db" "parse_iso d = Some due_at" "due_at \<le> pe_now e" "isl (pe_spawn e job)"
  shows "restart_due job d used (Some (pe_token e job)) (restart_tick pol job e db)"
proof -
  from assms(1) obtain r where r: "ids_ok db" "find_job db job = Some r" "jb_status r = ''failed''" "\<not> jb_disabled r"
    "dget (state_of r) ''restart_after'' = JStr d" "pint (state_of r) ''restart_attempts'' = used"
    by (auto simp: restart_due_def)
  obtain err where err: "pe_spawn e job = Inl err" using assms(4) by (cases "pe_spawn e job") auto
  have d: "d \<noteq> []"
  proof
    assume "d = []"
    moreover have "parse_iso [] = None" by code_simp
    ultimately show False using assms(2) by simp
  qed
  have run: "runnable r" using r(3,4) by (simp add: runnable_def)
  let ?t = "pe_token e job"
  let ?s = "dput ''pending_restart_after'' (JStr d) (dput ''restart_after'' JNull (state_of r))"
  let ?db1 = "snd (claim_update ?t (pe_now e) job ?s db)"
  have c: "claim_due_restart ?t (pe_now e) job d db = (Some ?t, ?db1)"
    using claim_due_restart_Some [OF r(1) d] r(2,5) run by blast
  have f: "find_job ?db1 job = Some (r\<lparr>jb_status := ''launching'', jb_token := Some ?t, jb_state := Some ?s,
          jb_updated := pe_now e, jb_worker := None, jb_pid := None, jb_heartbeat := None\<rparr>)"
    by (rule find_job_claim [OF r(1,2) run])
  have ids: "ids_ok ?db1" using jobs_do_ids [OF r(1), of "[ClaimUpdate ?t (pe_now e) job ?s]"] by simp
  have due: "restart_due job d used (Some ?t) (spawn_failed (pe_now e) job ?t ?db1)"
    by (rule spawn_failed_restores [OF ids f]) (use r in \<open>simp_all add: state_of_def\<close>)
  have "jobs (snd (launch_due_restart e job a d mx st db)) = jobs (spawn_failed (pe_now e) job ?t ?db1)" for a mx st
    by (simp add: launch_due_restart_def c Let_def snd_then_do launch_prepared_def launch_def err)
  note j = this
  have "restart_tick pol job e db
      = snd (launch_due_restart e job used d (pint pol ''max_retries'') (state_of r) db)"
    using r assms(2,3) d not_in_tail [OF r(2)]
    by (simp add: restart_tick_def watch_restart_def Let_def state_of_policy [OF r(2)])
  then show ?thesis using due by (simp only: restart_due_jobs [OF j])
qed

text \<open>
  A launch that fails to start does not consume the restart budget and is not delayed either: once the
  restart of a failed job is due and its runner cannot be spawned, every further tick of the dispatch loop
  relaunches it, as often as it ticks, with the attempts and the past deadline unchanged, so the job
  never gives up and never backs off.
\<close>

theorem failed_starts_are_never_exhausted:
  assumes "ids_ok db" "find_job db job = Some r" "jb_status r = ''failed''" "\<not> jb_disabled r"
    and "dget (state_of r) ''restart_after'' = JStr d" "parse_iso d = Some due_at"
    and "\<forall>(cs, e) \<in> set ts. cs = [] \<and> isl (pe_spawn e job) \<and> due_at \<le> pe_now e"
    and "distinct (jb_token r # map (\<lambda>(cs, e). Some (pe_token e job)) ts)"
  shows "relaunches pol job ts db = length ts
    \<and> (let st = policy_state (restart_ticks pol job ts db) job
       in dget st ''restart_after'' = JStr d \<and> pint st ''restart_attempts'' = pint (state_of r) ''restart_attempts'')"
proof -
  have "relaunches pol job ts db = length ts \<and> (\<exists>t'. restart_due job d used t' (restart_ticks pol job ts db))"
    if "restart_due job d used t db" "distinct (t # map (\<lambda>(cs, e). Some (pe_token e job)) ts)" for used t
    using that assms(7)
  proof (induction ts arbitrary: t db)
    case (Cons x ts)
    obtain e where x: "x = ([], e)" "isl (pe_spawn e job)" "due_at \<le> pe_now e" using Cons.prems(3) by (cases x) auto
    let ?db1 = "restart_tick pol job e db"
    have n: "restart_due job d used (Some (pe_token e job)) ?db1"
      by (rule tick_fails_again [OF Cons.prems(1) assms(6) x(3,2)])
    then have "token_of ?db1 job = Some (pe_token e job)" "token_of db job = t"
      using Cons.prems(1) by (auto simp: restart_due_def token_of_def)
    with Cons.IH [OF n] Cons.prems(2,3) show ?case by (auto simp: x(1) Let_def)
  qed auto
  from this [of "pint (state_of r) ''restart_attempts''" "jb_token r"] assms show ?thesis
    by (auto simp: restart_due_def Let_def state_of_policy)
qed

section \<open>Concrete runs\<close>

definition demo_policy_env :: "string + int \<Rightarrow> int \<Rightarrow> string \<Rightarrow> policy_env" where
  "demo_policy_env spawn now token =
     \<lparr>pe_cfg = demo_cfg, pe_now = now, pe_mint = (\<lambda>job type. demo_mint), pe_token = (\<lambda>job. token),
      pe_spawn = (\<lambda>job. spawn), pe_others = (\<lambda>job. [Terminal now job ''failed'' (Some 1) (Some token) Unset False Unset]),
      pe_retention_interval = 60\<rparr>"

definition demo_restart_policy :: obj where
  "demo_restart_policy = [(''max_retries'', JInt 2), (''backoff_seconds'', JInt 0), (''backoff_max_seconds'', JInt 0)]"

definition demo_failed :: "obj \<Rightarrow> vanth_db" where
  "demo_failed st = demo_jobs\<lparr>jobs := [demo_job ''j1'' ''failed'' (Some ''c0'') st None]\<rparr>"

lemma demo_failed_row:
  "ids_ok (demo_failed st)" "find_job (demo_failed st) ''j1'' = Some (demo_job ''j1'' ''failed'' (Some ''c0'') st None)"
  "jb_status (demo_job ''j1'' ''failed'' (Some ''c0'') st None) = ''failed''"
  "\<not> jb_disabled (demo_job ''j1'' ''failed'' (Some ''c0'') st None)"
  "state_of (demo_job ''j1'' ''failed'' (Some ''c0'') st None) = st"
  "jb_token (demo_job ''j1'' ''failed'' (Some ''c0'') st None) = Some ''c0''"
  by (simp_all add: ids_ok_def find_job_def demo_failed_def demo_job_def state_of_def)

text \<open>A job whose every run fails at once is relaunched twice, then given up.\<close>

definition demo_ticks :: "(job_call list \<times> policy_env) list" where
  "demo_ticks = [([], demo_policy_env (Inr 7) 10 ''c1''), ([], demo_policy_env (Inr 8) 20 ''c2''),
     ([], demo_policy_env (Inr 9) 30 ''c3'')]"

lemma demo_ticks_spare:
  "\<forall>(cs, e) \<in> set demo_ticks. (\<forall>c \<in> set (cs @ pe_others e ''j1''). spares_budget ''j1'' c) \<and> \<not> isl (pe_spawn e ''j1'')"
  by (simp add: demo_ticks_def demo_policy_env_def)


definition demo_failing :: "(job_call list \<times> policy_env) list" where
  "demo_failing = [([], demo_policy_env (Inl ''ENOENT'') 10 ''c1''), ([], demo_policy_env (Inl ''ENOENT'') 20 ''c2'')]"

lemma failed_starts_are_never_exhausted_witness:
  "relaunches demo_restart_policy ''j1'' demo_failing
     (demo_failed [(''restart_attempts'', JInt 2), (''restart_after'', JStr (now_iso 5))]) = 2"
proof -
  let ?st = "[(''restart_attempts'', JInt 2), (''restart_after'', JStr (now_iso 5))]"
  have p: "parse_iso (now_iso 5) = Some 5"
    by (rule parse_now_iso) (simp_all add: year_ok_def day_us_def)
  have g: "dget (state_of (demo_job ''j1'' ''failed'' (Some ''c0'') ?st None)) ''restart_after'' = JStr (now_iso 5)"
    by (simp add: demo_failed_row(5) dget_def)
  have a: "\<forall>(cs, e) \<in> set demo_failing. cs = [] \<and> isl (pe_spawn e ''j1'') \<and> 5 \<le> pe_now e"
    by (simp add: demo_failing_def demo_policy_env_def)
  have d: "distinct (jb_token (demo_job ''j1'' ''failed'' (Some ''c0'') ?st None)
      # map (\<lambda>(cs, e). Some (pe_token e ''j1'')) demo_failing)"
    by (simp add: demo_failing_def demo_policy_env_def demo_failed_row(6))
  have "length demo_failing = 2" by (simp add: demo_failing_def)
  then show ?thesis
    using failed_starts_are_never_exhausted [OF demo_failed_row(1-4) g p a d, of demo_restart_policy, THEN conjunct1]
    by (simp only:)
qed

end
