(* ===== verification/FailureStreak.thy ===== *)
theory FailureStreak
  imports RestartBudget
begin

text \<open>
  What the failure watch counts (\<^verbatim>\<open>_watch_on_failure\<close>): each failed event of the job once, however many of
  them fall between two passes, and the reaction to each streak recorded once it has been made.
\<close>

section \<open>Rows persist\<close>

definition has_row :: "string \<Rightarrow> vanth_db \<Rightarrow> bool" where
  "has_row job db = (job \<in> jb_id ` set (jobs db))"

lemma has_row_iff: "has_row job db \<longleftrightarrow> (\<exists>r. find_job db job = Some r)"
  by (cases "find_job db job") (auto simp: has_row_def find_job_def find_None_iff dest: find_SomeD)

lemma has_row_jobs: "jobs a = jobs b \<Longrightarrow> has_row job a \<longleftrightarrow> has_row job b"
  by (simp add: has_row_def)

lemma has_row_step: "has_row job db \<Longrightarrow> has_row job (jobs_do cs db)"
proof -
  assume "has_row job db"
  then obtain r where r: "r \<in> set (jobs db)" "jb_id r = job" by (auto simp: has_row_def)
  from jobs_do_row [OF r(1), of cs] obtain q where "q \<in> set (jobs (jobs_do cs db))" "jb_id q = job"
    using r(2) by (auto simp: job_later_def same_job_def)
  then show "has_row job (jobs_do cs db)" by (auto simp: has_row_def)
qed

lemma has_row_claim: "has_row job db \<Longrightarrow> has_row job (snd (prepare_launch token now j db))"
  using has_row_step [of job db "[ClaimUpdate token now j st]" for st]
  by (auto simp: prepare_launch_def claim_launch_def case_prod_beta Let_def split: option.split)

lemma has_row_launch: "has_row job db \<Longrightarrow> has_row job (snd (launch_prepared e j db))"
proof -
  assume h: "has_row job db"
  let ?t = "pe_token e j"
  have "has_row job (spawn_failed (pe_now e) j ?t db)"
    using has_row_step [OF h, of "[SpawnFailed (pe_now e) j ?t, RestorePending (pe_now e) j (Some ?t) None]"]
    by (simp add: spawn_failed_def)
  moreover have "has_row job (snd (record_worker (pe_now e) pid j ?t (jobs_do (pe_others e j) db)))" for pid
    using has_row_step [OF h, of "pe_others e j @ [RecordWorker (pe_now e) pid j ?t]"] by simp
  ultimately show ?thesis
    by (simp add: launch_prepared_def launch_def case_prod_beta has_row_jobs [OF emit_then_jobs] split: sum.split option.split)
qed

lemma has_row_react: "has_row job db \<Longrightarrow> has_row job (snd (react_to_failure e job pol streak db))"
proof -
  assume h: "has_row job db"
  have d: "has_row job (snd (policy_disable now job db))" for now
    using has_row_step [OF h, of "[PolicyDisable now job]"] by simp
  show ?thesis
    using h d has_row_claim [OF h] has_row_launch [OF has_row_claim [OF h]]
    by (simp add: react_to_failure_def Let_def case_prod_beta snd_then_do has_row_jobs [OF notify_jobs] split: option.split)
qed

lemma policy_state_saved: "has_row job db \<Longrightarrow> policy_state (save_policy_state now job st db) job = st"
proof -
  assume "has_row job db"
  then obtain r where r: "find_job db job = Some r" by (auto simp: has_row_iff)
  then show ?thesis
    using not_in_tail [OF r] unfolding save_policy_state_def comp_apply policy_state_def
    by (subst find_job_update) simp_all
qed

section \<open>Failed events\<close>

lemma fold_max_ge: "s \<in> set (a # ss) \<Longrightarrow> s \<le> fold max ss (a :: int)"
proof (induction ss arbitrary: a)
  case (Cons b ss)
  show ?case
  proof (cases "s \<in> set ss")
    case True
    then show ?thesis using Cons.IH [of "max b a"] by simp
  next
    case False
    with Cons.prems have "s \<le> max b a" by auto
    also have "max b a \<le> fold max ss (max b a)"
    proof -
      have "x \<le> fold max ss (x :: int)" for x
      proof (induction ss arbitrary: x)
        case (Cons c ss)
        from Cons [of "max c x"] show ?case by simp
      qed simp
      then show ?thesis .
    qed
    finally show ?thesis by simp
  qed
qed simp

lemma last_failed_greatest: "last_failed db job = Some l \<Longrightarrow> s \<in> set (failed_seqs db job) \<Longrightarrow> s \<le> l"
  using fold_max_ge by (fastforce simp: last_failed_def split: list.splits)

lemma last_failed_in: "last_failed db job = Some l \<Longrightarrow> l \<in> set (failed_seqs db job)"
proof -
  have "fold max ss a \<in> set (a # ss)" for ss and a :: int
  proof (induction ss arbitrary: a)
    case (Cons b ss)
    from Cons [of "max b a"] show ?case by (auto simp: max_def split: if_splits)
  qed simp
  then show "last_failed db job = Some l \<Longrightarrow> l \<in> set (failed_seqs db job)"
    by (auto simp: last_failed_def split: list.splits)
qed

definition uncounted :: "int option \<Rightarrow> int list \<Rightarrow> int list" where
  "uncounted w ss = filter (after_mark w) ss"

lemma watch_failed_result:
  assumes "find_job db job = Some r" "jb_status r = ''failed''" "last_failed db job = Some l"
    and "watch_on_failure e pol r db = (Inr (), db')"
  defines "state \<equiv> policy_state db job"
  defines "streak \<equiv> pint state ''failure_streak'' + int (length (uncounted (watermark db job state) (failed_seqs db job)))"
  shows "policy_state db' job =
    (let st = (if after_mark (watermark db job state) l
        then dput ''failure_streak_after_seq'' (JInt l) (dput ''failure_streak'' (JInt streak) state) else state)
     in if pint pol ''after_n'' \<le> streak \<and> dget state ''reacted_at_streak'' \<noteq> JInt streak
        then dput ''reacted_at_streak'' (JInt streak) st else st)"
proof -
  have id: "jb_id r = job" by (rule not_in_tail [OF assms(1)])
  have h: "has_row job db" using assms(1) by (simp add: has_row_iff)
  let ?w = "watermark db job state" let ?n = "pint pol ''after_n''"
  have le: "s \<le> l" if "s \<in> set (failed_seqs db job)" for s by (rule last_failed_greatest [OF assms(3) that])
  have then_save: "db' = save_policy_state now job st (snd m)"
    if "then_do m (\<lambda>db1. (Inr (), save_policy_state now job st db1)) = (Inr (), db')" for now st and m :: "(cerr + unit) \<times> vanth_db"
    using that by (cases m) (auto simp: then_do_def split: sum.splits)
  show ?thesis
  proof (cases "after_mark ?w l")
    case False
    then have "uncounted ?w (failed_seqs db job) = []"
      using le by (cases ?w) (force simp: uncounted_def after_mark_def filter_empty_conv)+
    then have k: "streak = pint state ''failure_streak''" by (simp add: streak_def)
    have "watch_on_failure e pol r db = (if ?n \<le> streak \<and> dget state ''reacted_at_streak'' \<noteq> JInt streak then
        then_do (react_to_failure e job pol streak db)
          (\<lambda>db1. (Inr (), save_policy_state (pe_now e) job (dput ''reacted_at_streak'' (JInt streak) state) db1))
        else (Inr (), db))"
      using assms(2,3) False by (simp add: watch_on_failure_def Let_def id k state_def)
    with assms(4) False h show ?thesis
      by (auto simp: Let_def state_def policy_state_saved has_row_react dest!: then_save split: if_splits)
  next
    case True
    let ?found = "length (filter (\<lambda>s. after_mark ?w s \<and> s \<le> l) (failed_seqs db job))"
    have same: "filter (\<lambda>s. after_mark ?w s \<and> s \<le> l) (failed_seqs db job) = uncounted ?w (failed_seqs db job)"
      unfolding uncounted_def using le by (intro filter_cong) auto
    have "l \<in> set (uncounted ?w (failed_seqs db job))"
      using True last_failed_in [OF assms(3)] by (simp add: uncounted_def)
    then have "1 \<le> int ?found" unfolding same by (cases "uncounted ?w (failed_seqs db job)") auto
    then have k: "pint state ''failure_streak'' + max 1 (int ?found) = streak" by (simp add: streak_def same)
    let ?st = "dput ''failure_streak_after_seq'' (JInt l) (dput ''failure_streak'' (JInt streak) state)"
    let ?db1 = "save_policy_state (pe_now e) job ?st db"
    have h1: "has_row job ?db1"
      using has_row_step [OF h, of "[SavePolicyState (pe_now e) job ?st]"] by simp
    have "watch_on_failure e pol r db = (if ?n \<le> streak \<and> dget state ''reacted_at_streak'' \<noteq> JInt streak then
        then_do (react_to_failure e job pol streak ?db1)
          (\<lambda>db1. (Inr (), save_policy_state (pe_now e) job (dput ''reacted_at_streak'' (JInt streak) ?st) db1))
        else (Inr (), ?db1))"
      using assms(2,3) True k by (simp add: watch_on_failure_def Let_def id state_def [symmetric])
    with assms(4) True h h1 show ?thesis
      by (auto simp: Let_def policy_state_saved has_row_react dest!: then_save split: if_splits)
  qed
qed

text \<open>
  C25. The failure watch counts every failed run exactly once: a pass over a failed job that returns has
  raised the streak by the number of failed events that were not counted before, however many came since the
  last pass, leaves none of them uncounted, and has recorded the reaction when the streak has reached the
  threshold.
\<close>

theorem failure_streak_counts_every_failure:
  assumes "find_job db job = Some r" "jb_status r = ''failed''" "failed_seqs db job \<noteq> []"
    and "dget (policy_state db job) ''last_failure_event_id'' = JNull"
    and "watch_on_failure e pol r db = (Inr (), db')"
  defines "state \<equiv> policy_state db job" and "state' \<equiv> policy_state db' job"
  shows "pint state' ''failure_streak'' = pint state ''failure_streak''
      + int (length (uncounted (watermark db job state) (failed_seqs db job)))
    \<and> uncounted (watermark db' job state') (failed_seqs db job) = []
    \<and> (pint pol ''after_n'' \<le> pint state' ''failure_streak'' \<longrightarrow>
        dget state' ''reacted_at_streak'' = JInt (pint state' ''failure_streak''))"
proof -
  obtain l where l: "last_failed db job = Some l"
    using assms(3) by (cases "failed_seqs db job") (auto simp: last_failed_def)
  let ?w = "watermark db job state" let ?fs = "failed_seqs db job"
  have le: "s \<le> l" if "s \<in> set ?fs" for s by (rule last_failed_greatest [OF l that])
  note res = watch_failed_result [OF assms(1,2) l assms(5), folded state_def state'_def]
  have j: "dget state' ''last_failure_event_id'' = JNull"
    using assms(4) unfolding res Let_def by (simp add: state_def)
  have mark: "watermark db' job state' = (if after_mark ?w l then Some l else ?w)"
  proof -
    have "watermark d job st = (case dget st ''failure_streak_after_seq'' of JInt w \<Rightarrow> Some w | _ \<Rightarrow> None)"
      if "dget st ''last_failure_event_id'' = JNull" for d st
      using that by (simp add: watermark_def split: json.split)
    with j assms(4) show ?thesis unfolding res Let_def by (simp add: state_def)
  qed
  have none: "uncounted (watermark db' job state') ?fs = []"
  proof (cases "after_mark ?w l")
    case True
    then show ?thesis using le by (force simp: mark uncounted_def after_mark_def filter_empty_conv)
  next
    case False
    then obtain m where "?w = Some m" "l \<le> m" by (cases ?w) (auto simp: after_mark_def)
    with le show ?thesis by (force simp: mark False uncounted_def after_mark_def filter_empty_conv)
  qed
  have zero: "uncounted ?w ?fs = []" if "\<not> after_mark ?w l" using none mark that by simp
  have streak: "pint state' ''failure_streak'' = pint state ''failure_streak'' + int (length (uncounted ?w ?fs))"
    using zero unfolding res Let_def by simp
  show ?thesis using none streak res zero by (simp add: Let_def)
qed

text \<open>Two failures since the last pass, with a threshold of two: the pass counts both and alerts.\<close>

definition demo_streak :: vanth_db where
  "demo_streak = (demo_failed [])\<lparr>events := map (\<lambda>(i, n). (event_of demo_mint 9 ''j1''
      \<lparr>ep_type = ''failed'', ep_level = ''error'', ep_message = None, ep_data = []\<rparr> ''runner'' n)\<lparr>ev_id := i\<rparr>)
      [(''e1'', 1), (''e2'', 4)]\<rparr>"

definition demo_alert :: obj where
  "demo_alert = [(''after_n'', JInt 2), (''action'', JStr ''alert'')]"

lemma failure_streak_counts_every_failure_witness:
  "\<exists>db'. watch_on_failure (demo_policy_env (Inr 7) 10 ''c1'') demo_alert
      (demo_job ''j1'' ''failed'' (Some ''c0'') [] None) demo_streak = (Inr (), db')
    \<and> pint (policy_state db' ''j1'') ''failure_streak'' = 2"
proof -
  let ?r = "demo_job ''j1'' ''failed'' (Some ''c0'') [] None"
  let ?u = "watch_on_failure (demo_policy_env (Inr 7) 10 ''c1'') demo_alert ?r demo_streak"
  have "fst ?u = Inr ()" by code_simp
  then have u: "?u = (Inr (), snd ?u)" by (simp add: prod_eq_iff)
  have f: "find_job demo_streak ''j1'' = Some ?r" by code_simp
  have n: "failed_seqs demo_streak ''j1'' = [1, 4]" by code_simp
  have p: "policy_state demo_streak ''j1'' = []" by code_simp
  have w: "uncounted (watermark demo_streak ''j1'' []) [1, 4] = [1, 4]" by code_simp
  have d: "dget [] ''last_failure_event_id'' = JNull" "pint [] ''failure_streak'' = 0" by code_simp+
  from failure_streak_counts_every_failure [OF f demo_failed_row(3) _ _ u] n p w d
  have "pint (policy_state (snd ?u) ''j1'') ''failure_streak'' = 2" by simp
  with u show ?thesis by blast
qed

end
