(* ===== verification/RemoteDispatch.thy ===== *)
theory RemoteDispatch
  imports RemoteOperations JobPolicies
begin

text \<open>
  How a paired host executes what its controllers ask for (\<^verbatim>\<open>RemoteJobManager\<close> of
  \<^verbatim>\<open>src/vanth/remote/remote.py\<close>): a request is recorded as an operation together with the queued job that it
  starts, and the dispatcher launches the job and carries its end back to the operation and the feed.

  Handlers hold the lock of the store, so they run one after another.  They use two connections to one
  file: the store's, which is the state \<open>conn\<close>, and the daemon's, through which the job operations run
  (\<open>on_host\<close>).  While a transaction of the store is open, a write through the daemon's connection raises
  \<^verbatim>\<open>database is locked\<close>.
\<close>

section \<open>Calls\<close>

datatype rerr = Store serr | Busy | Host cerr | NotConverged | Code string

type_synonym 'a call = "conn \<Rightarrow> (rerr + 'a) \<times> conn"

record remote_env =
  re_policy :: policy_env
  re_stop :: "string \<Rightarrow> stop_env"
  re_op :: string
  re_job :: string

definition re_now :: "remote_env \<Rightarrow> int" where
  "re_now e = pe_now (re_policy e)"

definition stored :: "serr + 'a \<Rightarrow> rerr + 'a" where
  "stored r = (case r of Inl x \<Rightarrow> Inl (Store x) | Inr a \<Rightarrow> Inr a)"

text \<open>\<^verbatim>\<open>BEGIN IMMEDIATE\<close>, the body, and a commit, or a rollback when the body raises.\<close>

definition in_tx :: "(remote_db \<Rightarrow> rerr + 'a \<times> remote_db) \<Rightarrow> 'a call" where
  "in_tx body c =
     (if pending c \<noteq> None then (Inl (Store TransactionOpen), c)
      else (case body (committed c) of
          Inl x \<Rightarrow> (Inl x, c)
        | Inr (a, db) \<Rightarrow> (Inr a, c\<lparr>committed := db\<rparr>)))"

definition on_host :: "(vanth_db \<Rightarrow> 'a \<times> vanth_db) \<Rightarrow> 'a call" where
  "on_host f c =
     (case f (host (committed c)) of
        (a, h) \<Rightarrow>
          if pending c = None then (Inr a, c\<lparr>committed := (committed c)\<lparr>host := h\<rparr>\<rparr>)
          else if h = host (committed c) then (Inr a, c) else (Inl Busy, c))"

text \<open>A statement of the dispatcher with a commit of its own.\<close>

definition write_commit :: "(remote_db \<Rightarrow> remote_db) \<Rightarrow> conn \<Rightarrow> conn" where
  "write_commit f c = commit (dml f c)"

definition set_status :: "remote_env \<Rightarrow> string \<Rightarrow> string \<Rightarrow> operation_row call" where
  "set_status e oid status = in_tx (\<lambda>db. stored (update_operation_status (re_now e) oid status None db))"

definition host_job :: "remote_db \<Rightarrow> string \<Rightarrow> job_row option" where
  "host_job db job = find_job (host db) job"

section \<open>The queued job of a request\<close>

definition text_field :: "obj \<Rightarrow> string \<Rightarrow> string option" where
  "text_field p k = (case dget p k of JStr s \<Rightarrow> Some s | _ \<Rightarrow> None)"

definition texts_field :: "obj \<Rightarrow> string \<Rightarrow> string list" where
  "texts_field p k = (case dget p k of JArr vs \<Rightarrow> map text_of vs | _ \<Rightarrow> [])"

text \<open>\<open>payload\<close> has passed \<open>validate_request\<close>, so its fields have the types of the columns.\<close>

definition queued_job :: "string \<Rightarrow> int \<Rightarrow> obj \<Rightarrow> job_row" where
  "queued_job job now p =
     \<lparr>jb_id = job, jb_name = text_field p ''name'',
      jb_command = (if is_set (dget p ''command'') then text_of (dget p ''command'') else ''true''),
      jb_cwd = text_field p ''cwd'', jb_status = ''queued'', jb_pid = None, jb_worker = None, jb_heartbeat = None,
      jb_stop_at = None, jb_created = now, jb_updated = now, jb_started = None, jb_ended = None, jb_exit = None,
      jb_timeout = (case dget p ''timeout_seconds'' of JInt i \<Rightarrow> Some i | _ \<Rightarrow> None),
      jb_notify_on = texts_field p ''notify_on'', jb_tags = texts_field p ''tags'',
      jb_env = (case dget p ''env'' of JObj d \<Rightarrow> d | _ \<Rightarrow> []), jb_notes = text_field p ''notes'',
      jb_interactive = is_set (dget p ''interactive''),
      jb_trigger = (if is_set (dget p ''trigger'') then Some (dget p ''trigger'') else None),
      jb_policy = (if is_set (dget p ''policy'') then Some (dget p ''policy'') else None),
      jb_state = None, jb_disabled = False, jb_token = None, jb_stop_actor = None, jb_stop_reason = None,
      jb_secret_env = [], jb_pool = None, jb_priority = 0, jb_paused = False, jb_schedule = None\<rparr>"

definition insert_queued_job :: "string \<Rightarrow> int \<Rightarrow> obj \<Rightarrow> remote_db \<Rightarrow> rerr + remote_db" where
  "insert_queued_job job now p db =
     (if host_job db job \<noteq> None then Inl (Store serr.IntegrityError)
      else Inr (db\<lparr>host := (host db)\<lparr>jobs := jobs (host db) @ [queued_job job now p]\<rparr>\<rparr>))"

text \<open>The run specification of an existing job: the fields that are not null.\<close>

definition opt_entry :: "string \<Rightarrow> json \<Rightarrow> obj" where
  "opt_entry k v = (if v = JNull then [] else [(k, v)])"

definition resolve_rerun_spec :: "string \<Rightarrow> remote_db \<Rightarrow> obj option" where
  "resolve_rerun_spec job db =
     (case host_job db job of
        None \<Rightarrow> None
      | Some r \<Rightarrow> Some
          ([(''command'', JStr (jb_command r))] @ opt_entry ''cwd'' (jstr_opt (jb_cwd r))
           @ opt_entry ''name'' (jstr_opt (jb_name r)) @ opt_entry ''notes'' (jstr_opt (jb_notes r))
           @ opt_entry ''timeout_seconds'' (case jb_timeout r of None \<Rightarrow> JNull | Some i \<Rightarrow> JInt i)
           @ [(''env'', JObj (jb_env r)), (''tags'', JArr (map JStr (jb_tags r)))]
           @ (case jb_policy r of Some p \<Rightarrow> if is_set p then [(''policy'', p)] else [] | None \<Rightarrow> [])))"

definition rerun_payload :: "obj \<Rightarrow> obj \<Rightarrow> obj" where
  "rerun_payload source payload =
     dupdate source (filter (\<lambda>(k, v). v \<noteq> JNull \<and> k \<noteq> ''job_id'' \<and> k \<noteq> ''idempotency_key'') payload)"

section \<open>Accepting a start\<close>

definition job_upsert :: "remote_db \<Rightarrow> string \<Rightarrow> string \<Rightarrow> json" where
  "job_upsert db job status =
     (case host_job db job of
        Some r \<Rightarrow> JObj [(''job_id'', JStr (jb_id r)), (''name'', jstr_opt (jb_name r)), (''command'', JStr (jb_command r)),
          (''status'', JStr (jb_status r)), (''created_at'', JStr (now_iso (jb_created r))),
          (''updated_at'', JStr (now_iso (jb_updated r))),
          (''exit_code'', case jb_exit r of None \<Rightarrow> JNull | Some x \<Rightarrow> JInt x)]
      | None \<Rightarrow> JObj [(''job_id'', JStr job), (''status'', JStr status)])"

definition accept_job :: "remote_env \<Rightarrow> string \<Rightarrow> string \<Rightarrow> obj \<Rightarrow> remote_db \<Rightarrow> rerr + remote_db" where
  "accept_job e key oid p db =
     ebind (insert_queued_job (re_job e) (re_now e) p db) (\<lambda>db1.
     ebind (stored (update_operation_status (re_now e) oid ''queued'' None
              (record_queued_job (re_now e) oid (re_job e) (''remote:'' @ key) db1))) (\<lambda>(_, db2).
     Inr (snd (append_in_tx (re_now e) ''job.upsert'' (Some (re_job e))
            (Some (JObj [(''job_id'', JStr (re_job e)), (''status'', JStr ''queued'')])) db2))))"

definition start_body ::
  "remote_env \<Rightarrow> string \<Rightarrow> string \<Rightarrow> obj \<Rightarrow> string \<Rightarrow> remote_db \<Rightarrow> rerr + (operation_row \<times> bool \<times> string option) \<times> remote_db" where
  "start_body e key method p digest db =
     ebind (stored (record_operation (re_op e) (re_now e) key method p digest db)) (\<lambda>(op, db1).
       if op_status op \<noteq> ''accepted'' then Inr ((op, True, get_remote_job_origin_op (op_id op) db1), db1)
       else ebind (accept_job e key (op_id op) p db1) (\<lambda>db2. Inr ((op, False, Some (re_job e)), db2)))"

text \<open>What the reply of a start says; \<open>None\<close> for the job of a replay without one is a null.\<close>

definition start_reply :: "operation_row \<Rightarrow> bool \<Rightarrow> string option \<Rightarrow> obj" where
  "start_reply op replayed job =
     [(''op_id'', JStr (op_id op)), (''job_id'', jstr_opt job)]
     @ (if replayed then [(''status'', JStr (op_status op)), (''replayed'', JBool True)] else [(''status'', JStr ''queued'')])"

text \<open>What a start or a rerun is to run: \<open>None\<close> when the job to rerun is unknown.\<close>

definition run_payload :: "string \<Rightarrow> obj \<Rightarrow> remote_db \<Rightarrow> rerr + obj option" where
  "run_payload method payload db =
     (if method = ''job.rerun'' then
        Inr (map_option (\<lambda>source. rerun_payload source payload)
          (resolve_rerun_spec (text_of (dget payload ''job_id'')) db))
      else if has_key payload ''policy'' \<and> isl (validate_policy (dget payload ''policy'')) then Inl (Code ''INVALID_REQUEST'')
      else Inr (Some payload))"

definition unknown_reply :: "obj \<Rightarrow> obj" where
  "unknown_reply payload = [(''op_id'', JNull), (''job_id'', dget payload ''job_id''), (''status'', JStr ''error''),
     (''error'', JStr (''unknown job on remote: '' @ text_of (dget payload ''job_id'')))]"

definition handle_start_or_rerun :: "remote_env \<Rightarrow> string \<Rightarrow> obj \<Rightarrow> string \<Rightarrow> string \<Rightarrow> obj call" where
  "handle_start_or_rerun e method payload key digest c =
     (case run_payload method payload (view c) of
        Inl x \<Rightarrow> (Inl x, c)
      | Inr None \<Rightarrow> (Inr (unknown_reply payload), c)
      | Inr (Some p) \<Rightarrow>
          (case in_tx (start_body e key method p digest) c of
             (Inl x, c') \<Rightarrow> (Inl x, c')
           | (Inr (op, replayed, job), c') \<Rightarrow> (Inr (start_reply op replayed job), c')))"

section \<open>Stopping\<close>

definition run_stop :: "remote_env \<Rightarrow> string \<Rightarrow> string call" where
  "run_stop e job c =
     (case on_host (stop (pe_cfg (re_policy e)) (pe_mint (re_policy e) job ''cancelled'') (re_stop e job) 10 ''user'' None job) c of
        (Inl x, c') \<Rightarrow> (Inl x, c')
      | (Inr (Inl x), c') \<Rightarrow> (Inl (Host x), c')
      | (Inr (Inr s), c') \<Rightarrow> (Inr s, c'))"

text \<open>The text of an exception is the argument \<open>msg\<close>.\<close>

definition stop_result :: "string \<Rightarrow> string \<Rightarrow> string \<Rightarrow> bool \<Rightarrow> obj" where
  "stop_result oid job status retrying =
     [(''op_id'', JStr oid), (''job_id'', JStr job), (''status'', JStr status), (''retrying'', JBool retrying)]"

definition settle_operation :: "int \<Rightarrow> string \<Rightarrow> string \<Rightarrow> obj \<Rightarrow> remote_db \<Rightarrow> remote_db" where
  "settle_operation now oid status result =
     update_operations oid (\<lambda>r. r\<lparr>op_status := status, op_result := Some result, op_updated := now\<rparr>)"

definition publish_end :: "int \<Rightarrow> string \<Rightarrow> string \<Rightarrow> remote_db \<Rightarrow> remote_db" where
  "publish_end now job status db =
     (if terminal status then snd (append_in_tx now ''job.upsert'' (Some job) (Some (job_upsert db job status)) db) else db)"

definition stop_target :: "remote_env \<Rightarrow> string \<Rightarrow> string option call" where
  "stop_target e job c =
     (case host_job (view c) job of
        None \<Rightarrow> (Inr None, c)
      | Some r \<Rightarrow> if terminal (jb_status r) then (Inr (Some (jb_status r)), c)
          else (case run_stop e job c of (Inl x, c') \<Rightarrow> (Inl x, c') | (Inr s, c') \<Rightarrow> (Inr (Some s), c')))"

definition execute_stop :: "remote_env \<Rightarrow> string \<Rightarrow> string \<Rightarrow> obj call" where
  "execute_stop e oid job c =
     (let now = re_now e; done = (\<lambda>status res f.
          \<lambda>c2. (case in_tx (\<lambda>db. Inr ((), f (settle_operation now oid status res db))) c2 of
             (Inl y, c3) \<Rightarrow> (Inl y, c3) | (Inr _, c3) \<Rightarrow> (Inr res, c3)))
      in (case stop_target e job c of
          (Inl x, c2) \<Rightarrow>
            (case in_tx (\<lambda>db. Inr ((), update_operations oid (\<lambda>r. r\<lparr>op_updated := now\<rparr>) db)) c2 of
               (Inl y, c3) \<Rightarrow> (Inl y, c3)
             | (Inr _, c3) \<Rightarrow> (Inl (Code ''OPERATION_RETRY_PENDING''), c3))
        | (Inr None, c2) \<Rightarrow>
            done ''failed'' (stop_result oid job ''error'' False @ [(''error'', JStr (''unknown job on remote: '' @ job))]) id c2
        | (Inr (Some s), c2) \<Rightarrow> done ''completed'' (stop_result oid job s False) (publish_end now job s) c2))"

definition handle_stop :: "remote_env \<Rightarrow> obj \<Rightarrow> string \<Rightarrow> string \<Rightarrow> obj call" where
  "handle_stop e payload key digest c =
     (case in_tx (\<lambda>db. stored (record_operation (re_op e) (re_now e) key ''job.stop'' payload digest db)) c of
        (Inl x, c1) \<Rightarrow> (Inl x, c1)
      | (Inr op, c1) \<Rightarrow>
          if op_status op \<noteq> ''accepted'' \<and> op_result op \<noteq> None then
            (Inr (dput ''replayed'' (JBool True) (the (op_result op))), c1)
          else execute_stop e (op_id op) (text_of (dget payload ''job_id'')) c1)"

section \<open>The dispatcher\<close>

text \<open>The text of a scalar value; that of an array or an object starts with a bracket.\<close>

definition scalar_text :: "json \<Rightarrow> string option" where
  "scalar_text v = (case v of JStr s \<Rightarrow> Some s | JInt i \<Rightarrow> Some (int_str i) | JFloat r \<Rightarrow> Some r
     | JBool b \<Rightarrow> Some (if b then ''True'' else ''False'') | JNull \<Rightarrow> Some ''None'' | _ \<Rightarrow> None)"

definition job_id_re :: "string \<Rightarrow> bool" where
  "job_id_re s = (4 \<le> length s \<and> length s \<le> 80 \<and> list_all (\<lambda>c. is_alnum c \<or> c = CHR 0x5F \<or> c = CHR 0x2D) s)"

datatype gate = Go | Wait | Cancel

definition parent_gate :: "string \<Rightarrow> string \<Rightarrow> vanth_db \<Rightarrow> gate" where
  "parent_gate parent wanted h =
     (if \<not> job_id_re parent then Cancel
      else if \<not> (terminal wanted \<or> wanted = ''running'' \<or> wanted = ''queued'') then Cancel
      else (case find_job h parent of
          None \<Rightarrow> Cancel
        | Some r \<Rightarrow> if jb_status r = wanted then Go else if terminal (jb_status r) then Cancel else Wait))"

definition trigger_gate :: "obj \<Rightarrow> vanth_db \<Rightarrow> gate" where
  "trigger_gate payload h =
     (case dget payload ''trigger'' of
        JNull \<Rightarrow> Go
      | JObj t \<Rightarrow>
          if \<not> is_set (dget t ''job_id'') \<or> \<not> is_set (dget t ''status'') then Cancel
          else (case (scalar_text (dget t ''job_id''), scalar_text (dget t ''status'')) of
              (Some parent, Some wanted) \<Rightarrow> parent_gate parent wanted h
            | _ \<Rightarrow> Cancel)
      | _ \<Rightarrow> Cancel)"

text \<open>The steps that lead an operation through its machine to the end of its job.\<close>

definition steps_to :: "string \<Rightarrow> string list" where
  "steps_to current = (if current = ''accepted'' then [''queued'', ''launched'', ''running'']
     else if current = ''queued'' then [''queued'', ''launched'', ''running'']
     else if current = ''launched'' then [''launched'', ''running'']
     else if current = ''running'' then [''running''] else [])"

definition try_status :: "int \<Rightarrow> string \<Rightarrow> string \<Rightarrow> remote_db \<Rightarrow> remote_db" where
  "try_status now oid status db =
     (case update_operation_status now oid status None db of Inl _ \<Rightarrow> db | Inr (_, db') \<Rightarrow> db')"

definition converge_steps :: "int \<Rightarrow> string \<Rightarrow> string \<Rightarrow> remote_db \<Rightarrow> remote_db" where
  "converge_steps now oid status db =
     (let current = map_option op_status (operation_by_id db oid)
      in if current = Some status then db
         else fold (try_status now oid) ((case current of None \<Rightarrow> [] | Some s \<Rightarrow> steps_to s) @ [status]) db)"

definition converge_body :: "int \<Rightarrow> string \<Rightarrow> string \<Rightarrow> string \<Rightarrow> remote_db \<Rightarrow> rerr + unit \<times> remote_db" where
  "converge_body now oid job status db =
     (let db1 = converge_steps now oid status db
      in if map_option op_status (operation_by_id db1 oid) \<noteq> Some status then Inl NotConverged
         else Inr ((), snd (append_in_tx now ''job.upsert'' (Some job) (Some (job_upsert db1 job status)) db1)))"

definition converge_terminal :: "remote_env \<Rightarrow> string \<Rightarrow> string \<Rightarrow> string \<Rightarrow> unit call" where
  "converge_terminal e oid job status = in_tx (converge_body (re_now e) oid job status)"

definition unit_of :: "(rerr + 'a) \<times> conn \<Rightarrow> (rerr + unit) \<times> conn" where
  "unit_of m = (case m of (Inl x, c) \<Rightarrow> (Inl x, c) | (Inr _, c) \<Rightarrow> (Inr (), c))"

text \<open>Launching the job of an operation.\<close>

definition launch_op :: "remote_env \<Rightarrow> operation_row \<Rightarrow> string \<Rightarrow> unit call" where
  "launch_op e r job c =
     (case on_host (prepare_launch (pe_token (re_policy e) job) (re_now e) job) c of
        (Inl x, c1) \<Rightarrow> (Inl x, c1)
      | (Inr None, c1) \<Rightarrow> unit_of (set_status e (op_id r) ''failed'' c1)
      | (Inr (Some _), c1) \<Rightarrow>
          (case on_host (launch_prepared (re_policy e) job) c1 of
             (Inl x, c2) \<Rightarrow> (Inl x, c2)
           | (Inr (Inl x), c2) \<Rightarrow> (Inl (Host x), c2)
           | (Inr (Inr (status, _)), c2) \<Rightarrow>
               (case (if op_status r = ''queued'' then unit_of (set_status e (op_id r) ''launched'' c2) else (Inr (), c2)) of
                  (Inl x, c3) \<Rightarrow> (Inl x, c3)
                | (Inr _, c3) \<Rightarrow>
                    if terminal status then converge_terminal e (op_id r) job status c3
                    else if status = ''running'' then unit_of (set_status e (op_id r) ''running'' c3)
                    else (Inr (), c3))))"

definition cancel_gated :: "int \<Rightarrow> string \<Rightarrow> remote_db \<Rightarrow> remote_db" where
  "cancel_gated now job db = db\<lparr>host := snd (update_jobs (\<lambda>r. jb_id r = job \<and> jb_status r = ''queued'')
     (\<lambda>r. r\<lparr>jb_status := ''cancelled'', jb_ended := Some now, jb_updated := now\<rparr>) (host db))\<rparr>"

definition dispatch_job :: "remote_env \<Rightarrow> operation_row \<Rightarrow> string \<Rightarrow> unit call" where
  "dispatch_job e r job c =
     (let status = map_option jb_status (host_job (view c) job)
      in if status \<noteq> None \<and> terminal (the status) then converge_terminal e (op_id r) job (the status) c
         else if status = Some ''running'' then
           (if op_status r = ''running'' then (Inr (), c) else unit_of (set_status e (op_id r) ''running'' c))
         else (case trigger_gate (op_payload r) (host (committed c)) of
             Wait \<Rightarrow> (Inr (), c)
           | Cancel \<Rightarrow> unit_of (set_status e (op_id r) ''failed'' (dml (cancel_gated (re_now e) job) c))
           | Go \<Rightarrow> launch_op e r job c))"

text \<open>A stop that was recorded and not executed; \<open>msg\<close> is the text of an exception.\<close>

definition reconcile_stop_intent :: "remote_env \<Rightarrow> string \<Rightarrow> operation_row \<Rightarrow> conn \<Rightarrow> conn" where
  "reconcile_stop_intent e msg r c =
     (let now = re_now e; oid = op_id r;
        job = (case scalar_text (por (dget (op_payload r) ''job_id'') (JStr [])) of Some s \<Rightarrow> s | None \<Rightarrow> [])
      in if job = [] then
           write_commit (update_operations oid (\<lambda>r. r\<lparr>op_status := ''failed'', op_error := Some ''stop intent missing job_id''\<rparr>)) c
         else (case host_job (view c) job of
             None \<Rightarrow> write_commit (update_operations oid (\<lambda>r. r\<lparr>op_status := ''failed'',
               op_error := Some (''unknown job on remote: '' @ job), op_updated := now\<rparr>)) c
           | Some q \<Rightarrow>
               let done = (\<lambda>s db. publish_end now job s (settle_operation now oid ''completed''
                     [(''op_id'', JStr oid), (''job_id'', JStr job), (''status'', JStr s)] db))
               in if terminal (jb_status q) then write_commit (done (jb_status q)) c
                  else (case run_stop e job c of
                      (Inl _, c1) \<Rightarrow> write_commit (update_operations oid (\<lambda>r. r\<lparr>op_error := Some (take 500 msg), op_updated := now\<rparr>)) c1
                    | (Inr s, c1) \<Rightarrow> write_commit (done s) c1)))"

definition live_operations :: "remote_db \<Rightarrow> operation_row list" where
  "live_operations db = filter (\<lambda>r. op_status r \<in> {''accepted'', ''queued'', ''launched'', ''running''}) (operations db)"

definition dispatch_op :: "remote_env \<Rightarrow> string \<Rightarrow> operation_row \<Rightarrow> conn \<Rightarrow> conn" where
  "dispatch_op e msg r c =
     (if op_method r = ''job.stop'' then reconcile_stop_intent e msg r c
      else (case get_remote_job_origin_op (op_id r) (view c) of
          None \<Rightarrow> snd (set_status e (op_id r) ''failed'' c)
        | Some job \<Rightarrow> if job = [] then snd (set_status e (op_id r) ''failed'' c) else snd (dispatch_job e r job c)))"

text \<open>An exception of one operation is logged.\<close>

definition dispatch_queued_ops :: "(nat \<Rightarrow> remote_env) \<Rightarrow> string \<Rightarrow> conn \<Rightarrow> conn" where
  "dispatch_queued_ops es msg c =
     fold (\<lambda>(i, r). dispatch_op (es i) msg r) (enumerate 0 (live_operations (view c))) c"

definition sync_op :: "remote_env \<Rightarrow> operation_row \<Rightarrow> conn \<Rightarrow> conn" where
  "sync_op e r c =
     (case get_remote_job_origin_op (op_id r) (view c) of
        None \<Rightarrow> c
      | Some job \<Rightarrow> (case host_job (view c) job of
            Some q \<Rightarrow> if job \<noteq> [] \<and> terminal (jb_status q) then snd (converge_terminal e (op_id r) job (jb_status q) c) else c
          | None \<Rightarrow> c))"

definition sync_terminal_ops :: "remote_env \<Rightarrow> conn \<Rightarrow> conn" where
  "sync_terminal_ops e c = fold (sync_op e) (filter (\<lambda>r. op_status r = ''running'') (operations (view c))) c"

definition mark_terminal_from_job :: "remote_env \<Rightarrow> string \<Rightarrow> string \<Rightarrow> conn \<Rightarrow> conn" where
  "mark_terminal_from_job e job status c =
     (if \<not> terminal status then c
      else (case get_remote_operation_by_job job (view c) of
          None \<Rightarrow> c
        | Some oid \<Rightarrow> if oid = [] then c else snd (converge_terminal e oid job status c)))"

end
