(* ===== verification/RemoteStarts.thy ===== *)
theory RemoteStarts
  imports RemoteDispatch FailureStreak
begin

text \<open>
  A paired host starts one job per idempotency key.  The abstract host is a table of the keys it has
  accepted with the digest of the request and the job started for it; the requests, the dispatcher and
  everything else that writes the host implement it.
\<close>

section \<open>Everything that happens at a host\<close>

datatype remote_call =
    Start string obj string string
  | Stop obj string string
  | Dispatch string
  | Sync
  | Mark string string
  | SetEpoch int
  | Jobs "job_call list"

definition remote_step :: "(nat \<Rightarrow> remote_env) \<Rightarrow> remote_call \<Rightarrow> conn \<Rightarrow> conn" where
  "remote_step es k c =
     (case k of
        Start mth payload key digest \<Rightarrow> snd (handle_start_or_rerun (es 0) mth payload key digest c)
      | Stop payload key digest \<Rightarrow> snd (handle_stop (es 0) payload key digest c)
      | Dispatch msg \<Rightarrow> dispatch_queued_ops es msg c
      | Sync \<Rightarrow> sync_terminal_ops (es 0) c
      | Mark job status \<Rightarrow> mark_terminal_from_job (es 0) job status c
      | SetEpoch n \<Rightarrow> snd (in_tx (\<lambda>db. stored (set_remote_epoch n db)) c)
      | Jobs cs \<Rightarrow> snd (on_host (\<lambda>h. ((), jobs_do cs h)) c))"

section \<open>The abstract host\<close>

type_synonym starts = "string \<Rightarrow> (string \<times> string option) option"

definition starts :: "remote_db \<Rightarrow> starts" where
  "starts db key =
     (case find_operation db key of
        None \<Rightarrow> None
      | Some r \<Rightarrow> if op_method r = ''job.stop'' then None
          else Some (op_digest r, get_remote_job_origin_op (op_id r) db))"

definition start_once :: "string \<Rightarrow> string \<Rightarrow> string \<Rightarrow> starts \<Rightarrow> starts" where
  "start_once key digest job m = (if m key = None then m(key \<mapsto> (digest, Some job)) else m)"

section \<open>The invariant\<close>

definition starts_ok :: "remote_db \<Rightarrow> bool" where
  "starts_ok db =
     (remote_ok db
      \<and> (\<forall>r \<in> set (operations db). op_method r = ''job.stop'' \<or>
           op_status r \<noteq> ''accepted'' \<and> (\<exists>o1 \<in> set (origins db). og_op o1 = op_id r))
      \<and> (\<forall>o1 \<in> set (origins db). og_op o1 \<in> op_id ` set (operations db) \<and> has_row (og_job o1) (host db)))"

text \<open>What a statement does to the operations that are recorded: it never makes one accepted again.\<close>

definition op_later :: "operation_row \<Rightarrow> operation_row \<Rightarrow> bool" where
  "op_later r r' =
     (op_id r' = op_id r \<and> op_key r' = op_key r \<and> op_method r' = op_method r \<and> op_digest r' = op_digest r
      \<and> (op_status r \<noteq> ''accepted'' \<longrightarrow> op_status r' \<noteq> ''accepted''))"

definition carries_on :: "remote_db \<Rightarrow> remote_db \<Rightarrow> bool" where
  "carries_on db db' =
     (origins db' = origins db \<and> list_all2 op_later (operations db) (operations db')
      \<and> (\<forall>j. has_row j (host db) \<longrightarrow> has_row j (host db')) \<and> (remote_ok db \<longrightarrow> remote_ok db'))"

lemma op_later_refl: "op_later r r"
  by (simp add: op_later_def)

lemma carries_on_refl: "carries_on db db"
  by (simp add: carries_on_def list_all2_refl op_later_refl)

lemma carries_on_trans: "carries_on a b \<Longrightarrow> carries_on b c \<Longrightarrow> carries_on a c"
proof -
  assume a: "carries_on a b" "carries_on b c"
  have "list_all2 op_later (operations a) (operations c)"
    by (rule list_all2_trans [of op_later op_later op_later "operations a" "operations b"])
       (use a in \<open>auto simp: op_later_def carries_on_def\<close>)
  with a show "carries_on a c" by (simp add: carries_on_def)
qed

lemma later_find:
  "list_all2 op_later xs ys \<Longrightarrow>
   (case find (\<lambda>r. op_key r = key) xs of
      None \<Rightarrow> find (\<lambda>r. op_key r = key) ys = None
    | Some r \<Rightarrow> \<exists>r'. find (\<lambda>r. op_key r = key) ys = Some r' \<and> op_later r r')"
  by (induction rule: list_all2_induct) (auto simp: op_later_def split: option.splits)

lemma carries_on_starts: "carries_on db db' \<Longrightarrow> starts db' = starts db"
proof
  fix key
  assume c: "carries_on db db'"
  then have "list_all2 op_later (operations db) (operations db')" "origins db' = origins db"
    by (simp_all add: carries_on_def)
  with later_find [OF this(1), of key] show "starts db' key = starts db key"
    by (auto simp: starts_def find_operation_def get_remote_job_origin_op_def op_later_def split: option.splits)
qed

lemma later_ids: "list_all2 op_later xs ys \<Longrightarrow> map op_id ys = map op_id xs"
  by (induction rule: list_all2_induct) (auto simp: op_later_def)

lemma later_back: "list_all2 op_later xs ys \<Longrightarrow> r' \<in> set ys \<Longrightarrow> \<exists>r \<in> set xs. op_later r r'"
  by (induction rule: list_all2_induct) auto

lemma carries_on_ok:
  assumes "carries_on db db'" "starts_ok db"
  shows "starts_ok db'"
proof -
  have l: "list_all2 op_later (operations db) (operations db')" and o: "origins db' = origins db"
    using assms(1) by (simp_all add: carries_on_def)
  have "op_id ` set (operations db') = op_id ` set (operations db)"
    using arg_cong [OF later_ids [OF l], of set] by simp
  moreover have "op_method r' = ''job.stop'' \<or> op_status r' \<noteq> ''accepted'' \<and> (\<exists>o1 \<in> set (origins db). og_op o1 = op_id r')"
    if m: "r' \<in> set (operations db')" for r'
  proof -
    obtain r where "r \<in> set (operations db)" "op_later r r'" using later_back [OF l m] by blast
    with assms(2) show ?thesis by (auto simp: starts_ok_def op_later_def)
  qed
  ultimately show ?thesis using assms by (simp add: starts_ok_def carries_on_def o)
qed

section \<open>What carries on\<close>

lemma update_carries_on:
  assumes "\<And>r. op_id r = oid \<Longrightarrow> op_later r (f r)" "\<And>r. op_id (f r) = op_id r \<and> op_key (f r) = op_key r"
  shows "carries_on db (update_operations oid f db)"
proof -
  have "list_all2 op_later t (upd (\<lambda>r. op_id r = oid) f t)" for t
    using assms(1) by (induction t) (auto intro: op_later_refl)
  then show ?thesis
    using update_operations_ok [of f db oid, OF assms(2)] by (simp add: carries_on_def)
qed

lemma append_carries_on: "carries_on db (snd (append_in_tx now kind job p db))"
  using append_in_tx_ok by (simp add: carries_on_def list_all2_refl op_later_refl)

lemma status_carries_on:
  assumes "update_operation_status now oid status None db = Inr (r, db')" "status \<noteq> ''accepted''"
  shows "carries_on db db'"
proof -
  have "db' = update_operations oid (\<lambda>r. r\<lparr>op_status := status, op_payload := op_payload r, op_updated := now\<rparr>) db"
    using assms(1) by (auto simp: update_operation_status_def ebind_def Let_def split: option.splits sum.splits)
  then show ?thesis using assms(2) by (auto intro!: update_carries_on simp: op_later_def)
qed

lemma host_carries_on:
  "(\<And>j. has_row j (host db) \<Longrightarrow> has_row j h) \<Longrightarrow> carries_on db (db\<lparr>host := h\<rparr>)"
  by (simp add: carries_on_def list_all2_refl op_later_refl remote_ok_def get_feed_epoch_def)

text \<open>Calls: from the file or the open transaction that they see.\<close>

definition call_on :: "conn \<Rightarrow> conn \<Rightarrow> bool" where
  "call_on c c' = carries_on (view c) (view c')"

lemma call_on_refl: "call_on c c" by (simp add: call_on_def carries_on_refl)

lemma call_on_trans: "call_on a b \<Longrightarrow> call_on b c \<Longrightarrow> call_on a c"
  unfolding call_on_def by (rule carries_on_trans)

lemma in_tx_on:
  assumes "\<And>a db'. body (view c) = Inr (a, db') \<Longrightarrow> carries_on (view c) db'"
  shows "call_on c (snd (in_tx body c))"
  using assms by (auto simp: in_tx_def call_on_def view_def carries_on_refl split: sum.split)

lemma on_host_on:
  assumes "\<And>h j. has_row j h \<Longrightarrow> has_row j (snd (f h))"
  shows "call_on c (snd (on_host f c))"
proof (cases "pending c")
  case None
  then show ?thesis
    using assms [of _ "host (committed c)"]
    by (auto simp: on_host_def call_on_def view_def case_prod_beta intro: host_carries_on)
qed (auto simp: on_host_def case_prod_beta call_on_refl)

lemma write_commit_on: "carries_on (view c) (f (view c)) \<Longrightarrow> call_on c (write_commit f c)"
  by (simp add: write_commit_def call_on_def)

lemma dml_on: "carries_on (view c) (f (view c)) \<Longrightarrow> call_on c (dml f c)"
  by (simp add: call_on_def)

lemma set_status_on: "status \<noteq> ''accepted'' \<Longrightarrow> call_on c (snd (set_status e oid status c))"
  unfolding set_status_def
  by (rule in_tx_on) (auto simp: stored_def split: sum.splits dest: status_carries_on)

lemma unit_of_snd [simp]: "snd (unit_of m) = snd m"
  by (cases m) (auto simp: unit_of_def split: sum.split)

section \<open>The handlers carry on\<close>

lemma has_row_stop_final:
  "has_row j db \<Longrightarrow> has_row j (snd (stop_final cfg m e data job token q db))"
  using has_row_step [of j db "[Terminal (se_now e 3) job ''cancelled'' None token Unset False Unset]"]
  by (auto simp: stop_final_def has_row_jobs [OF emit_then_jobs] split: prod.split sum.split bool.split)

lemma has_row_stop_end:
  "has_row j db \<Longrightarrow> has_row j (snd (stop_end cfg m e data job token q db))"
  using has_row_step [of j db "[Terminal (se_now e 2) job ''cancelled'' None token Unset False Unset]"]
  by (auto simp: stop_end_def has_row_jobs [OF emit_then_jobs] intro!: has_row_stop_final has_row_step
      split: prod.split sum.split bool.split)

lemma has_row_stop_live:
  assumes "has_row j db"
  shows "has_row j (snd (stop_live cfg m e actor reason job r db))"
proof -
  have r: "has_row j (snd (request_stop now actor reason job tok w p d))" if "has_row j d" for now actor reason tok w p d
    using has_row_step [OF that, of "[RequestStop now actor reason job tok w p]"] by simp
  have c: "has_row j (clear_stop job t b d)" if "has_row j d" for t b d
    using has_row_step [OF that, of "[ClearStop job t b]"] by simp
  show ?thesis
    using assms
    by (simp add: stop_live_def Let_def case_prod_beta r c has_row_stop_end has_row_step split: option.split)
qed

lemma has_row_stop:
  assumes "has_row j db"
  shows "has_row j (snd (stop cfg m e k actor reason job db))"
proof -
  have r: "has_row j (snd (cancel_queued now actor why job d))" if "has_row j d" for now why d
    using has_row_step [OF that, of "[CancelQueued now actor why job]"] by simp
  show ?thesis
    using assms
    by (simp add: stop_def Let_def case_prod_beta has_row_jobs [OF emit_then_jobs] has_row_stop_live has_row_step r
        split: option.split)
qed

text \<open>Sequencing of calls.\<close>

lemma call_bind:
  "call_on c (snd m) \<Longrightarrow> (\<And>x c1. call_on c1 (snd (k x c1))) \<Longrightarrow> call_on c (snd (case m of (x, c1) \<Rightarrow> k x c1))"
  by (cases m) (auto intro: call_on_trans)

lemma call_bind':
  "call_on c (snd m) \<Longrightarrow> (\<And>x c1. call_on c1 (k x c1)) \<Longrightarrow> call_on c (case m of (x, c1) \<Rightarrow> k x c1)"
  by (cases m) (auto intro: call_on_trans)

lemma run_stop_on: "call_on c (snd (run_stop e job c))"
proof -
  have "call_on c (snd (on_host (stop (pe_cfg (re_policy e)) (pe_mint (re_policy e) job ''cancelled'') (re_stop e job) 10 ''user'' None job) c))"
    by (rule on_host_on) (rule has_row_stop)
  then show ?thesis by (auto simp: run_stop_def split: prod.split sum.split)
qed

lemma stop_target_on: "call_on c (snd (stop_target e job c))"
  using run_stop_on [of c e job] by (auto simp: stop_target_def call_on_refl split: option.split prod.split sum.split)

lemma settle_on: "status \<noteq> ''accepted'' \<Longrightarrow> carries_on db (settle_operation now oid status res db)"
  unfolding settle_operation_def by (rule update_carries_on) (simp_all add: op_later_def)

lemma publish_on: "carries_on db (publish_end now job status db)"
  by (simp add: publish_end_def append_carries_on carries_on_refl)

lemma done_on: "status \<noteq> ''accepted'' \<Longrightarrow> carries_on db (publish_end now job s (settle_operation now oid status res db))"
  by (rule carries_on_trans [OF settle_on publish_on])

lemma touch_on: "carries_on db (update_operations oid (\<lambda>r. r\<lparr>op_updated := now\<rparr>) db)"
  by (rule update_carries_on) (simp_all add: op_later_def)

lemma reconcile_on: "call_on c (reconcile_stop_intent e msg r c)"
proof -
  have e1: "carries_on db (update_operations oid (\<lambda>r. r\<lparr>op_status := ''failed'', op_error := x\<rparr>) db)"
    and e2: "carries_on db (update_operations oid (\<lambda>r. r\<lparr>op_status := ''failed'', op_error := x, op_updated := now\<rparr>) db)"
    and e3: "carries_on db (update_operations oid (\<lambda>r. r\<lparr>op_error := x, op_updated := now\<rparr>) db)" for db oid x now
    by (rule update_carries_on; simp add: op_later_def)+
  show ?thesis
    unfolding reconcile_stop_intent_def Let_def
    by (auto intro!: write_commit_on e1 e2 e3 done_on call_bind' run_stop_on split: option.split sum.split)
qed

lemma try_status_on: "status \<noteq> ''accepted'' \<Longrightarrow> carries_on db (try_status now oid status db)"
  by (auto simp: try_status_def carries_on_refl dest: status_carries_on split: sum.split)

lemma try_statuses_on:
  "''accepted'' \<notin> set ss \<Longrightarrow> carries_on db (fold (try_status now oid) ss db)"
proof (induction ss arbitrary: db)
  case (Cons s ss)
  then show ?case using carries_on_trans [OF try_status_on Cons.IH] by auto
qed (simp add: carries_on_refl)

lemma converge_steps_on: "status \<noteq> ''accepted'' \<Longrightarrow> carries_on db (converge_steps now oid status db)"
proof -
  assume n: "status \<noteq> ''accepted''"
  have "''accepted'' \<notin> set (steps_to s)" for s by (simp add: steps_to_def)
  with n have "''accepted'' \<notin> set ((case map_option op_status (operation_by_id db oid) of None \<Rightarrow> [] | Some s \<Rightarrow> steps_to s) @ [status])"
    by (simp split: option.split)
  from try_statuses_on [OF this] show ?thesis
    unfolding converge_steps_def Let_def by (simp only: carries_on_refl if_split simp_thms)
qed

lemma converge_on: "terminal status \<Longrightarrow> call_on c (snd (converge_terminal e oid job status c))"
proof -
  assume "terminal status"
  then have n: "status \<noteq> ''accepted''" by (auto simp: terminal_iff)
  have k: "carries_on (view c) (snd (append_in_tx now kind j p (converge_steps (re_now e) oid status (view c))))" for now kind j p
    by (rule carries_on_trans [OF converge_steps_on [OF n] append_carries_on])
  show ?thesis
    unfolding converge_terminal_def
  proof (rule in_tx_on)
    fix a db'
    assume "converge_body (re_now e) oid job status (view c) = Inr (a, db')"
    then show "carries_on (view c) db'"
      using k unfolding converge_body_def Let_def by (metis Inl_Inr_False Inr_inject Pair_inject)
  qed
qed

lemma launch_op_on: "call_on c (snd (launch_op e r job c))"
proof -
  let ?p = "on_host (prepare_launch (pe_token (re_policy e) job) (re_now e) job)" let ?l = "on_host (launch_prepared (re_policy e) job)"
  have p: "call_on c (snd (?p c))" by (rule on_host_on) (rule has_row_claim)
  have l: "call_on d (snd (?l d))" for d by (rule on_host_on) (rule has_row_launch)
  let ?m = "\<lambda>c2. if op_status r = ''queued'' then unit_of (set_status e (op_id r) ''launched'' c2) else (Inr (), c2)"
  have m: "call_on d (snd (?m d))" for d by (simp add: set_status_on call_on_refl)
  have f: "call_on d (snd (if terminal s then converge_terminal e (op_id r) job s d
      else if s = ''running'' then unit_of (set_status e (op_id r) ''running'' d) else (Inr (), d)))" for s d
    by (simp add: converge_on set_status_on call_on_refl)
  show ?thesis
    unfolding launch_op_def
  proof (rule call_bind [OF p])
    fix x c1
    show "call_on c1 (snd (case x of Inl x \<Rightarrow> (Inl x, c1) | Inr None \<Rightarrow> unit_of (set_status e (op_id r) ''failed'' c1)
      | Inr (Some y) \<Rightarrow> (case ?l c1 of
             (Inl x, c2) \<Rightarrow> (Inl x, c2)
           | (Inr (Inl x), c2) \<Rightarrow> (Inl (Host x), c2)
           | (Inr (Inr (status, _)), c2) \<Rightarrow>
               (case ?m c2 of
                  (Inl x, c3) \<Rightarrow> (Inl x, c3)
                | (Inr _, c3) \<Rightarrow>
                    if terminal status then converge_terminal e (op_id r) job status c3
                    else if status = ''running'' then unit_of (set_status e (op_id r) ''running'' c3)
                    else (Inr (), c3)))))"
      by (auto intro!: call_bind l m f call_on_refl set_status_on simp del: snd_conv split: sum.split option.split)
         (auto intro: call_on_refl converge_on)
  qed
qed

lemma cancel_gated_on: "carries_on db (cancel_gated now job db)"
  unfolding cancel_gated_def
proof (rule host_carries_on)
  fix j
  have "map jb_id (jobs (snd (update_jobs P (\<lambda>r. r\<lparr>jb_status := ''cancelled'', jb_ended := Some now, jb_updated := now\<rparr>) h)))
      = map jb_id (jobs h)" for P h by (simp add: map_upd_same)
  from arg_cong [OF this, of set] show "has_row j (host db) \<Longrightarrow>
    has_row j (snd (update_jobs (\<lambda>r. jb_id r = job \<and> jb_status r = ''queued'')
      (\<lambda>r. r\<lparr>jb_status := ''cancelled'', jb_ended := Some now, jb_updated := now\<rparr>) (host db)))"
    by (simp add: has_row_def)
qed

lemma dispatch_job_on: "call_on c (snd (dispatch_job e r job c))"
proof -
  have "call_on c (snd (set_status e (op_id r) ''failed'' (dml (cancel_gated (re_now e) job) c)))"
    by (rule call_on_trans [OF dml_on [where f = "cancel_gated (re_now e) job", OF cancel_gated_on] set_status_on]) simp
  then show ?thesis
    by (simp add: dispatch_job_def Let_def converge_on set_status_on launch_op_on call_on_refl split: gate.split)
qed

lemma dispatch_op_on: "call_on c (dispatch_op e msg r c)"
  by (simp add: dispatch_op_def reconcile_on set_status_on dispatch_job_on split: option.split)

lemma fold_on: "(\<And>x d. call_on d (f x d)) \<Longrightarrow> call_on c (fold f xs c)"
proof (induction xs arbitrary: c)
  case (Cons x xs)
  from call_on_trans [OF Cons.prems [where x = x and d = c] Cons.IH [where c = "f x c"]] Cons.prems show ?case by simp
qed (simp add: call_on_refl)

lemma dispatch_on: "call_on c (dispatch_queued_ops es msg c)"
  unfolding dispatch_queued_ops_def by (rule fold_on) (auto intro: dispatch_op_on split: prod.split)

lemma sync_on: "call_on c (sync_terminal_ops e c)"
  unfolding sync_terminal_ops_def
  by (rule fold_on) (auto simp: sync_op_def call_on_refl intro: converge_on split: option.split)

lemma mark_on: "call_on c (mark_terminal_from_job e job status c)"
  by (auto simp: mark_terminal_from_job_def call_on_refl intro: converge_on split: option.split)

lemma epoch_on: "call_on c (snd (in_tx (\<lambda>db. stored (set_remote_epoch n db)) c))"
proof (rule in_tx_on)
  fix a db'
  assume s: "stored (set_remote_epoch n (view c)) = Inr (a, db')"
  then have e: "set_remote_epoch n (view c) = Inr ((), db')" by (auto simp: stored_def split: sum.splits)
  then show "carries_on (view c) db'"
    using set_remote_epoch_ok [OF _ e]
    by (auto simp: carries_on_def set_remote_epoch_def list_all2_refl op_later_refl split: if_splits)
qed

section \<open>Accepting a start\<close>

lemma origins_append:
  assumes "starts_ok db" "oid \<notin> op_id ` set (operations db)" "\<not> has_row job (host db)"
  shows "del (\<lambda>r. og_op r = oid \<or> og_job r = job) (origins db) = origins db"
  using assms by (auto simp: starts_ok_def del_def filter_id_conv)

lemma accept_job_parts:
  assumes "accept_job e key oid p d1 = Inr db'"
  obtains og d2 q d4 where "insert_queued_job (re_job e) (re_now e) p d1 = Inr d2"
    "update_operation_status (re_now e) oid ''queued'' None (record_queued_job (re_now e) oid (re_job e) og d2) = Inr (q, d4)"
    "db' = snd (append_in_tx (re_now e) ''job.upsert'' (Some (re_job e))
            (Some (JObj [(''job_id'', JStr (re_job e)), (''status'', JStr ''queued'')])) d4)"
proof -
  obtain og where og: "''remote:'' @ key = og" by blast
  note a = assms [unfolded accept_job_def og]
  obtain d2 where d2: "insert_queued_job (re_job e) (re_now e) p d1 = Inr d2"
    using a by (cases "insert_queued_job (re_job e) (re_now e) p d1") (simp_all add: ebind_def)
  let ?u = "update_operation_status (re_now e) oid ''queued'' None (record_queued_job (re_now e) oid (re_job e) og d2)"
  obtain z where z: "?u = Inr z" using a d2 by (cases ?u) (simp_all add: ebind_def stored_def)
  then show thesis
    using that [OF d2, of og "fst z" "snd z"] a d2 by (simp add: ebind_def stored_def case_prod_beta)
qed

lemma start_body_new:
  assumes "starts_ok db" "record_operation (re_op e) (re_now e) key mth p digest db = Inr (r, db\<lparr>operations := operations db @ [r]\<rparr>)"
    and "find_operation db key = None" "op_key r = key" "op_digest r = digest" "op_method r \<noteq> ''job.stop''"
    and "op_id r \<notin> op_id ` set (operations db)"
    and "accept_job e key (op_id r) p (db\<lparr>operations := operations db @ [r]\<rparr>) = Inr db'"
  shows "starts_ok db' \<and> starts db' = (starts db)(key \<mapsto> (digest, Some (re_job e)))"
proof -
  let ?d1 = "db\<lparr>operations := operations db @ [r]\<rparr>" let ?oid = "op_id r" let ?job = "re_job e" let ?now = "re_now e"
  have ok: "remote_ok db" using assms(1) by (simp add: starts_ok_def)
  have ok1: "remote_ok ?d1" using record_operation_ok [OF ok assms(2)] by simp
  obtain og d2 q d4 where d2: "insert_queued_job ?job ?now p ?d1 = Inr d2"
    and u: "update_operation_status ?now ?oid ''queued'' None (record_queued_job ?now ?oid ?job og d2) = Inr (q, d4)"
    and db': "db' = snd (append_in_tx ?now ''job.upsert'' (Some ?job)
            (Some (JObj [(''job_id'', JStr ?job), (''status'', JStr ''queued'')])) d4)"
    by (rule accept_job_parts [OF assms(8)])
  have none: "\<not> has_row ?job (host db)"
    and d2': "d2 = ?d1\<lparr>host := (host db)\<lparr>jobs := jobs (host db) @ [queued_job ?job ?now p]\<rparr>\<rparr>"
    using d2 by (auto simp: insert_queued_job_def host_job_def has_row_iff split: if_splits)
  let ?d3 = "record_queued_job ?now ?oid ?job og d2"
  let ?new = "\<lparr>og_op = ?oid, og_job = ?job, og_origin = og, og_intent = ''queued'', og_created = ?now\<rparr>"
  have o3: "origins ?d3 = origins db @ [?new]" and p3: "operations ?d3 = operations db @ [r]"
    and h3: "\<And>j. has_row j (host ?d3) \<longleftrightarrow> has_row j (host db) \<or> j = ?job"
    using origins_append [OF assms(1,7) none]
    by (auto simp: record_queued_job_def d2' has_row_def queued_job_def)
  have ok3: "remote_ok ?d3"
    using ok1 by (intro record_queued_job_ok) (auto simp: d2' remote_ok_def get_feed_epoch_def)
  let ?f = "\<lambda>r. r\<lparr>op_status := ''queued'', op_payload := op_payload r, op_updated := ?now\<rparr>"
  from u have d4: "d4 = update_operations ?oid ?f ?d3"
    by (auto simp: update_operation_status_def ebind_def Let_def split: option.splits sum.splits)
  have ok4: "remote_ok d4" unfolding d4 by (rule update_operations_ok [OF _ ok3]) simp
  have c: "carries_on ?d3 db'"
    unfolding db' by (rule carries_on_trans [OF status_carries_on [OF u] append_carries_on]) simp
  have find: "get_remote_job_origin_op (op_id s) ?d3 = get_remote_job_origin_op (op_id s) db" if "s \<in> set (operations db)" for s
    using assms(7) that by (auto simp: get_remote_job_origin_op_def o3 find_append split: option.split)
  have "starts ?d3 = (starts db)(key \<mapsto> (digest, Some ?job))"
  proof
    fix k
    have o1: "get_remote_job_origin_op ?oid ?d3 = Some ?job"
    proof -
      have "og_op x \<noteq> ?oid" if "x \<in> set (origins db)" for x
      proof
        assume "og_op x = ?oid"
        moreover have "og_op x \<in> op_id ` set (operations db)" using assms(1) that by (simp add: starts_ok_def)
        ultimately show False using assms(7) by simp
      qed
      then have "find (\<lambda>x. og_op x = ?oid) (origins db) = None" by (simp add: find_None_iff)
      then show ?thesis by (simp add: get_remote_job_origin_op_def o3 find_append)
    qed
    show "starts ?d3 k = ((starts db)(key \<mapsto> (digest, Some ?job))) k"
    proof (cases "find_operation db k")
      case None
      then show ?thesis
        using assms(3-6) o1 by (simp add: starts_def find_operation_def p3 find_append)
    next
      case (Some s)
      then have s: "s \<in> set (operations db)" by (simp add: find_operation_iff [OF ok])
      have "k \<noteq> key" using Some assms(3) by auto
      with Some show ?thesis
        using find [OF s] by (simp add: starts_def find_operation_def p3 find_append)
    qed
  qed
  moreover have "starts_ok db'"
  proof -
    have m: "op_method x = ''job.stop'' \<or> op_status x \<noteq> ''accepted'' \<and> (\<exists>o1 \<in> set (origins d4). og_op o1 = op_id x)"
      if "x \<in> set (operations d4)" for x
    proof -
      have "x \<in> set (upd (\<lambda>y. op_id y = ?oid) ?f (operations db @ [r]))" using that by (simp add: d4 p3)
      then obtain y where y: "y \<in> set (operations db @ [r])" "x = (if op_id y = ?oid then ?f y else y)"
        unfolding in_set_upd by blast
      show ?thesis
      proof (cases "op_id y = ?oid")
        case True
        then show ?thesis using y by (auto simp: d4 o3)
      next
        case False
        then have "y \<in> set (operations db)" "x = y" using y by auto
        then show ?thesis using assms(1) by (auto simp: starts_ok_def d4 o3)
      qed
    qed
    have i: "op_id ` set (operations d4) = insert ?oid (op_id ` set (operations db))"
      using arg_cong [OF later_ids, of "operations ?d3" "operations d4" set] status_carries_on [OF u]
      by (auto simp: carries_on_def p3)
    have "origins d4 = origins db @ [?new]" "\<And>j. has_row j (host d4) \<longleftrightarrow> has_row j (host db) \<or> j = ?job"
      by (simp_all add: d4 o3 h3)
    then have "starts_ok d4"
      using ok4 m assms(1) by (auto simp: starts_ok_def i)
    then show ?thesis unfolding db' by (rule carries_on_ok [OF append_carries_on])
  qed
  ultimately show ?thesis using carries_on_starts [OF c] by simp
qed

lemma start_body_parts:
  assumes "start_body e key mth p digest db = Inr ((op, replayed, job), db')"
  obtains d1 where "record_operation (re_op e) (re_now e) key mth p digest db = Inr (op, d1)"
    "(op_status op \<noteq> ''accepted'' \<and> replayed \<and> job = get_remote_job_origin_op (op_id op) d1 \<and> db' = d1)
      \<or> (op_status op = ''accepted'' \<and> \<not> replayed \<and> job = Some (re_job e) \<and> accept_job e key (op_id op) p d1 = Inr db')"
  using assms by (auto simp: start_body_def ebind_def stored_def split: sum.splits if_splits)

lemma start_body_once:
  assumes "starts_ok db" "start_body e key mth p digest db = Inr ((op, replayed, job), db')" "mth \<noteq> ''job.stop''"
    and "\<And>r. find_operation db key = Some r \<Longrightarrow> op_digest r = digest \<Longrightarrow> op_method r \<noteq> ''job.stop''"
  shows "starts_ok db' \<and> starts db' = start_once key digest (re_job e) (starts db)
    \<and> starts db' key = Some (digest, job) \<and> (replayed \<longleftrightarrow> starts db key \<noteq> None)"
proof -
  have ok: "remote_ok db" using assms(1) by (simp add: starts_ok_def)
  from start_body_parts [OF assms(2)] obtain d1 where rec: "record_operation (re_op e) (re_now e) key mth p digest db = Inr (op, d1)"
    and st: "(op_status op \<noteq> ''accepted'' \<and> replayed \<and> job = get_remote_job_origin_op (op_id op) d1 \<and> db' = d1)
      \<or> (op_status op = ''accepted'' \<and> \<not> replayed \<and> job = Some (re_job e) \<and> accept_job e key (op_id op) p d1 = Inr db')" .
  from rec show ?thesis
  proof (cases rule: record_operation_cases)
    case (hit r)
    then have r: "op = r" "d1 = db" by simp_all
    have m: "op_method r \<noteq> ''job.stop''" using assms(4) hit by blast
    moreover have "r \<in> set (operations db)" using hit(1) by (simp add: find_operation_iff [OF ok])
    ultimately have "op_status r \<noteq> ''accepted''" using assms(1) by (auto simp: starts_ok_def)
    with st have s: "replayed" "job = get_remote_job_origin_op (op_id r) db" "db' = db" by (simp_all add: r)
    have "starts db key = Some (digest, job)" using hit m s by (simp add: starts_def)
    with s assms(1) show ?thesis by (simp add: start_once_def)
  next
    case (new r)
    then have r: "op = r" "d1 = db\<lparr>operations := operations db @ [r]\<rparr>" by simp_all
    have n: "starts db key = None" using new(1) by (simp add: starts_def)
    from st new(4) have s: "\<not> replayed" "job = Some (re_job e)" "accept_job e key (op_id r) p (db\<lparr>operations := operations db @ [r]\<rparr>) = Inr db'"
      by (simp_all add: r)
    have "op_method r \<noteq> ''job.stop''" using new(8) assms(3) by simp
    from start_body_new [OF assms(1) rec [unfolded r] new(1-3) this _ s(3)] new(5,6) have
      "starts_ok db' \<and> starts db' = (starts db)(key \<mapsto> (digest, Some (re_job e)))" by simp
    with n s show ?thesis by (simp add: start_once_def)
  next
    case (error x)
    then show ?thesis by simp
  qed
qed

section \<open>The refinement\<close>

definition same_digest_same_method :: "string \<Rightarrow> string \<Rightarrow> remote_db \<Rightarrow> bool" where
  "same_digest_same_method key digest db =
     (\<forall>r \<in> set (operations db). op_key r = key \<and> op_digest r = digest \<longrightarrow> op_method r \<noteq> ''job.stop'')"

lemma start_cases:
  fixes e :: remote_env and payload :: obj
  assumes "starts_ok (view c)" "mth \<noteq> ''job.stop''" "same_digest_same_method key digest (view c)"
  defines "u \<equiv> handle_start_or_rerun e mth payload key digest c"
  shows "starts_ok (view (snd u))
    \<and> (starts (view (snd u)) = starts (view c)
       \<or> starts (view (snd u)) = start_once key digest (re_job e) (starts (view c)))
    \<and> (\<forall>x. fst u = Inl x \<longrightarrow> snd u = c)
    \<and> (\<forall>reply. fst u = Inr reply \<longrightarrow> dget reply ''status'' \<noteq> JStr ''error'' \<longrightarrow>
         starts (view (snd u)) = start_once key digest (re_job e) (starts (view c))
         \<and> (\<exists>job. starts (view (snd u)) key = Some (digest, job) \<and> dget reply ''job_id'' = jstr_opt job))"
proof -
  have ok: "remote_ok (view c)" using assms(1) by (simp add: starts_ok_def)
  have nc: "op_method r \<noteq> ''job.stop''" if "find_operation (view c) key = Some r" "op_digest r = digest" for r
    using assms(3) that by (auto simp: same_digest_same_method_def find_operation_iff [OF ok])
  consider (refused) x where "u = (Inl x, c)"
    | (unknown) reply where "u = (Inr reply, c)" "dget reply ''status'' = JStr ''error''"
    | (accepted) p op replayed job c' where "in_tx (start_body e key mth p digest) c = (Inr (op, replayed, job), c')"
        "u = (Inr (start_reply op replayed job), c')"
  proof (cases "run_payload mth payload (view c)")
    case (Inl x)
    then show thesis by (intro refused [of x]) (simp add: u_def handle_start_or_rerun_def)
  next
    case (Inr po)
    show thesis
    proof (cases po)
      case None
      with Inr show thesis
        by (intro unknown [of "unknown_reply payload"]) (simp_all add: u_def handle_start_or_rerun_def unknown_reply_def dget_def)
    next
      case (Some p)
      show thesis
      proof (cases "in_tx (start_body e key mth p digest) c")
        case (Pair y c')
        show thesis
        proof (cases y)
          case (Inl x)
          then have "c' = c" using Pair by (auto simp: in_tx_def split: if_splits sum.splits)
          with Inl Pair \<open>run_payload _ _ _ = Inr po\<close> Some show thesis
            by (intro refused [of x]) (simp add: u_def handle_start_or_rerun_def)
        next
          case (Inr z)
          obtain op replayed job where z: "z = (op, replayed, job)" by (cases z)
          with Inr Pair \<open>run_payload _ _ _ = Inr po\<close> Some show thesis
            by (intro accepted [of p op replayed job c']) (simp_all add: u_def handle_start_or_rerun_def)
        qed
      qed
    qed
  qed
  then show ?thesis
  proof cases
    case refused
    with assms(1) show ?thesis by simp
  next
    case unknown
    with assms(1) show ?thesis by simp
  next
    case accepted
    then have b: "start_body e key mth p digest (view c) = Inr ((op, replayed, job), view c')"
      by (auto simp: in_tx_def view_def split: sum.splits if_splits)
    from start_body_once [OF assms(1) b assms(2) nc] accepted(2) show ?thesis
      by (auto simp: start_reply_def dget_def)
  qed
qed

text \<open>
  \<open>S\<close> are the digests of start and rerun requests; a stop has another one, as the mth is part of what
  is digested.
\<close>

definition digests_apart :: "string set \<Rightarrow> remote_db \<Rightarrow> bool" where
  "digests_apart S db = (\<forall>r \<in> set (operations db). op_digest r \<in> S \<longrightarrow> op_method r \<noteq> ''job.stop'')"

fun call_apart :: "string set \<Rightarrow> remote_call \<Rightarrow> bool" where
  "call_apart S (Start mth payload key digest) = (mth \<noteq> ''job.stop'' \<and> digest \<in> S)"
| "call_apart S (Stop payload key digest) = (digest \<notin> S)"
| "call_apart S _ = True"

lemma apart_same: "digests_apart S db \<Longrightarrow> digest \<in> S \<Longrightarrow> same_digest_same_method key digest db"
  by (auto simp: digests_apart_def same_digest_same_method_def)

lemma later_apart: "carries_on db db' \<Longrightarrow> digests_apart S db \<Longrightarrow> digests_apart S db'"
  unfolding digests_apart_def carries_on_def by (metis later_back op_later_def)

lemma call_keeps:
  "call_on c c' \<Longrightarrow> starts_ok (view c) \<Longrightarrow> digests_apart S (view c) \<Longrightarrow>
   starts_ok (view c') \<and> digests_apart S (view c') \<and> starts (view c') = starts (view c)"
  unfolding call_on_def using carries_on_ok carries_on_starts later_apart by blast

lemma record_op_keeps:
  assumes "record_operation fresh now key mth p digest db = Inr (r, db')" "remote_ok db"
    and "digests_apart S db" "digest \<in> S \<longrightarrow> mth \<noteq> ''job.stop''"
  shows "digests_apart S db'"
  using assms(1)
proof (cases rule: record_operation_cases)
  case (new q)
  then show ?thesis using assms(3,4) by (auto simp: digests_apart_def)
qed (use assms(3) in auto)

lemma record_stop:
  assumes "record_operation fresh now key ''job.stop'' p digest db = Inr (r, db')" "starts_ok db"
  shows "starts_ok db' \<and> starts db' = starts db"
  using assms(1)
proof (cases rule: record_operation_cases)
  case (new q)
  have "remote_ok db" using assms(2) by (simp add: starts_ok_def)
  from record_operation_ok [OF this assms(1)] have ok: "remote_ok db'" by blast
  have "starts db' k = starts db k" for k
    using new by (simp add: starts_def find_operation_append get_remote_job_origin_op_def split: option.split)
  moreover have "starts_ok db'" using ok new assms(2) by (auto simp: starts_ok_def)
  ultimately show ?thesis by auto
qed (use assms(2) in auto)

lemma execute_stop_on: "call_on c (snd (execute_stop e oid job c))"
proof -
  have u: "call_on d (snd (in_tx (\<lambda>db. Inr ((), f db)) d))" if "\<And>db. carries_on db (f db)" for f d
    by (rule in_tx_on) (use that in auto)
  show ?thesis
    unfolding execute_stop_def Let_def
    by (rule call_bind [OF stop_target_on])
       (auto intro!: call_bind u touch_on settle_on done_on call_on_refl split: sum.split option.split)
qed

lemma stop_keeps:
  fixes e :: remote_env and payload :: obj and key :: string
  assumes "starts_ok (view c)" "digests_apart S (view c)" "digest \<notin> S"
  defines "c' \<equiv> snd (handle_stop e payload key digest c)"
  shows "starts_ok (view c') \<and> digests_apart S (view c') \<and> starts (view c') = starts (view c)"
proof -
  let ?rec = "in_tx (\<lambda>db. stored (record_operation (re_op e) (re_now e) key ''job.stop'' payload digest db)) c"
  obtain x c1 where rec: "?rec = (x, c1)" by (cases ?rec)
  have c1: "starts_ok (view c1) \<and> digests_apart S (view c1) \<and> starts (view c1) = starts (view c)"
  proof (cases "record_operation (re_op e) (re_now e) key ''job.stop'' payload digest (view c)")
    case (Inl y)
    then show ?thesis using rec assms(1,2) by (auto simp: in_tx_def stored_def view_def split: if_splits)
  next
    case (Inr z)
    obtain op db' where z: "z = (op, db')" by (cases z)
    have "remote_ok (view c)" using assms(1) by (simp add: starts_ok_def)
    with record_stop record_op_keeps [where S = S] Inr assms(1-3) z
    have "starts_ok db' \<and> digests_apart S db' \<and> starts db' = starts (view c)" by blast
    then show ?thesis
      using rec Inr assms(1,2) by (auto simp: in_tx_def stored_def view_def z split: if_splits option.splits)
  qed
  have "call_on c1 c'"
    using rec execute_stop_on by (cases x) (simp_all add: c'_def handle_stop_def call_on_refl)
  from call_keeps [OF this] c1 show ?thesis by auto
qed

lemma step_keeps:
  assumes "starts_ok (view c)" "digests_apart S (view c)" "call_apart S k"
  shows "starts_ok (view (remote_step es k c)) \<and> digests_apart S (view (remote_step es k c))
    \<and> (case k of
         Start mth payload key digest \<Rightarrow>
           starts (view (remote_step es k c)) \<in> {starts (view c), start_once key digest (re_job (es 0)) (starts (view c))}
       | _ \<Rightarrow> starts (view (remote_step es k c)) = starts (view c))"
proof (cases k)
  case (Start mth payload key digest)
  let ?u = "handle_start_or_rerun (es 0) mth payload key digest c"
  have m: "mth \<noteq> ''job.stop''" "digest \<in> S" using assms(3) Start by simp_all
  from start_cases [OF assms(1) m(1) apart_same [OF assms(2) m(2)]]
  have "starts_ok (view (snd ?u))" "starts (view (snd ?u)) \<in> {starts (view c), start_once key digest (re_job (es 0)) (starts (view c))}"
    by blast+
  moreover have "digests_apart S (view (snd ?u))"
  proof -
    have "view (snd ?u) = view c \<or> (\<exists>p r. start_body (es 0) key mth p digest (view c) = Inr (r, view (snd ?u)))"
      by (auto simp: handle_start_or_rerun_def in_tx_def view_def case_prod_beta split: sum.split option.split)
    moreover have "digests_apart S db'" if "start_body (es 0) key mth p digest (view c) = Inr (r, db')" for p r db'
    proof -
      obtain op replayed job where "r = (op, replayed, job)" by (cases r)
      with start_body_parts [OF that [unfolded this]] obtain d1 where
        rec: "record_operation (re_op (es 0)) (re_now (es 0)) key mth p digest (view c) = Inr (op, d1)"
        and st: "db' = d1 \<or> accept_job (es 0) key (op_id op) p d1 = Inr db'" by blast
      have "digests_apart S d1"
        using record_op_keeps [OF rec _ assms(2)] m assms(1) by (simp add: starts_ok_def)
      moreover have "digests_apart S db'" if acc: "accept_job (es 0) key (op_id op) p d1 = Inr db'"
      proof -
        obtain og d2 q d4 where i: "insert_queued_job (re_job (es 0)) (re_now (es 0)) p d1 = Inr d2"
          and u: "update_operation_status (re_now (es 0)) (op_id op) ''queued'' None
             (record_queued_job (re_now (es 0)) (op_id op) (re_job (es 0)) og d2) = Inr (q, d4)"
          and d: "db' = snd (append_in_tx (re_now (es 0)) ''job.upsert'' (Some (re_job (es 0)))
            (Some (JObj [(''job_id'', JStr (re_job (es 0))), (''status'', JStr ''queued'')])) d4)"
          by (rule accept_job_parts [OF acc])
        have "carries_on d4 db'" unfolding d by (rule append_carries_on)
        moreover have "carries_on (record_queued_job (re_now (es 0)) (op_id op) (re_job (es 0)) og d2) d4"
          by (rule status_carries_on [OF u]) simp
        moreover have "digests_apart S (record_queued_job (re_now (es 0)) (op_id op) (re_job (es 0)) og d2)"
          using i \<open>digests_apart S d1\<close>
          by (auto simp: insert_queued_job_def record_queued_job_def digests_apart_def split: if_splits)
        ultimately show ?thesis using later_apart by blast
      qed
      ultimately show ?thesis using st by blast
    qed
    ultimately show ?thesis using assms(2) by metis
  qed
  ultimately show ?thesis by (simp add: Start remote_step_def)
next
  case (Stop payload key digest)
  from stop_keeps [OF assms(1,2)] assms(3) Stop show ?thesis by (simp add: remote_step_def)
next
  case (Dispatch msg)
  from call_keeps [OF dispatch_on assms(1,2)] show ?thesis by (simp add: Dispatch remote_step_def)
next
  case Sync
  from call_keeps [OF sync_on assms(1,2)] show ?thesis by (simp add: Sync remote_step_def)
next
  case (Mark job status)
  from call_keeps [OF mark_on assms(1,2)] show ?thesis by (simp add: Mark remote_step_def)
next
  case (SetEpoch n)
  from call_keeps [OF epoch_on assms(1,2)] show ?thesis by (simp add: SetEpoch remote_step_def)
next
  case (Jobs cs)
  have "call_on c (snd (on_host (\<lambda>h. ((), jobs_do cs h)) c))" by (rule on_host_on) (simp add: has_row_step)
  from call_keeps [OF this assms(1,2)] show ?thesis by (simp add: Jobs remote_step_def)
qed

fun remote_run :: "((nat \<Rightarrow> remote_env) \<times> remote_call) list \<Rightarrow> conn \<Rightarrow> conn" where
  "remote_run [] c = c"
| "remote_run ((es, k) # ks) c = remote_run ks (remote_step es k c)"

lemma remote_run_keeps:
  "starts_ok (view c) \<Longrightarrow> digests_apart S (view c) \<Longrightarrow> \<forall>(es, k) \<in> set ks. call_apart S k \<Longrightarrow>
   starts_ok (view (remote_run ks c)) \<and> digests_apart S (view (remote_run ks c))
   \<and> (\<forall>key x. starts (view c) key = Some x \<longrightarrow> starts (view (remote_run ks c)) key = Some x)"
proof (induction ks arbitrary: c)
  case (Cons q ks)
  obtain es k where q: "q = (es, k)" by (cases q)
  have k: "call_apart S k" using Cons.prems(3) q by simp
  note s = step_keeps [OF Cons.prems(1,2) k, of es]
  have "starts (view (remote_step es k c)) key = Some x" if "starts (view c) key = Some x" for key x
    using s that by (cases k) (auto simp: start_once_def)
  with Cons.IH [of "remote_step es k c"] s Cons.prems(3) show ?case by (auto simp: q)
qed simp


text \<open>
  A repeated start never starts a second job: after an accepted start or rerun, whatever requests,
  dispatcher passes and job events follow, the same request with the same key is answered with
  the same job, marked as a replay, and changes nothing.
\<close>

theorem repeated_start_same_job:
  assumes "starts_ok (view c)" "digests_apart S (view c)" "mth \<noteq> ''job.stop''" "digest \<in> S"
    and "handle_start_or_rerun e mth payload key digest c = (Inr reply, c1)" "dget reply ''status'' \<noteq> JStr ''error''"
    and "\<forall>(es, k) \<in> set ks. call_apart S k"
    and "pending (remote_run ks c1) = None" "run_payload mth payload (view (remote_run ks c1)) = Inr (Some p)"
  shows "\<exists>reply'. handle_start_or_rerun e' mth payload key digest (remote_run ks c1) = (Inr reply', remote_run ks c1)
    \<and> dget reply' ''job_id'' = dget reply ''job_id'' \<and> dget reply' ''replayed'' = JBool True"
proof -
  let ?c2 = "remote_run ks c1"
  note first = start_cases [OF assms(1,3) apart_same [OF assms(2,4)], of e payload key, unfolded assms(5)]
  then obtain job where j: "starts (view c1) key = Some (digest, job)" "dget reply ''job_id'' = jstr_opt job"
    using assms(6) by auto
  have "digests_apart S (view c1)" "starts_ok (view c1)"
    using step_keeps [OF assms(1,2), of "Start mth payload key digest" "\<lambda>_. e"] assms(3-5) by (simp_all add: remote_step_def)
  from remote_run_keeps [OF this(2,1) assms(7)] j
  have ok2: "starts_ok (view ?c2)" "digests_apart S (view ?c2)" and k2: "starts (view ?c2) key = Some (digest, job)" by blast+
  have v: "view ?c2 = committed ?c2" using assms(8) by (simp add: view_def)
  from k2 obtain r where r: "find_operation (view ?c2) key = Some r" "op_method r \<noteq> ''job.stop''" "op_digest r = digest"
    "job = get_remote_job_origin_op (op_id r) (view ?c2)"
    by (auto simp: starts_def split: option.splits if_splits)
  have "r \<in> set (operations (view ?c2))"
    using r(1) ok2(1) by (simp add: find_operation_iff starts_ok_def)
  then have st: "op_status r \<noteq> ''accepted''" using ok2(1) r(2) by (auto simp: starts_ok_def)
  have "record_operation (re_op e') (re_now e') key mth p digest (view ?c2) = Inr (r, view ?c2)"
    using r(1,3) by (simp add: record_operation_def)
  then have "start_body e' key mth p digest (committed ?c2) = Inr ((r, True, job), committed ?c2)"
    using st r(4) by (simp add: start_body_def stored_def ebind_def v)
  then have "in_tx (start_body e' key mth p digest) ?c2 = (Inr (r, True, job), ?c2)"
    using assms(8) by (simp add: in_tx_def)
  then have "handle_start_or_rerun e' mth payload key digest ?c2 = (Inr (start_reply r True job), ?c2)"
    using assms(9) by (simp add: handle_start_or_rerun_def)
  then show ?thesis using j(2) by (simp add: start_reply_def dget_def)
qed

section \<open>A small host\<close>

definition demo_host :: conn where
  "demo_host = \<lparr>committed = \<lparr>operations = [], op_tombstones = [], origins = [], feed = [], feed_last = 0,
     rs_state_epoch = 1, rs_feed_epoch = 1, rs_instance = ''vri_1'', host = demo_jobs\<rparr>, pending = None\<rparr>"

definition demo_remote_env :: "string \<Rightarrow> string \<Rightarrow> remote_env" where
  "demo_remote_env oid job = \<lparr>re_policy = demo_policy_env (Inr 7) 10 ''c9'', re_stop = (\<lambda>job. demo_stop True False),
     re_op = oid, re_job = job\<rparr>"

definition demo_start :: obj where
  "demo_start = [(''command'', JStr ''make'')]"

lemma demo_host_ok: "starts_ok (view demo_host)" "digests_apart {''d1''} (view demo_host)"
  by (simp_all add: starts_ok_def digests_apart_def remote_ok_def demo_host_def view_def)

lemma demo_started:
  "handle_start_or_rerun (demo_remote_env ''op1'' ''job_1'') ''job.start'' demo_start ''key-0001'' ''d1'' demo_host
   = (Inr [(''op_id'', JStr ''op1''), (''job_id'', JStr ''job_1''), (''status'', JStr ''queued'')],
      snd (handle_start_or_rerun (demo_remote_env ''op1'' ''job_1'') ''job.start'' demo_start ''key-0001'' ''d1'' demo_host))"
proof -
  have "fst (handle_start_or_rerun (demo_remote_env ''op1'' ''job_1'') ''job.start'' demo_start ''key-0001'' ''d1'' demo_host)
     = Inr [(''op_id'', JStr ''op1''), (''job_id'', JStr ''job_1''), (''status'', JStr ''queued'')]" by code_simp
  then show ?thesis by (simp add: prod_eq_iff)
qed


lemma repeated_start_same_job_witness:
  "\<exists>reply. fst (handle_start_or_rerun (demo_remote_env ''op2'' ''job_2'') ''job.start'' demo_start ''key-0001'' ''d1''
       (remote_run [(\<lambda>_. demo_remote_env ''op3'' ''job_3'', SetEpoch 2)]
         (snd (handle_start_or_rerun (demo_remote_env ''op1'' ''job_1'') ''job.start'' demo_start ''key-0001'' ''d1'' demo_host))))
     = Inr reply \<and> dget reply ''job_id'' = JStr ''job_1''"
proof -
  let ?c1 = "snd (handle_start_or_rerun (demo_remote_env ''op1'' ''job_1'') ''job.start'' demo_start ''key-0001'' ''d1'' demo_host)"
  let ?ks = "[(\<lambda>_. demo_remote_env ''op3'' ''job_3'', SetEpoch 2)]"
  let ?reply = "[(''op_id'', JStr ''op1''), (''job_id'', JStr ''job_1''), (''status'', JStr ''queued'')]"
  have p: "pending (remote_run ?ks ?c1) = None" by code_simp
  have r: "run_payload ''job.start'' demo_start db = Inr (Some demo_start)" for db
    by (simp add: run_payload_def demo_start_def has_key_def)
  have st: "dget ?reply ''status'' \<noteq> JStr ''error''" by (simp add: dget_def)
  have ks: "\<forall>(es, k) \<in> set ?ks. call_apart {''d1''} k" by simp
  have m: "''job.start'' \<noteq> ''job.stop''" "''d1'' \<in> {''d1''}" by simp_all
  from repeated_start_same_job [OF demo_host_ok m demo_started st ks p r, of "demo_remote_env ''op2'' ''job_2''"]
  obtain reply' where a: "handle_start_or_rerun (demo_remote_env ''op2'' ''job_2'') ''job.start'' demo_start ''key-0001'' ''d1'' (remote_run ?ks ?c1)
      = (Inr reply', remote_run ?ks ?c1)" "dget reply' ''job_id'' = dget ?reply ''job_id''"
    by blast
  have j: "dget ?reply ''job_id'' = JStr ''job_1''" by (simp add: dget_def)
  show ?thesis by (rule exI [of _ reply']) (simp only: a j fst_conv simp_thms)
qed

end
