(* ===== verification/RemoteConverge.thy ===== *)
theory RemoteConverge
  imports RemoteStarts
begin

text \<open>
  The end of a remote operation: when it converges to the end of its job, and how a cancelled trigger leaves
  the store of the host unusable.
\<close>

section \<open>Statuses through the machine\<close>

definition status_of :: "string \<Rightarrow> remote_db \<Rightarrow> string option" where
  "status_of oid db = map_option op_status (operation_by_id db oid)"

definition drive :: "string \<Rightarrow> string \<Rightarrow> string" where
  "drive s t = (case transition ''operation'' s t of Inl _ \<Rightarrow> s | Inr u \<Rightarrow> u)"

lemma operation_by_id_update:
  "(\<And>r. op_id (f r) = op_id r) \<Longrightarrow>
   operation_by_id (update_operations oid f db) oid = map_option f (operation_by_id db oid)"
  by (simp add: operation_by_id_def update_operations_def find_upd_key) (cases "find (\<lambda>r. op_id r = oid) (operations db)"; auto dest: find_SomeD)

lemma status_try: "status_of oid (try_status now oid t db) = map_option (\<lambda>s. drive s t) (status_of oid db)"
proof (cases "operation_by_id db oid")
  case None
  then show ?thesis by (simp add: status_of_def try_status_def update_operation_status_def)
next
  case (Some r)
  show ?thesis
  proof (cases "transition ''operation'' (op_status r) t")
    case (Inl x)
    with Some show ?thesis by (simp add: status_of_def try_status_def update_operation_status_def drive_def)
  next
    case (Inr u)
    then have "u = t" by (simp add: operation_table)
    let ?f = "\<lambda>r. r\<lparr>op_status := t, op_payload := op_payload r, op_updated := now\<rparr>"
    have "operation_by_id (update_operations oid ?f db) oid = Some (?f r)"
      using operation_by_id_update [of ?f oid db] Some by simp
    with Some Inr \<open>u = t\<close> show ?thesis
      by (simp add: status_of_def try_status_def update_operation_status_def drive_def Let_def)
  qed
qed

lemma status_fold: "status_of oid (fold (try_status now oid) ts db) = map_option (\<lambda>s. foldl drive s ts) (status_of oid db)"
proof (induction ts arbitrary: db)
  case (Cons t ts)
  show ?case by (cases "status_of oid db") (simp_all add: Cons status_try)
qed (simp add: option.map_ident)

lemma drive_ends:
  assumes "s \<in> {''accepted'', ''queued'', ''launched'', ''running''}"
  shows "t \<in> {''completed'', ''failed''} \<Longrightarrow> foldl drive s (steps_to s @ [t]) = t"
    and "t \<in> {''cancelled'', ''timeout'', ''orphaned''} \<Longrightarrow> foldl drive s (steps_to s @ [t]) = ''running''"
proof -
  have "\<forall>s \<in> set [''accepted'', ''queued'', ''launched'', ''running''].
      (\<forall>t \<in> set [''completed'', ''failed'']. foldl drive s (steps_to s @ [t]) = t)
      \<and> (\<forall>t \<in> set [''cancelled'', ''timeout'', ''orphaned'']. foldl drive s (steps_to s @ [t]) = ''running'')"
    by code_simp
  with assms show "t \<in> {''completed'', ''failed''} \<Longrightarrow> foldl drive s (steps_to s @ [t]) = t"
    "t \<in> {''cancelled'', ''timeout'', ''orphaned''} \<Longrightarrow> foldl drive s (steps_to s @ [t]) = ''running''"
    by auto
qed

lemma try_feed [simp]: "feed (try_status now oid t db) = feed db" "host (try_status now oid t db) = host db"
  "feed_last (try_status now oid t db) = feed_last db"
  by (auto simp: try_status_def update_operation_status_def ebind_def Let_def split: option.split sum.split)

lemma fold_try_feed [simp]: "feed (fold (try_status now oid) ts db) = feed db"
  "host (fold (try_status now oid) ts db) = host db" "feed_last (fold (try_status now oid) ts db) = feed_last db"
  by (induction ts arbitrary: db) simp_all

lemma status_append [simp]: "status_of oid (snd (append_in_tx now kind job p db)) = status_of oid db"
  by (simp add: status_of_def operation_by_id_def)

text \<open>
  C27. An operation converges to the end of its job exactly when the job completed or failed: then one
  transaction carries it through the machine to that status and appends one change to the feed with
  the row of the job.  For a job that was cancelled, timed out or was orphaned the machine has no such status:
  convergence raises and leaves the store as it was, and so does every pass of the dispatcher over the
  operation, so the controller never sees the end of the job in the feed.
\<close>

theorem operation_converges_iff:
  assumes "pending c = None" "status_of oid (view c) = Some s" "s \<in> {''accepted'', ''queued'', ''launched'', ''running''}"
    and "terminal status"
  shows "if status \<in> {''completed'', ''failed''}
    then \<exists>db row. converge_terminal e oid job status c = (Inr (), c\<lparr>committed := db\<rparr>)
      \<and> status_of oid db = Some status \<and> feed db = feed (view c) @ [row] \<and> fd_job row = Some job
      \<and> fd_kind row = ''job.upsert'' \<and> fd_payload row = job_upsert (view c) job status
    else converge_terminal e oid job status c = (Inl NotConverged, c)
      \<and> (\<forall>r msg q. op_id r = oid \<longrightarrow> op_method r \<noteq> ''job.stop'' \<longrightarrow> job \<noteq> [] \<longrightarrow>
           get_remote_job_origin_op oid (view c) = Some job \<longrightarrow> host_job (view c) job = Some q \<longrightarrow> jb_status q = status \<longrightarrow>
           dispatch_op e msg r c = c)"
proof -
  let ?db = "view c"
  have v: "committed c = ?db" using assms(1) by (simp add: view_def)
  have "s \<noteq> status"
    using assms(3,4) by (auto simp: terminal_iff)
  then have steps: "converge_steps (re_now e) oid status ?db = fold (try_status (re_now e) oid) (steps_to s @ [status]) ?db"
    unfolding converge_steps_def Let_def status_of_def [symmetric] assms(2) by simp
  let ?d1 = "fold (try_status (re_now e) oid) (steps_to s @ [status]) ?db"
  have st: "status_of oid ?d1 = Some (foldl drive s (steps_to s @ [status]))"
    unfolding status_fold assms(2) by simp
  have body: "converge_body (re_now e) oid job status ?db =
    (if foldl drive s (steps_to s @ [status]) \<noteq> status then Inl NotConverged
     else Inr ((), snd (append_in_tx (re_now e) ''job.upsert'' (Some job) (Some (job_upsert ?d1 job status)) ?d1)))"
    unfolding converge_body_def Let_def steps status_of_def [symmetric] st by simp
  have up: "job_upsert ?d1 job status = job_upsert ?db job status"
    by (simp add: job_upsert_def host_job_def del: fold_append)
  show ?thesis
  proof (cases "status \<in> {''completed'', ''failed''}")
    case True
    let ?d2 = "snd (append_in_tx (re_now e) ''job.upsert'' (Some job) (Some (job_upsert ?db job status)) ?d1)"
    from drive_ends(1) [OF assms(3) True] have "converge_terminal e oid job status c = (Inr (), c\<lparr>committed := ?d2\<rparr>)"
      by (simp add: converge_terminal_def in_tx_def assms(1) v body up del: fold_append)
    moreover have "status_of oid ?d2 = Some status"
      unfolding status_append st drive_ends(1) [OF assms(3) True] ..
    moreover have "\<exists>row. feed ?d2 = feed ?db @ [row] \<and> fd_job row = Some job \<and> fd_kind row = ''job.upsert''
        \<and> fd_payload row = job_upsert ?db job status"
      by (simp add: append_in_tx_def Let_def del: fold_append)
    ultimately show ?thesis using True by auto
  next
    case False
    with assms(4) have "status \<in> {''cancelled'', ''timeout'', ''orphaned''}" by (auto simp: terminal_iff)
    from drive_ends(2) [OF assms(3) this] have "foldl drive s (steps_to s @ [status]) = ''running''" .
    moreover have "status \<noteq> ''running''" using assms(4) by (auto simp: terminal_iff)
    ultimately have "converge_terminal e oid job status c = (Inl NotConverged, c)"
      by (simp add: converge_terminal_def in_tx_def assms(1) v body)
    with False assms(4) show ?thesis by (auto simp: dispatch_op_def dispatch_job_def Let_def)
  qed
qed

section \<open>A cancelled trigger\<close>

text \<open>An open transaction that nobody ends: there is no recorded stop left to execute.\<close>

definition wedged :: "conn \<Rightarrow> bool" where
  "wedged c = (pending c \<noteq> None \<and> (\<forall>r \<in> set (live_operations (view c)). op_method r \<noteq> ''job.stop''))"

lemma pending_in_tx: "pending c \<noteq> None \<Longrightarrow> in_tx body c = (Inl (Store TransactionOpen), c)"
  by (simp add: in_tx_def)

lemma pending_on_host: "pending c \<noteq> None \<Longrightarrow> snd (on_host f c) = c"
  by (auto simp: on_host_def case_prod_beta)

lemma pending_status: "pending c \<noteq> None \<Longrightarrow> set_status e oid st c = (Inl (Store TransactionOpen), c)"
  by (simp add: set_status_def pending_in_tx)

lemma pending_converge: "pending c \<noteq> None \<Longrightarrow> converge_terminal e oid job st c = (Inl (Store TransactionOpen), c)"
  by (simp add: converge_terminal_def pending_in_tx)

lemma pending_launch:
  assumes "pending c \<noteq> None"
  shows "snd (launch_op e r job c) = c"
  using assms
  by (simp add: launch_op_def case_prod_beta pending_on_host [OF assms] unit_of_def pending_status pending_converge
      split: sum.split option.split)

text \<open>The gate's update of the job changes only the uncommitted jobs.\<close>

definition only_jobs :: "conn \<Rightarrow> conn \<Rightarrow> bool" where
  "only_jobs c c' = (committed c' = committed c \<and> pending c' \<noteq> None \<and> operations (view c') = operations (view c))"

lemma only_jobs_refl: "pending c \<noteq> None \<Longrightarrow> only_jobs c c"
  by (simp add: only_jobs_def)

lemma gate_only_jobs: "only_jobs c (dml (cancel_gated now job) c)"
  by (simp add: only_jobs_def cancel_gated_def)

lemma dispatch_only_jobs:
  assumes "pending c \<noteq> None" "op_method r \<noteq> ''job.stop''"
  shows "only_jobs c (dispatch_op e msg r c)"
  using assms
  by (auto simp: dispatch_op_def dispatch_job_def Let_def pending_status pending_converge pending_launch unit_of_def
      only_jobs_refl gate_only_jobs split: option.split gate.split)

lemma fold_only_jobs:
  "pending c \<noteq> None \<Longrightarrow> \<forall>(i, r) \<in> set xs. op_method r \<noteq> ''job.stop'' \<Longrightarrow>
   only_jobs c (fold (\<lambda>(i, r). dispatch_op (es i) msg r) xs c)"
proof (induction xs arbitrary: c)
  case (Cons x xs)
  obtain i r where x: "x = (i, r)" by (cases x)
  with Cons.prems have o: "only_jobs c (dispatch_op (es i) msg r c)" by (intro dispatch_only_jobs) auto
  with Cons.IH [of "dispatch_op (es i) msg r c"] Cons.prems(2) show ?case by (auto simp: x only_jobs_def)
qed (simp add: only_jobs_refl)

lemma wedged_step:
  assumes "wedged c"
  shows "only_jobs c (remote_step es k c)"
proof -
  have p: "pending c \<noteq> None" using assms by (simp add: wedged_def)
  show ?thesis
  proof (cases k)
    case (Start mth payload key digest)
    then show ?thesis
      by (auto simp: remote_step_def handle_start_or_rerun_def pending_in_tx [OF p] only_jobs_refl [OF p] split: sum.split option.split)
  next
    case (Stop payload key digest)
    then show ?thesis by (simp add: remote_step_def handle_stop_def pending_in_tx [OF p] only_jobs_refl [OF p])
  next
    case (Dispatch msg)
    have "\<forall>(i, r) \<in> set (enumerate 0 (live_operations (view c))). op_method r \<noteq> ''job.stop''"
      using assms by (auto simp: wedged_def in_set_enumerate_eq)
    from fold_only_jobs [OF p this] show ?thesis by (simp add: Dispatch remote_step_def dispatch_queued_ops_def)
  next
    case Sync
    have "fold (sync_op e) rs c = c" for e rs
      by (induction rs) (auto simp: sync_op_def pending_converge [OF p] split: option.split)
    then show ?thesis by (simp add: Sync remote_step_def sync_terminal_ops_def only_jobs_refl [OF p])
  next
    case (Mark job status)
    then show ?thesis
      by (simp add: remote_step_def mark_terminal_from_job_def pending_converge [OF p] only_jobs_refl [OF p] split: option.split)
  next
    case (SetEpoch n)
    then show ?thesis by (simp add: remote_step_def pending_in_tx [OF p] only_jobs_refl [OF p])
  next
    case (Jobs cs)
    then show ?thesis by (simp add: remote_step_def pending_on_host [OF p] only_jobs_refl [OF p])
  qed
qed

lemma wedged_run: "wedged c \<Longrightarrow> committed (remote_run ks c) = committed c \<and> wedged (remote_run ks c)"
proof (induction ks arbitrary: c)
  case (Cons q ks)
  obtain es k where q: "q = (es, k)" by (cases q)
  have "only_jobs c (remote_step es k c)" by (rule wedged_step [OF Cons.prems])
  then have "committed (remote_step es k c) = committed c" "wedged (remote_step es k c)"
    using Cons.prems by (auto simp: only_jobs_def wedged_def live_operations_def)
  with Cons.IH show ?case by (simp add: q)
qed simp


section \<open>On the small host\<close>

definition demo_op :: "string \<Rightarrow> obj \<Rightarrow> operation_row" where
  "demo_op status payload = \<lparr>op_id = ''op1'', op_key = ''key-0001'', op_method = ''job.start'', op_payload = payload,
     op_digest = ''d1'', op_status = status, op_result = None, op_error = None, op_created = 1, op_updated = 1\<rparr>"

definition demo_ran :: "string \<Rightarrow> string \<Rightarrow> obj \<Rightarrow> conn" where
  "demo_ran op_st job_st payload = demo_host\<lparr>committed := (committed demo_host)\<lparr>operations := [demo_op op_st payload],
     origins := [\<lparr>og_op = ''op1'', og_job = ''job_1'', og_origin = ''remote:key-0001'', og_intent = ''queued'', og_created = 1\<rparr>],
     host := demo_jobs\<lparr>jobs := [demo_job ''job_1'' job_st None [] None]\<rparr>\<rparr>\<rparr>"

lemma operation_converges_iff_witness:
  "(\<exists>c'. converge_terminal (demo_remote_env ''op2'' ''job_2'') ''op1'' ''job_1'' ''completed'' (demo_ran ''queued'' ''completed'' []) = (Inr (), c')
      \<and> status_of ''op1'' (committed c') = Some ''completed'')
   \<and> dispatch_op (demo_remote_env ''op2'' ''job_2'') [] (demo_op ''running'' []) (demo_ran ''running'' ''cancelled'' [])
      = demo_ran ''running'' ''cancelled'' []"
proof -
  let ?c = "demo_ran ''queued'' ''completed'' []" let ?d = "demo_ran ''running'' ''cancelled'' []"
  let ?e = "demo_remote_env ''op2'' ''job_2''"
  have p: "pending ?c = None" "pending ?d = None" by (simp_all add: demo_ran_def demo_host_def)
  have s: "status_of ''op1'' (view ?c) = Some ''queued''" "status_of ''op1'' (view ?d) = Some ''running''" by code_simp+
  have m: "''queued'' \<in> {''accepted'', ''queued'', ''launched'', ''running''}"
    "''running'' \<in> {''accepted'', ''queued'', ''launched'', ''running''}" by simp_all
  have t: "terminal ''completed''" "terminal ''cancelled''" by code_simp+
  have n: "''completed'' \<in> {''completed'', ''failed''}" "\<not> ''cancelled'' \<in> {''completed'', ''failed''}" by simp_all
  have ended: "\<exists>db. converge_terminal ?e ''op1'' ''job_1'' ''completed'' ?c = (Inr (), ?c\<lparr>committed := db\<rparr>)
      \<and> status_of ''op1'' db = Some ''completed''"
    using operation_converges_iff [OF p(1) s(1) m(1) t(1), of ?e "''job_1''", unfolded if_P [OF n(1)]] by blast
  note stuck = operation_converges_iff [OF p(2) s(2) m(2) t(2), of ?e "''job_1''", unfolded if_not_P [OF n(2)], THEN conjunct2]
  have e: "\<exists>c'. converge_terminal (demo_remote_env ''op2'' ''job_2'') ''op1'' ''job_1'' ''completed'' (demo_ran ''queued'' ''completed'' []) = (Inr (), c')
      \<and> status_of ''op1'' (committed c') = Some ''completed''"
    using ended by auto
  have f: "get_remote_job_origin_op ''op1'' (view (demo_ran ''running'' ''cancelled'' [])) = Some ''job_1''" by code_simp
  have h: "host_job (view (demo_ran ''running'' ''cancelled'' [])) ''job_1'' = Some (demo_job ''job_1'' ''cancelled'' None [] None)"
    by code_simp
  have "dispatch_op (demo_remote_env ''op2'' ''job_2'') [] (demo_op ''running'' []) (demo_ran ''running'' ''cancelled'' [])
      = demo_ran ''running'' ''cancelled'' []"
    using stuck f h by (simp add: demo_op_def demo_job_def)
  with e show ?thesis by (rule conjI)
qed


end
