(* ===== verification/Base64.thy ===== *)
theory Base64
  imports Prelude
begin

text \<open>
  The standard library's \<^verbatim>\<open>base64.b64encode\<close> and \<^verbatim>\<open>b64decode\<close> of well-formed texts, with which log ranges and
  artifact chunks travel.  A byte is a character.
\<close>

definition b64_char :: "nat \<Rightarrow> char" where
  "b64_char n = char_of (if n < 26 then n + 65 else if n < 52 then n + 71 else if n < 62 then n - 4 else if n = 62 then 43 else 47)"

definition b64_val :: "char \<Rightarrow> nat option" where
  "b64_val c = (let n = of_char c :: nat in
     if 65 \<le> n \<and> n \<le> 90 then Some (n - 65) else if 97 \<le> n \<and> n \<le> 122 then Some (n - 71)
     else if 48 \<le> n \<and> n \<le> 57 then Some (n + 4) else if n = 43 then Some 62 else if n = 47 then Some 63 else None)"

fun b64encode :: "string \<Rightarrow> string" where
  "b64encode [] = []"
| "b64encode [a] = (let n = of_char a * 16 in [b64_char (n div 64), b64_char (n mod 64), CHR ''='', CHR ''=''])"
| "b64encode [a, b] = (let n = (of_char a * 256 + of_char b) * 4 in
     [b64_char (n div 4096), b64_char (n div 64 mod 64), b64_char (n mod 64), CHR ''=''])"
| "b64encode (a # b # c # s) = (let n = of_char a * 65536 + of_char b * 256 + of_char c in
     b64_char (n div 262144) # b64_char (n div 4096 mod 64) # b64_char (n div 64 mod 64) # b64_char (n mod 64) # b64encode s)"

fun b64_block :: "char \<Rightarrow> char \<Rightarrow> char \<Rightarrow> char \<Rightarrow> string option" where
  "b64_block p q r s =
     (case (b64_val p, b64_val q) of
        (Some i, Some j) \<Rightarrow>
          if s = CHR ''='' then
            (if r = CHR ''='' then Some [char_of ((i * 64 + j) div 16)]
             else (case b64_val r of None \<Rightarrow> None
               | Some k \<Rightarrow> Some [char_of ((i * 4096 + j * 64 + k) div 1024), char_of ((i * 4096 + j * 64 + k) div 4 mod 256)]))
          else (case (b64_val r, b64_val s) of
              (Some k, Some l) \<Rightarrow> (let n = i * 262144 + j * 4096 + k * 64 + l in
                Some [char_of (n div 65536), char_of (n div 256 mod 256), char_of (n mod 256)])
            | _ \<Rightarrow> None)
      | _ \<Rightarrow> None)"

fun b64decode :: "string \<Rightarrow> string option" where
  "b64decode [] = Some []"
| "b64decode (p # q # r # s # t) =
     (case b64_block p q r s of
        None \<Rightarrow> None
      | Some u \<Rightarrow> if s = CHR ''='' then (if t = [] then Some u else None)
                  else map_option (append u) (b64decode t))"
| "b64decode _ = None"

lemma of_b64_char: "n < 64 \<Longrightarrow> of_char (b64_char n) = (if n < 26 then n + 65 else if n < 52 then n + 71 else if n < 62 then n - 4 else if n = 62 then 43 else 47)"
  by (auto simp: b64_char_def)

lemma b64_val_char: "n < 64 \<Longrightarrow> b64_val (b64_char n) = Some n"
  by (auto simp: b64_val_def of_b64_char Let_def)

lemma b64_char_pad: "n < 64 \<Longrightarrow> b64_char n \<noteq> CHR ''=''"
proof
  assume n: "n < 64" and "b64_char n = CHR ''=''"
  then have "of_char (b64_char n) = (61 :: nat)" by simp
  with of_b64_char [OF n] show False by (simp split: if_splits)
qed

lemma digits64: "(n div 64 div 64) * 4096 + (n div 64 mod 64) * 64 + n mod 64 = (n :: nat)"
proof -
  have "n = n div 64 * 64 + n mod 64" "n div 64 = n div 64 div 64 * 64 + n div 64 mod 64" by simp_all
  then show ?thesis by linarith
qed

lemma digits64_4: "(n div 262144) * 262144 + (n div 4096 mod 64) * 4096 + (n div 64 mod 64) * 64 + n mod 64 = (n :: nat)"
proof -
  have d: "n div 64 div 64 = n div 4096" "n div 4096 div 64 = n div 262144" by (simp_all flip: div_mult2_eq)
  have "n = n div 64 * 64 + n mod 64" by simp
  with digits64 [of "n div 64", unfolded d] show ?thesis by linarith
qed

lemma bytes3:
  assumes "y < 256" "z < (256 :: nat)"
  shows "(x * 65536 + y * 256 + z) div 65536 = x" "(x * 65536 + y * 256 + z) div 256 mod 256 = y"
    "(x * 65536 + y * 256 + z) mod 256 = z"
proof -
  have d: "(x * 65536 + y * 256 + z) div 256 = x * 256 + y" using assms(2) by linarith
  have "(x * 65536 + y * 256 + z) div 65536 = (x * 65536 + y * 256 + z) div 256 div 256" by (simp flip: div_mult2_eq)
  with d assms(1) show "(x * 65536 + y * 256 + z) div 65536 = x" by simp
  show "(x * 65536 + y * 256 + z) div 256 mod 256 = y" using assms(1) by (simp add: d)
  have "x * 65536 + y * 256 + z = (x * 256 + y) * 256 + z" by simp
  with assms(2) show "(x * 65536 + y * 256 + z) mod 256 = z" by (metis mod_mult_self3 mod_less)
qed

lemma b64decode_encode: "b64decode (b64encode s) = Some s"
proof (induction s rule: b64encode.induct)
  case (2 a)
  obtain n where n: "n = of_char a * (16 :: nat)" "n < 4096" using nat_of_char_less_256 [of a] by simp
  then have d: "n div 64 < 64" by (simp add: less_mult_imp_div_less)
  have "char_of (n div 16) = a" by (simp add: n)
  then show ?case
    by (simp only: b64encode.simps Let_def n(1) [symmetric]) (simp add: b64_val_char d)
next
  case (3 a b)
  obtain m where m: "m = of_char a * 256 + (of_char b :: nat)" "m < 65536"
    using nat_of_char_less_256 [of a] nat_of_char_less_256 [of b] by simp
  obtain n where n: "n = m * 4" "n < 262144" using m by simp
  then have d: "n div 4096 < 64" by (simp add: less_mult_imp_div_less)
  have e: "(n div 64 div 64) * 4096 + (n div 64 mod 64) * 64 + n mod 64 = n" by (rule digits64)
  have "n div 4096 = n div 64 div 64" by (simp flip: div_mult2_eq)
  have "m div 256 = of_char a" "m mod 256 = of_char b" by (simp_all add: m)
  moreover have "n div 1024 = m div 256" "n div 4 = m" by (simp_all add: n(1))
  ultimately show ?case
    by (simp only: b64encode.simps Let_def m(1) [symmetric] n(1) [symmetric])
      (simp add: b64_val_char b64_char_pad d e [unfolded \<open>n div 4096 = n div 64 div 64\<close> [symmetric]])
next
  case (4 a b c s)
  obtain n where n: "n = of_char a * 65536 + of_char b * 256 + (of_char c :: nat)" "n < 16777216"
    using nat_of_char_less_256 [of a] nat_of_char_less_256 [of b] nat_of_char_less_256 [of c] by simp
  then have d: "n div 262144 < 64" by (simp add: less_mult_imp_div_less)
  have "n div 65536 = of_char a" "n div 256 mod 256 = of_char b" "n mod 256 = of_char c"
    unfolding n(1) by (rule bytes3 [OF nat_of_char_less_256 nat_of_char_less_256])+
  then have "char_of (n div 65536) = a" "char_of (n div 256) = b" "char_of n = c"
    by (metis char_of_char, metis char_of_char char_of_mod_256, metis char_of_char char_of_mod_256)
  with 4 [OF n(1)] show ?case
    by (simp only: b64encode.simps Let_def n(1) [symmetric]) (simp add: b64_val_char b64_char_pad d digits64_4 Let_def)
qed simp

end
