(* ===== verification/RequestJournal.thy ===== *)
theory RequestJournal
  imports Prelude Timestamps CanonicalJson
begin

text \<open>
  The client's journal of remote requests (\<^verbatim>\<open>RequestJournal\<close> of \<^verbatim>\<open>src/vanth/remote/journal.py\<close>), a database
  of its own.  An exception of a write is swallowed by its caller, so a write that raises is one that
  changes nothing.
\<close>

record journal_row =
  jr_id :: string
  jr_remote :: string
  jr_key :: string
  jr_method :: string
  jr_payload :: obj
  jr_digest :: string
  jr_status :: string
  jr_epoch :: "int option"
  jr_instance :: "string option"
  jr_created :: int
  jr_updated :: int

type_synonym journal = "journal_row list"

text \<open>\<^verbatim>\<open>ON CONFLICT(request_id) DO NOTHING\<close>; the other unique key raises.\<close>

definition journal_record ::
  "int \<Rightarrow> string \<Rightarrow> string \<Rightarrow> string \<Rightarrow> string \<Rightarrow> obj \<Rightarrow> string \<Rightarrow> int option \<Rightarrow> string option \<Rightarrow> journal \<Rightarrow> journal" where
  "journal_record now rq rid key mth payload digest epoch inst j =
     (if \<exists>r \<in> set j. jr_id r = rq then j
      else if \<exists>r \<in> set j. (jr_remote r, jr_key r) = (rid, key) then j
      else j @ [\<lparr>jr_id = rq, jr_remote = rid, jr_key = key, jr_method = mth, jr_payload = payload, jr_digest = digest,
        jr_status = ''pending'', jr_epoch = epoch, jr_instance = inst, jr_created = now, jr_updated = now\<rparr>])"

definition mark_resolved :: "int \<Rightarrow> string \<Rightarrow> journal \<Rightarrow> journal" where
  "mark_resolved now rq = upd (\<lambda>r. jr_id r = rq) (\<lambda>r. r\<lparr>jr_status := ''resolved'', jr_updated := now\<rparr>)"

definition prune_resolved :: "int \<Rightarrow> int \<Rightarrow> journal \<Rightarrow> nat \<times> journal" where
  "prune_resolved now older_than_seconds j =
     (if older_than_seconds \<le> 0 then (0, j)
      else let old = (\<lambda>r. jr_status r = ''resolved'' \<and> sql_leq (jr_updated r) (now - seconds older_than_seconds))
        in (cnt old j, del old j))"

definition journal_pending :: "string option \<Rightarrow> journal \<Rightarrow> journal_row list" where
  "journal_pending rid j =
     sort_key (sql_key \<circ> jr_created) (filter (\<lambda>r. jr_status r = ''pending'' \<and> (case rid of Some s \<Rightarrow> s \<noteq> [] \<longrightarrow> jr_remote r = s | None \<Rightarrow> True)) j)"

definition journal_get :: "string \<Rightarrow> journal \<Rightarrow> journal_row option" where
  "journal_get rq j = find (\<lambda>r. jr_id r = rq) j"

text \<open>The primary key and the unique key.\<close>

definition journal_ok :: "journal \<Rightarrow> bool" where
  "journal_ok j = (distinct (map jr_id j) \<and> distinct (map (\<lambda>r. (jr_remote r, jr_key r)) j))"

lemma journal_record_ok: "journal_ok j \<Longrightarrow> journal_ok (journal_record now rq rid key mth payload digest epoch inst j)"
  by (auto simp: journal_ok_def journal_record_def)

lemma mark_resolved_ok: "journal_ok j \<Longrightarrow> journal_ok (mark_resolved now rq j)"
  by (simp add: journal_ok_def mark_resolved_def map_upd_same)

lemma prune_resolved_ok: "journal_ok j \<Longrightarrow> journal_ok (snd (prune_resolved now ttl j))"
  by (auto simp: journal_ok_def prune_resolved_def Let_def del_def distinct_map_filter)

definition is_pending :: "string \<Rightarrow> journal \<Rightarrow> bool" where
  "is_pending rq j = (\<exists>r \<in> set j. jr_id r = rq \<and> jr_status r = ''pending'')"

lemma pending_record: "is_pending rq j \<Longrightarrow> is_pending rq (journal_record now rq' rid key mth payload digest epoch inst j)"
  by (auto simp: is_pending_def journal_record_def)

lemma pending_recorded:
  "\<forall>r \<in> set j. jr_id r \<noteq> rq \<and> (jr_remote r, jr_key r) \<noteq> (rid, key) \<Longrightarrow>
   is_pending rq (journal_record now rq rid key mth payload digest epoch inst j)"
  by (auto simp: is_pending_def journal_record_def)

lemma pending_other: "rq' \<noteq> rq \<Longrightarrow> is_pending rq j \<Longrightarrow> is_pending rq (mark_resolved now rq' j)"
  by (auto simp: is_pending_def mark_resolved_def upd_def)

lemma pending_prune: "is_pending rq j \<Longrightarrow> is_pending rq (snd (prune_resolved now ttl j))"
  by (auto simp: is_pending_def prune_resolved_def Let_def del_def)

end
