(* ===== verification/RemoteReads.thy ===== *)
theory RemoteReads
  imports RemoteDispatch Protocol Events Base64
begin

text \<open>
  What a paired host answers to the frames of its controllers (\<^verbatim>\<open>RemoteJobManager.handle_request\<close> of
  \<^verbatim>\<open>src/vanth/remote/remote.py\<close>): the fence of mutations by epoch and instance, and the reads, which are
  the status of a job, snapshots in pages, the feed, events and log ranges.

  Every handler runs under the lock of the store.  Nothing else changes the feed while it is held, so the
  loop that waits for a change reads the same batch each time and is one read here.
\<close>

section \<open>State and answers\<close>

text \<open>A snapshot is held in memory, as it was captured, until its last page is read.\<close>

record snapshot =
  sn_epoch :: int
  sn_high :: int
  sn_jobs :: "job_row list"
  sn_events :: "string \<Rightarrow> event_row list"
  sn_boundary :: int
  sn_feed_epoch :: int

record remote_host =
  rh_conn :: conn
  rh_snaps :: "(string \<times> snapshot) list"

datatype log_file = NoLog | Irregular | Unsafe | Log string

text \<open>
  The minted identifier of a snapshot, the row numbers that SQLite assigns, Python's \<^verbatim>\<open>int\<close> of a real number and
  \<^verbatim>\<open>str\<close> of a list or dictionary, the log files and the texts of errors.
\<close>

record read_env =
  rd_now :: int
  rd_snap :: string
  rd_rowid :: "vanth_db \<Rightarrow> string \<Rightarrow> int"
  rd_trunc :: "string \<Rightarrow> int option"
  rd_repr :: "json \<Rightarrow> string"
  rd_log :: "string \<Rightarrow> string \<Rightarrow> log_file"
  rd_msg :: string

datatype reply = Result obj | Error string

definition response_frame :: "read_env \<Rightarrow> obj \<Rightarrow> obj \<Rightarrow> obj" where
  "response_frame e request result =
     [(''version'', JStr ''1''), (''kind'', JStr ''response''), (''request_id'', dget request ''request_id''),
      (''method'', dget request ''method''), (''result'', JObj result), (''sent_at'', JStr (now_iso (rd_now e)))]"

definition error_frame :: "read_env \<Rightarrow> obj \<Rightarrow> string \<Rightarrow> obj" where
  "error_frame e request code =
     [(''version'', JStr ''1''), (''kind'', JStr ''error''), (''code'', JStr code), (''message'', JStr (take 2000 (rd_msg e))),
      (''sent_at'', JStr (now_iso (rd_now e)))]
     @ (if is_str (dget request ''request_id'') then [(''request_id'', dget request ''request_id'')] else [])
     @ (if is_str (dget request ''method'') then [(''method'', dget request ''method'')] else [])"

definition frame_of :: "read_env \<Rightarrow> obj \<Rightarrow> reply \<Rightarrow> obj" where
  "frame_of e request r = (case r of Result d \<Rightarrow> response_frame e request d | Error code \<Rightarrow> error_frame e request code)"

definition text_arg :: "read_env \<Rightarrow> json \<Rightarrow> string" where
  "text_arg e v = (case scalar_text v of Some s \<Rightarrow> s | None \<Rightarrow> rd_repr e v)"

section \<open>The status of a job\<close>

definition origin_json :: "origin_row \<Rightarrow> json" where
  "origin_json o1 = JObj [(''op_id'', JStr (og_op o1)), (''remote_job_id'', JStr (og_job o1)), (''origin'', JStr (og_origin o1)),
     (''launch_intent'', JStr (og_intent o1)), (''created_at'', JStr (now_iso (og_created o1)))]"

definition handle_status :: "remote_db \<Rightarrow> obj \<Rightarrow> obj" where
  "handle_status db payload =
     (let job = text_of (dget payload ''job_id''); origin = get_remote_job_origin job db
      in [(''job_id'', JStr job), (''found'', JBool (origin \<noteq> None)),
          (''origin'', case origin of None \<Rightarrow> JNull | Some o1 \<Rightarrow> origin_json o1)]
         @ (case (origin, host_job db job) of (Some _, Some r) \<Rightarrow> [(''status'', JStr (jb_status r))] | _ \<Rightarrow> []))"

section \<open>Snapshots\<close>

definition SNAPSHOT_PAGE_SIZE :: nat where "SNAPSHOT_PAGE_SIZE = 50"
definition SNAPSHOT_EVENT_LIMIT :: nat where "SNAPSHOT_EVENT_LIMIT = 500"

definition job_item :: "job_row \<Rightarrow> json" where
  "job_item r = JObj [(''job_id'', JStr (jb_id r)), (''name'', jstr_opt (jb_name r)), (''command'', JStr (jb_command r)),
     (''status'', JStr (jb_status r)), (''created_at'', JStr (now_iso (jb_created r))),
     (''updated_at'', JStr (now_iso (jb_updated r))),
     (''exit_code'', case jb_exit r of None \<Rightarrow> JNull | Some x \<Rightarrow> JInt x)]"

definition event_item :: "event_row \<Rightarrow> json" where
  "event_item v = JObj [(''event_id'', JStr (ev_id v)), (''job_id'', JStr (ev_job v)), (''seq'', JInt (ev_seq v)),
     (''type'', JStr (ev_type v)), (''level'', JStr (ev_level v)), (''message'', jstr_opt (ev_message v)),
     (''data_json'', JStr (dumps (JObj (ev_data v)))), (''source'', JStr (ev_source v)),
     (''created_at'', JStr (now_iso (ev_created v)))]"

text \<open>The capture reads the jobs through the daemon's connection and the feed through the store's.\<close>

definition capture :: "read_env \<Rightarrow> conn \<Rightarrow> snapshot" where
  "capture e c =
     (let h = host (committed c); db = view c
      in \<lparr>sn_epoch = rs_state_epoch db,
          sn_high = fold max (map (rd_rowid e h \<circ> jb_id) (jobs h)) 0,
          sn_jobs = sort_key jb_id (jobs h),
          sn_events = (\<lambda>job. take SNAPSHOT_EVENT_LIMIT (sort_key ev_seq (filter (\<lambda>v. ev_job v = job) (events h)))),
          sn_boundary = fold max (map fd_seq (feed db)) 0,
          sn_feed_epoch = get_feed_epoch db\<rparr>)"

text \<open>At most eight snapshots are held; the oldest are dropped.\<close>

definition hold :: "string \<Rightarrow> snapshot \<Rightarrow> (string \<times> snapshot) list \<Rightarrow> (string \<times> snapshot) list" where
  "hold sid s xs =
     (let kept = drop (length xs - 7) xs
      in if sid \<in> fst ` set kept then map (\<lambda>(k, v). (k, if k = sid then s else v)) kept else kept @ [(sid, s)])"

definition after_of :: "read_env \<Rightarrow> obj \<Rightarrow> string" where
  "after_of e cursor = text_arg e (por (dget cursor ''after_job_id'') (JStr []))"

definition page_rest :: "snapshot \<Rightarrow> string \<Rightarrow> job_row list" where
  "page_rest s start = filter (\<lambda>r. start < jb_id r) (sn_jobs s)"

fun new_events :: "event_row list \<Rightarrow> int \<Rightarrow> event_row list \<times> int" where
  "new_events [] high = ([], high)"
| "new_events (v # vs) high =
     (if ev_seq v \<le> high then new_events vs high
      else (let (es, h) = new_events vs (max high (ev_seq v)) in (v # es, h)))"

text \<open>The events of a page and the new water marks; \<open>None\<close> where a mark is not a number.\<close>

fun page_events :: "read_env \<Rightarrow> snapshot \<Rightarrow> job_row list \<Rightarrow> obj \<Rightarrow> (event_row list \<times> obj) option" where
  "page_events e s [] water = Some ([], water)"
| "page_events e s (r # rs) water =
     (case int_of (rd_trunc e) (por (dget water (jb_id r)) (JInt 0)) of
        None \<Rightarrow> None
      | Some high \<Rightarrow>
          (let (es, h) = new_events (sn_events s (jb_id r)) high
           in map_option (\<lambda>(vs, w). (es @ vs, w))
                (page_events e s rs (if h \<noteq> 0 then dput (jb_id r) (JInt h) water else water))))"

definition snapshot_page :: "read_env \<Rightarrow> string \<Rightarrow> snapshot \<Rightarrow> obj \<Rightarrow> (obj \<times> bool) option" where
  "snapshot_page e sid s cursor =
     (let start = after_of e cursor; remaining = page_rest s start; again = SNAPSHOT_PAGE_SIZE < length remaining;
        page = take SNAPSHOT_PAGE_SIZE remaining
      in map_option (\<lambda>(es, water).
           ([(''kind'', JStr ''snapshot''), (''state_epoch'', JInt (sn_epoch s)), (''feed_epoch'', JInt (sn_feed_epoch s)),
             (''feed_boundary_seq'', JInt (sn_boundary s)), (''snapshot_id'', JStr sid),
             (''cursor'', JObj [(''after_job_id'', JStr (if page = [] then start else jb_id (last page))),
                (''event_water'', JObj water), (''high_water'', JInt (sn_high s)), (''snapshot_id'', JStr sid)]),
             (''jobs'', JArr (map job_item page)), (''events'', JArr (map event_item es)), (''has_more'', JBool again)], again))
         (page_events e s page (obj_of (dget cursor ''event_water''))))"

definition drop_snap :: "string \<Rightarrow> (string \<times> snapshot) list \<Rightarrow> (string \<times> snapshot) list" where
  "drop_snap sid = filter (\<lambda>(k, v). k \<noteq> sid)"

definition held_page :: "read_env \<Rightarrow> json \<Rightarrow> obj \<Rightarrow> remote_host \<Rightarrow> reply \<times> remote_host" where
  "held_page e sid_json cursor m =
     (case sid_json of
        JStr sid \<Rightarrow>
          if sid = [] then (Error ''INVALID_REQUEST'', m)
          else (case map_of (rh_snaps m) sid of
              None \<Rightarrow> (Error ''SNAPSHOT_EXPIRED'', m)
            | Some s \<Rightarrow>
                if rs_state_epoch (view (rh_conn m)) \<noteq> sn_epoch s then
                  (Error ''STATE_EPOCH_MISMATCH'', m\<lparr>rh_snaps := drop_snap sid (rh_snaps m)\<rparr>)
                else (case snapshot_page e sid s cursor of
                    None \<Rightarrow> (Error ''INVALID_REQUEST'', m)
                  | Some (d, again) \<Rightarrow>
                      (Result d, if again then m else m\<lparr>rh_snaps := drop_snap sid (rh_snaps m)\<rparr>)))
      | _ \<Rightarrow> (Error ''INVALID_REQUEST'', m))"

definition handle_snapshot :: "read_env \<Rightarrow> obj \<Rightarrow> remote_host \<Rightarrow> reply \<times> remote_host" where
  "handle_snapshot e payload m =
     (let cursor = obj_of (dget payload ''cursor'')
      in if dget cursor ''snapshot_id'' = JNull then
           held_page e (JStr (rd_snap e)) cursor
             (m\<lparr>rh_snaps := hold (rd_snap e) (capture e (rh_conn m)) (rh_snaps m)\<rparr>)
         else held_page e (dget cursor ''snapshot_id'') cursor m)"

section \<open>The feed\<close>

definition change_item :: "feed_row \<Rightarrow> json" where
  "change_item r = JObj [(''seq'', JInt (fd_seq r)), (''kind'', JStr (fd_kind r)), (''job_id'', jstr_opt (fd_job r)),
     (''payload'', fd_payload r), (''created_at'', JStr (now_iso (fd_created r)))]"

definition opt_int :: "int option \<Rightarrow> json" where
  "opt_int v = (case v of None \<Rightarrow> JNull | Some i \<Rightarrow> JInt i)"

text \<open>
  The reply ends with \<^verbatim>\<open>int(cursor.get("seq") or 0)\<close>, which raises where the read before it took zero.
\<close>

definition handle_feed :: "read_env \<Rightarrow> remote_db \<Rightarrow> obj \<Rightarrow> reply" where
  "handle_feed e db payload =
     (case (int_of (rd_trunc e) (por (dget payload ''limit'') (JInt FEED_DEFAULT_LIMIT)),
            int_of (rd_trunc e) (por (dget payload ''wait_ms'') (JInt 0))) of
        (Some limit, Some wait_ms) \<Rightarrow>
          if limit < 1 \<or> wait_ms < 0 then Error ''INVALID_REQUEST''
          else
            let cursor = dget payload ''cursor''
            in if cursor \<noteq> JNull \<and> \<not> is_obj cursor then Error ''INVALID_REQUEST''
               else (case cursor_seq (rd_trunc e) cursor of
                   None \<Rightarrow> Error ''INVALID_REQUEST''
                 | Some s \<Rightarrow>
                     let b = feed_read s (min limit FEED_MAX_LIMIT) db;
                       last_seq = fold max (map fd_seq (fb_changes b)) s
                     in Result [(''kind'', JStr ''feed''), (''state_epoch'', JInt (fb_state_epoch b)), (''feed_epoch'', JInt (fb_feed_epoch b)),
                       (''cursor'', JObj [(''state_epoch'', JInt (fb_state_epoch b)), (''feed_epoch'', JInt (fb_feed_epoch b)), (''seq'', JInt last_seq)]),
                       (''changes'', JArr (map change_item (fb_changes b))), (''has_more'', JBool (fb_more b)),
                       (''oldest_seq'', opt_int (fb_oldest b)), (''high_water_seq'', opt_int (fb_high b))])
      | _ \<Rightarrow> Error ''INVALID_REQUEST'')"

section \<open>Events\<close>

definition events_entry :: "event_page \<Rightarrow> json" where
  "events_entry p = JObj [(''events'', JArr (map event_item (pg_events p))), (''next_seq'', JInt (pg_next p)),
     (''high_water_seq'', JInt (pg_high p)), (''has_more'', JBool (pg_more p))]"

definition since_of :: "json \<Rightarrow> int option" where
  "since_of v = (case v of JInt i \<Rightarrow> Some i | JBool b \<Rightarrow> Some (if b then 1 else 0) | _ \<Rightarrow> None)"

text \<open>\<open>payload\<close> has passed \<open>validate_request\<close>: a cursor is a null or a number that is not negative.\<close>

definition handle_events :: "read_env \<Rightarrow> conn \<Rightarrow> obj \<Rightarrow> reply" where
  "handle_events e c payload =
     (case int_of (rd_trunc e) (por (dget payload ''limit'') (JInt EVENTS_DEFAULT_LIMIT)) of
        None \<Rightarrow> Error ''INVALID_REQUEST''
      | Some l \<Rightarrow>
          let h = host (committed c); limit = nat (min l EVENTS_MAX_LIMIT)
          in Result [(''kind'', JStr ''events''), (''state_epoch'', JInt (rs_state_epoch (view c))),
            (''feed_epoch'', JInt (get_feed_epoch (view c))),
            (''jobs'', JObj (map (\<lambda>(job, v). (job, events_entry (read_events job (since_of v) limit h)))
               (take EVENTS_MAX_JOBS (obj_of (dget payload ''cursors'')))))])"

section \<open>Log ranges\<close>

text \<open>
  The file is opened without following a link and compared with the one that was checked; these checks, and
  that the path stays below the directory of the logs, are the cases of \<open>rd_log\<close>.
\<close>

definition log_range :: "read_env \<Rightarrow> string \<Rightarrow> string \<Rightarrow> int \<Rightarrow> int \<Rightarrow> reply" where
  "log_range e job stream offset len =
     (if \<not> job_id_re job \<or> (stream \<noteq> ''stdout'' \<and> stream \<noteq> ''stderr'') \<or> offset < 0 \<or> len \<le> 0 then Error ''INVALID_REQUEST''
      else (case rd_log e job stream of
          Log bytes \<Rightarrow>
            let content = take (nat len) (drop (nat offset) bytes)
            in Result [(''kind'', JStr ''log_range''), (''remote_job_id'', JStr job), (''stream'', JStr stream),
              (''offset'', JInt offset), (''size'', JInt (int (length bytes))), (''content'', JStr (b64encode content)),
              (''truncated'', JBool (offset + int (length content) < int (length bytes)))]
        | _ \<Rightarrow> Error ''INVALID_REQUEST''))"

definition handle_log_range :: "read_env \<Rightarrow> obj \<Rightarrow> reply" where
  "handle_log_range e payload =
     (case (dget payload ''remote_job_id'', por (dget payload ''stream'') (JStr ''stdout''),
            if has_key payload ''offset'' then int_of (rd_trunc e) (dget payload ''offset'') else Some 0,
            if has_key payload ''size'' then int_of (rd_trunc e) (dget payload ''size'') else Some 65536) of
        (JStr job, JStr stream, Some offset, Some len) \<Rightarrow> log_range e job stream offset len
      | _ \<Rightarrow> Error ''INVALID_REQUEST'')"

section \<open>A request\<close>

definition mutation_method :: "string \<Rightarrow> bool" where
  "mutation_method mth = (mth = ''job.start'' \<or> mth = ''job.stop'' \<or> mth = ''job.rerun'')"

text \<open>A mutation names the epoch and the instance it was made for; \<open>None\<close> passes.\<close>

definition fence :: "read_env \<Rightarrow> obj \<Rightarrow> remote_db \<Rightarrow> string option" where
  "fence e frame db =
     (case (dget frame ''expected_state_epoch'', dget frame ''expected_instance_id'') of
        (JNull, _) \<Rightarrow> Some ''INVALID_REQUEST''
      | (v, JStr inst) \<Rightarrow>
          if inst = [] then Some ''INVALID_REQUEST''
          else (case int_of (rd_trunc e) v of
              None \<Rightarrow> Some ''INVALID_REQUEST''
            | Some expected \<Rightarrow>
                if expected \<noteq> rs_state_epoch db then Some ''STATE_EPOCH_MISMATCH''
                else (case get_instance_id db of
                    Inl _ \<Rightarrow> Some ''INVALID_REQUEST''
                  | Inr current \<Rightarrow> if inst \<noteq> current then Some ''INSTANCE_ID_MISMATCH'' else None))
      | _ \<Rightarrow> Some ''INVALID_REQUEST'')"

text \<open>The code of an exception: protocol errors keep theirs, every other is \<^verbatim>\<open>INVALID_REQUEST\<close>.\<close>

definition error_code :: "rerr \<Rightarrow> string" where
  "error_code x = (case x of Store ReplayMismatch \<Rightarrow> ''PROTOCOL_REPLAY_MISMATCH'' | Code s \<Rightarrow> s | _ \<Rightarrow> ''INVALID_REQUEST'')"

definition replied :: "(rerr + obj) \<times> conn \<Rightarrow> remote_host \<Rightarrow> reply \<times> remote_host" where
  "replied m h = (case m of (Inl x, c) \<Rightarrow> (Error (error_code x), h\<lparr>rh_conn := c\<rparr>) | (Inr d, c) \<Rightarrow> (Result d, h\<lparr>rh_conn := c\<rparr>))"

definition handle_mutation :: "remote_env \<Rightarrow> string \<Rightarrow> obj \<Rightarrow> string \<Rightarrow> string \<Rightarrow> remote_host \<Rightarrow> reply \<times> remote_host" where
  "handle_mutation re mth payload key digest m =
     (if mth = ''job.stop'' then replied (handle_stop re payload key digest (rh_conn m)) m
      else replied (handle_start_or_rerun re mth payload key digest (rh_conn m)) m)"

definition perr_code :: "perr \<Rightarrow> string" where
  "perr_code x = (case x of Proto c \<Rightarrow> registry_name c | TypeErr \<Rightarrow> ''INVALID_REQUEST'')"

text \<open>The transfer of artifacts is the argument \<open>transfer\<close>.\<close>

type_synonym transfer = "string \<Rightarrow> obj \<Rightarrow> remote_host \<Rightarrow> reply \<times> remote_host"

definition handle_checked ::
  "remote_env \<Rightarrow> read_env \<Rightarrow> transfer \<Rightarrow> obj \<Rightarrow> string \<Rightarrow> obj \<Rightarrow> string \<Rightarrow> string \<Rightarrow> remote_host \<Rightarrow> reply \<times> remote_host" where
  "handle_checked re e transfer frame mth payload key digest m =
     (case validate_request mth payload of
        Inl x \<Rightarrow> (Error (perr_code x), m)
      | Inr _ \<Rightarrow>
          (case (if mutation_method mth then fence e frame (view (rh_conn m)) else None) of
             Some code \<Rightarrow> (Error code, m)
           | None \<Rightarrow>
               if mth = ''job.status'' then (Result (handle_status (view (rh_conn m)) payload), m)
               else if mth = ''job.snapshot'' then handle_snapshot e payload m
               else if mth = ''job.log_range'' then (handle_log_range e payload, m)
               else if mth = ''job.feed'' then (handle_feed e (view (rh_conn m)) payload, m)
               else if mth = ''job.events'' then (handle_events e (rh_conn m) payload, m)
               else if \<not> mutation_method mth then transfer mth payload m
               else handle_mutation re mth payload key digest m))"

text \<open>
  The frame has been decoded, so its method and key are texts and its payload is an object; the digest is
  computed where it is missing.
\<close>

definition handle_request ::
  "(string \<Rightarrow> string) \<Rightarrow> remote_env \<Rightarrow> read_env \<Rightarrow> transfer \<Rightarrow> obj \<Rightarrow> remote_host \<Rightarrow> (code + obj) \<times> remote_host" where
  "handle_request sha re e transfer frame m =
     (case (dget frame ''method'', dget frame ''payload'', dget frame ''idempotency_key'') of
        (JStr mth, JObj payload, JStr key) \<Rightarrow>
          (case (case dget frame ''digest'' of JStr d \<Rightarrow> Inr d | _ \<Rightarrow> request_digest sha mth payload key) of
             Inl x \<Rightarrow> (Inl x, m)
           | Inr digest \<Rightarrow>
               (case handle_checked re e transfer frame mth payload key digest m of
                  (r, m') \<Rightarrow> (Inr (frame_of e frame r), m')))
      | _ \<Rightarrow> (Inr (error_frame e frame ''INVALID_REQUEST''), m))"

end
