(* ===== verification/RemoteControl.thy ===== *)
theory RemoteControl
  imports RemoteStore RemoteDispatch Protocol RequestJournal
begin

text \<open>
  How a controller executes a request at a paired host (\<^verbatim>\<open>RemoteControl\<close> of
  \<^verbatim>\<open>src/vanth/remote/control.py\<close>): it records the request and a placeholder shadow, sends one frame over
  one session and records the outcome.  What a session does with the frame is the argument \<open>send\<close>: the
  decoded line that comes back, or \<open>None\<close> where opening the session, encoding, sending or decoding fails.
\<close>

section \<open>State and errors\<close>

record controller =
  store :: controller_db
  journal :: "journal option"

datatype kerr = Rejected perr | UnknownHost | InstanceMismatch | Kept serr | Raised

type_synonym 'a kbody = "controller_db \<Rightarrow> kerr + 'a \<times> controller_db"
type_synonym 'a kop = "controller_db \<Rightarrow> (kerr + 'a) \<times> controller_db"

text \<open>
  The clock, the identifiers that are minted, the hash, and three conversions of Python and SQLite that are left open:
  \<^verbatim>\<open>str\<close> of a list or dictionary, the text of a real number in a column and its integer part.
\<close>

record control_env =
  ce_now :: int
  ce_request :: string
  ce_shadow :: string
  ce_shadow2 :: string
  ce_tombstone :: string
  ce_sha :: "string \<Rightarrow> string"
  ce_repr :: "json \<Rightarrow> string"
  ce_real :: "string \<Rightarrow> string"
  ce_trunc :: "string \<Rightarrow> int option"
  ce_key :: string
  ce_shadows :: "nat \<Rightarrow> string"

definition py_str :: "control_env \<Rightarrow> json \<Rightarrow> string" where
  "py_str e v = (case scalar_text v of Some s \<Rightarrow> s | None \<Rightarrow> ce_repr e v)"

text \<open>A value that is bound to a text column: a list or a dictionary raises.\<close>

definition column_text :: "control_env \<Rightarrow> json \<Rightarrow> string option" where
  "column_text e v = (case v of JStr s \<Rightarrow> Some s | JInt i \<Rightarrow> Some (int_str i) | JBool b \<Rightarrow> Some (if b then ''1'' else ''0'')
     | JFloat r \<Rightarrow> Some (ce_real e r) | _ \<Rightarrow> None)"

definition kept :: "serr + 'a \<Rightarrow> kerr + 'a" where
  "kept r = (case r of Inl x \<Rightarrow> Inl (Kept x) | Inr a \<Rightarrow> Inr a)"

text \<open>An operation of the store inside of the caller's transaction.\<close>

definition inside :: "'a op \<Rightarrow> 'a kbody" where
  "inside f db = (case f db of (Inl x, _) \<Rightarrow> Inl (Kept x) | (Inr a, db') \<Rightarrow> Inr (a, db'))"

section \<open>Recording a request\<close>

definition is_mutation :: "string \<Rightarrow> bool" where
  "is_mutation mth = (mth = ''job.start'' \<or> mth = ''job.stop'' \<or> mth = ''job.rerun'')"

definition checked :: "perr + 'a \<Rightarrow> kerr + 'a" where
  "checked r = (case r of Inl x \<Rightarrow> Inl (Rejected x) | Inr a \<Rightarrow> Inr a)"

definition binding_guard :: "string \<Rightarrow> int option \<Rightarrow> string option \<Rightarrow> controller_db \<Rightarrow> kerr + unit" where
  "binding_guard rid epoch inst db =
     (if epoch = None \<or> inst = None \<or> inst = Some [] then Inl (Rejected invalid)
      else (case find_remote db rid of
          None \<Rightarrow> Inl UnknownHost
        | Some r \<Rightarrow> if rm_instance r \<noteq> None \<and> rm_instance r \<noteq> Some [] \<and> rm_instance r \<noteq> inst then Inl InstanceMismatch
                    else Inr ()))"

definition submit_body ::
  "control_env \<Rightarrow> string \<Rightarrow> string \<Rightarrow> obj \<Rightarrow> string \<Rightarrow> string \<Rightarrow> int option \<Rightarrow> string option \<Rightarrow> request_row kbody" where
  "submit_body e rid mth payload key digest epoch inst db =
     (if find_remote db rid = None then Inl UnknownHost
      else ebind (kept (record_request_body (ce_request e) (ce_now e) rid key mth payload digest epoch inst db)) (\<lambda>(r, db1).
        if rq_status r = ''creating'' \<and> is_mutation mth then
          ebind (kept (record_submitting_shadow (ce_shadow e) (ce_now e) rid r db1)) (\<lambda>(_, db2). Inr (r, db2))
        else Inr (r, db1)))"

definition journaled :: "control_env \<Rightarrow> request_row \<Rightarrow> journal option \<Rightarrow> journal option" where
  "journaled e r = map_option (journal_record (ce_now e) (rq_id r) (rq_remote r) (rq_key r) (rq_method r) (rq_payload r)
     (rq_digest r) (rq_epoch r) (rq_instance r))"

definition submit_store ::
  "control_env \<Rightarrow> string \<Rightarrow> string \<Rightarrow> obj \<Rightarrow> string \<Rightarrow> int option \<Rightarrow> string option \<Rightarrow> request_row kop" where
  "submit_store e rid mth payload key epoch inst db =
     (case ebind (checked (ensure (idempotency_key_re key) invalid)) (\<lambda>_.
           ebind (checked (validate_request mth payload)) (\<lambda>_.
           ebind (checked (proto (request_digest (ce_sha e) mth payload key))) (\<lambda>digest.
           ebind (if is_mutation mth then binding_guard rid epoch inst db else Inr ()) (\<lambda>_.
           ebind (kept (fst (check_state_epoch rid epoch db))) (\<lambda>_. Inr digest))))) of
        Inl x \<Rightarrow> (Inl x, db)
      | Inr digest \<Rightarrow> txn (submit_body e rid mth payload key digest epoch inst) db)"

definition submit ::
  "control_env \<Rightarrow> string \<Rightarrow> string \<Rightarrow> obj \<Rightarrow> string \<Rightarrow> int option \<Rightarrow> string option \<Rightarrow> controller \<Rightarrow> (kerr + request_row) \<times> controller" where
  "submit e rid mth payload key epoch inst c =
     (case submit_store e rid mth payload key epoch inst (store c) of
        (Inl x, db) \<Rightarrow> (Inl x, c\<lparr>store := db\<rparr>)
      | (Inr r, db) \<Rightarrow> (Inr r, c\<lparr>store := db, journal := journaled e r (journal c)\<rparr>))"

section \<open>The outcome of a request\<close>

text \<open>What a request returns: its row, or that the host will retry it.\<close>

datatype outcome = Row request_row | RetryPending request_row string

definition outcome_status :: "outcome \<Rightarrow> string" where
  "outcome_status x = (case x of Row r \<Rightarrow> rq_status r | RetryPending r _ \<Rightarrow> ''pending'')"

definition by_key :: "string \<Rightarrow> request_row \<Rightarrow> outcome kop" where
  "by_key rid r db = (case get_request_by_key rid (rq_key r) db of (Inl x, db') \<Rightarrow> (Inl (Kept x), db') | (Inr q, db') \<Rightarrow> (Inr (Row q), db'))"

definition response_shadow :: "control_env \<Rightarrow> string \<Rightarrow> request_row \<Rightarrow> obj \<Rightarrow> controller_db \<Rightarrow> kerr + controller_db" where
  "response_shadow e rid r result db =
     (let job = dget result ''job_id'' in
      if \<not> is_set job then Inr db
      else (case column_text e (por (dget result ''status'') (JStr ''running'')) of
          None \<Rightarrow> Inl Raised
        | Some status \<Rightarrow>
            ebind (kept (upsert_shadow_body (ce_shadow2 e) (ce_now e) rid (py_str e job) status (Some (JObj result))
                (case find_remote db rid of Some m \<Rightarrow> rm_epoch m | None \<Rightarrow> 1) db)) (\<lambda>(_, db1).
            Inr (suppress_shadow (ce_now e) rid (rq_id r) db1))))"

definition finish_response :: "control_env \<Rightarrow> string \<Rightarrow> request_row \<Rightarrow> obj \<Rightarrow> request_row kbody" where
  "finish_response e rid r response db =
     (case por (dget response ''result'') (JObj []) of
        JObj result \<Rightarrow>
          ebind (kept (update_request_status_body (ce_now e) (rq_id r) ''completed'' (Some (JObj result)) None db)) (\<lambda>(q, db1).
          ebind (response_shadow e rid r result db1) (\<lambda>db2. Inr (q, db2)))
      | _ \<Rightarrow> Inl Raised)"

definition error_text :: "control_env \<Rightarrow> obj \<Rightarrow> string" where
  "error_text e response = py_str e (por (dget response ''code'') (JStr ''INVALID_REQUEST'')) @ '': ''
     @ py_str e (por (dget response ''message'') (JStr []))"

definition finish_error :: "control_env \<Rightarrow> string \<Rightarrow> request_row \<Rightarrow> obj \<Rightarrow> request_row kbody" where
  "finish_error e rid r response db =
     ebind (kept (update_request_status_body (ce_now e) (rq_id r) ''failed'' None (Some (error_text e response)) db)) (\<lambda>(q, db1).
     ebind (inside (record_replay_tombstone (ce_tombstone e) (ce_now e) rid (rq_key r) (rq_digest r)) db1) (\<lambda>(_, db2).
     Inr (q, db2)))"

definition request_frame :: "control_env \<Rightarrow> request_row \<Rightarrow> obj" where
  "request_frame e r =
     [(''version'', JStr ''1''), (''kind'', JStr ''request''), (''request_id'', JStr (rq_id r)), (''idempotency_key'', JStr (rq_key r)),
      (''method'', JStr (rq_method r)), (''payload'', JObj (rq_payload r)), (''digest'', JStr (rq_digest r)),
      (''sent_at'', JStr (now_iso (ce_now e)))]
     @ (case rq_epoch r of None \<Rightarrow> [] | Some n \<Rightarrow> [(''expected_state_epoch'', JInt n)])
     @ (case rq_instance r of None \<Rightarrow> [] | Some s \<Rightarrow> [(''expected_instance_id'', JStr s)])"

text \<open>The answer to a request carries its identifier and its method.\<close>

definition answers :: "request_row \<Rightarrow> json \<Rightarrow> bool" where
  "answers r j = (case j of JObj d \<Rightarrow> dget d ''kind'' \<in> {JStr ''response'', JStr ''error''}
     \<and> dget d ''request_id'' = JStr (rq_id r) \<and> dget d ''method'' = JStr (rq_method r) | _ \<Rightarrow> False)"

definition settle_answer :: "control_env \<Rightarrow> string \<Rightarrow> request_row \<Rightarrow> obj \<Rightarrow> outcome kop" where
  "settle_answer e rid r d db =
     (case txn (update_request_status_body (ce_now e) (rq_id r) ''accepted'' None None) db of
        (Inl _, db1) \<Rightarrow> by_key rid r db1
      | (Inr _, db1) \<Rightarrow>
          if dget d ''kind'' = JStr ''error'' then
            if dget d ''code'' = JStr ''OPERATION_RETRY_PENDING'' then
              (case get_request_by_key rid (rq_key r) db1 of
                 (Inl x, db2) \<Rightarrow> (Inl (Kept x), db2)
               | (Inr q, db2) \<Rightarrow> (Inr (RetryPending q (py_str e (por (dget d ''message'') (JStr [])))), db2))
            else (case txn (finish_error e rid r d) db1 of (Inl x, db2) \<Rightarrow> (Inl x, db2) | (Inr q, db2) \<Rightarrow> (Inr (Row q), db2))
          else (case txn (finish_response e rid r d) db1 of (Inl x, db2) \<Rightarrow> (Inl x, db2) | (Inr q, db2) \<Rightarrow> (Inr (Row q), db2)))"

section \<open>Running a request\<close>

definition run_guard :: "string \<Rightarrow> request_row \<Rightarrow> int option \<Rightarrow> controller_db \<Rightarrow> kerr + unit" where
  "run_guard rid r epoch db =
     (case find_remote db rid of
        None \<Rightarrow> Inl UnknownHost
      | Some m \<Rightarrow>
          ebind (kept (fst (check_state_epoch rid epoch db))) (\<lambda>_.
          if \<not> is_mutation (rq_method r) then Inr ()
          else if rq_instance r = None \<or> rq_instance r = Some [] then Inl (Rejected invalid)
          else if rm_instance m \<noteq> None \<and> rm_instance m \<noteq> Some [] \<and> rm_instance m \<noteq> rq_instance r then Inl InstanceMismatch
          else Inr ()))"

definition answer_of :: "request_row \<Rightarrow> (obj \<Rightarrow> json option) \<Rightarrow> obj \<Rightarrow> obj option" where
  "answer_of r send frame = (case send frame of Some (JObj d) \<Rightarrow> if answers r (JObj d) then Some d else None | _ \<Rightarrow> None)"

definition exchange :: "control_env \<Rightarrow> string \<Rightarrow> request_row \<Rightarrow> (obj \<Rightarrow> json option) \<Rightarrow> outcome kop" where
  "exchange e rid r send db =
     (case answer_of r send (request_frame e r) of None \<Rightarrow> by_key rid r db | Some d \<Rightarrow> settle_answer e rid r d db)"

text \<open>A request that has left \<open>submitting\<close> is not sent.\<close>

definition run_store :: "control_env \<Rightarrow> string \<Rightarrow> request_row \<Rightarrow> int option \<Rightarrow> (obj \<Rightarrow> json option) \<Rightarrow> outcome kop" where
  "run_store e rid r epoch send db =
     (case run_guard rid r epoch db of
        Inl x \<Rightarrow> (Inl x, db)
      | Inr _ \<Rightarrow>
          (case update_request_status (ce_now e) (rq_id r) ''submitting'' None None db of
             (Inr _, db1) \<Rightarrow> exchange e rid r send db1
           | (Inl _, db1) \<Rightarrow>
               (case find (\<lambda>q. rq_id q = rq_id r) (requests db1) of
                  Some q \<Rightarrow> if rq_status q = ''submitting'' then exchange e rid r send db1 else by_key rid r db1
                | None \<Rightarrow> by_key rid r db1)))"

definition run_request :: "control_env \<Rightarrow> string \<Rightarrow> request_row \<Rightarrow> int option \<Rightarrow> (obj \<Rightarrow> json option) \<Rightarrow> controller \<Rightarrow> (kerr + outcome) \<times> controller" where
  "run_request e rid r epoch send c =
     (case run_store e rid r epoch send (store c) of
        (Inl x, db) \<Rightarrow> (Inl x, c\<lparr>store := db\<rparr>)
      | (Inr y, db) \<Rightarrow> (Inr y, c\<lparr>store := db, journal :=
          (if outcome_status y \<in> {''completed'', ''failed''} then map_option (mark_resolved (ce_now e) (rq_id r)) (journal c)
           else journal c)\<rparr>))"

section \<open>The operations of a controller\<close>

definition submit_and_run ::
  "control_env \<Rightarrow> (request_row \<Rightarrow> bool) \<Rightarrow> string \<Rightarrow> string \<Rightarrow> obj \<Rightarrow> string \<Rightarrow> int option \<Rightarrow> string option \<Rightarrow> int option \<Rightarrow>
   (obj \<Rightarrow> json option) \<Rightarrow> controller \<Rightarrow> (kerr + outcome) \<times> controller" where
  "submit_and_run e again rid mth payload key epoch inst run_epoch send c =
     (case submit e rid mth payload key epoch inst c of
        (Inl x, c1) \<Rightarrow> (Inl x, c1)
      | (Inr r, c1) \<Rightarrow> if again r then run_request e rid r run_epoch send c1 else (Inr (Row r), c1))"

definition first_time :: "request_row \<Rightarrow> bool" where
  "first_time r = (rq_status r = ''creating'')"

text \<open>A stop is driven again until it has a response.\<close>

definition stop_again :: "request_row \<Rightarrow> bool" where
  "stop_again r = (rq_status r = ''creating''
     \<or> (rq_status r = ''accepted'' \<or> rq_status r = ''submitting'')
       \<and> (case rq_response r of None \<Rightarrow> True | Some j \<Rightarrow> \<not> is_set j))"

definition remote_status ::
  "control_env \<Rightarrow> string \<Rightarrow> string \<Rightarrow> string \<Rightarrow> int option \<Rightarrow> string option \<Rightarrow> (obj \<Rightarrow> json option) \<Rightarrow> controller \<Rightarrow> (kerr + outcome) \<times> controller" where
  "remote_status e rid job key epoch inst =
     submit_and_run e first_time rid ''job.status'' [(''job_id'', JStr job)] key epoch inst epoch"

definition stop_payload :: "string \<Rightarrow> string \<Rightarrow> int \<Rightarrow> obj" where
  "stop_payload job signal kill_after = [(''job_id'', JStr job)]
     @ (if signal \<noteq> ''terminate'' then [(''signal'', JStr signal)] else [])
     @ (if kill_after \<noteq> 10 then [(''kill_after_seconds'', JInt kill_after)] else [])"

definition remote_stop ::
  "control_env \<Rightarrow> string \<Rightarrow> string \<Rightarrow> string \<Rightarrow> int \<Rightarrow> string \<Rightarrow> int option \<Rightarrow> string option \<Rightarrow> (obj \<Rightarrow> json option) \<Rightarrow>
   controller \<Rightarrow> (kerr + outcome) \<times> controller" where
  "remote_stop e rid job signal kill_after key epoch inst =
     submit_and_run e stop_again rid ''job.stop'' (stop_payload job signal kill_after) key epoch inst epoch"

definition remote_rerun ::
  "control_env \<Rightarrow> string \<Rightarrow> string \<Rightarrow> obj \<Rightarrow> string \<Rightarrow> int option \<Rightarrow> string option \<Rightarrow> (obj \<Rightarrow> json option) \<Rightarrow>
   controller \<Rightarrow> (kerr + outcome) \<times> controller" where
  "remote_rerun e rid job overrides key epoch inst =
     submit_and_run e first_time rid ''job.rerun''
       (dupdate [(''job_id'', JStr job)] (filter (\<lambda>(k, v). v \<noteq> JNull) overrides)) key epoch inst epoch"

definition control_replay :: "string \<Rightarrow> string \<Rightarrow> controller_db \<Rightarrow> kerr + request_row + tombstone_row" where
  "control_replay rid key db =
     (case get_request_by_key rid key db of
        (Inr r, _) \<Rightarrow> Inr (Inl r)
      | (Inl _, _) \<Rightarrow> (case get_replay_tombstone rid key db of (Inr t, _) \<Rightarrow> Inr (Inr t) | (Inl x, _) \<Rightarrow> Inl (Kept x)))"

end
