(* ===== verification/RemoteSync.thy ===== *)
theory RemoteSync
  imports RemoteControl
begin

text \<open>
  How a controller mirrors the jobs of a host (\<^verbatim>\<open>RemoteControl.sync_snapshot\<close> and \<open>feed_sync\<close> of
  \<^verbatim>\<open>src/vanth/remote/control.py\<close>): it fetches all pages of a snapshot and publishes them in one transaction,
  or applies one batch of the change feed.  Pages are fetched without the lock of the store: what other
  threads do to the store meanwhile is the argument \<open>meanwhile\<close>.
\<close>

section \<open>Fetching\<close>

definition num :: "control_env \<Rightarrow> json \<Rightarrow> kerr + int" where
  "num e v = (case int_of (ce_trunc e) v of None \<Rightarrow> Inl Raised | Some i \<Rightarrow> Inr i)"

definition or_empty :: "json option \<Rightarrow> json" where
  "or_empty v = (case v of None \<Rightarrow> JObj [] | Some j \<Rightarrow> por j (JObj []))"

definition row_of :: "outcome \<Rightarrow> request_row" where
  "row_of x = (case x of Row r \<Rightarrow> r | RetryPending r _ \<Rightarrow> r)"

text \<open>A read: a request with a minted key.\<close>

definition read_request ::
  "control_env \<Rightarrow> string \<Rightarrow> string \<Rightarrow> obj \<Rightarrow> (obj \<Rightarrow> json option) \<Rightarrow> controller \<Rightarrow> (kerr + request_row) \<times> controller" where
  "read_request e rid mth payload send c =
     (case submit_and_run e first_time rid mth payload (ce_key e) None None None send c of
        (Inl x, c1) \<Rightarrow> (Inl x, c1) | (Inr y, c1) \<Rightarrow> (Inr (row_of y), c1))"

definition fetch_snapshot ::
  "control_env \<Rightarrow> string \<Rightarrow> json option \<Rightarrow> (obj \<Rightarrow> json option) \<Rightarrow> controller \<Rightarrow> (kerr + json) \<times> controller" where
  "fetch_snapshot e rid cursor send c =
     (case read_request e rid ''job.snapshot'' (case cursor of None \<Rightarrow> [] | Some j \<Rightarrow> [(''cursor'', j)]) send c of
        (Inl x, c1) \<Rightarrow> (Inl x, c1)
      | (Inr r, c1) \<Rightarrow> (Inr (or_empty (rq_response r)), c1))"

section \<open>Checking the pages\<close>

record sync_acc =
  sa_pages :: "obj list"
  sa_ids :: "(int \<times> int \<times> int \<times> int \<times> string) option"
  sa_cursor :: "json option"

text \<open>What all pages of a snapshot agree on: high water, feed boundary, feed epoch, state epoch and identity.\<close>

definition page_identity :: "control_env \<Rightarrow> obj \<Rightarrow> kerr + (int \<times> int \<times> int \<times> int \<times> string)" where
  "page_identity e p =
     (case por (dget p ''cursor'') (JObj []) of
        JObj cur \<Rightarrow>
          if dget cur ''high_water'' = JNull then Inl (Rejected invalid)
          else ebind (num e (dget cur ''high_water'')) (\<lambda>high.
            ebind (num e (por (dget p ''state_epoch'') (JInt 0))) (\<lambda>epoch.
            if \<not> has_key p ''feed_boundary_seq'' \<or> \<not> has_key p ''feed_epoch'' then Inl (Rejected invalid)
            else ebind (num e (dget p ''feed_boundary_seq'')) (\<lambda>boundary.
              ebind (num e (dget p ''feed_epoch'')) (\<lambda>feed_epoch.
              let sid = por (dget cur ''snapshot_id'') (dget p ''snapshot_id'')
              in if \<not> is_set sid then Inl (Rejected invalid)
                 else Inr (high, boundary, feed_epoch, epoch, py_str e sid)))))
      | _ \<Rightarrow> Inl Raised)"

definition item_ok :: "json \<Rightarrow> bool" where
  "item_ok j = (case j of JObj d \<Rightarrow> (case dget d ''job_id'' of JStr s \<Rightarrow> s \<noteq> [] | _ \<Rightarrow> False) | _ \<Rightarrow> False)"

definition page_items :: "obj \<Rightarrow> obj list" where
  "page_items p = (case dget p ''jobs'' of JArr xs \<Rightarrow> map obj_of xs | _ \<Rightarrow> [])"

definition take_page :: "control_env \<Rightarrow> json \<Rightarrow> sync_acc \<Rightarrow> kerr + sync_acc" where
  "take_page e j acc =
     (case j of
        JObj p \<Rightarrow>
          if p = [] \<or> dget p ''kind'' \<noteq> JStr ''snapshot'' then Inl (Rejected invalid)
          else ebind (page_identity e p) (\<lambda>ids.
            if sa_ids acc \<noteq> None \<and> sa_ids acc \<noteq> Some ids then Inl (Rejected invalid)
            else (case dget p ''jobs'' of
                JArr xs \<Rightarrow> if list_all item_ok xs
                  then Inr \<lparr>sa_pages = sa_pages acc @ [p], sa_ids = Some ids,
                    sa_cursor = (if dget p ''cursor'' = JNull then None else Some (dget p ''cursor''))\<rparr>
                  else Inl (Rejected invalid)
              | _ \<Rightarrow> Inl (Rejected invalid)))
      | _ \<Rightarrow> Inl Raised)"

text \<open>The loop over the pages; \<open>Inr None\<close> when more than \<open>fuel\<close> pages come.\<close>

fun fetch_pages ::
  "nat \<Rightarrow> (nat \<Rightarrow> control_env) \<Rightarrow> (nat \<Rightarrow> obj \<Rightarrow> json option) \<Rightarrow> (nat \<Rightarrow> controller \<Rightarrow> controller) \<Rightarrow> string \<Rightarrow> nat \<Rightarrow>
   sync_acc \<Rightarrow> controller \<Rightarrow> (kerr + sync_acc option) \<times> controller" where
  "fetch_pages 0 es sends meanwhile rid i acc c = (Inr None, c)"
| "fetch_pages (Suc fuel) es sends meanwhile rid i acc c =
     (case fetch_snapshot (es i) rid (sa_cursor acc) (sends i) c of
        (Inl x, c1) \<Rightarrow> (Inl x, c1)
      | (Inr j, c1) \<Rightarrow>
          (case take_page (es i) j acc of
             Inl x \<Rightarrow> (Inl x, c1)
           | Inr acc1 \<Rightarrow>
               if is_set (dget (obj_of j) ''has_more'')
               then fetch_pages fuel es sends meanwhile rid (Suc i) acc1 (meanwhile i c1)
               else (Inr (Some acc1), meanwhile i c1)))"

section \<open>Publishing\<close>

record totals =
  tt_applied :: nat
  tt_deleted :: nat
  tt_superseded :: nat
  tt_pages :: nat

text \<open>Upserts of the items of a list, numbered from \<open>i\<close>; the number counts those that were written.\<close>

fun upsert_items ::
  "control_env \<Rightarrow> string \<Rightarrow> int \<Rightarrow> nat \<Rightarrow> (string \<times> string \<times> json) list \<Rightarrow> controller_db \<Rightarrow> kerr + nat \<times> controller_db" where
  "upsert_items e rid epoch i [] db = Inr (0, db)"
| "upsert_items e rid epoch i ((job, status, payload) # xs) db =
     ebind (kept (upsert_shadow_body (ce_shadows e i) (ce_now e) rid job status (Some payload) epoch db)) (\<lambda>(r, db1).
     ebind (upsert_items e rid epoch (Suc i) xs db1) (\<lambda>(n, db2). Inr ((if r = None then n else Suc n), db2)))"

definition item_status :: "control_env \<Rightarrow> obj \<Rightarrow> string" where
  "item_status e d = py_str e (por (dget d ''status'') (JStr ''unknown''))"

definition item_entry :: "control_env \<Rightarrow> obj \<Rightarrow> string \<times> string \<times> json" where
  "item_entry e d = (py_str e (dget d ''job_id''), item_status e d, JObj d)"

definition suppress_all :: "int \<Rightarrow> string \<Rightarrow> string list \<Rightarrow> controller_db \<Rightarrow> controller_db" where
  "suppress_all now rid ids db = fold (suppress_shadow now rid) ids db"

definition finalize_locked :: "control_env \<Rightarrow> string \<Rightarrow> int \<Rightarrow> string list \<Rightarrow> obj \<Rightarrow> controller_db \<Rightarrow> kerr + nat \<times> controller_db" where
  "finalize_locked e rid epoch seen cursor db =
     ebind (kept (current_shadows rid db)) (\<lambda>shown.
       let gone = filter (\<lambda>j. j \<notin> set seen) (map sh_job shown)
       in Inr (length gone, set_snapshot_cursor (ce_now e) rid (JObj (dupdate [(''epoch'', JInt epoch)] cursor))
            (suppress_all (ce_now e) rid gone db)))"

definition raise_epoch :: "int \<Rightarrow> string \<Rightarrow> int \<Rightarrow> controller_db \<Rightarrow> controller_db" where
  "raise_epoch now rid epoch db =
     db\<lparr>remotes := upd (\<lambda>r. rm_id r = rid \<and> rm_epoch r < epoch) (\<lambda>r. r\<lparr>rm_epoch := epoch, rm_updated := now\<rparr>) (remotes db)\<rparr>"

definition feed_cursor :: "int \<Rightarrow> int \<Rightarrow> int \<Rightarrow> json" where
  "feed_cursor epoch feed_epoch s = JObj [(''state_epoch'', JInt epoch), (''feed_epoch'', JInt feed_epoch), (''seq'', JInt s)]"

text \<open>The timeline of a stored cursor, and its position; \<open>None\<close> where \<^verbatim>\<open>int\<close> raises.\<close>

definition cursor_timeline :: "control_env \<Rightarrow> obj \<Rightarrow> (int \<times> int) option" where
  "cursor_timeline e d =
     (case (if has_key d ''state_epoch'' then int_of (ce_trunc e) (dget d ''state_epoch'') else Some (- 1),
            if has_key d ''feed_epoch'' then int_of (ce_trunc e) (dget d ''feed_epoch'') else Some (- 1)) of
        (Some a, Some b) \<Rightarrow> Some (a, b) | _ \<Rightarrow> None)"

definition cursor_position :: "control_env \<Rightarrow> obj \<Rightarrow> int option" where
  "cursor_position e d = int_of (ce_trunc e) (por (dget d ''seq'') (JInt 0))"

definition advance_feed_cursor :: "control_env \<Rightarrow> string \<Rightarrow> int \<Rightarrow> int \<Rightarrow> int \<Rightarrow> controller_db \<Rightarrow> controller_db" where
  "advance_feed_cursor e rid epoch feed_epoch s db =
     (let ahead = (case get_feed_cursor rid db of
          Some (JObj d) \<Rightarrow> d \<noteq> [] \<and> cursor_timeline e d = Some (epoch, feed_epoch)
            \<and> (case cursor_position e d of Some p \<Rightarrow> s < p | None \<Rightarrow> False)
        | _ \<Rightarrow> False)
      in if ahead then db else set_feed_cursor (ce_now e) rid (Some (feed_cursor epoch feed_epoch s)) db)"

definition publish_body ::
  "control_env \<Rightarrow> string \<Rightarrow> json option \<Rightarrow> int \<Rightarrow> sync_acc \<Rightarrow> controller_db \<Rightarrow> kerr + totals \<times> controller_db" where
  "publish_body e rid baseline_cursor baseline_epoch acc db =
     (case find_remote db rid of
        None \<Rightarrow> Inl UnknownHost
      | Some m \<Rightarrow>
          if jnorm (or_empty (rm_feed_cursor m)) \<noteq> jnorm (or_empty baseline_cursor) \<or> rm_epoch m \<noteq> baseline_epoch
          then Inl (Rejected invalid)
          else (case sa_ids acc of
              None \<Rightarrow> Inl Raised
            | Some (high, boundary, feed_epoch, epoch, sid) \<Rightarrow>
                let items = concat (map page_items (sa_pages acc))
                in ebind (upsert_items e rid epoch 0 (map (item_entry e) items) db) (\<lambda>(applied, db1).
                   let (superseded, db2) = supersede_old_epochs (ce_now e) rid epoch db1
                   in ebind (finalize_locked e rid epoch (map (\<lambda>d. py_str e (dget d ''job_id'')) items)
                        (obj_of (or_empty (sa_cursor acc))) db2) (\<lambda>(deleted, db3).
                      Inr (\<lparr>tt_applied = applied, tt_deleted = deleted, tt_superseded = superseded, tt_pages = length (sa_pages acc)\<rparr>,
                        raise_epoch (ce_now e) rid epoch (advance_feed_cursor e rid epoch feed_epoch boundary db3))))))"

definition no_pages :: sync_acc where
  "no_pages = \<lparr>sa_pages = [], sa_ids = None, sa_cursor = None\<rparr>"

text \<open>\<open>Inr None\<close> when more than \<open>fuel\<close> pages come.\<close>

definition sync_snapshot ::
  "nat \<Rightarrow> control_env \<Rightarrow> (nat \<Rightarrow> control_env) \<Rightarrow> (nat \<Rightarrow> obj \<Rightarrow> json option) \<Rightarrow> (nat \<Rightarrow> controller \<Rightarrow> controller) \<Rightarrow> string \<Rightarrow>
   controller \<Rightarrow> (kerr + totals option) \<times> controller" where
  "sync_snapshot fuel e es sends meanwhile rid c =
     (case find_remote (store c) rid of
        None \<Rightarrow> (Inl UnknownHost, c)
      | Some m \<Rightarrow>
          (case fetch_pages fuel es sends meanwhile rid 0 no_pages c of
             (Inl x, c1) \<Rightarrow> (Inl x, c1)
           | (Inr None, c1) \<Rightarrow> (Inr None, c1)
           | (Inr (Some acc), c1) \<Rightarrow>
               (case txn (publish_body e rid (rm_feed_cursor m) (rm_epoch m) acc) (store c1) of
                  (Inl x, db) \<Rightarrow> (Inl x, c1\<lparr>store := db\<rparr>)
                | (Inr t, db) \<Rightarrow> (Inr (Some t), c1\<lparr>store := db\<rparr>))))"

text \<open>One page applied on its own, and the reconciliation after the last of several.\<close>

definition apply_snapshot :: "control_env \<Rightarrow> string \<Rightarrow> obj \<Rightarrow> bool \<Rightarrow> controller_db \<Rightarrow> (kerr + totals) \<times> controller_db" where
  "apply_snapshot e rid p final_page =
     txn (\<lambda>db. ebind (num e (por (dget p ''state_epoch'') (JInt 1))) (\<lambda>epoch.
       ebind (upsert_items e rid epoch 0 (map (item_entry e) (page_items p)) db) (\<lambda>(applied, db1).
       let (superseded, db2) = supersede_old_epochs (ce_now e) rid epoch db1
       in ebind (if final_page then finalize_locked e rid epoch (map (\<lambda>d. py_str e (dget d ''job_id'')) (page_items p))
              (obj_of (por (dget p ''cursor'') (JObj []))) db2
            else Inr (0, db2)) (\<lambda>(deleted, db3).
          Inr (\<lparr>tt_applied = applied, tt_deleted = deleted, tt_superseded = superseded, tt_pages = 1\<rparr>,
            raise_epoch (ce_now e) rid epoch db3)))))"

definition finalize_snapshot :: "control_env \<Rightarrow> string \<Rightarrow> int \<Rightarrow> string list \<Rightarrow> obj \<Rightarrow> controller_db \<Rightarrow> (kerr + nat) \<times> controller_db" where
  "finalize_snapshot e rid epoch seen cursor =
     txn (\<lambda>db. ebind (finalize_locked e rid epoch seen cursor db) (\<lambda>(n, db1). Inr (n, raise_epoch (ce_now e) rid epoch db1)))"

section \<open>The feed\<close>

text \<open>The batch that a host sends, as far as the controller reads it.\<close>

record batch =
  bt_epoch :: int
  bt_feed_epoch :: int
  bt_end :: int
  bt_changes :: "json list"
  bt_more :: bool

definition batch_of :: "control_env \<Rightarrow> obj \<Rightarrow> kerr + batch" where
  "batch_of e d =
     (case (por (dget d ''changes'') (JArr []), por (dget d ''cursor'') (JObj [])) of
        (JArr xs, JObj cur) \<Rightarrow>
          ebind (num e (por (dget d ''state_epoch'') (JInt 1))) (\<lambda>epoch.
          ebind (num e (por (dget cur ''seq'') (JInt 0))) (\<lambda>last.
          ebind (num e (por (dget d ''feed_epoch'') (JInt 1))) (\<lambda>feed_epoch.
          Inr \<lparr>bt_epoch = epoch, bt_feed_epoch = feed_epoch, bt_end = last, bt_changes = xs,
            bt_more = is_set (dget d ''has_more'')\<rparr>)))
      | _ \<Rightarrow> Inl Raised)"

text \<open>A stored cursor that the feed of the host can no longer continue.\<close>

definition cursor_is_gapped :: "control_env \<Rightarrow> json option \<Rightarrow> obj \<Rightarrow> kerr + bool" where
  "cursor_is_gapped e cursor d =
     (case cursor of
        Some (JObj cur) \<Rightarrow>
          ebind (if dget d ''state_epoch'' = JNull then Inr False
                 else ebind (if has_key cur ''state_epoch'' then num e (dget cur ''state_epoch'') else Inr (- 1)) (\<lambda>a.
                      ebind (num e (dget d ''state_epoch'')) (\<lambda>b. Inr (a \<noteq> b)))) (\<lambda>g1.
          if g1 then Inr True
          else ebind (if dget d ''feed_epoch'' = JNull then Inr False
                 else ebind (if has_key cur ''feed_epoch'' then num e (dget cur ''feed_epoch'') else Inr (- 1)) (\<lambda>a.
                      ebind (num e (dget d ''feed_epoch'')) (\<lambda>b. Inr (a \<noteq> b)))) (\<lambda>g2.
          if g2 then Inr True
          else if dget d ''oldest_seq'' = JNull then Inr False
          else ebind (num e (por (dget cur ''seq'') (JInt 0))) (\<lambda>p.
               ebind (num e (dget d ''oldest_seq'')) (\<lambda>oldest. Inr (p + 1 < oldest)))))
      | Some _ \<Rightarrow> Inl Raised
      | None \<Rightarrow> Inr False)"

text \<open>Why a batch is skipped: the durable cursor is on another timeline, moved to one, or is past the batch.\<close>

definition stale_batch :: "control_env \<Rightarrow> json option \<Rightarrow> json option \<Rightarrow> batch \<Rightarrow> kerr + bool" where
  "stale_batch e durable requested b =
     (case durable of
        None \<Rightarrow> Inr False
      | Some (JObj d) \<Rightarrow>
          (case cursor_timeline e d of
             None \<Rightarrow> Inl Raised
           | Some t \<Rightarrow>
               if t \<noteq> (bt_epoch b, bt_feed_epoch b) then Inr True
               else (case (case requested of None \<Rightarrow> Some t | Some j \<Rightarrow> cursor_timeline e (obj_of j)) of
                   None \<Rightarrow> Inl Raised
                 | Some t' \<Rightarrow> if t \<noteq> t' then Inr True
                     else (case cursor_position e d of None \<Rightarrow> Inl Raised | Some p \<Rightarrow> Inr (bt_end b \<le> p \<and> 0 < bt_end b))))
      | Some _ \<Rightarrow> Inl Raised)"

text \<open>The changes one after another; the numbers count written upserts and tombstones.\<close>

fun apply_changes :: "control_env \<Rightarrow> string \<Rightarrow> int \<Rightarrow> nat \<Rightarrow> json list \<Rightarrow> controller_db \<Rightarrow> kerr + (nat \<times> nat) \<times> controller_db" where
  "apply_changes e rid epoch i [] db = Inr ((0, 0), db)"
| "apply_changes e rid epoch i (JObj ch # chs) db =
     (let job = py_str e (por (dget ch ''job_id'') (JStr [])); payload = por (dget ch ''payload'') (JObj [])
      in if dget ch ''kind'' = JStr ''job.upsert'' then
           (case payload of
              JObj d \<Rightarrow>
                ebind (kept (upsert_shadow_body (ce_shadows e i) (ce_now e) rid job (item_status e d) (Some payload) epoch db)) (\<lambda>(r, db1).
                ebind (apply_changes e rid epoch (Suc i) chs db1) (\<lambda>((a, s), db2).
                Inr ((if r = None then a else Suc a, s), db2)))
            | _ \<Rightarrow> Inl Raised)
         else if dget ch ''kind'' = JStr ''job.tombstone'' then
           ebind (apply_changes e rid epoch (Suc i) chs (suppress_shadow (ce_now e) rid job db)) (\<lambda>((a, s), db2). Inr ((a, Suc s), db2))
         else Inl (Rejected invalid))"
| "apply_changes e rid epoch i (_ # chs) db = Inl Raised"

datatype feed_outcome =
    Applied nat nat nat bool "json option"
  | Skipped nat bool "json option"
  | Resynced totals "json option"

definition feed_body :: "control_env \<Rightarrow> string \<Rightarrow> json option \<Rightarrow> batch \<Rightarrow> controller_db \<Rightarrow> kerr + feed_outcome \<times> controller_db" where
  "feed_body e rid requested b db =
     ebind (stale_batch e (get_feed_cursor rid db) requested b) (\<lambda>stale.
       if stale then Inr (Skipped (length (bt_changes b)) (bt_more b) (get_feed_cursor rid db), db)
       else ebind (apply_changes e rid (bt_epoch b) 0 (bt_changes b) db) (\<lambda>((a, s), db1).
         let db2 = raise_epoch (ce_now e) rid (bt_epoch b) (advance_feed_cursor e rid (bt_epoch b) (bt_feed_epoch b) (bt_end b) db1)
         in Inr (Applied a s (length (bt_changes b)) (bt_more b) (get_feed_cursor rid db2), db2)))"

definition apply_feed :: "control_env \<Rightarrow> string \<Rightarrow> json option \<Rightarrow> batch \<Rightarrow> controller \<Rightarrow> (kerr + feed_outcome option) \<times> controller" where
  "apply_feed e rid requested b c =
     (case txn (feed_body e rid requested b) (store c) of
        (Inl x, db) \<Rightarrow> (Inl x, c\<lparr>store := db\<rparr>) | (Inr y, db) \<Rightarrow> (Inr (Some y), c\<lparr>store := db\<rparr>))"

text \<open>\<open>sends 0\<close> is the session of the feed request, the others those of a snapshot that replaces it.\<close>

definition feed_sync ::
  "nat \<Rightarrow> control_env \<Rightarrow> (nat \<Rightarrow> control_env) \<Rightarrow> (nat \<Rightarrow> obj \<Rightarrow> json option) \<Rightarrow> (nat \<Rightarrow> controller \<Rightarrow> controller) \<Rightarrow> string \<Rightarrow> int \<Rightarrow>
   controller \<Rightarrow> (kerr + feed_outcome option) \<times> controller" where
  "feed_sync fuel e es sends meanwhile rid wait_ms c =
     (let requested = get_feed_cursor rid (store c) in
      case read_request e rid ''job.feed'' ((case requested of None \<Rightarrow> [] | Some j \<Rightarrow> [(''cursor'', j)])
             @ (if wait_ms \<noteq> 0 then [(''wait_ms'', JInt wait_ms)] else [])) (sends 0) c of
        (Inl x, c1) \<Rightarrow> (Inl x, c1)
      | (Inr r, c1) \<Rightarrow>
          if rq_error r \<noteq> None \<and> rq_error r \<noteq> Some [] then (Inl (Rejected invalid), c1)
          else (case or_empty (rq_response r) of
              JObj d \<Rightarrow>
                if dget d ''kind'' \<noteq> JStr ''feed'' then (Inl (Rejected invalid), c1)
                else (case cursor_is_gapped e requested d of
                    Inl x \<Rightarrow> (Inl x, c1)
                  | Inr True \<Rightarrow>
                      (case sync_snapshot fuel e es (\<lambda>i. sends (Suc i)) meanwhile rid c1 of
                         (Inl x, c2) \<Rightarrow> (Inl x, c2)
                       | (Inr None, c2) \<Rightarrow> (Inr None, c2)
                       | (Inr (Some t), c2) \<Rightarrow> (Inr (Some (Resynced t (get_feed_cursor rid (store c2)))), c2))
                  | Inr False \<Rightarrow>
                      (case batch_of e d of
                         Inl x \<Rightarrow> (Inl x, c1)
                       | Inr b \<Rightarrow> apply_feed e rid requested b (meanwhile 0 c1)))
            | _ \<Rightarrow> (Inl Raised, c1)))"

end
