(* ===== verification/Mirror.thy ===== *)
theory Mirror
  imports RemoteSync
begin

text \<open>
  What a controller knows of the jobs of a host, as an abstract mirror: a job is absent, shown with its
  status, outdated (its shadow belongs to an earlier epoch) or hidden for good.  Snapshots and feed batches
  implement the operations of the mirror.
\<close>

section \<open>The mirror\<close>

datatype seen = Absent | Outdated | Shown string "json option" | Hidden

type_synonym mirror = "string \<Rightarrow> seen"

definition seen_row :: "int \<Rightarrow> shadow_row \<Rightarrow> seen" where
  "seen_row epoch s =
     (if sh_suppressed s \<noteq> None \<or> sh_superseded s \<noteq> None then Hidden
      else if sh_epoch s < epoch then Outdated
      else if sh_epoch s = epoch then Shown (sh_status s) (sh_payload s) else Hidden)"

definition seen_at :: "int \<Rightarrow> string \<Rightarrow> controller_db \<Rightarrow> mirror" where
  "seen_at epoch rid db job = (case find_shadow db (rid, job) of None \<Rightarrow> Absent | Some s \<Rightarrow> seen_row epoch s)"

definition mirror :: "string \<Rightarrow> controller_db \<Rightarrow> mirror" where
  "mirror rid db = (case find_remote db rid of None \<Rightarrow> (\<lambda>_. Absent) | Some m \<Rightarrow> seen_at (rm_epoch m) rid db)"

definition see_upsert :: "string \<Rightarrow> json \<Rightarrow> seen \<Rightarrow> seen" where
  "see_upsert status payload x = (if x = Hidden then Hidden else Shown status (Some payload))"

definition see_drop :: "seen \<Rightarrow> seen" where
  "see_drop x = (if x = Absent then Absent else Hidden)"

definition put_item :: "string \<times> string \<times> json \<Rightarrow> mirror \<Rightarrow> mirror" where
  "put_item x f = (case x of (job, status, payload) \<Rightarrow> f(job := see_upsert status payload (f job)))"

definition see_items :: "(string \<times> string \<times> json) list \<Rightarrow> mirror \<Rightarrow> mirror" where
  "see_items xs f = fold put_item xs f"

text \<open>A snapshot shows its jobs and hides all others that were known.\<close>

definition see_snapshot :: "(string \<times> string \<times> json) list \<Rightarrow> mirror \<Rightarrow> mirror" where
  "see_snapshot xs f job = (if job \<in> fst ` set xs then see_items xs f job else see_drop (f job))"

text \<open>No shadow of the host belongs to an epoch that the controller has not reached.\<close>

definition no_future :: "string \<Rightarrow> controller_db \<Rightarrow> bool" where
  "no_future rid db = (case find_remote db rid of None \<Rightarrow> True
     | Some m \<Rightarrow> \<forall>s \<in> set (shadows db). sh_remote s = rid \<longrightarrow> sh_epoch s \<le> rm_epoch m)"

section \<open>Shadows under the operations\<close>

lemma find_shadow_upd:
  "(\<And>s. shadow_key (f s) = shadow_key s) \<Longrightarrow>
   find_shadow (db\<lparr>shadows := upd P f (shadows db)\<rparr>) k = map_option (\<lambda>s. if P s then f s else s) (find_shadow db k)"
  by (simp add: find_shadow_def find_upd_key)

lemma find_shadow_same: "shadows db' = shadows db \<Longrightarrow> find_shadow db' k = find_shadow db k"
  by (simp add: find_shadow_def)

lemma seen_same: "shadows db' = shadows db \<Longrightarrow> seen_at n rid db' = seen_at n rid db"
  unfolding seen_at_def find_shadow_def by simp

text \<open>What an upsert leaves as it is.\<close>

definition upserted :: "controller_db \<Rightarrow> controller_db \<Rightarrow> bool" where
  "upserted db db' = (remotes db' = remotes db \<and> requests db' = requests db \<and> tombstones db' = tombstones db)"

lemma upsert_frame:
  "upsert_shadow_body fresh now rid job status payload epoch db = Inr (r, db') \<Longrightarrow> upserted db db'"
  by (auto simp: upsert_shadow_body_def upserted_def Let_def split: option.splits if_splits)

lemma upsert_ok:
  assumes "controller_ok db" "upsert_shadow_body fresh now rid job status payload epoch db = Inr (r, db')"
  shows "controller_ok db'"
  using call_ok [OF assms(1), of "UpsertShadow fresh now rid job status payload epoch"] assms(2)
  by (simp add: upsert_shadow_def txn_def)

lemma find_shadow_at: "find_shadow db k = Some s \<Longrightarrow> s \<in> set (shadows db) \<and> shadow_key s = k"
  by (auto simp: find_shadow_def dest: find_SomeD)

lemma upsert_find:
  assumes "controller_ok db" "upsert_shadow_body fresh now rid job status payload epoch db = Inr (r, db')"
  shows "find_shadow db' k =
    (if k = (rid, job) then
       (case find_shadow db k of
          None \<Rightarrow> Some \<lparr>sh_id = fresh, sh_remote = rid, sh_job = job, sh_status = status, sh_payload = payload,
            sh_epoch = epoch, sh_suppressed = None, sh_superseded = None, sh_created = now, sh_updated = now\<rparr>
        | Some s \<Rightarrow> if sh_suppressed s \<noteq> None \<or> epoch < sh_epoch s then Some s
            else Some (s\<lparr>sh_status := status, sh_payload := payload, sh_epoch := epoch, sh_updated := now\<rparr>))
     else find_shadow db k)"
proof (cases "find_shadow db (rid, job)")
  case None
  with assms(2) have "db' = db\<lparr>shadows := shadows db @ [\<lparr>sh_id = fresh, sh_remote = rid, sh_job = job, sh_status = status,
      sh_payload = payload, sh_epoch = epoch, sh_suppressed = None, sh_superseded = None, sh_created = now, sh_updated = now\<rparr>]\<rparr>"
    by (simp add: upsert_shadow_body_def Let_def split: if_splits)
  with None show ?thesis
    by (cases k; cases "find_shadow db k") (auto simp: find_shadow_def find_append shadow_key_def)
next
  case (Some s)
  let ?P = "\<lambda>q. sh_id q = sh_id s"
    and ?f = "\<lambda>q. q\<lparr>sh_status := status, sh_payload := payload, sh_epoch := epoch, sh_updated := now\<rparr>"
  show ?thesis
  proof (cases "sh_suppressed s \<noteq> None \<or> epoch < sh_epoch s")
    case True
    with Some assms(2) show ?thesis by (auto simp: upsert_shadow_body_def split: if_splits)
  next
    case False
    with Some assms(2) have d: "db' = db\<lparr>shadows := upd ?P ?f (shadows db)\<rparr>"
      by (auto simp: upsert_shadow_body_def Let_def)
    have "find_shadow db' k = map_option (\<lambda>q. if ?P q then ?f q else q) (find_shadow db k)"
      unfolding d by (rule find_shadow_upd) (simp add: shadow_key_def)
    moreover have "sh_id q \<noteq> sh_id s" if "find_shadow db k = Some q" "k \<noteq> (rid, job)" for q
      using key_unique [of sh_id "shadows db" q s] assms(1) that find_shadow_at [OF Some] find_shadow_at [OF that(1)]
      by (auto simp: controller_ok_def)
    ultimately show ?thesis using Some False by (cases "find_shadow db k") auto
  qed
qed

lemma upsert_row:
  "seen_row epoch (if sh_suppressed s \<noteq> None \<or> epoch < sh_epoch s then s
     else s\<lparr>sh_status := status, sh_payload := Some p, sh_epoch := epoch, sh_updated := now\<rparr>)
   = see_upsert status p (seen_row epoch s)"
  by (cases "sh_suppressed s"; cases "sh_superseded s") (simp_all add: seen_row_def see_upsert_def)

lemma upsert_seen:
  assumes "controller_ok db" "upsert_shadow_body fresh now rid job status (Some p) epoch db = Inr (r, db')"
  shows "seen_at epoch rid db' = put_item (job, status, p) (seen_at epoch rid db)"
proof
  fix j
  note f = upsert_find [OF assms, of "(rid, j)"]
  show "seen_at epoch rid db' j = put_item (job, status, p) (seen_at epoch rid db) j"
  proof (cases "j = job")
    case False
    with f show ?thesis by (simp add: seen_at_def put_item_def)
  next
    case True
    show ?thesis
    proof (cases "find_shadow db (rid, job)")
      case None
      with f True show ?thesis by (simp add: seen_at_def put_item_def see_upsert_def seen_row_def)
    next
      case (Some s)
      with f True have "find_shadow db' (rid, job) = Some (if sh_suppressed s \<noteq> None \<or> epoch < sh_epoch s then s
          else s\<lparr>sh_status := status, sh_payload := Some p, sh_epoch := epoch, sh_updated := now\<rparr>)"
        by (cases "sh_suppressed s \<noteq> None \<or> epoch < sh_epoch s") simp_all
      then have "seen_at epoch rid db' job = see_upsert status p (seen_row epoch s)"
        unfolding seen_at_def by (simp only: option.case upsert_row)
      with True Some show ?thesis by (simp add: seen_at_def put_item_def)
    qed
  qed
qed

lemma suppress_row: "seen_row n (s\<lparr>sh_suppressed := Some now, sh_updated := now\<rparr>) = Hidden" "seen_row n s \<noteq> Absent"
  by (simp_all add: seen_row_def)

lemma suppress_seen: "seen_at n rid (suppress_shadow now rid job db) = (seen_at n rid db)(job := see_drop (seen_at n rid db job))"
proof
  fix j
  have "find_shadow (suppress_shadow now rid job db) (rid, j) =
    map_option (\<lambda>s. if shadow_key s = (rid, job) then s\<lparr>sh_suppressed := Some now, sh_updated := now\<rparr> else s) (find_shadow db (rid, j))"
    unfolding suppress_shadow_def by (rule find_shadow_upd) (simp add: shadow_key_def)
  then show "seen_at n rid (suppress_shadow now rid job db) j = ((seen_at n rid db)(job := see_drop (seen_at n rid db job))) j"
    by (cases "find_shadow db (rid, j)"; cases "j = job") (auto simp: seen_at_def see_drop_def suppress_row dest: find_shadow_at)
qed

lemma suppress_frame: "upserted db (suppress_shadow now rid job db)"
  by (simp add: upserted_def suppress_shadow_def)

lemma suppress_ok: "controller_ok db \<Longrightarrow> controller_ok (suppress_shadow now rid job db)"
  using call_ok [of db "SuppressShadow now rid job"] by simp

lemma upserted_trans: "upserted a b \<Longrightarrow> upserted b c \<Longrightarrow> upserted a c"
  by (simp add: upserted_def)

lemma upserted_refl: "upserted a a"
  by (simp add: upserted_def)

lemma upserted_remote: "upserted db db' \<Longrightarrow> find_remote db' rid = find_remote db rid"
  by (simp add: upserted_def find_remote_def)

section \<open>Snapshots and batches\<close>

lemma upsert_items_frame:
  "upsert_items e rid epoch i xs db = Inr (n, db') \<Longrightarrow> controller_ok db \<Longrightarrow>
   controller_ok db' \<and> upserted db db' \<and> seen_at epoch rid db' = see_items xs (seen_at epoch rid db)"
proof (induction xs arbitrary: i n db)
  case Nil
  then show ?case by (simp add: upserted_refl see_items_def)
next
  case (Cons x xs)
  obtain job status payload where x: "x = (job, status, payload)" by (cases x)
  from Cons.prems(1) obtain r db1 m where
    u: "upsert_shadow_body (ce_shadows e i) (ce_now e) rid job status (Some payload) epoch db = Inr (r, db1)"
    "upsert_items e rid epoch (Suc i) xs db1 = Inr (m, db')"
    by (auto simp: x kept_def ebind_def split: sum.splits)
  note ok = upsert_ok [OF Cons.prems(2) u(1)]
  from Cons.IH [OF u(2) ok] upsert_frame [OF u(1)] upsert_seen [OF Cons.prems(2) u(1)]
  show ?case by (auto simp: see_items_def x dest: upserted_trans)
qed

lemma suppress_all_frame:
  "controller_ok db \<Longrightarrow> controller_ok (suppress_all now rid ids db) \<and> upserted db (suppress_all now rid ids db)
   \<and> seen_at n rid (suppress_all now rid ids db) = (\<lambda>j. if j \<in> set ids then see_drop (seen_at n rid db j) else seen_at n rid db j)"
proof (induction ids arbitrary: db)
  case Nil
  then show ?case by (simp add: suppress_all_def upserted_refl)
next
  case (Cons j ids)
  have "see_drop (see_drop x) = see_drop x" for x by (simp add: see_drop_def)
  with Cons.IH [OF suppress_ok [OF Cons.prems], of now rid j] upserted_trans [OF suppress_frame [of db now rid j]]
  show ?case by (auto simp: suppress_all_def suppress_seen fun_eq_iff)
qed

lemma supersede_frame:
  assumes "controller_ok db"
  shows "controller_ok (snd (supersede_old_epochs now rid n db)) \<and> upserted db (snd (supersede_old_epochs now rid n db))
    \<and> (\<forall>j. seen_at n rid (snd (supersede_old_epochs now rid n db)) j =
          (if seen_at n rid db j = Outdated then Hidden else seen_at n rid db j))"
proof (intro conjI allI)
  show "controller_ok (snd (supersede_old_epochs now rid n db))"
    using call_ok [OF assms, of "SupersedeOldEpochs now rid n"] by simp
  show "upserted db (snd (supersede_old_epochs now rid n db))"
    by (simp add: upserted_def supersede_old_epochs_def Let_def)
  fix j
  let ?P = "\<lambda>s. sh_remote s = rid \<and> sh_epoch s < n \<and> sh_superseded s = None"
    and ?f = "\<lambda>s. s\<lparr>sh_superseded := Some now, sh_updated := now\<rparr>"
  have "find_shadow (snd (supersede_old_epochs now rid n db)) (rid, j) = map_option (\<lambda>s. if ?P s then ?f s else s) (find_shadow db (rid, j))"
    unfolding supersede_old_epochs_def Let_def snd_conv by (rule find_shadow_upd) (simp add: shadow_key_def)
  moreover have "seen_row n (if ?P s then ?f s else s) = (if seen_row n s = Outdated then Hidden else seen_row n s)"
    if "sh_remote s = rid" for s
    using that by (simp add: seen_row_def)
  moreover have "sh_remote s = rid" if "find_shadow db (rid, j) = Some s" for s
    using find_shadow_at [OF that] by (simp add: shadow_key_def)
  ultimately show "seen_at n rid (snd (supersede_old_epochs now rid n db)) j =
      (if seen_at n rid db j = Outdated then Hidden else seen_at n rid db j)"
    unfolding seen_at_def by (cases "find_shadow db (rid, j)") (simp, simp only: option.simps option.case)
qed

lemma find_shadow_set:
  "controller_ok db \<Longrightarrow> s \<in> set (shadows db) \<Longrightarrow> find_shadow db (sh_remote s, sh_job s) = Some s"
  using find_key [of shadow_key "shadows db" s] by (simp add: find_shadow_def controller_ok_def shadow_key_def)

lemma shown_jobs:
  assumes "controller_ok db" "find_remote db rid = Some m" "current_shadows rid db = Inr ss"
  shows "sh_job ` set ss = {j. \<exists>st p. seen_at (rm_epoch m) rid db j = Shown st p}"
proof -
  have ss: "set ss = {s \<in> set (shadows db). sh_remote s = rid \<and> sh_suppressed s = None \<and> sh_superseded s = None \<and> sh_epoch s = rm_epoch m}"
    using assms(2,3) by (auto simp: current_shadows_def)
  show ?thesis
  proof (intro set_eqI iffI)
    fix j
    assume "j \<in> sh_job ` set ss"
    then obtain s where s: "s \<in> set ss" "j = sh_job s" by blast
    with ss find_shadow_set [OF assms(1), of s] show "j \<in> {j. \<exists>st p. seen_at (rm_epoch m) rid db j = Shown st p}"
      by (auto simp: seen_at_def seen_row_def)
  next
    fix j
    assume "j \<in> {j. \<exists>st p. seen_at (rm_epoch m) rid db j = Shown st p}"
    then obtain s where s: "find_shadow db (rid, j) = Some s" "sh_suppressed s = None" "sh_superseded s = None" "sh_epoch s = rm_epoch m"
      by (auto simp: seen_at_def seen_row_def split: option.splits if_splits)
    with find_shadow_at [OF s(1)] ss show "j \<in> sh_job ` set ss" by (force simp: shadow_key_def)
  qed
qed

lemma seen_remotes [simp]: "seen_at n rid (db\<lparr>remotes := t\<rparr>) = seen_at n rid db"
  by (rule seen_same) simp

lemma remote_update_ok:
  "controller_ok db \<Longrightarrow> (\<And>r. rm_id (f r) = rm_id r) \<Longrightarrow> controller_ok (db\<lparr>remotes := upd P f (remotes db)\<rparr>)"
  by (simp add: controller_ok_def map_upd_same)

lemma set_cursor_frame:
  "controller_ok db \<Longrightarrow> controller_ok (set_snapshot_cursor now rid cur db)"
  "seen_at n rid (set_snapshot_cursor now rid' cur db) = seen_at n rid db"
  "find_remote (set_snapshot_cursor now rid' cur db) rid = map_option (\<lambda>r. if rm_id r = rid' then r\<lparr>rm_snapshot_cursor := Some cur, rm_updated := now\<rparr> else r) (find_remote db rid)"
  by (simp_all add: set_snapshot_cursor_def update_remote_def remote_update_ok find_remote_def find_upd_key)

lemma set_feed_cursor_frame:
  "controller_ok db \<Longrightarrow> controller_ok (set_feed_cursor now rid cur db)"
  "seen_at n rid (set_feed_cursor now rid' cur db) = seen_at n rid db"
  "map_option rm_epoch (find_remote (set_feed_cursor now rid' cur db) rid) = map_option rm_epoch (find_remote db rid)"
proof -
  show "controller_ok db \<Longrightarrow> controller_ok (set_feed_cursor now rid cur db)"
    "seen_at n rid (set_feed_cursor now rid' cur db) = seen_at n rid db"
    by (simp_all add: set_feed_cursor_def update_remote_def remote_update_ok)
  show "map_option rm_epoch (find_remote (set_feed_cursor now rid' cur db) rid) = map_option rm_epoch (find_remote db rid)"
    by (cases "find_remote db rid") (simp_all add: set_feed_cursor_def update_remote_def find_remote_def find_upd_key)
qed

lemma advance_frame:
  "controller_ok db \<Longrightarrow> controller_ok (advance_feed_cursor e rid a b c db)"
  "seen_at n rid (advance_feed_cursor e rid' a b c db) = seen_at n rid db"
  "map_option rm_epoch (find_remote (advance_feed_cursor e rid' a b c db) rid) = map_option rm_epoch (find_remote db rid)"
  by (simp_all add: advance_feed_cursor_def Let_def set_feed_cursor_frame)

lemma raise_frame:
  "controller_ok db \<Longrightarrow> controller_ok (raise_epoch now rid n db)"
  "seen_at k rid (raise_epoch now rid' n db) = seen_at k rid db"
  "map_option rm_epoch (find_remote (raise_epoch now rid n db) rid) = map_option (max n) (map_option rm_epoch (find_remote db rid))"
proof -
  show "controller_ok db \<Longrightarrow> controller_ok (raise_epoch now rid n db)"
    "seen_at k rid (raise_epoch now rid' n db) = seen_at k rid db"
    by (simp_all add: raise_epoch_def remote_update_ok)
  have "find_remote (raise_epoch now rid n db) rid =
    map_option (\<lambda>r. if rm_id r = rid \<and> rm_epoch r < n then r\<lparr>rm_epoch := n, rm_updated := now\<rparr> else r) (find_remote db rid)"
    by (simp add: raise_epoch_def find_remote_def find_upd_key)
  then show "map_option rm_epoch (find_remote (raise_epoch now rid n db) rid) = map_option (max n) (map_option rm_epoch (find_remote db rid))"
    by (cases "find_remote db rid") (auto simp: find_remote_def max_def dest: find_SomeD)
qed

lemma finalize_frame:
  assumes "controller_ok db" "find_remote db rid = Some m" "finalize_locked e rid epoch seen cur db = Inr (n, db')"
  shows "controller_ok db'" "map_option rm_epoch (find_remote db' rid) = Some (rm_epoch m)"
    "seen_at k rid db' j = (if j \<notin> set seen \<and> (\<exists>st p. seen_at (rm_epoch m) rid db j = Shown st p) then see_drop (seen_at k rid db j)
       else seen_at k rid db j)"
proof -
  from assms(2) obtain ss where ss: "current_shadows rid db = Inr ss" by (simp add: current_shadows_def)
  let ?gone = "filter (\<lambda>j. j \<notin> set seen) (map sh_job ss)"
  let ?db1 = "suppress_all (ce_now e) rid ?gone db"
  have d: "db' = set_snapshot_cursor (ce_now e) rid (JObj (dupdate [(''epoch'', JInt epoch)] cur)) ?db1"
    using assms(3) by (simp add: finalize_locked_def ss kept_def Let_def)
  note s = suppress_all_frame [OF assms(1), of "ce_now e" rid ?gone]
  show "controller_ok db'" using s by (simp add: d set_cursor_frame)
  show "map_option rm_epoch (find_remote db' rid) = Some (rm_epoch m)"
    using s upserted_remote [of db ?db1 rid] assms(2) by (simp add: d set_cursor_frame)
  have "j \<in> set ?gone \<longleftrightarrow> j \<notin> set seen \<and> (\<exists>st p. seen_at (rm_epoch m) rid db j = Shown st p)"
    using shown_jobs [OF assms(1,2) ss] by auto
  then show "seen_at k rid db' j = (if j \<notin> set seen \<and> (\<exists>st p. seen_at (rm_epoch m) rid db j = Shown st p) then see_drop (seen_at k rid db j)
       else seen_at k rid db j)"
    using suppress_all_frame [OF assms(1), of "ce_now e" rid ?gone k] by (simp add: d set_cursor_frame)
qed

lemma see_items_cases:
  "j \<notin> fst ` set xs \<Longrightarrow> see_items xs f j = f j"
  "j \<in> fst ` set xs \<Longrightarrow> if f j = Hidden then see_items xs f j = Hidden else \<exists>st p. see_items xs f j = Shown st p"
proof -
  show "j \<notin> fst ` set xs \<Longrightarrow> see_items xs f j = f j"
    by (induction xs arbitrary: f) (auto simp: see_items_def put_item_def)
  show "j \<in> fst ` set xs \<Longrightarrow> if f j = Hidden then see_items xs f j = Hidden else \<exists>st p. see_items xs f j = Shown st p"
  proof (induction xs arbitrary: f)
    case (Cons x xs)
    obtain job st p where x: "x = (job, st, p)" by (cases x)
    let ?g = "put_item x f"
    have r: "see_items (x # xs) f j = see_items xs ?g j" by (simp add: see_items_def)
    have out: "see_items xs ?g j = ?g j" if "j \<notin> fst ` set xs"
      using that by (induction xs arbitrary: f rule: rev_induct) (auto simp: see_items_def put_item_def)
    show ?case
    proof (cases "j \<in> fst ` set xs")
      case True
      with Cons.IH [of ?g] show ?thesis unfolding r by (auto simp: x put_item_def see_upsert_def split: if_splits)
    next
      case False
      with Cons.prems have "j = job" by (auto simp: x)
      with out [OF False] show ?thesis unfolding r by (auto simp: x put_item_def see_upsert_def)
    qed
  qed simp
qed

text \<open>The items of an accumulated snapshot.\<close>

definition sync_items :: "control_env \<Rightarrow> sync_acc \<Rightarrow> (string \<times> string \<times> json) list" where
  "sync_items e acc = map (item_entry e) (concat (map page_items (sa_pages acc)))"

definition sync_epoch :: "sync_acc \<Rightarrow> int" where
  "sync_epoch acc = (case sa_ids acc of Some (_, _, _, epoch, _) \<Rightarrow> epoch | None \<Rightarrow> 0)"

lemma publish_cases:
  assumes "publish_body e rid cur ep acc db = Inr (t, db')"
  obtains m high boundary feed_epoch epoch sid applied db1 deleted db3 where
    "find_remote db rid = Some m" "sa_ids acc = Some (high, boundary, feed_epoch, epoch, sid)"
    "upsert_items e rid epoch 0 (sync_items e acc) db = Inr (applied, db1)"
    "finalize_locked e rid epoch (map fst (sync_items e acc)) (obj_of (or_empty (sa_cursor acc)))
       (snd (supersede_old_epochs (ce_now e) rid epoch db1)) = Inr (deleted, db3)"
    "db' = raise_epoch (ce_now e) rid epoch (advance_feed_cursor e rid epoch feed_epoch boundary db3)"
    "jnorm (or_empty (rm_feed_cursor m)) = jnorm (or_empty cur)" "rm_epoch m = ep"
proof -
  have f: "map (\<lambda>d. py_str e (dget d ''job_id'')) (concat (map page_items (sa_pages acc))) = map fst (sync_items e acc)"
    by (simp add: sync_items_def item_entry_def)
  show ?thesis
    using assms that
    by (auto simp: publish_body_def Let_def case_prod_beta f ebind_def sync_items_def [symmetric] split: option.splits if_splits sum.splits)
qed

lemma see_items_Hidden:
  "j \<in> fst ` set xs \<Longrightarrow> (f j = Hidden \<longleftrightarrow> g j = Hidden) \<Longrightarrow> see_items xs f j = see_items xs g j"
proof (induction xs arbitrary: f g)
  case (Cons x xs)
  obtain job st p where x: "x = (job, st, p)" by (cases x)
  have r: "see_items (x # xs) h j = see_items xs (put_item x h) j" for h by (simp add: see_items_def)
  have h: "put_item x f j = Hidden \<longleftrightarrow> put_item x g j = Hidden"
    using Cons.prems(2) by (cases "j = job") (simp_all add: x put_item_def see_upsert_def)
  show ?case
  proof (cases "j \<in> fst ` set xs")
    case True
    show ?thesis unfolding r using Cons.IH [of "put_item x f" "put_item x g"] True h by blast
  next
    case False
    with Cons.prems show ?thesis unfolding r by (simp add: see_items_cases(1) x put_item_def see_upsert_def)
  qed
qed simp

lemma seen_later:
  assumes "no_future rid db" "find_remote db rid = Some m" "rm_epoch m \<le> n"
  shows "seen_at n rid db j = Hidden \<longleftrightarrow> seen_at (rm_epoch m) rid db j = Hidden"
    "seen_at n rid db j = Absent \<longleftrightarrow> seen_at (rm_epoch m) rid db j = Absent"
    "rm_epoch m < n \<Longrightarrow> seen_at n rid db j = Shown st p \<Longrightarrow> False"
proof -
  have e: "sh_epoch s \<le> rm_epoch m" if "find_shadow db (rid, j) = Some s" for s
    using assms(1,2) find_shadow_at [OF that] by (auto simp: no_future_def shadow_key_def)
  show "seen_at n rid db j = Hidden \<longleftrightarrow> seen_at (rm_epoch m) rid db j = Hidden"
    "seen_at n rid db j = Absent \<longleftrightarrow> seen_at (rm_epoch m) rid db j = Absent"
    "rm_epoch m < n \<Longrightarrow> seen_at n rid db j = Shown st p \<Longrightarrow> False"
    using e assms(3) by (force simp: seen_at_def seen_row_def split: option.splits if_splits)+
qed

lemma publish_refines:
  assumes "controller_ok db" "no_future rid db" "publish_body e rid cur ep acc db = Inr (t, db')" "ep \<le> sync_epoch acc"
  shows "mirror rid db' = see_snapshot (sync_items e acc) (mirror rid db) \<and> controller_ok db'"
  using assms(3)
proof (cases rule: publish_cases)
  case (1 m high boundary feed_epoch epoch sid applied db1 deleted db3)
  let ?xs = "sync_items e acc" and ?db2 = "snd (supersede_old_epochs (ce_now e) rid epoch db1)"
  have le: "rm_epoch m \<le> epoch" using assms(4) 1(2,7) by (simp add: sync_epoch_def)
  note u = upsert_items_frame [OF 1(3) assms(1)]
  note s = supersede_frame [OF conjunct1 [OF u], of "ce_now e" rid epoch]
  have m2: "find_remote ?db2 rid = Some m"
    using upserted_remote [of db1 ?db2 rid] upserted_remote [of db db1 rid] u s 1(1) by simp
  note f = finalize_frame [OF conjunct1 [OF s] m2 1(4)]
  have ok: "controller_ok db'" using f(1) by (simp add: 1(5) advance_frame raise_frame)
  have ep: "map_option rm_epoch (find_remote db' rid) = Some epoch"
    unfolding 1(5) raise_frame(3) advance_frame(3) f(2) using le by simp
  have m': "mirror rid db' j = seen_at epoch rid db3 j" for j
    using ep by (cases "find_remote db' rid") (auto simp: mirror_def 1(5) raise_frame(2) advance_frame(2))
  have "mirror rid db' j = see_snapshot ?xs (mirror rid db) j" for j
  proof -
    have md: "mirror rid db j = seen_at (rm_epoch m) rid db j" by (simp add: mirror_def 1(1))
    have x: "seen_at epoch rid db1 j = see_items ?xs (seen_at epoch rid db) j" using u by simp
    note later = seen_later [OF assms(2) 1(1) le, of j]
    note sj = conjunct2 [OF conjunct2 [OF s], rule_format, of j]
    show ?thesis
    proof (cases "j \<in> fst ` set ?xs")
      case True
      then have j: "j \<in> set (map fst ?xs)" by simp
      have "seen_at epoch rid db3 j = see_items ?xs (seen_at epoch rid db) j"
        using f(3) [of epoch j] j sj see_items_cases(2) [OF True, of "seen_at epoch rid db"] unfolding x
        by (auto split: if_splits)
      also have "\<dots> = see_items ?xs (mirror rid db) j"
        by (rule see_items_Hidden [OF True]) (simp add: later(1) md)
      finally show ?thesis using True by (simp add: m' see_snapshot_def)
    next
      case False
      then have j: "j \<notin> set (map fst ?xs)" by simp
      have x1: "seen_at epoch rid db1 j = seen_at epoch rid db j" unfolding x by (rule see_items_cases(1) [OF False])
      have "seen_at epoch rid db3 j = see_drop (mirror rid db j)"
      proof (cases "rm_epoch m = epoch")
        case True
        then show ?thesis
          using f(3) [of epoch j] j sj unfolding x1 md
          by (cases "seen_at epoch rid db j") (auto simp: see_drop_def)
      next
        case ne: False
        then have lt: "rm_epoch m < epoch" using le by simp
        have n2: "\<not> (\<exists>st p. seen_at epoch rid db j = Shown st p)" using later(3) [OF lt] by blast
        have h: "seen_at epoch rid ?db2 j = see_drop (mirror rid db j)"
          unfolding sj x1 md using later(1,2) n2 by (cases "seen_at epoch rid db j") (auto simp: see_drop_def)
        have "seen_at epoch rid db3 j = seen_at epoch rid ?db2 j \<or> seen_at epoch rid db3 j = see_drop (seen_at epoch rid ?db2 j)"
          using f(3) [of epoch j] by (auto split: if_splits)
        then show ?thesis unfolding h by (auto simp: see_drop_def split: if_splits)
      qed
      then show ?thesis using False by (simp add: m' see_snapshot_def)
    qed
  qed
  with ok show ?thesis by blast
qed

section \<open>Batches of the feed\<close>

definition see_change :: "control_env \<Rightarrow> json \<Rightarrow> mirror \<Rightarrow> mirror" where
  "see_change e ch f =
     (let d = obj_of ch; job = py_str e (por (dget d ''job_id'') (JStr [])); payload = por (dget d ''payload'') (JObj [])
      in if dget d ''kind'' = JStr ''job.upsert'' then put_item (job, item_status e (obj_of payload), payload) f
         else f(job := see_drop (f job)))"

lemma apply_changes_frame:
  "apply_changes e rid epoch i chs db = Inr (n, db') \<Longrightarrow> controller_ok db \<Longrightarrow>
   controller_ok db' \<and> upserted db db' \<and> seen_at epoch rid db' = fold (see_change e) chs (seen_at epoch rid db)"
proof (induction e rid epoch i chs db arbitrary: n rule: apply_changes.induct)
  case (1 e rid epoch i db)
  then show ?case by (simp add: upserted_refl)
next
  case (2 e rid epoch i ch chs db)
  let ?job = "py_str e (por (dget ch ''job_id'') (JStr []))" and ?p = "por (dget ch ''payload'') (JObj [])"
  show ?case
  proof (cases "dget ch ''kind'' = JStr ''job.upsert''")
    case True
    with "2.prems"(1) obtain d r db1 m where d: "?p = JObj d"
      "upsert_shadow_body (ce_shadows e i) (ce_now e) rid ?job (item_status e d) (Some ?p) epoch db = Inr (r, db1)"
      "apply_changes e rid epoch (Suc i) chs db1 = Inr (m, db')"
      by (auto simp: Let_def kept_def ebind_def split: json.splits sum.splits)
    have o1: "controller_ok db1" by (rule upsert_ok [OF "2.prems"(2) d(2)])
    from "2.IH"(1) [OF refl refl True d(1,3) o1]
    have "controller_ok db' \<and> upserted db1 db' \<and> seen_at epoch rid db' = fold (see_change e) chs (seen_at epoch rid db1)" .
    moreover have "see_change e (JObj ch) (seen_at epoch rid db) = seen_at epoch rid db1"
      using upsert_seen [OF "2.prems"(2) d(2)] True d(1) by (simp add: see_change_def)
    ultimately show ?thesis using upserted_trans [OF upsert_frame [OF d(2)]] by simp
  next
    case False
    with "2.prems"(1) have k: "dget ch ''kind'' = JStr ''job.tombstone''"
      by (auto simp: Let_def split: if_splits)
    let ?db1 = "suppress_shadow (ce_now e) rid ?job db"
    from "2.prems"(1) k obtain m where d: "apply_changes e rid epoch (Suc i) chs ?db1 = Inr (m, db')"
      by (auto simp: Let_def ebind_def split: sum.splits)
    from "2.IH"(2) [OF refl refl False k d suppress_ok [OF "2.prems"(2)]]
    have "controller_ok db' \<and> upserted ?db1 db' \<and> seen_at epoch rid db' = fold (see_change e) chs (seen_at epoch rid ?db1)" .
    moreover have "see_change e (JObj ch) (seen_at epoch rid db) = seen_at epoch rid ?db1"
      using k by (simp add: see_change_def suppress_seen Let_def)
    ultimately show ?thesis using upserted_trans [OF suppress_frame [of db "ce_now e" rid ?job]] by simp
  qed
qed simp_all

lemma feed_cases:
  assumes "feed_body e rid requested b db = Inr (y, db')"
  obtains (skip) left cur where "y = Skipped (length (bt_changes b)) left cur" "db' = db"
      "stale_batch e (get_feed_cursor rid db) requested b = Inr True"
  | (applied) a s db1 left cur where "y = Applied a s (length (bt_changes b)) left cur"
      "stale_batch e (get_feed_cursor rid db) requested b = Inr False"
      "apply_changes e rid (bt_epoch b) 0 (bt_changes b) db = Inr ((a, s), db1)"
      "db' = raise_epoch (ce_now e) rid (bt_epoch b) (advance_feed_cursor e rid (bt_epoch b) (bt_feed_epoch b) (bt_end b) db1)"
  using assms by (auto simp: feed_body_def Let_def ebind_def split: sum.splits if_splits)

lemma feed_refines:
  assumes "controller_ok db" "find_remote db rid = Some m" "bt_epoch b = rm_epoch m"
    and "feed_body e rid requested b db = Inr (Applied a s n left cur, db')"
  shows "mirror rid db' = fold (see_change e) (bt_changes b) (mirror rid db) \<and> controller_ok db'"
  using assms(4)
proof (cases rule: feed_cases)
  case (applied a' s' db1 left' cur')
  note f = apply_changes_frame [OF applied(3) assms(1)]
  have "find_remote db1 rid = Some m" using f upserted_remote [of db db1 rid] assms(2) by simp
  then have "map_option rm_epoch (find_remote db' rid) = Some (rm_epoch m)"
    unfolding applied(4) raise_frame(3) advance_frame(3) by (simp add: assms(3))
  then obtain m' where m': "find_remote db' rid = Some m'" "rm_epoch m' = rm_epoch m" by auto
  have "seen_at (rm_epoch m) rid db' = seen_at (rm_epoch m) rid db1"
    unfolding applied(4) raise_frame(2) advance_frame(2) ..
  moreover have "controller_ok db'" using f by (simp add: applied(4) raise_frame(1) advance_frame(1))
  ultimately show ?thesis using f by (simp add: mirror_def m' assms(2,3))
qed simp

end
