(* ===== verification/RemoteFrames.thy ===== *)
theory RemoteFrames
  imports RemoteReads RemoteStarts
begin

text \<open>
  The frames that a host sends are frames of the protocol, up to two error codes that its registry does not have.
\<close>

definition registered :: "string \<Rightarrow> bool" where
  "registered code = (code \<in> set (map registry_name ERROR_REGISTRY))"

lemma registered_name: "registered (registry_name c)"
  by (cases c) (simp_all add: registered_def ERROR_REGISTRY_def)

lemma registered_codes: "registered ''INVALID_REQUEST''" "registered ''PROTOCOL_REPLAY_MISMATCH''" "registered ''OPERATION_RETRY_PENDING''"
  "registered ''STATE_EPOCH_MISMATCH''"
  by (simp_all add: registered_def ERROR_REGISTRY_def)

lemma unregistered_codes: "\<not> registered ''INSTANCE_ID_MISMATCH''" "\<not> registered ''SNAPSHOT_EXPIRED''"
  by (simp_all add: registered_def ERROR_REGISTRY_def)

text \<open>The codes of a host: those of the registry and the two others.\<close>

definition host_code :: "string \<Rightarrow> bool" where
  "host_code code = (registered code \<or> code = ''INSTANCE_ID_MISMATCH'' \<or> code = ''SNAPSHOT_EXPIRED'')"

definition host_reply :: "reply \<Rightarrow> bool" where
  "host_reply r = (case r of Result d \<Rightarrow> True | Error code \<Rightarrow> host_code code)"

lemma host_reply_simps [simp]: "host_reply (Result d)" "host_reply (Error code) = host_code code"
  by (simp_all add: host_reply_def)

lemma host_codes [simp]: "host_code ''INVALID_REQUEST''" "host_code ''STATE_EPOCH_MISMATCH''" "host_code ''INSTANCE_ID_MISMATCH''"
  "host_code ''SNAPSHOT_EXPIRED''" "host_code (perr_code x)"
  by (simp_all add: host_code_def registered_codes perr_code_def registered_name split: perr.split)

text \<open>An exception of a call carries a code of the registry or none.\<close>

definition fair :: "(rerr + 'a) \<times> conn \<Rightarrow> bool" where
  "fair m = (case fst m of Inl x \<Rightarrow> registered (error_code x) | Inr _ \<Rightarrow> True)"

lemma error_codes [simp]: "registered (error_code (Store x))" "registered (error_code Busy)" "registered (error_code (Host y))"
  "registered (error_code NotConverged)" "error_code (Code s) = s"
  by (simp_all add: error_code_def registered_codes split: serr.split)

lemma fair_in_tx: "(\<And>db x. body db = Inl x \<Longrightarrow> registered (error_code x)) \<Longrightarrow> fair (in_tx body c)"
  by (auto simp: fair_def in_tx_def split: sum.split)

lemma in_tx_Inl: "in_tx body c = (Inl x, c') \<Longrightarrow> x = Store TransactionOpen \<or> (\<exists>db. body db = Inl x)"
  by (auto simp: in_tx_def split: if_splits sum.splits)

lemma in_tx_total: "in_tx (\<lambda>db. Inr (g db)) c = (Inl x, c') \<Longrightarrow> registered (error_code x)"
  by (drule in_tx_Inl) auto

lemma stored_code: "stored r = Inl x \<Longrightarrow> registered (error_code x)"
  by (auto simp: stored_def split: sum.splits)

lemma accept_code: "accept_job e key oid p db = Inl x \<Longrightarrow> registered (error_code x)"
  by (auto simp: accept_job_def ebind_def insert_queued_job_def split: sum.splits if_splits dest: stored_code)

lemma start_body_code: "start_body e key mth p digest db = Inl x \<Longrightarrow> registered (error_code x)"
  by (auto simp: start_body_def ebind_def split: sum.splits if_splits dest: stored_code accept_code)

lemma start_fair: "fair (handle_start_or_rerun e mth payload key digest c)"
proof (cases "run_payload mth payload (view c)")
  case (Inl x)
  then have "x = Code ''INVALID_REQUEST''" by (auto simp: run_payload_def split: if_splits)
  with Inl show ?thesis by (simp add: handle_start_or_rerun_def fair_def registered_codes)
next
  case (Inr q)
  show ?thesis
  proof (cases q)
    case (Some p)
    obtain r c' where r: "in_tx (start_body e key mth p digest) c = (r, c')" by (cases "in_tx (start_body e key mth p digest) c")
    show ?thesis
    proof (cases r)
      case (Inl x)
      with in_tx_Inl [OF r [unfolded Inl]] have "registered (error_code x)" by (auto dest: start_body_code)
      with Inl r Some Inr show ?thesis by (simp add: handle_start_or_rerun_def fair_def)
    next
      case (Inr a)
      with r Some \<open>run_payload mth payload (view c) = Inr q\<close> show ?thesis
        by (cases a) (simp add: handle_start_or_rerun_def fair_def)
    qed
  qed (simp add: Inr handle_start_or_rerun_def fair_def)
qed

lemma execute_stop_fair: "fair (execute_stop e oid job c)"
proof -
  obtain r c2 where r: "stop_target e job c = (r, c2)" by (cases "stop_target e job c")
  have f: "fair (case in_tx (\<lambda>db. Inr (g db)) c2 of (Inl y, c3) \<Rightarrow> (Inl y, c3) | (Inr u, c3) \<Rightarrow> (k u, c3))"
    if "\<And>u x. k u = Inl x \<Longrightarrow> registered (error_code x)" for g :: "remote_db \<Rightarrow> unit \<times> remote_db" and k :: "unit \<Rightarrow> rerr + obj"
    using in_tx_total [of g c2] that by (auto simp: fair_def split: sum.split prod.split)
  show ?thesis
  proof (cases r)
    case (Inl x)
    show ?thesis unfolding execute_stop_def Let_def r Inl prod.case sum.case by (rule f) (simp add: registered_codes)
  next
    case (Inr q)
    show ?thesis
    proof (cases q)
      case None
      show ?thesis unfolding execute_stop_def Let_def r Inr None prod.case sum.case option.case by (rule f) simp
    next
      case (Some s)
      show ?thesis unfolding execute_stop_def Let_def r Inr Some prod.case sum.case option.case by (rule f) simp
    qed
  qed
qed

lemma stop_fair: "fair (handle_stop e payload key digest c)"
proof -
  let ?body = "\<lambda>db. stored (record_operation (re_op e) (re_now e) key ''job.stop'' payload digest db)"
  obtain r c1 where r: "in_tx ?body c = (r, c1)" by (cases "in_tx ?body c")
  show ?thesis
  proof (cases r)
    case (Inl x)
    with in_tx_Inl [OF r [unfolded Inl]] have "registered (error_code x)" by (auto dest: stored_code)
    with Inl r show ?thesis by (simp add: handle_stop_def fair_def)
  next
    case (Inr op)
    then show ?thesis
      using execute_stop_fair by (simp add: handle_stop_def r fair_def)
  qed
qed

lemma replied_host: "fair r \<Longrightarrow> host_reply (fst (replied r h))"
  by (auto simp: replied_def fair_def host_code_def split: sum.split prod.split)

lemma fence_code: "fence e frame db = Some code \<Longrightarrow> host_code code"
  by (auto simp: fence_def split: json.splits option.splits sum.splits if_splits)

lemma held_page_host: "host_reply (fst (held_page e j cursor m))"
  by (auto simp: held_page_def split: json.split option.split prod.split)

lemma handle_feed_host: "host_reply (handle_feed e db payload)"
  by (auto simp: handle_feed_def Let_def split: option.split)

lemma handle_log_range_host: "host_reply (handle_log_range e payload)"
  by (auto simp: handle_log_range_def log_range_def Let_def split: option.split json.split prod.split log_file.split)

lemma handle_checked_host:
  assumes "\<And>mth p h. host_reply (fst (transfer mth p h))"
  shows "host_reply (fst (handle_checked re e transfer frame mth payload key digest m))"
proof (cases "validate_request mth payload")
  case (Inl x)
  then show ?thesis by (simp add: handle_checked_def)
next
  case (Inr u)
  show ?thesis
  proof (cases "if mutation_method mth then fence e frame (view (rh_conn m)) else None")
    case (Some code)
    then have "host_code code" by (auto split: if_splits dest: fence_code)
    with Inr Some show ?thesis by (simp add: handle_checked_def)
  next
    case None
    have m: "host_reply (fst (handle_mutation re mth payload key digest m))"
      by (simp add: handle_mutation_def replied_host start_fair stop_fair)
    have s: "host_reply (fst (handle_snapshot e payload m))"
      by (simp add: handle_snapshot_def Let_def held_page_host)
    have v: "host_reply (handle_events e (rh_conn m) payload)"
      by (simp add: handle_events_def Let_def split: option.split)
    show ?thesis unfolding handle_checked_def Inr sum.case None option.case
      by (simp add: m s v assms handle_feed_host handle_log_range_host)
  qed
qed

lemma frame_of_valid:
  assumes "dget request ''request_id'' = JStr rid" "dget request ''method'' = JStr mth" "host_reply r"
  shows "validate_frame sha (JObj (frame_of e request r)) = Inr (JObj (frame_of e request r))
    \<longleftrightarrow> (\<forall>code. r = Error code \<longrightarrow> registered code)"
proof (cases r)
  case (Result d)
  have "validate_frame sha (JObj (response_frame e request d)) = Inr (JObj (response_frame e request d))"
    unfolding response_frame_def assms(1,2)
    by (simp add: validate_frame_def proto_def check_duplicate_keys_def ensure_def FRAME_KINDS_def has_key_def dget_def
        frame_fields_ok_def opt_field_def)
  with Result show ?thesis by (simp add: frame_of_def)
next
  case (Error code)
  have "validate_frame sha (JObj (error_frame e request code)) = Inr (JObj (error_frame e request code)) \<longleftrightarrow> registered code"
    unfolding error_frame_def assms(1,2)
    by (simp add: validate_frame_def proto_def check_duplicate_keys_def ensure_def FRAME_KINDS_def has_key_def dget_def
        frame_fields_ok_def opt_field_def validate_error_frame_def registered_def)
  with Error show ?thesis by (simp add: frame_of_def)
qed


definition demo_read_env :: read_env where
  "demo_read_env = \<lparr>rd_now = 5, rd_snap = ''snap-1'', rd_rowid = (\<lambda>h job. 1), rd_trunc = (\<lambda>r. None), rd_repr = (\<lambda>j. []),
     rd_log = (\<lambda>job stream. Log ''ok''), rd_msg = ''refused''\<rparr>"

definition no_transfer :: transfer where
  "no_transfer mth p h = (Error ''UNSUPPORTED_FEATURE'', h)"

definition demo_frame :: "string \<Rightarrow> obj \<Rightarrow> obj" where
  "demo_frame mth payload = [(''version'', JStr ''1''), (''kind'', JStr ''request''), (''request_id'', JStr ''req_1''),
     (''method'', JStr mth), (''payload'', JObj payload), (''idempotency_key'', JStr ''key-0001''), (''digest'', JStr ''d1'')]"


end
