(* ===== verification/RemoteExchange.thy ===== *)
theory RemoteExchange
  imports Mirror RemoteFrames
begin

text \<open>
  A controller and a host together: what a request of the controller gets when the host answers it.  The
  line between them delivers a frame as the value it is.
\<close>

section \<open>A session with a host\<close>

text \<open>A frame that is not valid, or too big for the line (\<open>fits\<close>), is not delivered.\<close>

definition host_session ::
  "(obj \<Rightarrow> bool) \<Rightarrow> (string \<Rightarrow> string) \<Rightarrow> remote_env \<Rightarrow> read_env \<Rightarrow> transfer \<Rightarrow> remote_host \<Rightarrow> obj \<Rightarrow> json option" where
  "host_session fits sha re e transfer m frame =
     (case fst (handle_request sha re e transfer frame m) of
        Inl _ \<Rightarrow> None
      | Inr f \<Rightarrow> if isl (validate_frame sha (JObj f)) \<or> \<not> fits f then None else Some (JObj f))"

section \<open>A read that is answered\<close>

definition new_row :: "control_env \<Rightarrow> string \<Rightarrow> string \<Rightarrow> obj \<Rightarrow> string \<Rightarrow> request_row" where
  "new_row e rid mth payload digest =
     \<lparr>rq_id = ce_request e, rq_remote = rid, rq_key = ce_key e, rq_method = mth, rq_payload = payload, rq_digest = digest,
      rq_status = ''creating'', rq_epoch = None, rq_instance = None, rq_response = None, rq_error = None,
      rq_created = ce_now e, rq_updated = ce_now e\<rparr>"

text \<open>The minted identifiers are new and the minted key is well-formed.\<close>

definition fresh_for :: "control_env \<Rightarrow> string \<Rightarrow> controller_db \<Rightarrow> bool" where
  "fresh_for e rid db = (idempotency_key_re (ce_key e) \<and> find_request db (rid, ce_key e) = None
     \<and> ce_request e \<notin> rq_id ` set (requests db))"

lemma update_status_last:
  assumes "rq_id r \<notin> rq_id ` set rs" "transition ''request'' (rq_status r) st = Inr st"
  shows "update_request_status_body now (rq_id r) st resp err (db\<lparr>requests := rs @ [r]\<rparr>) =
    (let r' = r\<lparr>rq_status := st, rq_response := (case resp of None \<Rightarrow> rq_response r | Some j \<Rightarrow> Some j),
           rq_error := (case err of None \<Rightarrow> rq_error r | Some x \<Rightarrow> Some x), rq_updated := now\<rparr>
     in Inr (r', db\<lparr>requests := rs @ [r']\<rparr>))"
proof -
  have n: "\<forall>q \<in> set rs. rq_id q \<noteq> rq_id r" using assms(1) by (metis image_eqI)
  then have f: "find (\<lambda>q. rq_id q = rq_id r) rs = None" by (simp add: find_None_iff)
  show ?thesis
    by (simp add: update_request_status_body_def find_append f assms(2) Let_def upd_id [OF n])
qed

lemma request_moves:
  "transition ''request'' ''creating'' ''submitting'' = Inr ''submitting''"
  "transition ''request'' ''submitting'' ''accepted'' = Inr ''accepted''"
  "transition ''request'' ''accepted'' ''completed'' = Inr ''completed''"
  by code_simp+

lemma read_request_answered:
  assumes "fresh_for e rid (store c)" "find_remote (store c) rid = Some m" "\<not> is_mutation mth"
    and "validate_request mth payload = Inr ()" "request_digest (ce_sha e) mth payload (ce_key e) = Inr digest"
    and "send (request_frame e (new_row e rid mth payload digest)) = Some (JObj d)"
    and "dget d ''kind'' = JStr ''response''" "dget d ''request_id'' = JStr (ce_request e)" "dget d ''method'' = JStr mth"
    and "dget d ''result'' = JObj result" "result \<noteq> []" "dget result ''job_id'' = JNull"
  obtains r c' where "read_request e rid mth payload send c = (Inr r, c')" "rq_response r = Some (JObj result)" "rq_error r = None"
    "store c' = (store c)\<lparr>requests := requests (store c) @ [r]\<rparr>" "rq_id r = ce_request e" "rq_key r = ce_key e" "rq_remote r = rid"
proof -
  let ?db = "store c" and ?r = "new_row e rid mth payload digest"
  let ?r1 = "?r\<lparr>rq_status := ''submitting''\<rparr>" and ?r2 = "?r\<lparr>rq_status := ''accepted''\<rparr>"
    and ?r3 = "?r\<lparr>rq_status := ''completed'', rq_response := Some (JObj result)\<rparr>"
  have k: "idempotency_key_re (ce_key e)" "find_request ?db (rid, ce_key e) = None" "ce_request e \<notin> rq_id ` set (requests ?db)"
    using assms(1) by (simp_all add: fresh_for_def)
  have id: "rq_id ?r \<notin> rq_id ` set (requests ?db)" "rq_id ?r1 \<notin> rq_id ` set (requests ?db)" "rq_id ?r2 \<notin> rq_id ` set (requests ?db)"
    using k(3) by (simp_all add: new_row_def)
  have none: "\<not> (\<exists>r \<in> set (requests ?db). rq_id r = ce_request e)" using k(3) by (metis image_eqI)
  have "record_request_body (ce_request e) (ce_now e) rid (ce_key e) mth payload digest None None ?db = Inr (?r, ?db\<lparr>requests := requests ?db @ [?r]\<rparr>)"
    using k(2) none by (simp add: record_request_body_def new_row_def Let_def)
  then have s: "submit_store e rid mth payload (ce_key e) None None ?db = (Inr ?r, ?db\<lparr>requests := requests ?db @ [?r]\<rparr>)"
    using assms(2,3,4,5) k(1)
    by (simp add: submit_store_def checked_def ensure_def proto_def kept_def check_state_epoch_def submit_body_def txn_def)
  have u1: "update_request_status_body (ce_now e) (ce_request e) ''submitting'' None None (?db\<lparr>requests := requests ?db @ [?r]\<rparr>)
      = Inr (?r1, ?db\<lparr>requests := requests ?db @ [?r1]\<rparr>)"
    using update_status_last [OF id(1), of "''submitting''" "ce_now e" None None ?db] request_moves by (simp add: new_row_def Let_def)
  have u2: "update_request_status_body (ce_now e) (ce_request e) ''accepted'' None None (?db\<lparr>requests := requests ?db @ [?r1]\<rparr>)
      = Inr (?r2, ?db\<lparr>requests := requests ?db @ [?r2]\<rparr>)"
    using update_status_last [OF id(2), of "''accepted''" "ce_now e" None None ?db] request_moves by (simp add: new_row_def Let_def)
  have u3: "update_request_status_body (ce_now e) (ce_request e) ''completed'' (Some (JObj result)) None (?db\<lparr>requests := requests ?db @ [?r2]\<rparr>)
      = Inr (?r3, ?db\<lparr>requests := requests ?db @ [?r3]\<rparr>)"
    using update_status_last [OF id(3), of "''completed''" "ce_now e" "Some (JObj result)" None ?db] request_moves by (simp add: new_row_def Let_def)
  have a: "answer_of ?r send (request_frame e ?r) = Some d"
    using assms(6-9) by (simp add: answer_of_def answers_def new_row_def)
  have g: "run_guard rid ?r None (?db\<lparr>requests := requests ?db @ [?r]\<rparr>) = Inr ()"
    using assms(2,3) by (simp add: run_guard_def check_state_epoch_def kept_def find_remote_def new_row_def)
  have f: "finish_response e rid ?r d (?db\<lparr>requests := requests ?db @ [?r2]\<rparr>) = Inr (?r3, ?db\<lparr>requests := requests ?db @ [?r3]\<rparr>)"
    using assms(10-12) u3 by (simp add: finish_response_def por_def kept_def response_shadow_def Let_def new_row_def)
  have n: "rq_id ?r = ce_request e" by (simp add: new_row_def)
  have e1: "settle_answer e rid ?r d (?db\<lparr>requests := requests ?db @ [?r1]\<rparr>) = (Inr (Row ?r3), ?db\<lparr>requests := requests ?db @ [?r3]\<rparr>)"
    unfolding settle_answer_def txn_def n u2 by (simp add: assms(7) f)
  have run: "run_store e rid ?r None send (?db\<lparr>requests := requests ?db @ [?r]\<rparr>) = (Inr (Row ?r3), ?db\<lparr>requests := requests ?db @ [?r3]\<rparr>)"
    unfolding run_store_def g sum.case update_request_status_def txn_def n u1 exchange_def by (simp add: a e1)
  have first: "first_time ?r" by (simp add: first_time_def new_row_def)
  obtain c' where c': "read_request e rid mth payload send c = (Inr ?r3, c')" "store c' = ?db\<lparr>requests := requests ?db @ [?r3]\<rparr>"
    by (simp add: read_request_def submit_and_run_def submit_def s first run_request_def run row_of_def)
  show ?thesis by (rule that [OF c'(1) _ _ c'(2)]) (simp_all add: new_row_def)
qed

end
