(* ===== verification/SnapshotPages.thy ===== *)
theory SnapshotPages
  imports RemoteExchange
begin

text \<open>
  The pages of a snapshot, from the host that captured it to the controller that publishes it.
\<close>

section \<open>Pages of the host\<close>

definition snap_ok :: "snapshot \<Rightarrow> bool" where
  "snap_ok s = (sorted_wrt (\<lambda>a b. jb_id a < jb_id b) (sn_jobs s))"

definition page_at :: "snapshot \<Rightarrow> nat \<Rightarrow> string \<Rightarrow> job_row list" where
  "page_at s n start = take n (page_rest s start)"

definition pages_left :: "snapshot \<Rightarrow> nat \<Rightarrow> string \<Rightarrow> bool" where
  "pages_left s n start = (0 < n \<and> n < length (page_rest s start))"

interpretation snap_pages: paged_log sn_jobs jb_id page_at pages_left snap_ok
  by unfold_locales (auto simp: snap_ok_def page_at_def pages_left_def page_rest_def)

lemma rest_is: "snap_pages.rest s start = page_rest s start"
  by (simp add: snap_pages.rest_def page_rest_def)

lemma capture_ok: "distinct (map jb_id (jobs (host (committed c)))) \<Longrightarrow> snap_ok (capture e c)"
proof -
  let ?xs = "sort_key jb_id (jobs (host (committed c)))"
  assume "distinct (map jb_id (jobs (host (committed c))))"
  then have "distinct (map jb_id ?xs)"
    by (metis distinct_map distinct_sort set_sort)
  then have "sorted_wrt (<) (map jb_id ?xs)" by (simp add: strict_sorted_iff)
  then show ?thesis by (simp add: snap_ok_def capture_def Let_def sorted_wrt_map)
qed

text \<open>The marks in a cursor are numbers, one for each job.\<close>

definition marks :: "obj \<Rightarrow> bool" where
  "marks w = (distinct (map fst w) \<and> (\<forall>(k, v) \<in> set w. \<exists>i. v = JInt i))"

lemma dput_keys: "distinct (map fst w) \<Longrightarrow> distinct (map fst (dput k v w)) \<and> set (dput k v w) \<subseteq> insert (k, v) (set w)"
  by (induction w rule: induct_list012) auto

lemma marks_dput: "marks w \<Longrightarrow> marks (dput k (JInt i) w)"
  using dput_keys [of w k "JInt i"] by (auto simp: marks_def)

lemma marks_int: "marks w \<Longrightarrow> \<exists>i. int_of trunc (por (dget w k) (JInt 0)) = Some i"
proof (cases "map_of w k")
  case None
  then show ?thesis by (simp add: dget_def por_def int_of_def)
next
  case (Some v)
  assume "marks w"
  with map_of_SomeD [OF Some] obtain i where "v = JInt i" by (auto simp: marks_def)
  with Some show ?thesis by (simp add: dget_def por_def int_of_def)
qed

lemma page_events_marks: "marks w \<Longrightarrow> \<exists>es w'. page_events e s rs w = Some (es, w') \<and> marks w'"
proof (induction rs arbitrary: w)
  case (Cons r rs)
  obtain high where h: "int_of (rd_trunc e) (por (dget w (jb_id r)) (JInt 0)) = Some high" using marks_int [OF Cons.prems] by blast
  obtain vs h' where n: "new_events (sn_events s (jb_id r)) high = (vs, h')" by (cases "new_events (sn_events s (jb_id r)) high")
  have "marks (if h' \<noteq> 0 then dput (jb_id r) (JInt h') w else w)" using Cons.prems by (simp add: marks_dput)
  from Cons.IH [OF this] h n show ?case by auto
qed simp

text \<open>A cursor that the host gave out.\<close>

definition given_cursor :: "snapshot \<Rightarrow> string \<Rightarrow> string \<Rightarrow> obj \<Rightarrow> bool" where
  "given_cursor s sid start cur = (\<exists>w. marks w \<and> cur = [(''after_job_id'', JStr start), (''event_water'', JObj w),
     (''high_water'', JInt (sn_high s)), (''snapshot_id'', JStr sid)])"

lemma given_float_free: "given_cursor s sid start cur \<Longrightarrow> float_free (JObj [(''cursor'', JObj cur)])"
  by (fastforce simp: given_cursor_def marks_def float_free_items_iff)

lemma start_of_cursor:
  "given_cursor s sid start cur \<Longrightarrow> after_of e cur = start \<and> (\<exists>w. obj_of (dget cur ''event_water'') = w \<and> marks w)"
  "after_of e [] = [] \<and> marks (obj_of (dget [] ''event_water''))"
  by (auto simp: given_cursor_def after_of_def dget_def por_def text_arg_def scalar_text_def marks_def)

text \<open>A page as the frame carries it.\<close>

definition good_page :: "snapshot \<Rightarrow> string \<Rightarrow> string \<Rightarrow> obj \<Rightarrow> bool" where
  "good_page s sid start p = (\<exists>cur es.
     given_cursor s sid (if page_at s 50 start = [] then start else jb_id (last (page_at s 50 start))) cur \<and>
     p = [(''kind'', JStr ''snapshot''), (''state_epoch'', JInt (sn_epoch s)), (''feed_epoch'', JInt (sn_feed_epoch s)),
       (''feed_boundary_seq'', JInt (sn_boundary s)), (''snapshot_id'', JStr sid), (''cursor'', JObj cur),
       (''jobs'', JArr (map job_item (page_at s 50 start))), (''events'', JArr (map event_item es)),
       (''has_more'', JBool (pages_left s 50 start))])"

lemma snapshot_page_good:
  assumes "after_of e cur = start" "marks (obj_of (dget cur ''event_water''))"
  shows "\<exists>p. snapshot_page e sid s cur = Some (p, pages_left s 50 start) \<and> good_page s sid start p"
proof -
  obtain es w where w: "page_events e s (page_at s 50 start) (obj_of (dget cur ''event_water'')) = Some (es, w)" "marks w"
    using page_events_marks [OF assms(2)] by blast
  let ?cur = "[(''after_job_id'', JStr (if page_at s 50 start = [] then start else jb_id (last (page_at s 50 start)))),
    (''event_water'', JObj w), (''high_water'', JInt (sn_high s)), (''snapshot_id'', JStr sid)]"
  have c: "given_cursor s sid (if page_at s 50 start = [] then start else jb_id (last (page_at s 50 start))) ?cur"
    using w(2) by (auto simp: given_cursor_def)
  have "snapshot_page e sid s cur = Some ([(''kind'', JStr ''snapshot''), (''state_epoch'', JInt (sn_epoch s)), (''feed_epoch'', JInt (sn_feed_epoch s)),
       (''feed_boundary_seq'', JInt (sn_boundary s)), (''snapshot_id'', JStr sid), (''cursor'', JObj ?cur),
       (''jobs'', JArr (map job_item (page_at s 50 start))), (''events'', JArr (map event_item es)),
       (''has_more'', JBool (pages_left s 50 start))], pages_left s 50 start)"
    using w(1) unfolding snapshot_page_def assms(1) by (simp add: Let_def SNAPSHOT_PAGE_SIZE_def page_at_def pages_left_def)
  with c show ?thesis unfolding good_page_def by blast
qed

section \<open>The answer to a request for a page\<close>

text \<open>The host holds the snapshot, or is asked for a new one.\<close>

definition holds :: "string \<Rightarrow> snapshot \<Rightarrow> remote_host \<Rightarrow> bool" where
  "holds sid s m = (map_of (rh_snaps m) sid = Some s \<and> rs_state_epoch (view (rh_conn m)) = sn_epoch s)"

lemma hold_get: "map_of (hold sid s xs) sid = Some s"
proof -
  let ?ys = "drop (length xs - 7) xs"
  have u: "map_of (map (\<lambda>(k, v). (k, if k = sid then s else v)) ys) sid = (if sid \<in> fst ` set ys then Some s else None)" for ys
    by (induction ys) auto
  have v: "sid \<notin> fst ` set ys \<Longrightarrow> map_of (ys @ [(sid, s)]) sid = Some s" for ys :: "(string \<times> snapshot) list"
    by (simp add: map_add_def map_of_eq_None_iff [symmetric])
  show ?thesis using u v by (auto simp: hold_def Let_def)
qed

lemma held_page_good:
  assumes "holds sid s m" "sid \<noteq> []" "after_of e cur = start" "marks (obj_of (dget cur ''event_water''))"
  shows "\<exists>p m'. held_page e (JStr sid) cur m = (Result p, m') \<and> good_page s sid start p"
proof -
  obtain p where p: "snapshot_page e sid s cur = Some (p, pages_left s 50 start)" "good_page s sid start p"
    using snapshot_page_good [OF assms(3,4)] by blast
  then show ?thesis using assms(1,2) by (auto simp: held_page_def holds_def)
qed

text \<open>The cursor of the controller and the host that it meets: none, and a fresh snapshot, or one of this snapshot.\<close>

definition asks :: "read_env \<Rightarrow> snapshot \<Rightarrow> string \<Rightarrow> string \<Rightarrow> json option \<Rightarrow> remote_host \<Rightarrow> bool" where
  "asks e s sid start cursor m =
     (case cursor of
        None \<Rightarrow> start = [] \<and> rd_snap e = sid \<and> s = capture e (rh_conn m)
      | Some j \<Rightarrow> (\<exists>cur. j = JObj cur \<and> given_cursor s sid start cur) \<and> holds sid s m)"

definition page_payload :: "json option \<Rightarrow> obj" where
  "page_payload cursor = (case cursor of None \<Rightarrow> [] | Some j \<Rightarrow> [(''cursor'', j)])"

lemma handle_snapshot_good:
  assumes "asks e s sid start cursor m" "sid \<noteq> []"
  shows "\<exists>p m'. handle_snapshot e (page_payload cursor) m = (Result p, m') \<and> good_page s sid start p"
proof (cases cursor)
  case None
  with assms have a: "start = []" "rd_snap e = sid" "s = capture e (rh_conn m)" by (simp_all add: asks_def)
  let ?m = "m\<lparr>rh_snaps := hold sid s (rh_snaps m)\<rparr>"
  have "holds sid s ?m" using a(3) by (simp add: holds_def hold_get) (simp add: capture_def Let_def)
  from held_page_good [OF this assms(2), of e "[]" start] start_of_cursor(2) [of e]
  show ?thesis by (simp add: handle_snapshot_def page_payload_def None dget_def a)
next
  case (Some j)
  with assms obtain cur where c: "j = JObj cur" "given_cursor s sid start cur" "holds sid s m" by (auto simp: asks_def)
  have d: "dget cur ''snapshot_id'' = JStr sid" using c(2) by (auto simp: given_cursor_def dget_def)
  from held_page_good [OF c(3) assms(2)] start_of_cursor(1) [OF c(2), of e]
  show ?thesis by (auto simp: handle_snapshot_def page_payload_def Some c(1) dget_def [of "[(''cursor'', JObj cur)]"] d)
qed

lemma snapshot_request_valid:
  assumes "asks e s sid start cursor m"
  shows "validate_request ''job.snapshot'' (page_payload cursor) = Inr ()"
    "\<exists>digest. request_digest sha ''job.snapshot'' (page_payload cursor) key = Inr digest"
proof -
  have "page_payload cursor = [] \<or> (\<exists>cur. page_payload cursor = [(''cursor'', JObj cur)] \<and> given_cursor s sid start cur)"
    using assms by (cases cursor) (auto simp: asks_def page_payload_def)
  then show "validate_request ''job.snapshot'' (page_payload cursor) = Inr ()"
    by (auto simp: validate_request_def VALID_REQUEST_METHODS_def validate_job_snapshot_def check_simps none_or_obj_def dget_def ensure_def has_key_def
      check_required_and_unknown_def)
  have "float_free (request_json ''job.snapshot'' (page_payload cursor) key)"
    using \<open>page_payload cursor = [] \<or> _\<close> given_float_free by (auto simp: request_json_def)
  then show "\<exists>digest. request_digest sha ''job.snapshot'' (page_payload cursor) key = Inr digest"
    by (simp add: request_digest_def canonical_json_def serialize_compact check_duplicate_keys_def ensure_def request_json_def)
qed

lemma session_page:
  assumes "asks rd s sid start cursor m" "sid \<noteq> []" "\<And>f. fits f"
    and "frame = request_frame e (new_row e rid ''job.snapshot'' (page_payload cursor) digest)"
  obtains p d where "host_session fits sha re rd transfer m frame = Some (JObj d)" "good_page s sid start p"
    "dget d ''kind'' = JStr ''response''" "dget d ''request_id'' = JStr (ce_request e)" "dget d ''method'' = JStr ''job.snapshot''"
    "dget d ''result'' = JObj p"
proof -
  have fr: "dget frame ''method'' = JStr ''job.snapshot''" "dget frame ''payload'' = JObj (page_payload cursor)"
    "dget frame ''idempotency_key'' = JStr (ce_key e)" "dget frame ''digest'' = JStr digest" "dget frame ''request_id'' = JStr (ce_request e)"
    by (simp_all add: assms(4) request_frame_def new_row_def dget_def)
  obtain p m' where h: "handle_snapshot rd (page_payload cursor) m = (Result p, m')" "good_page s sid start p"
    using handle_snapshot_good [OF assms(1,2)] by blast
  have "handle_checked re rd transfer frame ''job.snapshot'' (page_payload cursor) (ce_key e) digest m = (Result p, m')"
    using h(1) snapshot_request_valid(1) [OF assms(1)] by (simp add: handle_checked_def mutation_method_def)
  then have r: "handle_request sha re rd transfer frame m = (Inr (frame_of rd frame (Result p)), m')"
    by (simp add: handle_request_def fr)
  have "validate_frame sha (JObj (frame_of rd frame (Result p))) = Inr (JObj (frame_of rd frame (Result p)))"
    using frame_of_valid [OF fr(5,1), of "Result p"] by simp
  then have "host_session fits sha re rd transfer m frame = Some (JObj (response_frame rd frame p))"
    using r assms(3) by (simp add: host_session_def frame_of_def)
  then show ?thesis
    by (rule that [OF _ h(2)]) (simp_all add: response_frame_def dget_def fr [unfolded dget_def])
qed

section \<open>The controller's loop\<close>

definition snap_ids :: "snapshot \<Rightarrow> string \<Rightarrow> int \<times> int \<times> int \<times> int \<times> string" where
  "snap_ids s sid = (sn_high s, sn_boundary s, sn_feed_epoch s, sn_epoch s, sid)"

lemma num_int [simp]: "num e (JInt i) = Inr i"
  by (simp add: num_def int_of_def)

lemma good_page_identity:
  assumes "good_page s sid start p" "sid \<noteq> []"
  shows "page_identity e p = Inr (snap_ids s sid)"
proof -
  obtain cur where c: "dget p ''cursor'' = JObj cur" "cur \<noteq> []" "dget cur ''high_water'' = JInt (sn_high s)" "dget cur ''snapshot_id'' = JStr sid"
    using assms(1) by (auto simp: good_page_def given_cursor_def dget_def)
  have f: "dget p ''state_epoch'' = JInt (sn_epoch s)" "dget p ''feed_boundary_seq'' = JInt (sn_boundary s)"
    "dget p ''feed_epoch'' = JInt (sn_feed_epoch s)" "has_key p ''feed_boundary_seq''" "has_key p ''feed_epoch''"
    using assms(1) by (auto simp: good_page_def dget_def has_key_def)
  have e: "por (JInt (sn_epoch s)) (JInt 0) = JInt (sn_epoch s)" by (simp add: por_def)
  show ?thesis
    using c(2) assms(2) by (simp add: page_identity_def c f e por_def snap_ids_def py_str_def scalar_text_def)
qed

definition job_obj :: "job_row \<Rightarrow> obj" where
  "job_obj r = obj_of (job_item r)"

lemma job_item_obj: "job_item r = JObj (job_obj r)"
  by (simp add: job_obj_def job_item_def)

lemma job_obj_id: "dget (job_obj r) ''job_id'' = JStr (jb_id r)" "dget (job_obj r) ''status'' = JStr (jb_status r)"
  by (simp_all add: job_obj_def job_item_def dget_def)

lemma take_good_page:
  assumes "good_page s sid start p" "sid \<noteq> []" "sa_ids acc = None \<or> sa_ids acc = Some (snap_ids s sid)"
    and "\<forall>r \<in> set (sn_jobs s). jb_id r \<noteq> []"
  obtains acc' cur where "take_page e (JObj p) acc = Inr acc'" "sa_ids acc' = Some (snap_ids s sid)" "sa_cursor acc' = Some (JObj cur)"
    "sa_pages acc' = sa_pages acc @ [p]" "page_items p = map job_obj (page_at s 50 start)"
    "given_cursor s sid (if page_at s 50 start = [] then start else jb_id (last (page_at s 50 start))) cur"
    "is_set (dget p ''has_more'') = pages_left s 50 start" "is_set (JObj p)" "dget p ''job_id'' = JNull"
proof -
  obtain cur where c: "given_cursor s sid (if page_at s 50 start = [] then start else jb_id (last (page_at s 50 start))) cur"
    "dget p ''kind'' = JStr ''snapshot''" "dget p ''cursor'' = JObj cur" "dget p ''jobs'' = JArr (map job_item (page_at s 50 start))"
    "dget p ''has_more'' = JBool (pages_left s 50 start)" "p \<noteq> []" "dget p ''job_id'' = JNull"
    using assms(1) by (auto simp: good_page_def dget_def)
  have "\<forall>r \<in> set (page_at s 50 start). jb_id r \<noteq> []"
    using assms(4) by (auto simp: page_at_def page_rest_def dest: in_set_takeD)
  then have ok: "list_all item_ok (map job_item (page_at s 50 start))"
    by (auto simp: list_all_iff item_ok_def job_item_obj job_obj_id)
  let ?acc = "\<lparr>sa_pages = sa_pages acc @ [p], sa_ids = Some (snap_ids s sid), sa_cursor = Some (JObj cur)\<rparr>"
  have t: "take_page e (JObj p) acc = Inr ?acc"
    using assms(3) by (elim disjE) (simp_all add: take_page_def c good_page_identity [OF assms(1,2)] ok)
  have "page_items p = map job_obj (page_at s 50 start)" by (simp add: page_items_def c job_item_obj comp_def)
  then show ?thesis using t c by (intro that [of ?acc cur]) simp_all
qed

text \<open>A store in which only requests were added.\<close>

definition more_requests :: "controller_db \<Rightarrow> controller_db \<Rightarrow> bool" where
  "more_requests db db' = (remotes db' = remotes db \<and> shadows db' = shadows db \<and> tombstones db' = tombstones db)"

lemma fetch_good_page:
  assumes "asks (rds i) s sid start (sa_cursor acc) (ms i)" "sid \<noteq> []" "\<And>f. fits f"
    and "sends i = host_session fits sha (res i) (rds i) transfer (ms i)"
    and "sa_ids acc = None \<or> sa_ids acc = Some (snap_ids s sid)" "\<forall>r \<in> set (sn_jobs s). jb_id r \<noteq> []"
    and "fresh_for (es i) rid (store c)" "find_remote (store c) rid = Some m" "controller_ok (store c)"
  obtains p acc' cur c' r where "fetch_snapshot (es i) rid (sa_cursor acc) (sends i) c = (Inr (JObj p), c')"
    "take_page (es i) (JObj p) acc = Inr acc'" "sa_ids acc' = Some (snap_ids s sid)" "sa_cursor acc' = Some (JObj cur)"
    "sa_pages acc' = sa_pages acc @ [p]" "page_items p = map job_obj (page_at s 50 start)"
    "given_cursor s sid (if page_at s 50 start = [] then start else jb_id (last (page_at s 50 start))) cur"
    "is_set (dget p ''has_more'') = pages_left s 50 start" "controller_ok (store c')"
    "store c' = (store c)\<lparr>requests := requests (store c) @ [r]\<rparr>" "rq_id r = ce_request (es i)" "rq_key r = ce_key (es i)"
proof -
  let ?payload = "page_payload (sa_cursor acc)"
  obtain digest where d: "request_digest (ce_sha (es i)) ''job.snapshot'' ?payload (ce_key (es i)) = Inr digest"
    using snapshot_request_valid(2) [OF assms(1)] by blast
  let ?frame = "request_frame (es i) (new_row (es i) rid ''job.snapshot'' ?payload digest)"
  obtain p fr where f: "host_session fits sha (res i) (rds i) transfer (ms i) ?frame = Some (JObj fr)" "good_page s sid start p"
    "dget fr ''kind'' = JStr ''response''" "dget fr ''request_id'' = JStr (ce_request (es i))" "dget fr ''method'' = JStr ''job.snapshot''"
    "dget fr ''result'' = JObj p"
    by (rule session_page [where fits = fits and sha = sha and re = "res i" and transfer = transfer and e = "es i" and rid = rid
        and digest = digest, OF assms(1,2,3) refl])
  obtain acc' cur where t: "take_page (es i) (JObj p) acc = Inr acc'" "sa_ids acc' = Some (snap_ids s sid)" "sa_cursor acc' = Some (JObj cur)"
    "sa_pages acc' = sa_pages acc @ [p]" "page_items p = map job_obj (page_at s 50 start)"
    "given_cursor s sid (if page_at s 50 start = [] then start else jb_id (last (page_at s 50 start))) cur"
    "is_set (dget p ''has_more'') = pages_left s 50 start" "is_set (JObj p)" "dget p ''job_id'' = JNull"
    by (rule take_good_page [OF f(2) assms(2,5,6), of "es i"])
  have n: "\<not> is_mutation ''job.snapshot''" by (simp add: is_mutation_def)
  have s: "sends i ?frame = Some (JObj fr)" using f(1) assms(4) by simp
  have ne: "p \<noteq> []" using t(8) by simp
  obtain r c' where r: "read_request (es i) rid ''job.snapshot'' ?payload (sends i) c = (Inr r, c')" "rq_response r = Some (JObj p)" "rq_error r = None"
    "store c' = (store c)\<lparr>requests := requests (store c) @ [r]\<rparr>" "rq_id r = ce_request (es i)" "rq_key r = ce_key (es i)" "rq_remote r = rid"
    by (rule read_request_answered [where send = "sends i", OF assms(7,8) n snapshot_request_valid(1) [OF assms(1)] d s f(3-6) ne t(9)])
  have fs: "fetch_snapshot (es i) rid (sa_cursor acc) (sends i) c = (Inr (JObj p), c')"
    using r(1) unfolding fetch_snapshot_def page_payload_def by (simp add: r(2) or_empty_def por_def ne)
  have "(rid, ce_key (es i)) \<notin> (\<lambda>r. (rq_remote r, rq_key r)) ` set (requests (store c))" "ce_request (es i) \<notin> rq_id ` set (requests (store c))"
    using assms(7) by (auto simp: fresh_for_def find_request_def find_None_iff)
  then have ok: "controller_ok (store c')"
    using assms(9) r(5-7) by (simp add: r(4) controller_ok_def)
  show ?thesis by (rule that [OF fs t(1-7) ok r(4-6)])
qed

lemma fresh_after:
  assumes "fresh_for e rid db" "ce_request e \<noteq> rq_id r" "ce_key e \<noteq> rq_key r"
  shows "fresh_for e rid (db\<lparr>requests := requests db @ [r]\<rparr>)"
  using assms by (auto simp: fresh_for_def find_request_def find_append)

lemma fetch_loop:
  assumes "sid \<noteq> []" "\<And>f. fits f" "snap_ok s" "\<forall>r \<in> set (sn_jobs s). jb_id r \<noteq> []"
    and "\<And>i. sends i = host_session fits sha (res i) (rds i) transfer (ms i)" "\<And>i c. meanwhile i c = c"
    and "inj_on (\<lambda>i. ce_request (es i)) {..N}" "inj_on (\<lambda>i. ce_key (es i)) {..N}" "\<And>i. 0 < i \<Longrightarrow> holds sid s (ms i)"
  shows "\<lbrakk>length (page_rest s start) < fuel; asks (rds i) s sid start (sa_cursor acc) (ms i);
      sa_ids acc = None \<or> sa_ids acc = Some (snap_ids s sid); \<forall>k. i \<le> k \<and> k \<le> N \<longrightarrow> fresh_for (es k) rid (store c);
      i + length (page_rest s start) \<le> N; find_remote (store c) rid = Some m; controller_ok (store c)\<rbrakk> \<Longrightarrow>
    \<exists>acc' c'. fetch_pages fuel es sends meanwhile rid i acc c = (Inr (Some acc'), c')
      \<and> concat (map page_items (sa_pages acc')) = concat (map page_items (sa_pages acc)) @ map job_obj (page_rest s start)
      \<and> sa_ids acc' = Some (snap_ids s sid) \<and> more_requests (store c) (store c') \<and> controller_ok (store c')"
proof (induction fuel arbitrary: i acc c start)
  case (Suc fuel)
  have fr: "fresh_for (es i) rid (store c)" using Suc.prems(4,5) by simp
  obtain p acc1 cur c1 r where f: "fetch_snapshot (es i) rid (sa_cursor acc) (sends i) c = (Inr (JObj p), c1)"
    "take_page (es i) (JObj p) acc = Inr acc1" "sa_ids acc1 = Some (snap_ids s sid)" "sa_cursor acc1 = Some (JObj cur)"
    "sa_pages acc1 = sa_pages acc @ [p]" "page_items p = map job_obj (page_at s 50 start)"
    "given_cursor s sid (if page_at s 50 start = [] then start else jb_id (last (page_at s 50 start))) cur"
    "is_set (dget p ''has_more'') = pages_left s 50 start" "controller_ok (store c1)"
    "store c1 = (store c)\<lparr>requests := requests (store c) @ [r]\<rparr>" "rq_id r = ce_request (es i)" "rq_key r = ce_key (es i)"
    by (rule fetch_good_page [where sends = sends and rds = rds and ms = ms and es = es and i = i and c = c and acc = acc and fits = fits
          and sha = sha and res = res and transfer = transfer and rid = rid and m = m,
          OF Suc.prems(2) assms(1) assms(2) assms(5) Suc.prems(3) assms(4) fr Suc.prems(6,7)])
  have m1: "more_requests (store c) (store c1)" by (simp add: f(10) more_requests_def)
  show ?case
  proof (cases "pages_left s 50 start")
    case False
    then have "page_at s 50 start = page_rest s start" by (simp add: pages_left_def page_at_def)
    then show ?thesis
      using f False m1 by (simp add: assms(6))
  next
    case True
    then have ne: "page_at s 50 start \<noteq> []" by (auto simp: pages_left_def page_at_def)
    let ?next = "jb_id (last (page_at s 50 start))"
    have rest: "page_rest s ?next = drop 50 (page_rest s start)"
      using snap_pages.rest_after [OF assms(3), of 50 start] ne by (simp add: rest_is page_at_def)
    have "asks (rds (Suc i)) s sid ?next (sa_cursor acc1) (ms (Suc i))"
      using f(4,7) ne assms(9) [of "Suc i"] by (simp add: asks_def)
    moreover have "length (page_rest s ?next) < fuel" using Suc.prems(1) True by (simp add: rest pages_left_def)
    moreover have "Suc i + length (page_rest s ?next) \<le> N" using Suc.prems(5) True by (simp add: rest pages_left_def)
    moreover have "\<forall>k. Suc i \<le> k \<and> k \<le> N \<longrightarrow> fresh_for (es k) rid (store c1)"
    proof (intro allI impI)
      fix k assume k: "Suc i \<le> k \<and> k \<le> N"
      have "ce_request (es k) \<noteq> rq_id r" "ce_key (es k) \<noteq> rq_key r"
        using k inj_onD [OF assms(7), of k i] inj_onD [OF assms(8), of k i] by (auto simp: f(11,12))
      with Suc.prems(4) k show "fresh_for (es k) rid (store c1)" unfolding f(10) by (intro fresh_after) auto
    qed
    moreover have "find_remote (store c1) rid = Some m" using Suc.prems(6) by (simp add: f(10) find_remote_def)
    ultimately obtain acc' c' where l: "fetch_pages fuel es sends meanwhile rid (Suc i) acc1 c1 = (Inr (Some acc'), c')"
      "concat (map page_items (sa_pages acc')) = concat (map page_items (sa_pages acc1)) @ map job_obj (page_rest s ?next)"
      "sa_ids acc' = Some (snap_ids s sid)" "more_requests (store c1) (store c')" "controller_ok (store c')"
      using Suc.IH [of ?next "Suc i" acc1 c1] f(3,9) by blast
    have j: "map job_obj (page_at s 50 start) @ map job_obj (page_rest s ?next) = map job_obj (page_rest s start)"
      unfolding rest by (simp only: page_at_def append_take_drop_id flip: map_append)
    have "fetch_pages (Suc fuel) es sends meanwhile rid i acc c = (Inr (Some acc'), c')"
      using True by (simp add: f(1,2,8) assms(6) l(1))
    moreover have "concat (map page_items (sa_pages acc')) = concat (map page_items (sa_pages acc)) @ map job_obj (page_rest s start)"
      by (simp add: l(2) f(5,6) flip: j)
    moreover have "more_requests (store c) (store c')" using l(4) m1 by (simp add: more_requests_def)
    ultimately show ?thesis using l(3,5) by blast
  qed
qed simp

section \<open>Publishing what was fetched\<close>

lemma upsert_total:
  assumes "fresh \<notin> sh_id ` set (shadows db)"
  obtains r db' where "upsert_shadow_body fresh now rid job st p epoch db = Inr (r, db')"
    "sh_id ` set (shadows db') \<subseteq> insert fresh (sh_id ` set (shadows db))"
proof (cases "find_shadow db (rid, job)")
  case None
  have "\<not> (\<exists>s \<in> set (shadows db). sh_id s = fresh)" using assms by blast
  with None show ?thesis by (intro that) (auto simp: upsert_shadow_body_def Let_def)
next
  case (Some s)
  have i: "sh_id ` set (upd P f xs) = sh_id ` set xs" if "\<And>s. sh_id (f s) = sh_id s" for P f and xs :: "shadow_row list"
    using map_upd_same [of sh_id f P xs] that by (metis list.set_map)
  show ?thesis
  proof (cases "sh_suppressed s \<noteq> None \<or> epoch < sh_epoch s")
    case True
    with Some show ?thesis by (intro that [of None db]) (auto simp: upsert_shadow_body_def)
  next
    case False
    with Some have "upsert_shadow_body fresh now rid job st p epoch db
      = Inr (find (\<lambda>q. sh_id q = sh_id s) (upd (\<lambda>q. sh_id q = sh_id s) (\<lambda>q. q\<lparr>sh_status := st, sh_payload := p, sh_epoch := epoch, sh_updated := now\<rparr>) (shadows db)),
          db\<lparr>shadows := upd (\<lambda>q. sh_id q = sh_id s) (\<lambda>q. q\<lparr>sh_status := st, sh_payload := p, sh_epoch := epoch, sh_updated := now\<rparr>) (shadows db)\<rparr>)"
      by (simp add: upsert_shadow_body_def Let_def)
    then show ?thesis by (rule that) (simp add: i subset_insertI)
  qed
qed

lemma upsert_items_total:
  "\<lbrakk>inj (ce_shadows e); \<forall>k \<ge> i. ce_shadows e k \<notin> sh_id ` set (shadows db)\<rbrakk> \<Longrightarrow>
   \<exists>n db'. upsert_items e rid epoch i xs db = Inr (n, db')"
proof (induction xs arbitrary: i db)
  case (Cons x xs)
  obtain job st p where x: "x = (job, st, p)" by (cases x)
  obtain r db1 where u: "upsert_shadow_body (ce_shadows e i) (ce_now e) rid job st (Some p) epoch db = Inr (r, db1)"
    "sh_id ` set (shadows db1) \<subseteq> insert (ce_shadows e i) (sh_id ` set (shadows db))"
    by (rule upsert_total [of "ce_shadows e i" db "ce_now e" rid job st "Some p" epoch]) (use Cons.prems(2) in simp_all)
  have "ce_shadows e k \<notin> sh_id ` set (shadows db1)" if "Suc i \<le> k" for k
  proof -
    have "ce_shadows e k \<noteq> ce_shadows e i" using that injD [OF Cons.prems(1), of k i] by auto
    moreover have "ce_shadows e k \<notin> sh_id ` set (shadows db)" using Cons.prems(2) that by simp
    ultimately show ?thesis using u(2) by blast
  qed
  then obtain n db' where "upsert_items e rid epoch (Suc i) xs db1 = Inr (n, db')" using Cons.IH [OF Cons.prems(1)] by blast
  with u(1) show ?case by (simp add: x kept_def)
qed simp

lemma publish_total:
  assumes "controller_ok db" "find_remote db rid = Some m" "sa_ids acc = Some (snap_ids s sid)"
    and "inj (ce_shadows e)" "\<forall>k. ce_shadows e k \<notin> sh_id ` set (shadows db)"
  shows "\<exists>t db'. publish_body e rid (rm_feed_cursor m) (rm_epoch m) acc db = Inr (t, db')"
proof -
  let ?xs = "map (item_entry e) (concat (map page_items (sa_pages acc)))"
  obtain n db1 where u: "upsert_items e rid (sn_epoch s) 0 ?xs db = Inr (n, db1)"
    using upsert_items_total [OF assms(4), of 0 db rid "sn_epoch s" ?xs] assms(5) by auto
  obtain k db2 where sup: "supersede_old_epochs (ce_now e) rid (sn_epoch s) db1 = (k, db2)"
    by (cases "supersede_old_epochs (ce_now e) rid (sn_epoch s) db1")
  note u' = upsert_items_frame [OF u assms(1)]
  have "upserted db1 db2" using supersede_frame [of db1 "ce_now e" rid "sn_epoch s"] u' sup by simp
  then have "find_remote db2 rid = Some m" using upserted_remote [of db1 db2 rid] upserted_remote [of db db1 rid] u' assms(2) by simp
  then obtain ss where "current_shadows rid db2 = Inr ss" by (simp add: current_shadows_def)
  with u sup assms(2,3) show ?thesis by (simp add: publish_body_def snap_ids_def Let_def finalize_locked_def kept_def)
qed

end
