(* ===== verification/SnapshotMirror.thy ===== *)
theory SnapshotMirror
  imports SnapshotPages
begin

text \<open>
  The synchronisation of a controller with a host, end to end: after it the mirror of the controller holds the
  jobs that the host had when it captured the snapshot.
\<close>

section \<open>The session of a synchronisation\<close>

text \<open>
  Request \<open>i\<close> meets the host in state \<open>ms i\<close>; the first captures \<open>s\<close>, and the host still holds it, in the same
  epoch, at the others.
\<close>

definition serves ::
  "(obj \<Rightarrow> bool) \<Rightarrow> (string \<Rightarrow> string) \<Rightarrow> (nat \<Rightarrow> remote_env) \<Rightarrow> (nat \<Rightarrow> read_env) \<Rightarrow> transfer \<Rightarrow> (nat \<Rightarrow> remote_host) \<Rightarrow>
   string \<Rightarrow> snapshot \<Rightarrow> bool" where
  "serves fits sha res rds transfer ms sid s =
     ((\<forall>f. fits f) \<and> s = capture (rds 0) (rh_conn (ms 0)) \<and> rd_snap (rds 0) = sid \<and> sid \<noteq> [] \<and> (\<forall>i > 0. holds sid s (ms i))
      \<and> distinct (map jb_id (jobs (host (committed (rh_conn (ms 0)))))) \<and> (\<forall>r \<in> set (sn_jobs s). jb_id r \<noteq> [] \<and> jb_status r \<noteq> []))"

text \<open>The identifiers that the controller mints are new, for at most \<open>N + 1\<close> requests.\<close>

definition mints_fresh :: "nat \<Rightarrow> control_env \<Rightarrow> (nat \<Rightarrow> control_env) \<Rightarrow> string \<Rightarrow> controller_db \<Rightarrow> bool" where
  "mints_fresh N e es rid db =
     (inj_on (\<lambda>i. ce_request (es i)) {..N} \<and> inj_on (\<lambda>i. ce_key (es i)) {..N} \<and> (\<forall>k \<le> N. fresh_for (es k) rid db)
      \<and> inj (ce_shadows e) \<and> (\<forall>k. ce_shadows e k \<notin> sh_id ` set (shadows db)))"

definition listed :: "job_row \<Rightarrow> string \<times> string \<times> json" where
  "listed r = (jb_id r, jb_status r, job_item r)"

lemma item_entry_listed: "jb_status r \<noteq> [] \<Longrightarrow> item_entry e (job_obj r) = listed r"
  by (simp add: item_entry_def item_status_def job_obj_id por_def py_str_def scalar_text_def listed_def job_item_obj)

lemma more_requests_mirror:
  assumes "more_requests db db'"
  shows "find_remote db' rid = find_remote db rid" "mirror rid db' = mirror rid db" "no_future rid db' = no_future rid db"
proof -
  have s: "seen_at n x db' = seen_at n x db" for n x using assms by (intro seen_same) (simp add: more_requests_def)
  show r: "find_remote db' rid = find_remote db rid" using assms by (simp add: more_requests_def find_remote_def)
  show "mirror rid db' = mirror rid db" unfolding mirror_def r s ..
  show "no_future rid db' = no_future rid db" unfolding no_future_def r conjunct1 [OF conjunct2 [OF assms [unfolded more_requests_def]]] ..
qed

lemma sync_of_snapshot:
  assumes "serves fits sha res rds transfer ms sid s" "\<And>i. sends i = host_session fits sha (res i) (rds i) transfer (ms i)"
    and "\<And>i c. meanwhile i c = c" "mints_fresh (length (sn_jobs s)) e es rid (store c)" "length (sn_jobs s) < fuel"
    and "find_remote (store c) rid = Some m" "controller_ok (store c)"
  obtains acc c1 where "fetch_pages fuel es sends meanwhile rid 0 no_pages c = (Inr (Some acc), c1)"
    "sync_items e acc = map listed (sn_jobs s)" "sa_ids acc = Some (snap_ids s sid)" "more_requests (store c) (store c1)" "controller_ok (store c1)"
proof -
  let ?N = "length (sn_jobs s)"
  have v: "\<And>f. fits f" "s = capture (rds 0) (rh_conn (ms 0))" "rd_snap (rds 0) = sid" "sid \<noteq> []" "\<And>i. 0 < i \<Longrightarrow> holds sid s (ms i)"
    "\<forall>r \<in> set (sn_jobs s). jb_id r \<noteq> []" "\<forall>r \<in> set (sn_jobs s). jb_status r \<noteq> []"
    using assms(1) unfolding serves_def by blast+
  have ok: "snap_ok s" unfolding v(2) using assms(1) by (intro capture_ok) (simp add: serves_def)
  have all: "page_rest s [] = sn_jobs s" using v(6) by (auto simp: page_rest_def intro!: filter_True) (metis list.exhaust Nil_less_Cons)
  have f: "inj_on (\<lambda>i. ce_request (es i)) {..?N}" "inj_on (\<lambda>i. ce_key (es i)) {..?N}" "\<forall>k. 0 \<le> k \<and> k \<le> ?N \<longrightarrow> fresh_for (es k) rid (store c)"
    using assms(4) by (simp_all add: mints_fresh_def)
  have "asks (rds 0) s sid [] (sa_cursor no_pages) (ms 0)" using v(2,3) by (simp add: asks_def no_pages_def)
  then obtain acc c1 where l: "fetch_pages fuel es sends meanwhile rid 0 no_pages c = (Inr (Some acc), c1)"
    "concat (map page_items (sa_pages acc)) = concat (map page_items (sa_pages no_pages)) @ map job_obj (sn_jobs s)"
    "sa_ids acc = Some (snap_ids s sid)" "more_requests (store c) (store c1)" "controller_ok (store c1)"
    using fetch_loop [where start = "[]" and i = 0 and acc = no_pages and N = ?N and fits = fits and res = res and sha = sha and transfer = transfer
        and m = m and fuel = fuel and c = c and meanwhile = meanwhile and rid = rid, OF v(4) v(1) ok v(6) assms(2) assms(3) f(1,2) v(5)] f(3) assms(5-7)
    unfolding all by (auto simp: no_pages_def)
  have "sync_items e acc = map listed (sn_jobs s)"
    using v(7) by (simp add: sync_items_def l(2) no_pages_def item_entry_listed)
  with l show ?thesis by (intro that)
qed

text \<open>
  C29. A synchronisation with a host that answers every request of it, while nothing else touches the store, returns:
  after at most as many pages as the host had jobs when it captured the snapshot, the controller shows exactly those
  jobs, each with the status and fields of the capture, except the ones that it hides for good; of all other jobs none
  is shown any more, and those it knew are hidden for good.
\<close>

theorem snapshot_sync_mirrors_host:
  assumes "serves fits sha res rds transfer ms sid s" "\<And>i. sends i = host_session fits sha (res i) (rds i) transfer (ms i)"
    and "\<And>i c. meanwhile i c = c" "mints_fresh (length (sn_jobs s)) e es rid (store c)" "length (sn_jobs s) < fuel"
    and "find_remote (store c) rid = Some m" "controller_ok (store c)" "no_future rid (store c)" "rm_epoch m \<le> sn_epoch s"
  shows "\<exists>t c'. sync_snapshot fuel e es sends meanwhile rid c = (Inr (Some t), c')
    \<and> mirror rid (store c') = see_snapshot (map listed (sn_jobs s)) (mirror rid (store c))"
proof -
  obtain acc c1 where f: "fetch_pages fuel es sends meanwhile rid 0 no_pages c = (Inr (Some acc), c1)"
    "sync_items e acc = map listed (sn_jobs s)" "sa_ids acc = Some (snap_ids s sid)" "more_requests (store c) (store c1)" "controller_ok (store c1)"
    by (rule sync_of_snapshot [where sends = sends and meanwhile = meanwhile and c = c and fuel = fuel, OF assms(1-7)])
  note r = more_requests_mirror [OF f(4), of rid]
  have m: "find_remote (store c1) rid = Some m" by (simp add: r(1) assms(6))
  have sh: "shadows (store c1) = shadows (store c)" using f(4) by (simp add: more_requests_def)
  obtain t db' where p: "publish_body e rid (rm_feed_cursor m) (rm_epoch m) acc (store c1) = Inr (t, db')"
    using publish_total [OF f(5) m f(3), of e] assms(4) sh by (auto simp: mints_fresh_def)
  have "rm_epoch m \<le> sync_epoch acc" by (simp add: sync_epoch_def f(3) snap_ids_def assms(9))
  from publish_refines [OF f(5) _ p this] assms(8)
  have "mirror rid db' = see_snapshot (map listed (sn_jobs s)) (mirror rid (store c))" by (simp add: r(2,3) f(2))
  with f(1) p assms(6) show ?thesis by (simp add: sync_snapshot_def txn_def)
qed

definition demo_snapshot_host :: remote_host where
  "demo_snapshot_host = \<lparr>rh_conn = demo_host\<lparr>committed := (committed demo_host)\<lparr>rs_state_epoch := 2\<rparr>\<rparr>, rh_snaps = []\<rparr>"

definition demo_snapshot :: snapshot where
  "demo_snapshot = capture demo_read_env (rh_conn demo_snapshot_host)"

definition demo_host_at :: "nat \<Rightarrow> remote_host" where
  "demo_host_at i = (if i = 0 then demo_snapshot_host else demo_snapshot_host\<lparr>rh_snaps := [(''snap-1'', demo_snapshot)]\<rparr>)"

definition demo_control :: "nat \<Rightarrow> control_env" where
  "demo_control i = \<lparr>ce_now = 9, ce_request = replicate i CHR ''r'' @ ''req'', ce_shadow = ''shd_a'', ce_shadow2 = ''shd_b'', ce_tombstone = ''tmb_1'',
     ce_sha = id, ce_repr = (\<lambda>j. []), ce_real = id, ce_trunc = (\<lambda>r. None), ce_key = replicate i CHR ''k'' @ ''key-0000'',
     ce_shadows = (\<lambda>k. replicate k CHR ''s'' @ ''new'')\<rparr>"

lemma padded: "inj_on (\<lambda>i. replicate i x @ w) A" for w :: string
  by (intro inj_onI) (metis add_right_imp_eq length_append length_replicate)

lemma demo_serves:
  "serves (\<lambda>f. True) id (\<lambda>i. demo_remote_env ''op1'' ''job_1'') (\<lambda>i. demo_read_env) no_transfer demo_host_at ''snap-1'' demo_snapshot"
proof -
  have "holds ''snap-1'' demo_snapshot (demo_host_at i)" if "0 < i" for i
    using that by (simp add: holds_def demo_host_at_def demo_snapshot_def capture_def Let_def demo_snapshot_host_def)
  moreover have "distinct (map jb_id (jobs (host (committed (rh_conn (demo_host_at 0))))))"
    by (simp add: demo_host_at_def demo_snapshot_host_def demo_host_def demo_jobs_def demo_job_def)
  moreover have "\<forall>r \<in> set (sn_jobs demo_snapshot). jb_id r \<noteq> [] \<and> jb_status r \<noteq> []"
    by (simp add: demo_snapshot_def capture_def Let_def demo_snapshot_host_def demo_host_def demo_jobs_def demo_job_def)
  ultimately show ?thesis by (simp add: serves_def demo_host_at_def [of 0] demo_snapshot_def demo_read_env_def)
qed

lemma demo_mints: "mints_fresh 3 (demo_control 0) demo_control ''rmt_1'' demo_db"
proof -
  have "idempotency_key_re (replicate k CHR ''k'' @ ''key-0000'')" if "k \<le> 3" for k
  proof -
    have "list_all (\<lambda>k. idempotency_key_re (replicate k CHR ''k'' @ ''key-0000'')) [0, 1, 2, 3]" by code_simp
    moreover have "k \<in> {0, 1, 2, 3}" using that by auto
    ultimately show ?thesis by auto
  qed
  then have "\<forall>k \<le> 3. fresh_for (demo_control k) ''rmt_1'' demo_db"
    by (simp add: fresh_for_def demo_control_def find_request_def demo_db_def)
  moreover have "replicate k CHR ''s'' @ ''new'' \<noteq> ''shd_1''" for k
    using arg_cong [of "replicate k CHR ''s'' @ ''new''" "''shd_1''" last] by auto
  ultimately show ?thesis
    by (simp add: mints_fresh_def padded demo_control_def [of 0] demo_db_def demo_shadow_def) (simp add: demo_control_def padded)
qed

lemma snapshot_sync_mirrors_host_witness:
  "\<exists>t c'. sync_snapshot 4 (demo_control 0) demo_control
      (\<lambda>i. host_session (\<lambda>f. True) id (demo_remote_env ''op1'' ''job_1'') demo_read_env no_transfer (demo_host_at i))
      (\<lambda>i c. c) ''rmt_1'' \<lparr>store = demo_db, journal = None\<rparr> = (Inr (Some t), c')
    \<and> mirror ''rmt_1'' (store c') = see_snapshot (map listed (sn_jobs demo_snapshot)) (mirror ''rmt_1'' demo_db)"
proof -
  have n: "length (sn_jobs demo_snapshot) = 3"
    by (simp add: demo_snapshot_def capture_def Let_def demo_snapshot_host_def demo_host_def demo_jobs_def)
  have e: "sn_epoch demo_snapshot = 2"
    by (simp add: demo_snapshot_def capture_def Let_def demo_snapshot_host_def demo_host_def view_def)
  have r: "find_remote demo_db ''rmt_1'' = Some demo_remote" by (simp add: find_remote_def demo_db_def demo_remote_def)
  have f: "no_future ''rmt_1'' demo_db" "rm_epoch demo_remote \<le> sn_epoch demo_snapshot"
    by (simp_all add: no_future_def r e) (simp_all add: demo_db_def demo_remote_def demo_shadow_def)
  show ?thesis
    using snapshot_sync_mirrors_host [where sends = "\<lambda>i. host_session (\<lambda>f. True) id (demo_remote_env ''op1'' ''job_1'') demo_read_env no_transfer (demo_host_at i)"
        and meanwhile = "\<lambda>i c. c" and c = "\<lparr>store = demo_db, journal = None\<rparr>" and fuel = 4 and e = "demo_control 0" and es = demo_control
        and rid = "''rmt_1''" and m = demo_remote, OF demo_serves refl refl] demo_mints n r demo_ok f by simp
qed

end
