(* ===== verification/Manifest.thy ===== *)
theory Manifest
  imports CanonicalJson PyJson
begin

text \<open>
  The manifests of artifacts (\<^verbatim>\<open>src/vanth/artifacts/manifest.py\<close>): the file manifest of version 0 and the
  directory manifest of version 1, their validation and their digest.  The hash is the argument \<open>sha\<close>; the
  portability key of a path, its normal form C in lower case, is the argument \<open>pk\<close>, since the tables of Unicode
  are not modelled.  Every refusal is a \<^verbatim>\<open>ValueError\<close>.
\<close>

datatype merr = Refused

section \<open>Paths\<close>

definition is_sha256 :: "json \<Rightarrow> bool" where
  "is_sha256 v = (case v of JStr s \<Rightarrow> re_match_dollar is_lower_hex 64 64 s | _ \<Rightarrow> False)"

definition illegal_char :: "char \<Rightarrow> bool" where
  "illegal_char c = ((of_char c :: nat) < 32 \<or> c \<in> set [CHR ''<'', CHR ''>'', CHR '':'', CHR 0x22, CHR ''|'', CHR ''?'', CHR ''*''])"

definition WINDOWS_RESERVED :: "string list" where
  "WINDOWS_RESERVED = [''CON'', ''PRN'', ''AUX'', ''NUL'',
     ''COM1'', ''COM2'', ''COM3'', ''COM4'', ''COM5'', ''COM6'', ''COM7'', ''COM8'', ''COM9'',
     ''LPT1'', ''LPT2'', ''LPT3'', ''LPT4'', ''LPT5'', ''LPT6'', ''LPT7'', ''LPT8'', ''LPT9'']"

text \<open>\<^verbatim>\<open>str.upper\<close>, of which only the results made of ASCII letters and digits matter here.\<close>

definition upper :: "string \<Rightarrow> string" where
  "upper s = map (\<lambda>c. if 97 \<le> (of_char c :: nat) \<and> (of_char c :: nat) \<le> 122 then char_of ((of_char c :: nat) - 32) else c) s"

definition reserved_name :: "string \<Rightarrow> bool" where
  "reserved_name s = (upper (rstrip_by (\<lambda>c. c = CHR '' '' \<or> c = CHR ''.'') (before CHR ''.'' s)) \<in> set WINDOWS_RESERVED)"

definition component_ok :: "string \<Rightarrow> merr + unit" where
  "component_ok s =
     ebind (ensure (s \<noteq> ''.'' \<and> s \<noteq> ''..'') Refused) (\<lambda>_.
     ebind (efor s (\<lambda>c. ensure (\<not> illegal_char c) Refused)) (\<lambda>_.
     ensure (\<not> reserved_name s) Refused))"

definition validate_v1_path :: "json \<Rightarrow> merr + string" where
  "validate_v1_path v =
     (case v of
        JStr path \<Rightarrow>
          ebind (ensure (path \<noteq> []) Refused) (\<lambda>_.
          ebind (ensure (CHR 0x00 \<notin> set path) Refused) (\<lambda>_.
          ebind (ensure (CHR 0x5C \<notin> set path) Refused) (\<lambda>_.
          ebind (ensure (hd path \<noteq> CHR ''/'') Refused) (\<lambda>_.
          ebind (ensure (last path \<noteq> CHR ''/'') Refused) (\<lambda>_.
          let components = split_on CHR ''/'' path
          in ebind (ensure ([] \<notin> set components) Refused) (\<lambda>_.
             ebind (efor components component_ok) (\<lambda>_. Inr path)))))))
      | _ \<Rightarrow> Inl Refused)"

section \<open>Entries\<close>

definition exact_fields :: "string list \<Rightarrow> obj \<Rightarrow> merr + unit" where
  "exact_fields fields d =
     ebind (ensure (list_all (has_key d) fields) Refused) (\<lambda>_.
     ensure (list_all (\<lambda>(k, v). k \<in> set fields) d) Refused)"

definition ENTRY_FIELDS :: "string list" where
  "ENTRY_FIELDS = [''path'', ''kind'', ''size_bytes'', ''sha256'', ''executable'']"

definition size_ok :: "json \<Rightarrow> bool" where
  "size_ok v = (case v of JInt i \<Rightarrow> 0 \<le> i | _ \<Rightarrow> False)"

definition validate_entry :: "(string \<Rightarrow> string) \<Rightarrow> json \<Rightarrow> merr + string" where
  "validate_entry sha v =
     (case v of
        JObj d \<Rightarrow>
          ebind (exact_fields ENTRY_FIELDS d) (\<lambda>_.
          ebind (validate_v1_path (dget d ''path'')) (\<lambda>path.
          ebind (ensure (dget d ''kind'' = JStr ''file'' \<or> dget d ''kind'' = JStr ''dir'') Refused) (\<lambda>_.
          ebind (ensure (size_ok (dget d ''size_bytes'')) Refused) (\<lambda>_.
          ebind (ensure (is_sha256 (dget d ''sha256'')) Refused) (\<lambda>_.
          ebind (ensure (is_bool (dget d ''executable'')) Refused) (\<lambda>_.
          ebind (ensure (dget d ''kind'' = JStr ''dir'' \<longrightarrow> dget d ''size_bytes'' = JInt 0
            \<and> dget d ''sha256'' = JStr (sha []) \<and> dget d ''executable'' = JBool False) Refused) (\<lambda>_.
          Inr path)))))))
      | _ \<Rightarrow> Inl Refused)"

text \<open>Paths come in the order of their bytes, without repetition.\<close>

fun validate_sorted :: "(string \<Rightarrow> string) \<Rightarrow> string option \<Rightarrow> json list \<Rightarrow> merr + string list" where
  "validate_sorted sha previous [] = Inr []"
| "validate_sorted sha previous (x # xs) =
     ebind (validate_entry sha x) (\<lambda>path.
     ebind (ensure (case previous of None \<Rightarrow> True | Some p \<Rightarrow> p < path) Refused) (\<lambda>_.
     ebind (validate_sorted sha (Some path) xs) (\<lambda>paths. Inr (path # paths))))"

definition validate_entries :: "(string \<Rightarrow> string) \<Rightarrow> (string \<Rightarrow> string) \<Rightarrow> json \<Rightarrow> merr + unit" where
  "validate_entries sha pk v =
     (case v of
        JArr xs \<Rightarrow> ebind (validate_sorted sha None xs) (\<lambda>paths. ensure (distinct (map pk paths)) Refused)
      | _ \<Rightarrow> Inl Refused)"

section \<open>Manifests\<close>

definition name_ok :: "json \<Rightarrow> bool" where
  "name_ok v = (case v of JStr s \<Rightarrow> s \<noteq> [] | _ \<Rightarrow> False)"

definition validate_manifest_v1 :: "(string \<Rightarrow> string) \<Rightarrow> (string \<Rightarrow> string) \<Rightarrow> json \<Rightarrow> merr + unit" where
  "validate_manifest_v1 sha pk v =
     (case v of
        JObj d \<Rightarrow>
          ebind (exact_fields [''manifest_version'', ''kind'', ''name'', ''entries''] d) (\<lambda>_.
          ebind (ensure (dget d ''manifest_version'' = JInt 1) Refused) (\<lambda>_.
          ebind (ensure (dget d ''kind'' = JStr ''dir'') Refused) (\<lambda>_.
          ebind (ensure (name_ok (dget d ''name'')) Refused) (\<lambda>_.
          validate_entries sha pk (dget d ''entries'')))))
      | _ \<Rightarrow> Inl Refused)"

definition build_manifest :: "(string \<Rightarrow> string) \<Rightarrow> string \<Rightarrow> string \<Rightarrow> merr + obj" where
  "build_manifest sha data name =
     ebind (ensure (name \<noteq> []) Refused) (\<lambda>_.
     Inr [(''manifest_version'', JInt 0), (''kind'', JStr ''file''), (''size_bytes'', JInt (int (length data))),
       (''sha256'', JStr (sha data)), (''name'', JStr name)])"

definition validate_manifest :: "json \<Rightarrow> merr + unit" where
  "validate_manifest v =
     (case v of
        JObj d \<Rightarrow>
          ebind (exact_fields [''manifest_version'', ''kind'', ''size_bytes'', ''sha256'', ''name''] d) (\<lambda>_.
          ebind (ensure (dget d ''manifest_version'' = JInt 0) Refused) (\<lambda>_.
          ebind (ensure (dget d ''kind'' = JStr ''file'') Refused) (\<lambda>_.
          ebind (ensure (size_ok (dget d ''size_bytes'')) Refused) (\<lambda>_.
          ebind (ensure (is_sha256 (dget d ''sha256'')) Refused) (\<lambda>_.
          ensure (name_ok (dget d ''name'')) Refused)))))
      | _ \<Rightarrow> Inl Refused)"

text \<open>A version that only compares equal to 1 (\<^verbatim>\<open>True\<close> or a float) is refused by either validation.\<close>

definition canonical_manifest :: "(string \<Rightarrow> string) \<Rightarrow> (string \<Rightarrow> string) \<Rightarrow> json \<Rightarrow> merr + string" where
  "canonical_manifest sha pk v =
     ebind (case v of
         JObj d \<Rightarrow> if dget d ''manifest_version'' = JInt 1 then validate_manifest_v1 sha pk v else validate_manifest v
       | _ \<Rightarrow> validate_manifest v) (\<lambda>_.
     case canonical_json v of Inl _ \<Rightarrow> Inl Refused | Inr text \<Rightarrow> Inr text)"

definition manifest_digest :: "(string \<Rightarrow> string) \<Rightarrow> (string \<Rightarrow> string) \<Rightarrow> json \<Rightarrow> merr + string" where
  "manifest_digest sha pk v = ebind (canonical_manifest sha pk v) (\<lambda>text. Inr (sha text))"

end
