(* ===== verification/TreeCapture.thy ===== *)
theory TreeCapture
  imports Manifest
begin

text \<open>
  Directories as artifacts: the capture of a tree into a manifest (\<^verbatim>\<open>build_manifest_from_tree\<close> of
  \<^verbatim>\<open>src/vanth/artifacts/manifest.py\<close>) and its creation from the manifest and the stored contents
  (\<^verbatim>\<open>_build_tree_into_staging\<close> of \<^verbatim>\<open>operations.py\<close>).  The source does not change while it is captured and the
  target is only written by its creator, so the checks against mutation and swapped components always pass.
\<close>

section \<open>A tree on disk\<close>

text \<open>
  The children of a directory are listed in the byte order of their names, as the capture sorts them.  \<open>Odd\<close> is a
  symbolic link, a reparse point or a special file.
\<close>

datatype ftree = FileT string bool | DirT "(string \<times> ftree) list" | Odd

datatype capture_row = FileRow string string bool | EmptyDir string

fun row_path :: "capture_row \<Rightarrow> string" where
  "row_path (FileRow p c x) = p"
| "row_path (EmptyDir p) = p"

text \<open>The files and the empty directories below a directory, with their paths from \<open>pre\<close>.\<close>

fun walk :: "string \<Rightarrow> (string \<times> ftree) list \<Rightarrow> merr + capture_row list" where
  "walk pre [] = Inr []"
| "walk pre ((n, FileT c x) # ks) = ebind (walk pre ks) (\<lambda>rs. Inr (FileRow (pre @ n) c x # rs))"
| "walk pre ((n, Odd) # ks) = Inl Refused"
| "walk pre ((n, DirT ds) # ks) =
     ebind (walk (pre @ n @ ''/'') ds) (\<lambda>rs.
     ebind (walk pre ks) (\<lambda>ss. Inr (rs @ (if ds = [] then [EmptyDir (pre @ n)] else []) @ ss)))"

text \<open>Windows has no executable bit: \<open>posix\<close> is false there.\<close>

fun row_entry :: "(string \<Rightarrow> string) \<Rightarrow> bool \<Rightarrow> capture_row \<Rightarrow> json" where
  "row_entry sha posix (FileRow p c x) = JObj [(''path'', JStr p), (''kind'', JStr ''file''), (''size_bytes'', JInt (int (length c))),
     (''sha256'', JStr (sha c)), (''executable'', JBool (posix \<and> x))]"
| "row_entry sha posix (EmptyDir p) = JObj [(''path'', JStr p), (''kind'', JStr ''dir''), (''size_bytes'', JInt 0),
     (''sha256'', JStr (sha [])), (''executable'', JBool False)]"

definition build_manifest_from_tree ::
  "(string \<Rightarrow> string) \<Rightarrow> (string \<Rightarrow> string) \<Rightarrow> bool \<Rightarrow> ftree \<Rightarrow> string \<Rightarrow> merr + obj" where
  "build_manifest_from_tree sha pk posix t name =
     ebind (ensure (name \<noteq> []) Refused) (\<lambda>_.
     case t of
       DirT ks \<Rightarrow>
         ebind (walk [] ks) (\<lambda>rows.
         let manifest = [(''manifest_version'', JInt 1), (''kind'', JStr ''dir''), (''name'', JStr name),
               (''entries'', JArr (map (row_entry sha posix) (sort_key row_path rows)))]
         in ebind (validate_manifest_v1 sha pk (JObj manifest)) (\<lambda>_. Inr manifest))
     | _ \<Rightarrow> Inl Refused)"

section \<open>Creating a tree\<close>

datatype node = DirN | FileN string bool

text \<open>What is below the staging directory, by the components of its path; a directory is never removed.\<close>

type_synonym fs = "string list \<Rightarrow> node option"

fun make_parents :: "string list \<Rightarrow> string list \<Rightarrow> fs \<Rightarrow> merr + fs" where
  "make_parents at [] f = Inr f"
| "make_parents at (c # cs) f =
     (case f (at @ [c]) of
        None \<Rightarrow> make_parents (at @ [c]) cs (f(at @ [c] \<mapsto> DirN))
      | Some DirN \<Rightarrow> make_parents (at @ [c]) cs f
      | Some (FileN _ _) \<Rightarrow> Inl Refused)"

definition entry_path :: "obj \<Rightarrow> string list" where
  "entry_path d = split_on CHR ''/'' (case dget d ''path'' of JStr p \<Rightarrow> p | _ \<Rightarrow> [])"

text \<open>One entry; \<open>blobs\<close> gives the stored content of a digest.\<close>

definition create_entry :: "(string \<Rightarrow> string) \<Rightarrow> bool \<Rightarrow> (string \<Rightarrow> string option) \<Rightarrow> json \<Rightarrow> fs \<Rightarrow> merr + fs" where
  "create_entry sha posix blobs v f =
     (let d = obj_of v; path = entry_path d in
      ebind (make_parents [] (butlast path) f) (\<lambda>f1.
      if dget d ''kind'' = JStr ''dir'' then
        (if f1 path \<noteq> None then Inl Refused else Inr (f1(path \<mapsto> DirN)))
      else (case dget d ''sha256'' of
          JStr digest \<Rightarrow>
            if f1 path \<noteq> None then Inl Refused
            else (case blobs digest of
                None \<Rightarrow> Inl Refused
              | Some content \<Rightarrow>
                  if sha content \<noteq> digest then Inl Refused
                  else Inr (f1(path \<mapsto> FileN content (posix \<and> dget d ''executable'' = JBool True))))
        | _ \<Rightarrow> Inl Refused)))"

fun build_tree :: "(string \<Rightarrow> string) \<Rightarrow> bool \<Rightarrow> (string \<Rightarrow> string option) \<Rightarrow> json list \<Rightarrow> fs \<Rightarrow> merr + fs" where
  "build_tree sha posix blobs [] f = Inr f"
| "build_tree sha posix blobs (v # vs) f = ebind (create_entry sha posix blobs v f) (build_tree sha posix blobs vs)"

definition manifest_entries :: "obj \<Rightarrow> json list" where
  "manifest_entries m = (case dget m ''entries'' of JArr xs \<Rightarrow> xs | _ \<Rightarrow> [])"

text \<open>The manifest is validated and its entries are sorted again by path.\<close>

definition materialize_tree ::
  "(string \<Rightarrow> string) \<Rightarrow> (string \<Rightarrow> string) \<Rightarrow> bool \<Rightarrow> (string \<Rightarrow> string option) \<Rightarrow> obj \<Rightarrow> merr + fs" where
  "materialize_tree sha pk posix blobs m =
     ebind (validate_manifest_v1 sha pk (JObj m)) (\<lambda>_.
     let entries = sort_key (\<lambda>v. case dget (obj_of v) ''path'' of JStr p \<Rightarrow> p | _ \<Rightarrow> []) (manifest_entries m);
         files = filter (\<lambda>v. dget (obj_of v) ''kind'' = JStr ''file'') entries
     in if list_ex (\<lambda>v. case dget (obj_of v) ''sha256'' of JStr s \<Rightarrow> blobs s = None | _ \<Rightarrow> False) files then Inl Refused
        else build_tree sha posix blobs entries (\<lambda>_. None))"

section \<open>What a tree is\<close>

text \<open>Names are what a file system allows; a directory has no two children of one name.\<close>

fun tree_ok :: "(string \<times> ftree) list \<Rightarrow> bool" where
  "tree_ok [] = True"
| "tree_ok ((n, t) # ks) = (n \<noteq> [] \<and> CHR ''/'' \<notin> set n \<and> n \<notin> fst ` set ks
     \<and> (case t of DirT ds \<Rightarrow> tree_ok ds | _ \<Rightarrow> True) \<and> tree_ok ks)"

fun node_at :: "bool \<Rightarrow> (string \<times> ftree) list \<Rightarrow> fs" where
  "node_at posix ks [] = None"
| "node_at posix ks (n # ps) =
     (case map_of ks n of
        None \<Rightarrow> None
      | Some (FileT c x) \<Rightarrow> if ps = [] then Some (FileN c (posix \<and> x)) else None
      | Some (DirT ds) \<Rightarrow> if ps = [] then Some DirN else node_at posix ds ps
      | Some Odd \<Rightarrow> None)"

end
