(* ===== verification/TreeRoundTrip.thy ===== *)
theory TreeRoundTrip
  imports TreeCapture "HOL-Library.Sublist"
begin

text \<open>
  A directory that is captured and created again from its manifest is the same directory, and the digest of a
  manifest identifies the directory.
\<close>

section \<open>Paths and components\<close>

lemma split_single: "c \<notin> set s \<Longrightarrow> split_on c s = [s]"
  by (induction s) auto

lemma split_pre: "c \<notin> set s \<Longrightarrow> split_on c (s @ c # t) = s # split_on c t"
  by (induction s) auto

lemma join_cons: "ps \<noteq> [] \<Longrightarrow> join sep (n # ps) = n @ sep @ join sep ps"
  by (cases ps) simp_all

lemma split_join: "ps \<noteq> [] \<Longrightarrow> \<forall>p \<in> set ps. c \<notin> set p \<Longrightarrow> split_on c (join [c] ps) = ps"
proof (induction ps)
  case (Cons n ps)
  then show ?case by (cases "ps = []") (simp_all add: join_cons split_single split_pre)
qed simp

lemma join_split: "join [c] (split_on c s) = s"
proof (induction s)
  case (Cons x xs)
  obtain y ys where y: "split_on c xs = y # ys" by (metis list.exhaust split_on_nonempty)
  show ?case
  proof (cases "x = c")
    case True
    with Cons y show ?thesis by (simp add: join_cons)
  next
    case False
    with Cons y show ?thesis by (cases ys) simp_all
  qed
qed simp

lemma split_parts: "p \<in> set (split_on c s) \<Longrightarrow> c \<notin> set p \<and> set p \<subseteq> set s"
proof (induction s arbitrary: p)
  case (Cons x xs)
  obtain y ys where y: "split_on c xs = y # ys" by (metis list.exhaust split_on_nonempty)
  with Cons.IH [of y] Cons.IH [of p] Cons.prems show ?case by (auto split: if_splits)
qed simp

section \<open>The leaves of a tree\<close>

datatype leaf = LFile string bool | LEmpty

type_synonym leaves = "(string list \<times> leaf) list"

fun leaves :: "(string \<times> ftree) list \<Rightarrow> leaves" where
  "leaves [] = []"
| "leaves ((n, FileT c x) # ks) = ([n], LFile c x) # leaves ks"
| "leaves ((n, Odd) # ks) = leaves ks"
| "leaves ((n, DirT ds) # ks) = map (\<lambda>(p, l). (n # p, l)) (leaves ds) @ (if ds = [] then [([n], LEmpty)] else []) @ leaves ks"

fun leaf_row :: "string \<Rightarrow> leaf \<Rightarrow> capture_row" where
  "leaf_row p (LFile c x) = FileRow p c x"
| "leaf_row p LEmpty = EmptyDir p"

lemma leaf_row_path [simp]: "row_path (leaf_row p l) = p"
  by (cases l) simp_all

fun plain_tree :: "(string \<times> ftree) list \<Rightarrow> bool" where
  "plain_tree [] = True"
| "plain_tree ((n, t) # ks) = ((case t of DirT ds \<Rightarrow> plain_tree ds | FileT c x \<Rightarrow> True | Odd \<Rightarrow> False) \<and> plain_tree ks)"

lemma below_iff [simp]:
  "(m # q, l) \<in> (\<lambda>(p, l). (n # p, l)) ` A \<longleftrightarrow> m = n \<and> (q, l) \<in> A"
  "([], l) \<notin> (\<lambda>(p, l). (n # p, l)) ` A"
  by auto

lemma leaves_paths: "(p, l) \<in> set (leaves ks) \<Longrightarrow> p \<noteq> [] \<and> hd p \<in> fst ` set ks"
  by (induction ks arbitrary: p l rule: leaves.induct) (auto split: if_splits)

lemma leaves_some: "plain_tree ks \<Longrightarrow> ks \<noteq> [] \<Longrightarrow> leaves ks \<noteq> []"
  by (induction ks rule: leaves.induct) auto

lemma leaves_names: "tree_ok ks \<Longrightarrow> (p, l) \<in> set (leaves ks) \<Longrightarrow> \<forall>n \<in> set p. n \<noteq> [] \<and> CHR ''/'' \<notin> set n"
  by (induction ks arbitrary: p l rule: leaves.induct) (auto split: if_splits, blast+)

lemma walk_leaves:
  "walk pre ks = Inr rows \<Longrightarrow> plain_tree ks \<and> rows = map (\<lambda>(p, l). leaf_row (pre @ join ''/'' p) l) (leaves ks)"
proof (induction pre ks arbitrary: rows rule: walk.induct)
  case (4 pre n ds ks)
  then obtain rs ss where w: "walk (pre @ n @ ''/'') ds = Inr rs" "walk pre ks = Inr ss"
    "rows = rs @ (if ds = [] then [EmptyDir (pre @ n)] else []) @ ss"
    by (auto simp: ebind_Inr_iff)
  note a = "4.IH"(1) [OF w(1)] and b = "4.IH"(2) [OF w(2)]
  have "rs = map ((\<lambda>(p, l). leaf_row (pre @ join ''/'' p) l) \<circ> (\<lambda>(p, l). (n # p, l))) (leaves ds)"
    using a leaves_paths by (auto simp: join_cons)
  with a b w(3) show ?case by simp
qed (auto simp: ebind_Inr_iff)

lemma prefix_free_leaves:
  "tree_ok ks \<Longrightarrow> (p, l) \<in> set (leaves ks) \<Longrightarrow> (p @ s, l') \<in> set (leaves ks) \<Longrightarrow> s = [] \<and> l = l'"
proof (induction ks arbitrary: p l s l' rule: leaves.induct)
  case (2 n c x ks)
  have o: "hd q \<noteq> n" if "(q, m) \<in> set (leaves ks)" for q m using leaves_paths [OF that] "2.prems"(1) by auto
  have ne: "p \<noteq> []" using leaves_paths [OF "2.prems"(2)] by simp
  show ?case
  proof (cases "hd p = n")
    case True
    with ne have "hd (p @ s) = n" by simp
    with "2.prems"(2,3) o True show ?thesis by fastforce
  next
    case False
    with ne have "hd (p @ s) \<noteq> n" by simp
    with "2.prems" False "2.IH" show ?thesis by auto
  qed
next
  case (4 n ds ks)
  have o: "hd q \<noteq> n" if "(q, m) \<in> set (leaves ks)" for q m using leaves_paths [OF that] "4.prems"(1) by auto
  have d: "leaves ds = []" if "ds = []" using that by simp
  show ?case
  proof (cases "p \<noteq> [] \<and> hd p = n")
    case True
    have k: "(\<exists>q'. q = n # q' \<and> (q', m) \<in> set (leaves ds)) \<or> ds = [] \<and> q = [n] \<and> m = LEmpty"
      if "q \<noteq> []" "hd q = n" "(q, m) \<in> set (leaves ((n, DirT ds) # ks))" for q m
    proof -
      have "(q, m) \<notin> set (leaves ks)" using o that(2) by blast
      with that show ?thesis by (cases q) (auto split: if_splits)
    qed
    from True have "hd (p @ s) = n" "p @ s \<noteq> []" by simp_all
    from k [OF conjunct1 [OF True] conjunct2 [OF True] "4.prems"(2)] k [OF this(2,1) "4.prems"(3)] d "4.IH"(1) "4.prems"(1) show ?thesis by auto
  next
    case False
    moreover have ne: "p \<noteq> []" using leaves_paths [OF "4.prems"(2)] by simp
    moreover have "p @ s \<noteq> n # a" for a using False ne by (cases p) auto
    ultimately have "(p, l) \<in> set (leaves ks)" "(p @ s, l') \<in> set (leaves ks)"
      using "4.prems"(2,3) by (auto split: if_splits)
    with "4.IH"(2) "4.prems"(1) show ?thesis by auto
  qed
qed (auto dest: leaves_paths)

text \<open>A tree is given by its leaves.\<close>

definition shows_file :: "bool \<Rightarrow> (string list \<times> leaf) set \<Rightarrow> string list \<Rightarrow> string \<Rightarrow> bool \<Rightarrow> bool" where
  "shows_file posix L p c y = (\<exists>x. (p, LFile c x) \<in> L \<and> y = (posix \<and> x))"

definition shows_dir :: "(string list \<times> leaf) set \<Rightarrow> string list \<Rightarrow> bool" where
  "shows_dir L p = (p \<noteq> [] \<and> ((p, LEmpty) \<in> L \<or> (\<exists>s l. s \<noteq> [] \<and> (p @ s, l) \<in> L)))"

definition represents :: "bool \<Rightarrow> (string list \<times> leaf) set \<Rightarrow> fs \<Rightarrow> bool" where
  "represents posix L f = (\<forall>p. (\<forall>c y. f p = Some (FileN c y) \<longleftrightarrow> shows_file posix L p c y) \<and> (f p = Some DirN \<longleftrightarrow> shows_dir L p))"

lemma represents_unique: "represents posix L f \<Longrightarrow> represents posix L g \<Longrightarrow> f = g"
proof
  fix p
  assume r: "represents posix L f" "represents posix L g"
  show "f p = g p"
  proof (cases "f p")
    case None
    with r show ?thesis unfolding represents_def by (metis node.exhaust not_None_eq)
  next
    case (Some a)
    with r show ?thesis unfolding represents_def by (metis node.exhaust)
  qed
qed

lemma node_at_leaves:
  "tree_ok ks \<Longrightarrow> plain_tree ks \<Longrightarrow>
   (node_at posix ks p = Some (FileN c y) \<longleftrightarrow> shows_file posix (set (leaves ks)) p c y)
   \<and> (node_at posix ks p = Some DirN \<longleftrightarrow> shows_dir (set (leaves ks)) p)"
proof (induction ks arbitrary: p rule: leaves.induct)
  case 1
  then show ?case by (cases p) (simp_all add: shows_file_def shows_dir_def)
next
  case (2 n d x ks)
  have o: "hd q \<noteq> n \<and> q \<noteq> []" if "(q, m) \<in> set (leaves ks)" for q m using leaves_paths [OF that] "2.prems"(1) by auto
  show ?case
  proof (cases p)
    case Nil
    with o show ?thesis by (auto simp: shows_file_def shows_dir_def)
  next
    case (Cons m ps)
    show ?thesis
    proof (cases "m = n")
      case True
      have "(m # q, l) \<notin> set (leaves ks)" for q l using o [of "m # q" l] True by auto
      with Cons True show ?thesis by (auto simp: shows_file_def shows_dir_def)
    next
      case False
      with Cons "2.IH" [of p] "2.prems" show ?thesis by (auto simp: shows_file_def shows_dir_def)
    qed
  qed
next
  case (4 n ds ks)
  have o: "hd q \<noteq> n \<and> q \<noteq> []" if "(q, m) \<in> set (leaves ks)" for q m using leaves_paths [OF that] "4.prems"(1) by auto
  have d: "q \<noteq> []" if "(q, m) \<in> set (leaves ds)" for q m using leaves_paths [OF that] by simp
  show ?case
  proof (cases p)
    case Nil
    with o show ?thesis by (auto simp: shows_file_def shows_dir_def)
  next
    case (Cons m ps)
    show ?thesis
    proof (cases "m = n")
      case True
      have k: "(m # q, l) \<notin> set (leaves ks)" for q l using o [of "m # q" l] True by auto
      have e: "ps \<noteq> [] \<Longrightarrow> (node_at posix ds ps = Some (FileN c y) \<longleftrightarrow> shows_file posix (set (leaves ds)) ps c y)
          \<and> (node_at posix ds ps = Some DirN \<longleftrightarrow> shows_dir (set (leaves ds)) ps)"
        using "4.IH"(1) [of ps] "4.prems" by simp
      show ?thesis
      proof (cases "ps = []")
        case True': True
        have "ds \<noteq> [] \<Longrightarrow> \<exists>q l. q \<noteq> [] \<and> (q, l) \<in> set (leaves ds)"
          using leaves_some [of ds] "4.prems"(2) d by (cases "leaves ds") auto
        moreover have "([], l) \<notin> set (leaves ds)" for l using d by auto
        ultimately show ?thesis using True True' Cons k
          by (cases "ds = []") (fastforce simp: shows_file_def shows_dir_def)+
      next
        case False
        with True Cons k e show ?thesis by (auto simp: shows_file_def shows_dir_def)
      qed
    next
      case False
      with Cons "4.IH"(2) [of p] "4.prems" show ?thesis by (auto simp: shows_file_def shows_dir_def)
    qed
  qed
qed simp

lemma node_at_represents: "tree_ok ks \<Longrightarrow> plain_tree ks \<Longrightarrow> represents posix (set (leaves ks)) (node_at posix ks)"
  using node_at_leaves by (simp add: represents_def)

section \<open>Creating the tree of some leaves\<close>

lemma represents_cases:
  assumes "represents posix L f"
  shows "shows_file posix L p c y \<Longrightarrow> f p = Some (FileN c y)" "shows_dir L p \<Longrightarrow> f p = Some DirN"
    "\<not> shows_dir L p \<Longrightarrow> (\<And>c y. \<not> shows_file posix L p c y) \<Longrightarrow> f p = None"
proof -
  show "shows_file posix L p c y \<Longrightarrow> f p = Some (FileN c y)" "shows_dir L p \<Longrightarrow> f p = Some DirN"
    using assms unfolding represents_def by blast+
  show "\<not> shows_dir L p \<Longrightarrow> (\<And>c y. \<not> shows_file posix L p c y) \<Longrightarrow> f p = None"
    using assms unfolding represents_def by (metis node.exhaust not_None_eq)
qed

lemma make_parents_result:
  "\<lbrakk>\<And>k c y. 0 < k \<Longrightarrow> k \<le> length cs \<Longrightarrow> f (at @ take k cs) \<noteq> Some (FileN c y)\<rbrakk> \<Longrightarrow>
   \<exists>g. make_parents at cs f = Inr g
     \<and> (\<forall>p. g p = (if f p = None \<and> (\<exists>k. 0 < k \<and> k \<le> length cs \<and> p = at @ take k cs) then Some DirN else f p))"
proof (induction cs arbitrary: at f)
  case (Cons c cs)
  have n: "f (at @ [c]) \<noteq> Some (FileN d y)" for d y using Cons.prems [of 1 d y] by simp
  have later: "(0 < k \<and> k \<le> length (c # cs) \<and> p = at @ take k (c # cs))
      \<longleftrightarrow> k = 1 \<and> p = at @ [c] \<or> (\<exists>j. k = Suc j \<and> 0 < j \<and> j \<le> length cs \<and> p = (at @ [c]) @ take j cs)" for k p
    by (cases k; cases "k - 1") auto
  let ?f = "case f (at @ [c]) of None \<Rightarrow> f(at @ [c] \<mapsto> DirN) | Some v \<Rightarrow> f"
  have s: "make_parents at (c # cs) f = make_parents (at @ [c]) cs ?f"
    using n by (auto split: option.splits node.splits)
  have "?f ((at @ [c]) @ take k cs) \<noteq> Some (FileN d y)" if "0 < k" "k \<le> length cs" for k d y
    using Cons.prems [of "Suc k" d y] that by (auto split: option.splits)
  from Cons.IH [where at = "at @ [c]" and f = ?f, OF this] obtain g where g: "make_parents (at @ [c]) cs ?f = Inr g"
    "\<And>p. g p = (if ?f p = None \<and> (\<exists>k. 0 < k \<and> k \<le> length cs \<and> p = (at @ [c]) @ take k cs) then Some DirN else ?f p)"
    by blast
  have "g p = (if f p = None \<and> (\<exists>k. 0 < k \<and> k \<le> length (c # cs) \<and> p = at @ take k (c # cs)) then Some DirN else f p)" for p
    unfolding g(2) later by (auto split: option.splits)
  with g(1) s show ?case by auto
qed auto

text \<open>No leaf lies on the way to another.\<close>

definition prefix_free :: "(string list \<times> leaf) set \<Rightarrow> bool" where
  "prefix_free L = (\<forall>p l s l'. (p, l) \<in> L \<and> (p @ s, l') \<in> L \<longrightarrow> s = [] \<and> l = l')"

lemma parents_of_leaf:
  assumes "represents posix L f" "prefix_free (insert (p, l) L)" "(p, l) \<notin> L" "p \<noteq> []"
  obtains g where "make_parents [] (butlast p) f = Inr g" "g p = None"
    "\<forall>q c y. g q = Some (FileN c y) \<longleftrightarrow> shows_file posix L q c y"
    "\<forall>q. g q = Some DirN \<longleftrightarrow> shows_dir L q \<or> q \<noteq> [] \<and> (\<exists>s. s \<noteq> [] \<and> q @ s = p)"
proof -
  have pf: "s = [] \<and> m = m'" if "(q, m) \<in> insert (p, l) L" "(q @ s, m') \<in> insert (p, l) L" for q m s m'
    using assms(2) that by (simp only: prefix_free_def)
  have nofile: "\<not> shows_file posix L q c y" if q: "q @ s = p" for q s c y
  proof
    assume "shows_file posix L q c y"
    then obtain x where x: "(q, LFile c x) \<in> L" by (auto simp: shows_file_def)
    with pf [of q "LFile c x" s l] q have "s = [] \<and> LFile c x = l" by simp
    with x q assms(3) show False by simp
  qed
  have pre: "(\<exists>k. 0 < k \<and> k \<le> length (butlast p) \<and> q = [] @ take k (butlast p)) \<longleftrightarrow> q \<noteq> [] \<and> (\<exists>s. s \<noteq> [] \<and> q @ s = p)" for q
  proof (intro iffI conjI; elim exE conjE)
    fix k assume k: "0 < k" "k \<le> length (butlast p)" "q = [] @ take k (butlast p)"
    then have q: "q = take k p" by (simp add: take_butlast)
    with k(1) assms(4) show "q \<noteq> []" by simp
    have "0 < length p" using assms(4) by simp
    with k(2) have "k < length p" by (simp only: length_butlast)
    then have "drop k p \<noteq> [] \<and> q @ drop k p = p" unfolding q by simp
    then show "\<exists>s. s \<noteq> [] \<and> q @ s = p" by blast
  next
    fix s assume a: "q \<noteq> []" "s \<noteq> []" "q @ s = p"
    have "0 < length q" "0 < length s" using a(1,2) by simp_all
    moreover from this have "length q \<le> length (butlast p)" unfolding a(3) [symmetric] length_butlast length_append by linarith
    moreover have "q = [] @ take (length q) (butlast p)" unfolding a(3) [symmetric] by (simp add: butlast_append a(2))
    ultimately show "\<exists>k. 0 < k \<and> k \<le> length (butlast p) \<and> q = [] @ take k (butlast p)" by blast
  qed
  have "f ([] @ take k (butlast p)) \<noteq> Some (FileN c y)" if "0 < k" "k \<le> length (butlast p)" for k c y
  proof -
    have "take k (butlast p) @ drop k p = p" using that by (simp add: take_butlast)
    from nofile [OF this] assms(1) show ?thesis by (simp add: represents_def)
  qed
  from make_parents_result [where at = "[]" and cs = "butlast p" and f = f, OF this, unfolded pre]
  obtain g where g: "make_parents [] (butlast p) f = Inr g"
    "\<And>q. g q = (if f q = None \<and> q \<noteq> [] \<and> (\<exists>s. s \<noteq> [] \<and> q @ s = p) then Some DirN else f q)"
    by blast
  have "\<not> shows_dir L p"
  proof
    assume "shows_dir L p"
    then consider "(p, LEmpty) \<in> L" | s m where "s \<noteq> []" "(p @ s, m) \<in> L" by (auto simp: shows_dir_def)
    then show False
    proof cases
      case 1
      with pf [of p LEmpty "[]" l] assms(3) show False by simp
    next
      case 2
      with pf [of p l s m] show False by simp
    qed
  qed
  moreover have "\<not> shows_file posix L p c y" for c y by (rule nofile [of p "[]"]) simp
  ultimately have "f p = None" using represents_cases(3) [OF assms(1)] by blast
  with g(2) have "g p = None" by simp
  moreover have "g q = Some (FileN c y) \<longleftrightarrow> shows_file posix L q c y" for q c y
  proof -
    have "f q = Some (FileN c y) \<longleftrightarrow> shows_file posix L q c y" using assms(1) by (simp add: represents_def)
    with g(2) [of q] show ?thesis by (auto split: if_splits)
  qed
  moreover have "g q = Some DirN \<longleftrightarrow> shows_dir L q \<or> q \<noteq> [] \<and> (\<exists>s. s \<noteq> [] \<and> q @ s = p)" for q
  proof (cases "q \<noteq> [] \<and> (\<exists>s. s \<noteq> [] \<and> q @ s = p)")
    case True
    then have "f q = None \<or> f q = Some DirN" using nofile represents_cases(2,3) [OF assms(1), of q] by blast
    with True g(2) [of q] show ?thesis by auto
  next
    case False
    with g(2) [of q] assms(1) show ?thesis by (auto simp: represents_def)
  qed
  ultimately show ?thesis using that g(1) by blast
qed

lemma shows_insert:
  "shows_file posix (insert (p, l) L) q c y \<longleftrightarrow> shows_file posix L q c y \<or> q = p \<and> (\<exists>x. l = LFile c x \<and> y = (posix \<and> x))"
  "shows_dir (insert (p, l) L) q \<longleftrightarrow> shows_dir L q \<or> q \<noteq> [] \<and> (q = p \<and> l = LEmpty \<or> (\<exists>s. s \<noteq> [] \<and> q @ s = p))"
  by (auto simp: shows_file_def shows_dir_def)

lemma create_entry_leaf:
  assumes "represents posix L f" "prefix_free (insert (p, l) L)" "(p, l) \<notin> L" "p \<noteq> []" "\<forall>n \<in> set p. CHR ''/'' \<notin> set n"
    and "\<And>c x. l = LFile c x \<Longrightarrow> blobs (sha c) = Some c"
  shows "\<exists>g. create_entry sha posix blobs (row_entry sha posix (leaf_row (join ''/'' p) l)) f = Inr g
    \<and> represents posix (insert (p, l) L) g"
proof -
  obtain g where g: "make_parents [] (butlast p) f = Inr g" "g p = None"
    "\<forall>q c y. g q = Some (FileN c y) \<longleftrightarrow> shows_file posix L q c y"
    "\<forall>q. g q = Some DirN \<longleftrightarrow> shows_dir L q \<or> q \<noteq> [] \<and> (\<exists>s. s \<noteq> [] \<and> q @ s = p)"
    by (rule parents_of_leaf [OF assms(1-4)])
  have sp: "split_on CHR ''/'' (join ''/'' p) = p" by (rule split_join [OF assms(4,5)])
  have nf: "\<not> shows_file posix L p c y" for c y using g(2,3) by (metis option.distinct(1))
  have nd: "\<not> shows_dir L p" using g(2,4) by (metis option.distinct(1))
  show ?thesis
  proof (cases l)
    case (LFile c x)
    have "create_entry sha posix blobs (row_entry sha posix (leaf_row (join ''/'' p) l)) f = Inr (g(p \<mapsto> FileN c (posix \<and> x)))"
      using assms(6) [OF LFile] g(1,2) by (simp add: create_entry_def LFile entry_path_def dget_def sp)
    moreover have "represents posix (insert (p, l) L) (g(p \<mapsto> FileN c (posix \<and> x)))"
      unfolding represents_def shows_insert using g(3,4) nf nd by (auto simp: LFile)
    ultimately show ?thesis by blast
  next
    case LEmpty
    have "create_entry sha posix blobs (row_entry sha posix (leaf_row (join ''/'' p) l)) f = Inr (g(p \<mapsto> DirN))"
      using g(1,2) by (simp add: create_entry_def LEmpty entry_path_def dget_def sp)
    moreover have "represents posix (insert (p, l) L) (g(p \<mapsto> DirN))"
      unfolding represents_def shows_insert using g(3,4) nf nd assms(4) by (auto simp: LEmpty)
    ultimately show ?thesis by blast
  qed
qed

lemma build_tree_leaves:
  "\<lbrakk>represents posix L f; prefix_free (set ls \<union> L); distinct ls; set ls \<inter> L = {};
    \<forall>(p, l) \<in> set ls. p \<noteq> [] \<and> (\<forall>n \<in> set p. CHR ''/'' \<notin> set n) \<and> (\<forall>c x. l = LFile c x \<longrightarrow> blobs (sha c) = Some c)\<rbrakk> \<Longrightarrow>
   \<exists>g. build_tree sha posix blobs (map (\<lambda>(p, l). row_entry sha posix (leaf_row (join ''/'' p) l)) ls) f = Inr g
     \<and> represents posix (set ls \<union> L) g"
proof (induction ls arbitrary: L f)
  case (Cons a ls)
  obtain p l where a: "a = (p, l)" by (cases a)
  have "prefix_free (insert (p, l) L)" using Cons.prems(2) unfolding a prefix_free_def by auto
  then obtain g where g: "create_entry sha posix blobs (row_entry sha posix (leaf_row (join ''/'' p) l)) f = Inr g"
    "represents posix (insert (p, l) L) g"
    using create_entry_leaf [OF Cons.prems(1), of p l blobs sha] Cons.prems(4,5) by (auto simp: a)
  have "\<exists>h. build_tree sha posix blobs (map (\<lambda>(p, l). row_entry sha posix (leaf_row (join ''/'' p) l)) ls) g = Inr h
      \<and> represents posix (set ls \<union> insert (p, l) L) h"
    by (rule Cons.IH [OF g(2)]) (use Cons.prems a in auto)
  with g(1) show ?case by (simp add: a)
qed simp

section \<open>Capture and creation\<close>

lemma validated_path:
  assumes "validate_v1_path v = Inr p"
  shows "v = JStr p \<and> p \<noteq> [] \<and> CHR 0x00 \<notin> set p \<and> CHR 0x5C \<notin> set p \<and> hd p \<noteq> CHR ''/''
    \<and> (\<forall>n \<in> set (split_on CHR ''/'' p). n \<noteq> [] \<and> component_ok n = Inr ())"
  using assms by (auto simp: validate_v1_path_def ebind_Inr_iff Let_def split: json.splits)

lemma validate_sorted_paths:
  "validate_sorted sha prev xs = Inr paths \<Longrightarrow>
   paths = map (\<lambda>v. case dget (obj_of v) ''path'' of JStr p \<Rightarrow> p | _ \<Rightarrow> []) xs \<and> sorted_wrt (<) paths
   \<and> (\<forall>p. prev = Some p \<longrightarrow> (\<forall>q \<in> set paths. p < q))
   \<and> (\<forall>v \<in> set xs. \<exists>d p. v = JObj d \<and> validate_entry sha v = Inr p \<and> dget d ''path'' = JStr p)"
proof (induction xs arbitrary: prev paths)
  case (Cons x xs)
  then obtain p ps where v: "validate_entry sha x = Inr p" "case prev of None \<Rightarrow> True | Some q \<Rightarrow> q < p"
    "validate_sorted sha (Some p) xs = Inr ps" "paths = p # ps"
    by (auto simp: ebind_Inr_iff)
  from v(1) obtain d where d: "x = JObj d" "dget d ''path'' = JStr p"
    by (auto simp: validate_entry_def ebind_Inr_iff split: json.splits dest: validated_path)
  note i = Cons.IH [OF v(3)]
  have a: "\<forall>q \<in> set ps. p < q" using i by blast
  have "\<forall>q \<in> set ps. r < q" if "r < p" for r
  proof
    fix q assume "q \<in> set ps"
    with a have "p < q" by blast
    with that show "r < q" by (rule less_trans)
  qed
  with v d i show ?case by (auto split: option.splits)
qed simp

lemma row_entry_path [simp]: "(case dget (obj_of (row_entry sha posix r)) ''path'' of JStr p \<Rightarrow> p | _ \<Rightarrow> []) = row_path r"
  by (cases r) (simp_all add: dget_def)

lemma captured:
  assumes "build_manifest_from_tree sha pk posix (DirT ks) name = Inr m" "tree_ok ks"
  obtains ls where "set ls = set (leaves ks)" "distinct ls" "plain_tree ks"
    "manifest_entries m = map (\<lambda>(p, l). row_entry sha posix (leaf_row (join ''/'' p) l)) ls"
    "validate_manifest_v1 sha pk (JObj m) = Inr ()" "sorted_wrt (<) (map (\<lambda>(p, l). join ''/'' p) ls)"
    "m = [(''manifest_version'', JInt 1), (''kind'', JStr ''dir''), (''name'', JStr name), (''entries'', JArr (manifest_entries m))]"
proof -
  let ?row = "\<lambda>(p, l). leaf_row (join ''/'' p) l" and ?e = "\<lambda>(p, l). row_entry sha posix (leaf_row (join ''/'' p) l)"
  let ?ls = "sort_key (\<lambda>(p, l). join ''/'' p) (leaves ks)"
  from assms(1) obtain rows where r: "walk [] ks = Inr rows" "validate_manifest_v1 sha pk (JObj m) = Inr ()"
    "m = [(''manifest_version'', JInt 1), (''kind'', JStr ''dir''), (''name'', JStr name),
       (''entries'', JArr (map (row_entry sha posix) (sort_key row_path rows)))]"
    by (auto simp: build_manifest_from_tree_def ebind_Inr_iff Let_def)
  note w = walk_leaves [OF r(1)]
  have "(\<lambda>a. row_path (?row a)) = (\<lambda>(p, l). join ''/'' p)" by auto
  then have "sort_key row_path rows = map ?row ?ls" using w by (simp add: sort_key_map)
  then have e: "manifest_entries m = map ?e ?ls" unfolding r(3) by (simp add: manifest_entries_def dget_def comp_def case_prod_beta)
  have mm: "m = [(''manifest_version'', JInt 1), (''kind'', JStr ''dir''), (''name'', JStr name), (''entries'', JArr (manifest_entries m))]"
    by (subst (1 2) r(3)) (simp add: manifest_entries_def dget_def)
  have "dget m ''entries'' = JArr (manifest_entries m)" by (subst mm) (simp add: dget_def)
  then obtain paths where "validate_sorted sha None (manifest_entries m) = Inr paths"
    using r(2) by (auto simp: validate_manifest_v1_def validate_entries_def ebind_Inr_iff)
  note v = validate_sorted_paths [OF this]
  then have "sorted_wrt (<) (map (\<lambda>v. case dget (obj_of v) ''path'' of JStr p \<Rightarrow> p | _ \<Rightarrow> []) (manifest_entries m))" by blast
  then have s: "sorted_wrt (<) (map (\<lambda>(p, l). join ''/'' p) ?ls)"
    unfolding e by (simp only: map_map comp_def case_prod_unfold row_entry_path leaf_row_path)
  then have "distinct (map (\<lambda>(p, l). join ''/'' p) ?ls)" by (simp only: strict_sorted_iff)
  then have "distinct ?ls" by (simp only: distinct_map)
  with s e r(2) mm w show ?thesis by (intro that [of ?ls]) simp_all
qed

fun contents :: "(string \<times> ftree) list \<Rightarrow> string set" where
  "contents [] = {}"
| "contents ((n, t) # ks) = (case t of FileT c x \<Rightarrow> {c} | DirT ds \<Rightarrow> contents ds | Odd \<Rightarrow> {}) \<union> contents ks"

lemma leaf_contents: "(p, LFile c x) \<in> set (leaves ks) \<Longrightarrow> c \<in> contents ks"
  by (induction ks arbitrary: p rule: leaves.induct) (auto split: if_splits)

lemma sorted_entries:
  assumes "sorted_wrt (<) (map (\<lambda>(p, l). join ''/'' p) ls)"
  shows "sort_key (\<lambda>v. case dget (obj_of v) ''path'' of JStr p \<Rightarrow> p | _ \<Rightarrow> []) (map (\<lambda>(p, l). row_entry sha posix (leaf_row (join ''/'' p) l)) ls)
    = map (\<lambda>(p, l). row_entry sha posix (leaf_row (join ''/'' p) l)) ls"
proof (rule sort_key_id_if_sorted)
  show "sorted (map (\<lambda>v. case dget (obj_of v) ''path'' of JStr p \<Rightarrow> p | _ \<Rightarrow> []) (map (\<lambda>(p, l). row_entry sha posix (leaf_row (join ''/'' p) l)) ls))"
    using assms strict_sorted_imp_sorted by (simp only: map_map comp_def case_prod_unfold row_entry_path leaf_row_path)
qed

lemma rebuilt:
  assumes "set ls = set (leaves ks)" "distinct ls" "tree_ok ks" "\<And>c. c \<in> contents ks \<Longrightarrow> blobs (sha c) = Some c"
  shows "\<exists>g. build_tree sha posix blobs (map (\<lambda>(p, l). row_entry sha posix (leaf_row (join ''/'' p) l)) ls) (\<lambda>_. None) = Inr g
    \<and> represents posix (set (leaves ks)) g"
proof -
  have "represents posix {} (\<lambda>_. None)" by (simp add: represents_def shows_file_def shows_dir_def)
  moreover have "prefix_free (set ls \<union> {})"
    using prefix_free_leaves [OF assms(3)] unfolding assms(1) prefix_free_def by (metis Un_empty_right)
  moreover have "\<forall>(p, l) \<in> set ls. p \<noteq> [] \<and> (\<forall>n \<in> set p. CHR ''/'' \<notin> set n) \<and> (\<forall>c x. l = LFile c x \<longrightarrow> blobs (sha c) = Some c)"
    unfolding assms(1) using leaves_paths leaves_names [OF assms(3)] leaf_contents assms(4) by fast
  ultimately show ?thesis using build_tree_leaves [of posix "{}" "\<lambda>_. None" ls blobs sha] assms(1,2) by simp
qed

text \<open>
  C35. A directory tree that is captured into a manifest and created again from the manifest and the stored contents is
  the same tree: every file with its bytes and its executable bit, every directory, also the empty ones, and nothing
  else, wherever the files of the tree are stored under their digests.
\<close>

theorem capture_then_materialize:
  assumes "build_manifest_from_tree sha pk posix (DirT ks) name = Inr m" "tree_ok ks"
    and "\<And>c. c \<in> contents ks \<Longrightarrow> blobs (sha c) = Some c"
  shows "materialize_tree sha pk posix blobs m = Inr (node_at posix ks)"
proof -
  obtain ls where l: "set ls = set (leaves ks)" "distinct ls" "plain_tree ks"
    "manifest_entries m = map (\<lambda>(p, l). row_entry sha posix (leaf_row (join ''/'' p) l)) ls"
    "validate_manifest_v1 sha pk (JObj m) = Inr ()" "sorted_wrt (<) (map (\<lambda>(p, l). join ''/'' p) ls)"
    by (rule captured [OF assms(1,2)])
  from rebuilt [of ls ks blobs sha posix, OF l(1,2) assms(2,3)] obtain g where
    g: "build_tree sha posix blobs (manifest_entries m) (\<lambda>_. None) = Inr g" "represents posix (set (leaves ks)) g"
    unfolding l(4) by blast
  have "g = node_at posix ks" by (rule represents_unique [OF g(2) node_at_represents [OF assms(2) l(3)]])
  have "\<not> (case dget (obj_of v) ''sha256'' of JStr s \<Rightarrow> blobs s = None | _ \<Rightarrow> False)"
    if v: "v \<in> set (manifest_entries m)" "dget (obj_of v) ''kind'' = JStr ''file''" for v
  proof -
    from v(1) obtain p l where pl: "v = row_entry sha posix (leaf_row (join ''/'' p) l)" "(p, l) \<in> set (leaves ks)"
      unfolding l(4) l(1) [symmetric] by auto
    with v(2) obtain c x where "l = LFile c x" by (cases l) (simp_all add: dget_def)
    with pl leaf_contents assms(3) show ?thesis by (auto simp: dget_def)
  qed
  then have "\<not> list_ex (\<lambda>v. case dget (obj_of v) ''sha256'' of JStr s \<Rightarrow> blobs s = None | _ \<Rightarrow> False)
      (filter (\<lambda>v. dget (obj_of v) ''kind'' = JStr ''file'') (manifest_entries m))"
    by (simp add: list_ex_iff)
  moreover have "sort_key (\<lambda>v. case dget (obj_of v) ''path'' of JStr p \<Rightarrow> p | _ \<Rightarrow> []) (manifest_entries m) = manifest_entries m"
    unfolding l(4) by (rule sorted_entries [OF l(6)])
  ultimately show ?thesis using l(5) g(1) \<open>g = node_at posix ks\<close> by (simp add: materialize_tree_def)
qed

text \<open>A small tree, and a hash of the right form that tells its contents apart.\<close>

definition demo_tree :: "(string \<times> ftree) list" where
  "demo_tree = [(''bin'', DirT [(''run'', FileT ''go'' True)]), (''doc'', DirT [])]"

definition demo_hash :: "string \<Rightarrow> string" where
  "demo_hash s = replicate 63 CHR ''0'' @ (if s = [] then ''0'' else if s = ''go'' then ''1'' else ''2'')"

definition demo_manifest :: obj where
  "demo_manifest = [(''manifest_version'', JInt 1), (''kind'', JStr ''dir''), (''name'', JStr ''tool''),
     (''entries'', JArr [row_entry demo_hash True (FileRow ''bin/run'' ''go'' True), row_entry demo_hash True (EmptyDir ''doc'')])]"

lemma demo_captured: "build_manifest_from_tree demo_hash id True (DirT demo_tree) ''tool'' = Inr demo_manifest"
  by code_simp

lemma demo_tree_ok: "tree_ok demo_tree" "contents demo_tree = {''go''}"
  by (simp_all add: demo_tree_def)

lemma capture_then_materialize_witness:
  "materialize_tree demo_hash id True [demo_hash ''go'' \<mapsto> ''go''] demo_manifest = Inr (node_at True demo_tree)"
  by (rule capture_then_materialize [OF demo_captured demo_tree_ok(1)]) (simp add: demo_tree_ok(2))

end
