(* ===== verification/ManifestIdentity.thy ===== *)
theory ManifestIdentity
  imports TreeRoundTrip
begin

text \<open>
  What a valid manifest guarantees: its paths stay inside of the directory it is created in, and its digest
  identifies the tree.
\<close>

section \<open>Paths stay inside\<close>

text \<open>How an operating system resolves the components of a path below a directory.\<close>

fun resolve :: "string list \<Rightarrow> string list \<Rightarrow> string list" where
  "resolve at [] = at"
| "resolve at (c # cs) = (if c = [] \<or> c = ''.'' then resolve at cs else if c = ''..'' then resolve (butlast at) cs else resolve (at @ [c]) cs)"

lemma resolve_plain: "\<forall>c \<in> set cs. c \<noteq> [] \<and> c \<noteq> ''.'' \<and> c \<noteq> ''..'' \<Longrightarrow> resolve at cs = at @ cs"
  by (induction cs arbitrary: at) auto

lemma component_ok_chars: "component_ok n = Inr () \<Longrightarrow> n \<noteq> ''.'' \<and> n \<noteq> ''..'' \<and> (\<forall>c \<in> set n. \<not> illegal_char c)"
  by (simp add: component_ok_def ebind_Inr_iff)

lemma valid_entries:
  assumes "validate_manifest_v1 sha pk (JObj m) = Inr ()"
  obtains paths where "validate_sorted sha None (manifest_entries m) = Inr paths" "distinct (map pk paths)"
proof -
  obtain xs where x: "dget m ''entries'' = JArr xs" "validate_entries sha pk (JArr xs) = Inr ()"
    using assms by (auto simp: validate_manifest_v1_def ebind_Inr_iff validate_entries_def split: json.splits)
  then obtain paths where "validate_sorted sha None xs = Inr paths" "distinct (map pk paths)"
    by (auto simp: validate_entries_def ebind_Inr_iff)
  with x(1) show ?thesis by (intro that) (simp_all add: manifest_entries_def)
qed

text \<open>
  C36. The paths of a valid directory manifest stay inside: each entry resolves, below any directory, to the path made of
  its own components, none of which holds a separator of either kind, a NUL, a control character or a character that is
  illegal on Windows, so no entry is created outside of the directory; and no two entries have the same path, even up to
  case and normal form.
\<close>

theorem manifest_paths_stay_inside:
  assumes "validate_manifest_v1 sha pk (JObj m) = Inr ()"
  shows "(\<forall>v \<in> set (manifest_entries m). entry_path (obj_of v) \<noteq> []
      \<and> resolve at (entry_path (obj_of v)) = at @ entry_path (obj_of v)
      \<and> (\<forall>n \<in> set (entry_path (obj_of v)). n \<noteq> [] \<and> CHR ''/'' \<notin> set n \<and> CHR 0x5C \<notin> set n \<and> (\<forall>c \<in> set n. \<not> illegal_char c)))
    \<and> distinct (map (\<lambda>v. pk (join ''/'' (entry_path (obj_of v)))) (manifest_entries m))"
proof
  obtain paths where p: "validate_sorted sha None (manifest_entries m) = Inr paths" "distinct (map pk paths)"
    by (rule valid_entries [OF assms])
  note s = validate_sorted_paths [OF p(1)]
  have "map (\<lambda>v. pk (join ''/'' (entry_path (obj_of v)))) (manifest_entries m) = map pk paths"
    using s by (auto simp: entry_path_def join_split split: json.splits)
  with p(2) show "distinct (map (\<lambda>v. pk (join ''/'' (entry_path (obj_of v)))) (manifest_entries m))" by simp
  show "\<forall>v \<in> set (manifest_entries m). entry_path (obj_of v) \<noteq> []
      \<and> resolve at (entry_path (obj_of v)) = at @ entry_path (obj_of v)
      \<and> (\<forall>n \<in> set (entry_path (obj_of v)). n \<noteq> [] \<and> CHR ''/'' \<notin> set n \<and> CHR 0x5C \<notin> set n \<and> (\<forall>c \<in> set n. \<not> illegal_char c))"
  proof
    fix v assume "v \<in> set (manifest_entries m)"
    with s obtain d q where d: "v = JObj d" "validate_entry sha v = Inr q" "dget d ''path'' = JStr q" by blast
    then have "validate_v1_path (JStr q) = Inr q" by (auto simp: validate_entry_def ebind_Inr_iff)
    note q = validated_path [OF this]
    have e: "entry_path (obj_of v) = split_on CHR ''/'' q" by (simp add: entry_path_def d)
    have c: "n \<noteq> [] \<and> n \<noteq> ''.'' \<and> n \<noteq> ''..'' \<and> CHR ''/'' \<notin> set n \<and> CHR 0x5C \<notin> set n \<and> (\<forall>c \<in> set n. \<not> illegal_char c)"
      if "n \<in> set (split_on CHR ''/'' q)" for n
      using q split_parts [OF that] component_ok_chars [of n] that by blast
    then have "resolve at (split_on CHR ''/'' q) = at @ split_on CHR ''/'' q" by (intro resolve_plain) blast
    with c show "entry_path (obj_of v) \<noteq> [] \<and> resolve at (entry_path (obj_of v)) = at @ entry_path (obj_of v)
      \<and> (\<forall>n \<in> set (entry_path (obj_of v)). n \<noteq> [] \<and> CHR ''/'' \<notin> set n \<and> CHR 0x5C \<notin> set n \<and> (\<forall>c \<in> set n. \<not> illegal_char c))"
      unfolding e by simp
  qed
qed

lemma demo_valid: "validate_manifest_v1 demo_hash id (JObj demo_manifest) = Inr ()"
  by code_simp

lemma manifest_paths_stay_inside_witness:
  "resolve [''dest''] (entry_path (obj_of (row_entry demo_hash True (FileRow ''bin/run'' ''go'' True)))) = [''dest'', ''bin'', ''run'']"
proof -
  let ?v = "row_entry demo_hash True (FileRow ''bin/run'' ''go'' True)"
  have "?v \<in> set (manifest_entries demo_manifest)" by (simp add: demo_manifest_def manifest_entries_def dget_def)
  with manifest_paths_stay_inside [OF demo_valid, of "[''dest'']"]
  have "resolve [''dest''] (entry_path (obj_of ?v)) = [''dest''] @ entry_path (obj_of ?v)" by blast
  moreover have "entry_path (obj_of ?v) = [''bin'', ''run'']" by (simp add: entry_path_def dget_def)
  ultimately show ?thesis by simp
qed

section \<open>The digest identifies the tree\<close>

lemma row_entry_inj:
  assumes "jnorm (row_entry sha posix r) = jnorm (row_entry sha posix r')"
  shows "row_path r = row_path r' \<and> (case (r, r') of
      (FileRow p c x, FileRow p' c' x') \<Rightarrow> sha c = sha c' \<and> (posix \<and> x) = (posix \<and> x')
    | (EmptyDir p, EmptyDir p') \<Rightarrow> True | _ \<Rightarrow> False)"
  using assms by (cases r; cases r') (auto simp: less_char_def)

lemma manifest_float_free: "float_free_list (map (row_entry sha posix) rs)"
proof (induction rs)
  case (Cons r rs)
  then show ?case by (cases r) simp_all
qed simp

lemma jnorm_list_map: "jnorm_list xs = map jnorm xs"
  by (induction xs) simp_all

lemma jnorm_manifest:
  "jnorm (JObj [(''manifest_version'', JInt 1), (''kind'', JStr ''dir''), (''name'', JStr name), (''entries'', JArr xs)])
   = JObj [(''entries'', JArr (map jnorm xs)), (''kind'', JStr ''dir''), (''manifest_version'', JInt 1), (''name'', JStr name)]"
  by (simp add: less_char_def jnorm_list_map)

lemma captured_text:
  assumes "build_manifest_from_tree sha pk posix (DirT ks) name = Inr m" "tree_ok ks"
  obtains t where "canonical_json (JObj m) = Inr t" "t = compact (jnorm (JObj m))" "float_free (JObj m)"
    "manifest_digest sha pk (JObj m) = Inr (sha t)"
proof -
  obtain ls where l: "manifest_entries m = map (\<lambda>(p, l). row_entry sha posix (leaf_row (join ''/'' p) l)) ls"
    "validate_manifest_v1 sha pk (JObj m) = Inr ()"
    "m = [(''manifest_version'', JInt 1), (''kind'', JStr ''dir''), (''name'', JStr name), (''entries'', JArr (manifest_entries m))]"
    by (rule captured [OF assms])
  have "manifest_entries m = map (row_entry sha posix) (map (\<lambda>(p, l). leaf_row (join ''/'' p) l) ls)"
    unfolding l(1) by (simp add: comp_def case_prod_unfold)
  then have "float_free_list (manifest_entries m)" by (simp only: manifest_float_free)
  then have f: "float_free (JObj m)" by (subst l(3)) simp
  have "keys_distinct (JObj m)" by (subst l(3)) simp
  from canonical_json_Inr [OF f this] have c: "canonical_json (JObj m) = Inr (compact (jnorm (JObj m)))" .
  have "dget m ''manifest_version'' = JInt 1" by (subst l(3)) (simp add: dget_def)
  then have "manifest_digest sha pk (JObj m) = Inr (sha (compact (jnorm (JObj m))))"
    using l(2) by (simp add: manifest_digest_def canonical_manifest_def c)
  with c f show ?thesis by (intro that) simp_all
qed

text \<open>Two leaves that look the same when they are created.\<close>

fun same_leaf :: "bool \<Rightarrow> leaf \<Rightarrow> leaf \<Rightarrow> bool" where
  "same_leaf posix (LFile c x) (LFile d y) = (c = d \<and> (posix \<and> x) = (posix \<and> y))"
| "same_leaf posix LEmpty LEmpty = True"
| "same_leaf posix a b = False"

lemma same_leaf_LEmpty [simp]: "same_leaf posix LEmpty b \<longleftrightarrow> b = LEmpty" "same_leaf posix a LEmpty \<longleftrightarrow> a = LEmpty"
  by (cases b; simp) (cases a; simp)

lemma same_leaf_LFile: "same_leaf posix (LFile c x) b \<longleftrightarrow> (\<exists>y. b = LFile c y \<and> (posix \<and> x) = (posix \<and> y))"
  by (cases b) auto

lemma same_leaf_sym: "same_leaf posix a b \<Longrightarrow> same_leaf posix b a"
  by (cases a; cases b) auto

definition leaves_below :: "bool \<Rightarrow> (string list \<times> leaf) set \<Rightarrow> (string list \<times> leaf) set \<Rightarrow> bool" where
  "leaves_below posix L M = (\<forall>(p, a) \<in> L. \<exists>b. (p, b) \<in> M \<and> same_leaf posix a b)"

lemma leaves_below_shows:
  assumes "leaves_below posix L M"
  shows "shows_file posix L p c y \<Longrightarrow> shows_file posix M p c y" "shows_dir L p \<Longrightarrow> shows_dir M p"
  using assms unfolding leaves_below_def shows_file_def shows_dir_def
  by (fastforce simp: same_leaf_LFile)+

lemma same_entries_leaves:
  assumes "map (\<lambda>(p, l). jnorm (row_entry sha posix (leaf_row (join ''/'' p) l))) ls
      = map (\<lambda>(p, l). jnorm (row_entry sha posix (leaf_row (join ''/'' p) l))) ls'"
    and "set ls = set (leaves ks)" "set ls' = set (leaves ks')" "tree_ok ks" "tree_ok ks'"
    and "inj_on sha (contents ks \<union> contents ks')"
  shows "leaves_below posix (set (leaves ks)) (set (leaves ks'))"
  unfolding leaves_below_def
proof (intro ballI, clarify)
  fix p a
  assume pa: "(p, a) \<in> set (leaves ks)"
  then have "(p, a) \<in> set ls" by (simp add: assms(2))
  then have "jnorm (row_entry sha posix (leaf_row (join ''/'' p) a)) \<in> set (map (\<lambda>(p, l). jnorm (row_entry sha posix (leaf_row (join ''/'' p) l))) ls)"
    by force
  then obtain q b where qb: "(q, b) \<in> set (leaves ks')"
    "jnorm (row_entry sha posix (leaf_row (join ''/'' p) a)) = jnorm (row_entry sha posix (leaf_row (join ''/'' q) b))"
    unfolding assms(1) assms(3) [symmetric] by auto
  note i = row_entry_inj [OF qb(2)]
  have "split_on CHR ''/'' (join ''/'' r) = r" if "tree_ok hs" "(r, d) \<in> set (leaves hs)" for r d hs
    by (rule split_join) (use leaves_paths [OF that(2)] leaves_names [OF that] in simp_all)
  from this [OF assms(4) pa] this [OF assms(5) qb(1)]
  have "split_on CHR ''/'' (join ''/'' p) = p" "split_on CHR ''/'' (join ''/'' q) = q" .
  moreover have "join ''/'' p = join ''/'' q" using conjunct1 [OF i] by (simp only: leaf_row_path)
  ultimately have "p = q" by (metis (no_types))
  moreover have "same_leaf posix a b"
  proof (cases a; cases b)
    fix c x d y
    assume ab: "a = LFile c x" "b = LFile d y"
    have "c \<in> contents ks" "d \<in> contents ks'" using pa qb(1) ab leaf_contents by blast+
    moreover have "sha c = sha d" "(posix \<and> x) = (posix \<and> y)" using conjunct2 [OF i] by (simp_all add: ab)
    ultimately have "c = d" using inj_onD [OF assms(6), of c d] by blast
    with \<open>(posix \<and> x) = (posix \<and> y)\<close> show ?thesis by (simp add: ab)
  qed (use conjunct2 [OF i] in simp_all)
  ultimately show "\<exists>b. (p, b) \<in> set (leaves ks') \<and> same_leaf posix a b" using qb(1) by blast
qed

text \<open>
  C37. The digest of a captured directory identifies it: when two captures have the same digest, and the hash does not
  collide on the contents of their files and on the two canonical texts, the trees have the same name and the same files
  with the same bytes, and creating either gives the same tree.
\<close>

theorem manifest_digest_identifies_tree:
  assumes "build_manifest_from_tree sha pk posix (DirT ks) name = Inr m" "tree_ok ks"
    and "build_manifest_from_tree sha pk posix (DirT ks') name' = Inr m'" "tree_ok ks'"
    and "manifest_digest sha pk (JObj m) = manifest_digest sha pk (JObj m')"
    and "inj_on sha (contents ks \<union> contents ks' \<union> {t. canonical_json (JObj m) = Inr t \<or> canonical_json (JObj m') = Inr t})"
  shows "name = name' \<and> node_at posix ks = node_at posix ks'"
proof -
  let ?e = "\<lambda>(p, l). row_entry sha posix (leaf_row (join ''/'' p) l)"
  obtain ls where l: "set ls = set (leaves ks)" "plain_tree ks" "manifest_entries m = map ?e ls"
    "m = [(''manifest_version'', JInt 1), (''kind'', JStr ''dir''), (''name'', JStr name), (''entries'', JArr (manifest_entries m))]"
    by (rule captured [OF assms(1,2)])
  obtain ls' where l': "set ls' = set (leaves ks')" "plain_tree ks'" "manifest_entries m' = map ?e ls'"
    "m' = [(''manifest_version'', JInt 1), (''kind'', JStr ''dir''), (''name'', JStr name'), (''entries'', JArr (manifest_entries m'))]"
    by (rule captured [OF assms(3,4)])
  obtain t where t: "canonical_json (JObj m) = Inr t" "t = compact (jnorm (JObj m))" "float_free (JObj m)" "manifest_digest sha pk (JObj m) = Inr (sha t)"
    by (rule captured_text [OF assms(1,2)])
  obtain t' where t': "canonical_json (JObj m') = Inr t'" "t' = compact (jnorm (JObj m'))" "float_free (JObj m')" "manifest_digest sha pk (JObj m') = Inr (sha t')"
    by (rule captured_text [OF assms(3,4)])
  have "sha t = sha t'" using assms(5) t(4) t'(4) by simp
  then have "t = t'" by (rule inj_onD [OF assms(6)]) (use t(1) t'(1) in blast)+
  then have "jnorm (JObj m) = jnorm (JObj m')"
    using compact_inj [of "jnorm (JObj m)" "jnorm (JObj m')"] t(2,3) t'(2,3) float_free_jnorm(1) by metis
  moreover have "jnorm (JObj m) = JObj [(''entries'', JArr (map jnorm (manifest_entries m))), (''kind'', JStr ''dir''), (''manifest_version'', JInt 1), (''name'', JStr name)]"
    by (subst l(4)) (rule jnorm_manifest)
  moreover have "jnorm (JObj m') = JObj [(''entries'', JArr (map jnorm (manifest_entries m'))), (''kind'', JStr ''dir''), (''manifest_version'', JInt 1), (''name'', JStr name')]"
    by (subst l'(4)) (rule jnorm_manifest)
  ultimately have n: "name = name'" "map jnorm (manifest_entries m) = map jnorm (manifest_entries m')" by simp_all
  have e: "map (\<lambda>(p, l). jnorm (row_entry sha posix (leaf_row (join ''/'' p) l))) ls
      = map (\<lambda>(p, l). jnorm (row_entry sha posix (leaf_row (join ''/'' p) l))) ls'"
    using n(2) unfolding l(3) l'(3) by (simp add: comp_def case_prod_unfold)
  have i: "inj_on sha (contents ks \<union> contents ks')" by (rule inj_on_subset [OF assms(6)]) blast
  then have i': "inj_on sha (contents ks' \<union> contents ks)" by (simp add: Un_commute)
  note a = leaves_below_shows [OF same_entries_leaves [OF e l(1) l'(1) assms(2,4) i]]
    and b = leaves_below_shows [OF same_entries_leaves [OF e [symmetric] l'(1) l(1) assms(4,2) i']]
  have "represents posix (set (leaves ks)) = represents posix (set (leaves ks'))"
    unfolding represents_def fun_eq_iff using a b by blast
  then have "node_at posix ks = node_at posix ks'"
    using represents_unique node_at_represents [OF assms(2) l(2)] node_at_represents [OF assms(4) l'(2)] by metis
  with n(1) show ?thesis by blast
qed

text \<open>The capture of the same directory whose listing came in another order.\<close>

definition demo_tree2 :: "(string \<times> ftree) list" where
  "demo_tree2 = [(''doc'', DirT []), (''bin'', DirT [(''run'', FileT ''go'' True)])]"

lemma demo_captured2: "build_manifest_from_tree demo_hash id True (DirT demo_tree2) ''tool'' = Inr demo_manifest"
  by code_simp

lemma manifest_digest_identifies_tree_witness: "node_at True demo_tree = node_at True demo_tree2"
proof -
  have ok: "tree_ok demo_tree2" "contents demo_tree2 = {''go''}" by (simp_all add: demo_tree2_def)
  obtain t where t: "canonical_json (JObj demo_manifest) = Inr t" "t = compact (jnorm (JObj demo_manifest))"
    by (rule captured_text [OF demo_captured demo_tree_ok(1)])
  have "t \<noteq> ''go''" "t \<noteq> []" unfolding t(2) by code_simp+
  then have "inj_on demo_hash (contents demo_tree \<union> contents demo_tree2
      \<union> {t. canonical_json (JObj demo_manifest) = Inr t \<or> canonical_json (JObj demo_manifest) = Inr t})"
    by (simp add: inj_on_def demo_tree_ok(2) ok(2) t(1)) (simp add: demo_hash_def)
  from manifest_digest_identifies_tree [OF demo_captured demo_tree_ok(1) demo_captured2 ok(1) refl this] show ?thesis by blast
qed

end
