(* ===== verification/ArtifactOps.thy ===== *)
theory ArtifactOps
  imports TreeCapture Contracts Timestamps
begin

text \<open>
  The artifact catalog and its durable operations (\<^verbatim>\<open>src/vanth/artifacts\<close>): an operation is recorded under an
  idempotency key, claimed with a token and a lease, and finished only by the holder of the token while the
  lease runs (\<^verbatim>\<open>_begin\<close>, \<^verbatim>\<open>_claim\<close>, \<^verbatim>\<open>_finish\<close>, \<^verbatim>\<open>renew\<close> and \<^verbatim>\<open>reclaim_expired\<close> of \<^verbatim>\<open>operations.py\<close>).
\<close>

section \<open>The catalog\<close>

record aop_row =
  ao_id :: string
  ao_key :: string
  ao_method :: string
  ao_digest :: string
  ao_payload :: obj
  ao_status :: string
  ao_token :: "string option"
  ao_claimed :: "int option"
  ao_lease :: "int option"
  ao_generation :: int
  ao_attempts :: int
  ao_result :: "obj option"
  ao_error :: "string option"
  ao_created :: int
  ao_updated :: int

record version_row =
  vr_id :: string
  vr_root :: string
  vr_digest :: string
  vr_manifest :: obj
  vr_size :: int
  vr_deleted :: "int option"
  vr_requested :: "int option"
  vr_pin :: "string option"
  vr_created :: int

record root_row =
  rt_id :: string
  rt_name :: string
  rt_latest :: "string option"
  rt_created :: int
  rt_updated :: int

record alias_row =
  al_name :: string
  al_root :: string
  al_version :: string
  al_updated :: int
  al_pinned :: "int option"
  al_by :: "string option"

record collection_row =
  cl_id :: string
  cl_name :: string
  cl_created :: int
  cl_updated :: int

record member_row =
  mb_collection :: string
  mb_version :: string
  mb_ordinal :: int
  mb_created :: int

record lineage_row =
  ln_id :: string
  ln_producer :: "string \<times> string"
  ln_consumer :: "string \<times> string"
  ln_version :: string
  ln_created :: int

record catalog =
  ct_ops :: "aop_row list"
  ct_versions :: "version_row list"
  ct_roots :: "root_row list"
  ct_aliases :: "alias_row list"
  ct_collections :: "collection_row list"
  ct_members :: "member_row list"
  ct_lineage :: "lineage_row list"
  ct_recovery :: bool
  ct_epoch :: int
  ct_id :: string
  ct_instance :: string

datatype aerr = Replayed | Recovering | Unclaimable | StaleWorker | FenceChanged | UnknownThing | BadHash | BadRequest | Uncaught

type_synonym 'a cbody = "catalog \<Rightarrow> aerr + 'a \<times> catalog"
type_synonym 'a cop = "catalog \<Rightarrow> (aerr + 'a) \<times> catalog"

section \<open>Durable operations\<close>

definition MUTATING_METHODS :: "string list" where
  "MUTATING_METHODS = [''artifact.put_file'', ''artifact.put_dir'', ''collection.create'', ''collection.append_version'',
     ''collection.alias_set'', ''collection.link_lineage'', ''lifecycle.request_delete'', ''lifecycle.restore'',
     ''lifecycle.pin'', ''lifecycle.unpin'', ''lifecycle.gc'']"

definition find_key_op :: "catalog \<Rightarrow> string \<Rightarrow> aop_row option" where
  "find_key_op db key = find (\<lambda>r. ao_key r = key) (ct_ops db)"

definition find_aop :: "catalog \<Rightarrow> string \<Rightarrow> aop_row option" where
  "find_aop db oid = find (\<lambda>r. ao_id r = oid) (ct_ops db)"

definition begin_body :: "string \<Rightarrow> int \<Rightarrow> string \<Rightarrow> obj \<Rightarrow> string \<Rightarrow> string \<Rightarrow> (aop_row \<times> bool) cbody" where
  "begin_body fresh now mth payload key digest db =
     (case find_key_op db key of
        Some r \<Rightarrow> if ao_digest r \<noteq> digest then Inl Replayed else Inr ((r, True), db)
      | None \<Rightarrow>
          if find_aop db fresh \<noteq> None then Inl Uncaught
          else let r = \<lparr>ao_id = fresh, ao_key = key, ao_method = mth, ao_digest = digest, ao_payload = payload,
                 ao_status = ''pending'', ao_token = None, ao_claimed = None, ao_lease = None, ao_generation = 0,
                 ao_attempts = 0, ao_result = None, ao_error = None, ao_created = now, ao_updated = now\<rparr>
               in Inr ((r, False), db\<lparr>ct_ops := ct_ops db @ [r]\<rparr>))"

definition begin_op :: "(string \<Rightarrow> string) \<Rightarrow> string \<Rightarrow> int \<Rightarrow> string \<Rightarrow> obj \<Rightarrow> string \<Rightarrow> (aop_row \<times> bool) cop" where
  "begin_op sha fresh now mth payload key db =
     (case request_digest sha mth payload key of
        Inl _ \<Rightarrow> (Inl BadRequest, db)
      | Inr digest \<Rightarrow>
          if mth \<in> set MUTATING_METHODS \<and> ct_recovery db then (Inl Recovering, db)
          else txn (begin_body fresh now mth payload key digest) db)"

definition lease_over :: "int \<Rightarrow> aop_row \<Rightarrow> bool" where
  "lease_over now r = (case ao_lease r of None \<Rightarrow> False | Some x \<Rightarrow> sql_leq x now)"

definition claimable :: "int \<Rightarrow> aop_row \<Rightarrow> bool" where
  "claimable now r = (ao_status r = ''pending'' \<or> ao_status r = ''failed'' \<or> ao_status r = ''running'' \<and> lease_over now r)"

definition claim_row :: "string \<Rightarrow> int \<Rightarrow> int \<Rightarrow> aop_row \<Rightarrow> aop_row" where
  "claim_row token now lease r = r\<lparr>ao_status := ''running'', ao_token := Some token, ao_claimed := Some now,
     ao_lease := Some (now + lease), ao_attempts := ao_attempts r + 1, ao_generation := ao_generation r + 1, ao_updated := now\<rparr>"

definition claim_body :: "string \<Rightarrow> int \<Rightarrow> int \<Rightarrow> string \<Rightarrow> aop_row cbody" where
  "claim_body token now lease oid db =
     (let P = (\<lambda>r. ao_id r = oid \<and> claimable now r) in
      if cnt P (ct_ops db) = 0 then Inl Unclaimable
      else let db' = db\<lparr>ct_ops := upd P (claim_row token now lease) (ct_ops db)\<rparr>
           in case find_aop db' oid of None \<Rightarrow> Inl Uncaught | Some r \<Rightarrow> Inr (r, db'))"

definition claim_op :: "string \<Rightarrow> int \<Rightarrow> int \<Rightarrow> string \<Rightarrow> aop_row cop" where
  "claim_op token now lease oid = txn (claim_body token now lease oid)"

text \<open>The guard of every terminal transition: the token of the claim, and a lease that runs.\<close>

definition holds_claim :: "int \<Rightarrow> string \<Rightarrow> string \<Rightarrow> aop_row \<Rightarrow> bool" where
  "holds_claim now oid token r = (ao_id r = oid \<and> ao_token r = Some token \<and> ao_status r = ''running''
     \<and> (case ao_lease r of None \<Rightarrow> True | Some x \<Rightarrow> sql_less now x))"

definition finish_row :: "int \<Rightarrow> string \<Rightarrow> obj option \<Rightarrow> string option \<Rightarrow> aop_row \<Rightarrow> aop_row" where
  "finish_row now status result error r = r\<lparr>ao_status := status, ao_result := result, ao_error := error, ao_updated := now,
     ao_token := None, ao_claimed := None, ao_lease := None\<rparr>"

definition finish_op :: "int \<Rightarrow> string \<Rightarrow> string \<Rightarrow> string \<Rightarrow> obj option \<Rightarrow> string option \<Rightarrow> unit cop" where
  "finish_op now oid token status result error =
     txn (\<lambda>db. let P = holds_claim now oid token in
       if cnt P (ct_ops db) = 0 then Inl StaleWorker
       else Inr ((), db\<lparr>ct_ops := upd P (finish_row now status result error) (ct_ops db)\<rparr>))"

definition complete_op :: "int \<Rightarrow> string \<Rightarrow> string \<Rightarrow> obj \<Rightarrow> unit cop" where
  "complete_op now oid token result = finish_op now oid token ''completed'' (Some result) None"

definition fail_op :: "int \<Rightarrow> string \<Rightarrow> string \<Rightarrow> string \<Rightarrow> unit cop" where
  "fail_op now oid token error = finish_op now oid token ''failed'' None (Some error)"

text \<open>A lease that has run out is renewed as long as nobody claimed the operation again.\<close>

definition renew_op :: "int \<Rightarrow> int \<Rightarrow> string \<Rightarrow> string \<Rightarrow> unit cop" where
  "renew_op now lease oid token =
     txn (\<lambda>db. let P = (\<lambda>r. ao_id r = oid \<and> ao_token r = Some token \<and> ao_status r = ''running'') in
       if cnt P (ct_ops db) = 0 then Inl StaleWorker
       else Inr ((), db\<lparr>ct_ops := upd P (\<lambda>r. r\<lparr>ao_lease := Some (now + lease), ao_updated := now\<rparr>) (ct_ops db)\<rparr>))"

text \<open>The expired operations are claimed one after another, each with a token of its own.\<close>

fun claim_all :: "(string \<times> string) list \<Rightarrow> int \<Rightarrow> int \<Rightarrow> aop_row list cop" where
  "claim_all [] now lease db = (Inr [], db)"
| "claim_all ((oid, token) # xs) now lease db =
     (case claim_op token now lease oid db of
        (Inl x, db1) \<Rightarrow> (Inl x, db1)
      | (Inr r, db1) \<Rightarrow> (case claim_all xs now lease db1 of (Inl x, db2) \<Rightarrow> (Inl x, db2) | (Inr rs, db2) \<Rightarrow> (Inr (r # rs), db2)))"

definition reclaim_expired :: "(string \<Rightarrow> string) \<Rightarrow> int \<Rightarrow> int \<Rightarrow> aop_row list cop" where
  "reclaim_expired tokens now lease db =
     claim_all (map (\<lambda>r. (ao_id r, tokens (ao_id r))) (filter (\<lambda>r. ao_status r = ''running'' \<and> lease_over now r) (ct_ops db))) now lease db"

definition get_operation :: "string \<Rightarrow> catalog \<Rightarrow> aerr + aop_row" where
  "get_operation oid db = (case find_aop db oid of None \<Rightarrow> Inl UnknownThing | Some r \<Rightarrow> Inr r)"

section \<open>Blobs\<close>

text \<open>
  Contents by digest (\<^verbatim>\<open>LocalBlobStore\<close>); a file of the store may have been changed by others.  \<open>owner\<close> is the marker of the
  catalog and the instance that the store belongs to.  \<open>dests\<close> are the
  paths outside of the store that versions are written to.
\<close>

datatype dest = NoFile | Link | Plain string | Tree fs

record artifacts =
  cat :: catalog
  blobs :: "string \<Rightarrow> string option"
  dests :: "string \<Rightarrow> dest"
  owner :: "(string \<times> string) option"

text \<open>Opening the store claims it, or refuses it when its marker names another catalog or instance.\<close>

definition claim_ownership :: "artifacts \<Rightarrow> (aerr + unit) \<times> artifacts" where
  "claim_ownership a =
     (case owner a of
        Some m \<Rightarrow> (if m \<noteq> (ct_id (cat a), ct_instance (cat a)) then (Inl BadRequest, a) else (Inr (), a))
      | None \<Rightarrow> (Inr (), a\<lparr>owner := Some (ct_id (cat a), ct_instance (cat a))\<rparr>))"

definition is_blob_name :: "string \<Rightarrow> bool" where
  "is_blob_name s = re_fullmatch is_lower_hex 64 64 s"

definition has_blob :: "string \<Rightarrow> artifacts \<Rightarrow> bool" where
  "has_blob s a = (is_blob_name s \<and> blobs a s \<noteq> None)"

definition verify_blob :: "(string \<Rightarrow> string) \<Rightarrow> string \<Rightarrow> artifacts \<Rightarrow> bool" where
  "verify_blob sha s a = (is_blob_name s \<and> (case blobs a s of None \<Rightarrow> False | Some c \<Rightarrow> sha c = s))"

text \<open>The staged bytes are checked against the digest; a file that is already there is left as it is.\<close>

definition publish_staged :: "(string \<Rightarrow> string) \<Rightarrow> string \<Rightarrow> string \<Rightarrow> artifacts \<Rightarrow> (aerr + unit) \<times> artifacts" where
  "publish_staged sha data expected a =
     (if \<not> is_blob_name expected \<or> sha data \<noteq> expected then (Inl BadHash, a)
      else (Inr (), if blobs a expected \<noteq> None then a else a\<lparr>blobs := (blobs a)(expected \<mapsto> data)\<rparr>))"

section \<open>An operation around a body\<close>

text \<open>
  The statements read the clock and mint their identifiers from an environment; \<open>ae_other\<close> is what other
  workers do between the statements of an operation, and \<open>ae_slow\<close> whether a third of the lease has passed at a
  point where it is renewed only then.
\<close>

record art_env =
  ae_sha :: "string \<Rightarrow> string"
  ae_pk :: "string \<Rightarrow> string"
  ae_posix :: bool
  ae_op :: string
  ae_token :: string
  ae_id :: string
  ae_root :: string
  ae_lease :: int
  ae_now :: "nat \<Rightarrow> int"
  ae_other :: "nat \<Rightarrow> artifacts \<Rightarrow> artifacts"
  ae_slow :: "nat \<Rightarrow> bool"
  ae_msg :: string

definition on_cat :: "'a cop \<Rightarrow> artifacts \<Rightarrow> (aerr + 'a) \<times> artifacts" where
  "on_cat f a = (case f (cat a) of (r, db) \<Rightarrow> (r, a\<lparr>cat := db\<rparr>))"

type_synonym 'a art = "artifacts \<Rightarrow> (aerr + 'a) \<times> artifacts"

definition replay_result :: "aop_row \<Rightarrow> obj" where
  "replay_result r = dput ''replayed'' (JBool True) (case ao_result r of None \<Rightarrow> [] | Some d \<Rightarrow> d)"

definition durable_op :: "art_env \<Rightarrow> string \<Rightarrow> obj \<Rightarrow> string \<Rightarrow> (string \<Rightarrow> obj art) \<Rightarrow> obj art" where
  "durable_op e mth payload key body a =
     (case on_cat (begin_op (ae_sha e) (ae_op e) (ae_now e 0) mth payload key) a of
        (Inl x, a1) \<Rightarrow> (Inl x, a1)
      | (Inr (r, replayed), a1) \<Rightarrow>
          if replayed \<and> ao_status r = ''completed'' then (Inr (replay_result r), a1)
          else (case on_cat (claim_op (ae_token e) (ae_now e 1) (ae_lease e) (ao_id r)) (ae_other e 0 a1) of
              (Inl x, a2) \<Rightarrow> (Inl x, a2)
            | (Inr claimed, a2) \<Rightarrow>
                (case body (ao_id r) (ae_other e 1 a2) of
                   (Inr result, a3) \<Rightarrow> (Inr result, a3)
                 | (Inl x, a3) \<Rightarrow> (Inl x, snd (on_cat (fail_op (ae_now e 9) (ao_id r) (ae_token e) (ae_msg e)) a3)))))"

end
