(* ===== verification/ArtifactPut.thy ===== *)
theory ArtifactPut
  imports ArtifactOps
begin

text \<open>
  Publication of files and directories as immutable versions of a root, and the reads of versions
  (\<^verbatim>\<open>put_file\<close>, \<^verbatim>\<open>put_dir\<close>, \<^verbatim>\<open>resolve\<close>, \<^verbatim>\<open>info\<close>, \<^verbatim>\<open>verify\<close> and \<^verbatim>\<open>materialize\<close> of
  \<^verbatim>\<open>src/vanth/artifacts/operations.py\<close>).  The publication intents, which only help recovery by hand, are left out.
\<close>

section \<open>Statements\<close>

text \<open>A statement, and what others do after it.\<close>

definition stmt :: "art_env \<Rightarrow> nat \<Rightarrow> 'a art \<Rightarrow> 'a art" where
  "stmt e i m a = (case m a of (r, a1) \<Rightarrow> (r, ae_other e i a1))"

definition raise_unless :: "bool \<Rightarrow> aerr \<Rightarrow> unit art" where
  "raise_unless b x a = (if b then (Inr (), a) else (Inl x, a))"

definition renew :: "art_env \<Rightarrow> nat \<Rightarrow> string \<Rightarrow> unit art" where
  "renew e i oid = on_cat (renew_op (ae_now e i) (ae_lease e) oid (ae_token e))"

definition tick :: "art_env \<Rightarrow> nat \<Rightarrow> string \<Rightarrow> unit art" where
  "tick e i oid a = (if ae_slow e i then renew e i oid a else (Inr (), a))"

definition get_or_create_root :: "string \<Rightarrow> int \<Rightarrow> string \<Rightarrow> root_row cop" where
  "get_or_create_root fresh now name db =
     (case find (\<lambda>r. rt_name r = name) (ct_roots db) of
        Some r \<Rightarrow> (Inr r, db)
      | None \<Rightarrow>
          if fresh \<in> rt_id ` set (ct_roots db) then (Inl Uncaught, db)
          else let r = \<lparr>rt_id = fresh, rt_name = name, rt_latest = None, rt_created = now, rt_updated = now\<rparr>
               in (Inr r, db\<lparr>ct_roots := ct_roots db @ [r]\<rparr>))"

definition version_of :: "catalog \<Rightarrow> string \<Rightarrow> string \<Rightarrow> version_row option" where
  "version_of db root digest = find (\<lambda>v. vr_root v = root \<and> vr_digest v = digest) (ct_versions db)"

definition find_version :: "catalog \<Rightarrow> string \<Rightarrow> version_row option" where
  "find_version db vid = find (\<lambda>v. vr_id v = vid) (ct_versions db)"

section \<open>The publication transaction\<close>

definition put_result :: "string \<Rightarrow> string \<Rightarrow> string \<Rightarrow> string \<Rightarrow> int \<Rightarrow> string \<times> json \<Rightarrow> bool \<Rightarrow> obj" where
  "put_result vid root name digest bytes extra dedup =
     [(''version_id'', JStr vid), (''root_id'', JStr root), (''name'', JStr name), (''manifest_digest'', JStr digest),
      (''size_bytes'', JInt bytes), extra, (''deduplicated'', JBool dedup)]"

text \<open>One transaction: the version row unless there is one, the latest pointer of the root, and the end of the operation.\<close>

definition commit_body ::
  "art_env \<Rightarrow> string \<Rightarrow> bool \<Rightarrow> string \<Rightarrow> string \<Rightarrow> string \<Rightarrow> obj \<Rightarrow> int \<Rightarrow> string \<times> json \<Rightarrow> obj cbody" where
  "commit_body e oid guard root name digest manifest bytes extra db =
     (if \<not> guard then Inl FenceChanged
      else
        let old = version_of db root digest; vid = (case old of Some v \<Rightarrow> vr_id v | None \<Rightarrow> ae_id e); now = ae_now e 7;
            db1 = (case old of Some _ \<Rightarrow> db
              | None \<Rightarrow> db\<lparr>ct_versions := ct_versions db @ [\<lparr>vr_id = vid, vr_root = root, vr_digest = digest, vr_manifest = manifest,
                  vr_size = bytes, vr_deleted = None, vr_requested = None, vr_pin = None, vr_created = now\<rparr>]\<rparr>);
            db2 = db1\<lparr>ct_roots := upd (\<lambda>r. rt_id r = root) (\<lambda>r. r\<lparr>rt_latest := Some vid, rt_updated := now\<rparr>) (ct_roots db1)\<rparr>;
            result = put_result vid root name digest bytes extra (old \<noteq> None);
            P = holds_claim now oid (ae_token e)
        in if old = None \<and> find_version db vid \<noteq> None then Inl Uncaught
           else if cnt P (ct_ops db2) = 0 then Inl StaleWorker
           else Inr (result, db2\<lparr>ct_ops := upd P (finish_row now ''completed'' (Some result) None) (ct_ops db2)\<rparr>))"

section \<open>Files\<close>

text \<open>The guard of a caller is asked twice; \<open>None\<close> is no guard.\<close>

definition put_file_body ::
  "art_env \<Rightarrow> string \<Rightarrow> string \<Rightarrow> obj \<Rightarrow> string \<Rightarrow> (bool \<times> bool) option \<Rightarrow> string \<Rightarrow> obj art" where
  "put_file_body e name data manifest digest guard oid =
     (let sha = ae_sha e; bytes = int (length data); extra = (''sha256'', JStr (sha data)) in
      sbind (stmt e 2 (renew e 2 oid)) (\<lambda>_.
      sbind (raise_unless (case guard of None \<Rightarrow> True | Some (g, _) \<Rightarrow> g) FenceChanged) (\<lambda>_.
      sbind (stmt e 3 (on_cat (get_or_create_root (ae_root e) (ae_now e 3) name))) (\<lambda>root a.
      let old = version_of (cat a) (rt_id root) digest;
          stored = (case old of None \<Rightarrow> [] | Some v \<Rightarrow> (case dget (vr_manifest v) ''sha256'' of JStr s \<Rightarrow> s | _ \<Rightarrow> []))
      in if old \<noteq> None \<and> guard = None \<and> has_blob stored a \<and> verify_blob sha stored a then
           (let result = put_result (vr_id (the old)) (rt_id root) name digest (vr_size (the old)) extra True
            in sbind (on_cat (complete_op (ae_now e 4) oid (ae_token e) result)) (\<lambda>_. sret result) a)
         else
           sbind (stmt e 4 (tick e 4 oid)) (\<lambda>_.
           sbind (stmt e 5 (publish_staged sha data (sha data))) (\<lambda>_.
           sbind (stmt e 6 (renew e 6 oid)) (\<lambda>_.
           on_cat (txn (commit_body e oid (case guard of None \<Rightarrow> True | Some (_, g) \<Rightarrow> g) (rt_id root) name digest manifest bytes extra))))) a))))"

definition put_file :: "art_env \<Rightarrow> string \<Rightarrow> string \<Rightarrow> (bool \<times> bool) option \<Rightarrow> string \<Rightarrow> obj art" where
  "put_file e name data guard key a =
     (if blank name then (Inl BadRequest, a)
      else (case ebind (build_manifest (ae_sha e) data name) (\<lambda>m. ebind (manifest_digest (ae_sha e) (ae_pk e) (JObj m)) (\<lambda>d. Inr (m, d))) of
          Inl _ \<Rightarrow> (Inl BadRequest, a)
        | Inr (manifest, digest) \<Rightarrow>
            durable_op e ''artifact.put_file'' [(''name'', JStr name), (''manifest_digest'', JStr digest)] key
              (put_file_body e name data manifest digest guard) a))"

section \<open>Directories\<close>

text \<open>The contents that a tree needs, each once, in the order of the entries.\<close>

definition file_rows :: "capture_row list \<Rightarrow> (string \<times> string) list" where
  "file_rows rows = concat (map (\<lambda>r. case r of FileRow p c x \<Rightarrow> [(p, c)] | EmptyDir p \<Rightarrow> []) (sort_key row_path rows))"

definition unique_contents :: "(string \<Rightarrow> string) \<Rightarrow> capture_row list \<Rightarrow> (string \<times> string) list" where
  "unique_contents sha rows = fold (\<lambda>(p, c) xs. if sha c \<in> fst ` set xs then xs else xs @ [(sha c, c)]) (file_rows rows) []"

fun publish_all :: "art_env \<Rightarrow> string \<Rightarrow> (string \<times> string) list \<Rightarrow> unit art" where
  "publish_all e oid [] = sret ()"
| "publish_all e oid ((digest, data) # xs) =
     sbind (publish_staged (ae_sha e) data digest) (\<lambda>_. sbind (stmt e 5 (tick e 5 oid)) (\<lambda>_. publish_all e oid xs))"

text \<open>All contents are staged first, and the lease is renewed between them.\<close>

fun stage_all :: "art_env \<Rightarrow> string \<Rightarrow> (string \<times> string) list \<Rightarrow> unit art" where
  "stage_all e oid [] = sret ()"
| "stage_all e oid (x # xs) = sbind (stmt e 4 (tick e 4 oid)) (\<lambda>_. stage_all e oid xs)"

definition put_dir_body :: "art_env \<Rightarrow> string \<Rightarrow> capture_row list \<Rightarrow> obj \<Rightarrow> string \<Rightarrow> string \<Rightarrow> obj art" where
  "put_dir_body e name rows manifest digest oid =
     (let sha = ae_sha e; files = file_rows rows; extra = (''file_count'', JInt (int (length files)));
          total = sum_list (map (\<lambda>(p, c). int (length c)) files) in
      sbind (stmt e 3 (on_cat (get_or_create_root (ae_root e) (ae_now e 3) name))) (\<lambda>root a.
      let old = version_of (cat a) (rt_id root) digest
      in if old \<noteq> None \<and> list_all (\<lambda>(p, c). has_blob (sha c) a \<and> verify_blob sha (sha c) a) files then
           (let result = put_result (vr_id (the old)) (rt_id root) name digest (vr_size (the old)) extra True
            in sbind (on_cat (complete_op (ae_now e 4) oid (ae_token e) result)) (\<lambda>_. sret result) a)
         else
           sbind (stmt e 4 (renew e 4 oid)) (\<lambda>_.
           sbind (stage_all e oid (unique_contents sha rows)) (\<lambda>_.
           sbind (publish_all e oid (unique_contents sha rows)) (\<lambda>_.
           on_cat (txn (commit_body e oid True (rt_id root) name digest manifest total extra))))) a))"

definition put_dir :: "art_env \<Rightarrow> string \<Rightarrow> ftree \<Rightarrow> string \<Rightarrow> obj art" where
  "put_dir e name t key a =
     (if blank name then (Inl BadRequest, a)
      else (case ebind (build_manifest_from_tree (ae_sha e) (ae_pk e) (ae_posix e) t name) (\<lambda>m.
            ebind (manifest_digest (ae_sha e) (ae_pk e) (JObj m)) (\<lambda>d.
            case t of DirT ks \<Rightarrow> ebind (walk [] ks) (\<lambda>rows. Inr (m, d, rows)) | _ \<Rightarrow> Inl Refused)) of
          Inl _ \<Rightarrow> (Inl BadRequest, a)
        | Inr (manifest, digest, rows) \<Rightarrow>
            durable_op e ''artifact.put_dir'' [(''name'', JStr name), (''manifest_digest'', JStr digest)] key
              (put_dir_body e name rows manifest digest) a))"

section \<open>Reads\<close>

definition finish_read :: "art_env \<Rightarrow> string \<Rightarrow> obj \<Rightarrow> obj art" where
  "finish_read e oid result = sbind (on_cat (complete_op (ae_now e 7) oid (ae_token e) result)) (\<lambda>_. sret result)"

definition resolve_version :: "string \<Rightarrow> string option \<Rightarrow> string option \<Rightarrow> catalog \<Rightarrow> aerr + version_row \<times> string" where
  "resolve_version target alias vid db =
     (case vid of
        Some v \<Rightarrow> (case find_version db v of None \<Rightarrow> Inl UnknownThing | Some r \<Rightarrow> Inr (r, ''version''))
      | None \<Rightarrow>
          (case alias of
             Some x \<Rightarrow>
               (case find (\<lambda>l. al_name l = x) (ct_aliases db) of
                  None \<Rightarrow> Inl UnknownThing
                | Some l \<Rightarrow> (case find_version db (al_version l) of None \<Rightarrow> Inl UnknownThing | Some r \<Rightarrow> Inr (r, ''alias'')))
           | None \<Rightarrow>
               (case find (\<lambda>r. rt_name r = target \<or> rt_id r = target) (ct_roots db) of
                  None \<Rightarrow> Inl UnknownThing
                | Some r \<Rightarrow>
                    (case rt_latest r of
                       None \<Rightarrow> Inl UnknownThing
                     | Some v \<Rightarrow> if v = [] then Inl UnknownThing
                         else (case find_version db v of None \<Rightarrow> Inl Uncaught | Some w \<Rightarrow> Inr (w, ''latest''))))))"

definition resolve_artifact :: "art_env \<Rightarrow> string \<Rightarrow> string option \<Rightarrow> string option \<Rightarrow> string \<Rightarrow> obj art" where
  "resolve_artifact e target alias vid key =
     durable_op e ''artifact.resolve'' [(''target'', JStr target), (''alias'', jstr_opt alias), (''version_id'', jstr_opt vid)] key
       (\<lambda>oid a. case resolve_version target alias vid (cat a) of
          Inl x \<Rightarrow> (Inl x, a)
        | Inr (v, via) \<Rightarrow>
            finish_read e oid
              [(''root_id'', JStr (vr_root v)),
               (''root_name'', jstr_opt (map_option rt_name (find (\<lambda>r. rt_id r = vr_root v) (ct_roots (cat a))))),
               (''version_id'', JStr (vr_id v)), (''manifest_digest'', JStr (vr_digest v)), (''size_bytes'', JInt (vr_size v)),
               (''resolved_via'', JStr via)] a)"

text \<open>The digests of the contents of a version.\<close>

definition manifest_shas :: "obj \<Rightarrow> string list" where
  "manifest_shas m =
     (if dget m ''kind'' = JStr ''dir''
      then concat (map (\<lambda>v. if dget (obj_of v) ''kind'' = JStr ''file'' then (case dget (obj_of v) ''sha256'' of JStr s \<Rightarrow> [s] | _ \<Rightarrow> []) else [])
             (manifest_entries m))
      else (case dget m ''sha256'' of JStr s \<Rightarrow> if s = [] then [] else [s] | _ \<Rightarrow> []))"

definition version_info :: "art_env \<Rightarrow> string \<Rightarrow> string \<Rightarrow> obj art" where
  "version_info e vid key =
     durable_op e ''artifact.info'' [(''version_id'', JStr vid)] key
       (\<lambda>oid a. case find_version (cat a) vid of
          None \<Rightarrow> (Inl UnknownThing, a)
        | Some v \<Rightarrow>
            finish_read e oid
              [(''version_id'', JStr vid), (''root_id'', JStr (vr_root v)), (''manifest_digest'', JStr (vr_digest v)),
               (''manifest'', JObj (vr_manifest v)), (''size_bytes'', JInt (vr_size v)),
               (''blob_exists'', JBool (list_all (\<lambda>s. has_blob s a) (manifest_shas (vr_manifest v)))),
               (''verified'', JBool (list_all (\<lambda>s. verify_blob (ae_sha e) s a) (manifest_shas (vr_manifest v))))] a)"

text \<open>The stored content of a digest is hashed again, and the lease renewed meanwhile.\<close>

definition hash_blob :: "art_env \<Rightarrow> string \<Rightarrow> string \<Rightarrow> string option art" where
  "hash_blob e oid s a =
     (if has_blob s a then sbind (stmt e 3 (tick e 3 oid)) (\<lambda>_. sret (map_option (ae_sha e) (blobs a s))) a else (Inr None, a))"

definition sha_of :: "obj \<Rightarrow> string" where
  "sha_of d = (case dget d ''sha256'' of JStr s \<Rightarrow> s | _ \<Rightarrow> [])"

text \<open>A report for each file of a directory, and the paths of those whose content has changed or is gone.\<close>

fun verify_all :: "art_env \<Rightarrow> string \<Rightarrow> json list \<Rightarrow> (json list \<times> json list) art" where
  "verify_all e oid [] = sret ([], [])"
| "verify_all e oid (v # vs) =
     (let d = obj_of v; expected = sha_of d in
      if dget d ''kind'' = JStr ''dir'' then verify_all e oid vs
      else
        sbind (hash_blob e oid expected) (\<lambda>actual.
        sbind (verify_all e oid vs) (\<lambda>(reports, offending).
        let ok = actual = Some expected;
            report = JObj [(''path'', dget d ''path''), (''kind'', dget d ''kind''), (''expected_sha256'', JStr expected),
              (''actual_sha256'', jstr_opt actual), (''ok'', JBool ok)]
        in sret (report # reports, if ok then offending else dget d ''path'' # offending))))"

definition verify_manifest :: "art_env \<Rightarrow> string \<Rightarrow> obj \<Rightarrow> obj art" where
  "verify_manifest e oid m =
     sbind (stmt e 2 (renew e 2 oid)) (\<lambda>_.
     sbind (if dget m ''kind'' = JStr ''dir'' then
         sbind (verify_all e oid (manifest_entries m)) (\<lambda>(reports, offending).
         let ok = (offending = [])
         in sret [(''ok'', JBool ok), (''ok_bool'', JBool ok), (''expected_sha256'', JNull), (''actual_sha256'', JNull),
              (''entries'', JArr reports), (''offending_paths'', JArr offending)])
       else
         sbind (hash_blob e oid (sha_of m)) (\<lambda>actual.
         let ok = actual = Some (sha_of m)
         in sret [(''ok'', JBool ok), (''ok_bool'', JBool ok), (''expected_sha256'', JStr (sha_of m)), (''actual_sha256'', jstr_opt actual)]))
       (\<lambda>result. sbind (stmt e 6 (renew e 6 oid)) (\<lambda>_. finish_read e oid result)))"

definition verify_version :: "art_env \<Rightarrow> string \<Rightarrow> string \<Rightarrow> obj art" where
  "verify_version e vid key =
     durable_op e ''artifact.verify'' [(''version_id'', JStr vid)] key
       (\<lambda>oid a. case find_version (cat a) vid of
          None \<Rightarrow> (Inl UnknownThing, a)
        | Some v \<Rightarrow> verify_manifest e oid (vr_manifest v) a)"

section \<open>Writing a version to a path\<close>

definition materialize_body :: "art_env \<Rightarrow> string \<Rightarrow> string \<Rightarrow> bool \<Rightarrow> string \<Rightarrow> obj art" where
  "materialize_body e vid dest overwrite oid a =
     (case find_version (cat a) vid of
        None \<Rightarrow> (Inl UnknownThing, a)
      | Some v \<Rightarrow>
          sbind (stmt e 2 (renew e 2 oid)) (\<lambda>_ a1.
          if dget (vr_manifest v) ''kind'' = JStr ''dir'' then
            (if dests a1 dest \<noteq> NoFile then (Inl BadRequest, a1)
             else (case materialize_tree (ae_sha e) (ae_pk e) (ae_posix e) (blobs a1) (vr_manifest v) of
                 Inl _ \<Rightarrow> (Inl BadRequest, a1)
               | Inr f \<Rightarrow>
                   sbind (stmt e 6 (renew e 6 oid)) (\<lambda>_.
                   finish_read e oid [(''version_id'', JStr vid), (''dest_path'', JStr dest), (''size_bytes'', JInt (vr_size v)),
                     (''file_count'', JInt (int (length (filter (\<lambda>x. dget (obj_of x) ''kind'' = JStr ''file'') (manifest_entries (vr_manifest v)))))),
                     (''overwritten'', JBool False)]) (a1\<lparr>dests := (dests a1)(dest := Tree f)\<rparr>)))
          else (case dget (vr_manifest v) ''sha256'' of
              JStr s \<Rightarrow>
                if \<not> has_blob s a1 then (Inl UnknownThing, a1)
                else if dests a1 dest = Link then (Inl BadRequest, a1)
                else if dests a1 dest \<noteq> NoFile \<and> \<not> overwrite then (Inl BadRequest, a1)
                else if \<exists>f. dests a1 dest = Tree f then (Inl Uncaught, a1)
                else sbind (stmt e 6 (renew e 6 oid)) (\<lambda>_.
                     finish_read e oid [(''version_id'', JStr vid), (''dest_path'', JStr dest), (''size_bytes'', JInt (vr_size v)),
                       (''sha256'', JStr s), (''overwritten'', JBool (dests a1 dest \<noteq> NoFile))])
                     (a1\<lparr>dests := (dests a1)(dest := Plain (case blobs a1 s of Some c \<Rightarrow> c | None \<Rightarrow> []))\<rparr>)
            | _ \<Rightarrow> (Inl Uncaught, a1))) a)"

definition materialize :: "art_env \<Rightarrow> string \<Rightarrow> string \<Rightarrow> bool \<Rightarrow> string \<Rightarrow> obj art" where
  "materialize e vid dest overwrite key =
     durable_op e ''artifact.materialize'' [(''version_id'', JStr vid), (''dest_path'', JStr dest), (''overwrite'', JBool overwrite)] key
       (materialize_body e vid dest overwrite)"

end
