(* ===== verification/ArtifactLeases.thy ===== *)
theory ArtifactLeases
  imports ArtifactPut TreeRoundTrip
begin

text \<open>
  Durable operations as the interfaces of \<open>Contracts\<close>: a log of requests by idempotency key, and work that only the
  holder of a claim can settle, by finishing the operation or by the publication transaction.
\<close>

section \<open>The catalog is well-formed\<close>

definition ops_ok :: "catalog \<Rightarrow> bool" where
  "ops_ok db = (distinct (map ao_id (ct_ops db)) \<and> distinct (map ao_key (ct_ops db)))"

lemma begin_cases:
  assumes "begin_op sha fresh now mth payload key db = (res, db')"
  obtains (err) x where "res = Inl x" "db' = db"
  | (old) r digest where "res = Inr (r, True)" "db' = db" "find_key_op db key = Some r" "ao_digest r = digest"
      "request_digest sha mth payload key = Inr digest"
  | (new) r digest where "res = Inr (r, False)" "db' = db\<lparr>ct_ops := ct_ops db @ [r]\<rparr>" "find_key_op db key = None"
      "find_aop db fresh = None" "ao_digest r = digest" "request_digest sha mth payload key = Inr digest" "ao_key r = key"
      "ao_id r = fresh" "ao_status r = ''pending''" "ao_token r = None"
  using assms
  by (auto simp: begin_op_def txn_def begin_body_def Let_def split: sum.splits option.splits if_splits)

text \<open>The digest of a request, with the request as an argument, identifies it.\<close>

definition begin_keyed :: "string \<Rightarrow> string \<Rightarrow> (string \<Rightarrow> string) \<times> string \<times> int \<times> string \<times> obj \<Rightarrow> catalog \<Rightarrow> (aerr + aop_row) \<times> catalog" where
  "begin_keyed key digest x db =
     (case x of (sha, fresh, now, mth, payload) \<Rightarrow>
        if request_digest sha mth payload key \<noteq> Inr digest then (Inl BadRequest, db)
        else (case begin_op sha fresh now mth payload key db of (Inl y, db') \<Rightarrow> (Inl y, db') | (Inr (r, _), db') \<Rightarrow> (Inr r, db')))"

lemma find_key_append:
  "find_key_op (db\<lparr>ct_ops := ct_ops db @ [r]\<rparr>) k = (case find_key_op db k of Some q \<Rightarrow> Some q | None \<Rightarrow> if ao_key r = k then Some r else None)"
  by (simp add: find_key_op_def find_append split: option.split)

lemma begin_keyed_cases:
  assumes "begin_keyed key d x db = (res, db')"
  obtains (err) y where "res = Inl y" "db' = db"
  | (old) r where "res = Inr r" "db' = db" "find_key_op db key = Some r" "ao_digest r = d"
  | (new) r where "res = Inr r" "db' = db\<lparr>ct_ops := ct_ops db @ [r]\<rparr>" "find_key_op db key = None" "ao_key r = key" "ao_digest r = d"
      "find_aop db (ao_id r) = None"
proof -
  obtain sha fresh now mth payload where x: "x = (sha, fresh, now, mth, payload)" by (cases x)
  show ?thesis
  proof (cases "request_digest sha mth payload key = Inr d")
    case False
    with assms x show ?thesis by (intro err) (auto simp: begin_keyed_def)
  next
    case True
    obtain r0 db0 where b: "begin_op sha fresh now mth payload key db = (r0, db0)" by (cases "begin_op sha fresh now mth payload key db")
    with assms x True have "res = (case r0 of Inl y \<Rightarrow> Inl y | Inr (r, _) \<Rightarrow> Inr r) \<and> db' = db0"
      by (auto simp: begin_keyed_def split: sum.splits prod.splits)
    with b True show ?thesis by (cases rule: begin_cases) (auto intro: err old new)
  qed
qed

lemma fresh_row_ok: "ops_ok db \<Longrightarrow> find_key_op db (ao_key r) = None \<Longrightarrow> find_aop db (ao_id r) = None \<Longrightarrow> ops_ok (db\<lparr>ct_ops := ct_ops db @ [r]\<rparr>)"
  by (simp add: ops_ok_def find_key_op_def find_aop_def find_None_image)

interpretation artifact_log: request_log find_key_op ao_digest begin_keyed ops_ok
proof unfold_locales
  fix s k d x r s'
  assume i: "ops_ok s" and b: "begin_keyed k d x s = (Inr r, s')"
  from b show "ops_ok s' \<and> find_key_op s' k = Some r \<and> ao_digest r = d \<and> (\<forall>l. l \<noteq> k \<longrightarrow> find_key_op s' l = find_key_op s l)"
    by (cases rule: begin_keyed_cases) (use i fresh_row_ok in \<open>auto simp: find_key_append split: option.split\<close>)
next
  fix s k r d x r' s'
  assume "find_key_op s k = Some r" and b: "begin_keyed k d x s = (Inr r', s')"
  with b show "r' = r \<and> s' = s" by (cases rule: begin_keyed_cases) auto
next
  fix k d x s e s'
  assume b: "begin_keyed k d x s = (Inl e, s')"
  then show "s' = s" by (cases rule: begin_keyed_cases) auto
qed

section \<open>Claims\<close>

definition op_holder :: "catalog \<Rightarrow> string \<Rightarrow> string option" where
  "op_holder db oid = (case find_aop db oid of None \<Rightarrow> None | Some r \<Rightarrow> if ao_status r = ''running'' then ao_token r else None)"

lemma find_aop_upd:
  "(\<And>r. ao_id (f r) = ao_id r) \<Longrightarrow> find_aop (db\<lparr>ct_ops := upd P f (ct_ops db)\<rparr>) oid = map_option (\<lambda>r. if P r then f r else r) (find_aop db oid)"
  by (simp add: find_aop_def find_upd_key)

lemma find_aop_ops: "ct_ops db' = ct_ops db \<Longrightarrow> find_aop db' oid = find_aop db oid"
  by (simp add: find_aop_def)

lemma ops_ok_upd: "ops_ok db \<Longrightarrow> (\<And>r. ao_id (f r) = ao_id r) \<Longrightarrow> (\<And>r. ao_key (f r) = ao_key r) \<Longrightarrow> ct_ops db' = upd P f (ct_ops db) \<Longrightarrow> ops_ok db'"
  by (simp add: ops_ok_def map_upd_same)

lemma cnt_aop: "ops_ok db \<Longrightarrow> (\<And>r. P r \<Longrightarrow> ao_id r = oid) \<Longrightarrow> cnt P (ct_ops db) \<noteq> 0 \<longleftrightarrow> (\<exists>r. find_aop db oid = Some r \<and> P r)"
proof
  assume ok: "ops_ok db" and P: "\<And>r. P r \<Longrightarrow> ao_id r = oid"
  show "\<exists>r. find_aop db oid = Some r \<and> P r \<Longrightarrow> cnt P (ct_ops db) \<noteq> 0"
    by (auto simp: find_aop_def dest: find_SomeD)
  assume "cnt P (ct_ops db) \<noteq> 0"
  then obtain r where r: "r \<in> set (ct_ops db)" "P r" by auto
  with P have "find_aop db oid = Some r" using find_key [of ao_id "ct_ops db" r] ok by (simp add: find_aop_def ops_ok_def)
  with r(2) show "\<exists>r. find_aop db oid = Some r \<and> P r" by blast
qed

text \<open>What a worker does with a claimed operation: end it, or publish under it.\<close>

datatype work_arg =
    ClaimArg int int
  | FinishArg int string "obj option" "string option"
  | CommitArg art_env bool string string string obj int "string \<times> json"

fun work_claim :: "string \<Rightarrow> string \<Rightarrow> work_arg \<Rightarrow> aop_row cop" where
  "work_claim oid token (ClaimArg now lease) db = claim_op token now lease oid db"
| "work_claim oid token x db = (Inl BadRequest, db)"

text \<open>An operation never ends as running again.\<close>

fun work_settle :: "string \<Rightarrow> string \<Rightarrow> work_arg \<Rightarrow> catalog \<Rightarrow> (aerr + obj) \<times> catalog" where
  "work_settle oid token (FinishArg now status result error) db =
     (if status = ''running'' then (Inl BadRequest, db)
      else (case finish_op now oid token status result error db of (Inl x, db') \<Rightarrow> (Inl x, db') | (Inr _, db') \<Rightarrow> (Inr [], db')))"
| "work_settle oid token (CommitArg e guard root name digest manifest bytes extra) db =
     (if ae_token e \<noteq> token then (Inl BadRequest, db) else txn (commit_body e oid guard root name digest manifest bytes extra) db)"
| "work_settle oid token (ClaimArg now lease) db = (Inl BadRequest, db)"

lemma claim_ok_op:
  assumes "ops_ok db" "claim_op token now lease oid db = (Inr r, db')"
  shows "ops_ok db' \<and> op_holder db' oid = Some token \<and> (\<forall>j. j \<noteq> oid \<longrightarrow> op_holder db' j = op_holder db j)"
proof -
  let ?P = "\<lambda>r. ao_id r = oid \<and> claimable now r" and ?f = "claim_row token now lease"
  from assms(2) have d: "db' = db\<lparr>ct_ops := upd ?P ?f (ct_ops db)\<rparr>" "cnt ?P (ct_ops db) \<noteq> 0"
    by (auto simp: claim_op_def txn_Inr_iff claim_body_def Let_def split: if_splits option.splits)
  then obtain q where q: "find_aop db oid = Some q" "claimable now q" using cnt_aop [OF assms(1), of ?P oid] by auto
  have f: "find_aop db' j = map_option (\<lambda>r. if ?P r then ?f r else r) (find_aop db j)" for j
    unfolding d(1) by (rule find_aop_upd) (simp add: claim_row_def)
  have "ao_id q = oid" using q(1) by (auto simp: find_aop_def dest: find_SomeD)
  then have "op_holder db' oid = Some token" using f [of oid] q by (simp add: op_holder_def claim_row_def)
  moreover have "op_holder db' j = op_holder db j" if "j \<noteq> oid" for j
  proof (cases "find_aop db j")
    case (Some r)
    then have "ao_id r = j" by (auto simp: find_aop_def dest: find_SomeD)
    with f [of j] Some that show ?thesis by (simp add: op_holder_def)
  qed (use f [of j] in \<open>simp add: op_holder_def\<close>)
  moreover have "ops_ok db'" by (rule ops_ok_upd [OF assms(1), where P = ?P and f = ?f]) (simp_all add: d(1) claim_row_def)
  ultimately show ?thesis by blast
qed

lemma settled_op:
  assumes "ops_ok db" "ct_ops db' = upd (holds_claim now oid token) (finish_row n status result error) (ct_ops db)"
    "cnt (holds_claim now oid token) (ct_ops db) \<noteq> 0" "status \<noteq> ''running''"
  shows "ops_ok db' \<and> op_holder db oid = Some token \<and> op_holder db' oid = None \<and> (\<forall>j. j \<noteq> oid \<longrightarrow> op_holder db' j = op_holder db j)"
proof -
  let ?P = "holds_claim now oid token" and ?f = "finish_row n status result error"
  obtain q where q: "find_aop db oid = Some q" "?P q" using assms(3) cnt_aop [OF assms(1), of ?P oid] by (auto simp: holds_claim_def)
  have f: "find_aop db' j = map_option (\<lambda>r. if ?P r then ?f r else r) (find_aop db j)" for j
    using find_aop_upd [of ?f ?P db j] find_aop_ops [of db' "db\<lparr>ct_ops := upd ?P ?f (ct_ops db)\<rparr>" j] assms(2)
    by (simp add: finish_row_def)
  have "op_holder db oid = Some token" using q by (simp add: op_holder_def holds_claim_def)
  moreover have "op_holder db' oid = None" using f [of oid] q assms(4) by (simp add: op_holder_def finish_row_def)
  moreover have "op_holder db' j = op_holder db j" if "j \<noteq> oid" for j
  proof (cases "find_aop db j")
    case (Some r)
    then have "ao_id r = j" by (auto simp: find_aop_def dest: find_SomeD)
    with f [of j] Some that show ?thesis by (simp add: op_holder_def holds_claim_def)
  qed (use f [of j] in \<open>simp add: op_holder_def\<close>)
  moreover have "ops_ok db'" by (rule ops_ok_upd [OF assms(1), where P = ?P and f = ?f]) (simp_all add: assms(2) finish_row_def)
  ultimately show ?thesis by blast
qed

lemma publication_cases:
  assumes "commit_body e oid guard root name digest manifest bytes extra db = Inr (result, db')"
  obtains vid where "vid = (case version_of db root digest of Some v \<Rightarrow> vr_id v | None \<Rightarrow> ae_id e)" "guard"
    "result = put_result vid root name digest bytes extra (version_of db root digest \<noteq> None)"
    "version_of db root digest = None \<Longrightarrow> find_version db vid = None"
    "cnt (holds_claim (ae_now e 7) oid (ae_token e)) (ct_ops db) \<noteq> 0"
    "db' = db\<lparr>ct_ops := upd (holds_claim (ae_now e 7) oid (ae_token e)) (finish_row (ae_now e 7) ''completed'' (Some result) None) (ct_ops db),
       ct_versions := ct_versions db @ (case version_of db root digest of Some _ \<Rightarrow> [] | None \<Rightarrow> [\<lparr>vr_id = vid, vr_root = root, vr_digest = digest,
         vr_manifest = manifest, vr_size = bytes, vr_deleted = None, vr_requested = None, vr_pin = None, vr_created = ae_now e 7\<rparr>]),
       ct_roots := upd (\<lambda>r. rt_id r = root) (\<lambda>r. r\<lparr>rt_latest := Some vid, rt_updated := ae_now e 7\<rparr>) (ct_roots db)\<rparr>"
proof (cases "version_of db root digest")
  case None
  with assms show ?thesis
    by (intro that [of "ae_id e"]) (auto simp: commit_body_def Let_def split: if_splits)
next
  case (Some v)
  with assms show ?thesis
    by (intro that [of "vr_id v"]) (auto simp: commit_body_def Let_def split: if_splits)
qed

interpretation artifact_lease: leased_work op_holder work_claim work_settle ops_ok
proof unfold_locales
  fix s i t x a s'
  assume "ops_ok s" "work_claim i t x s = (Inr a, s')"
  then show "ops_ok s' \<and> op_holder s' i = Some t \<and> (\<forall>j. j \<noteq> i \<longrightarrow> op_holder s' j = op_holder s j)"
    by (cases x) (auto dest: claim_ok_op)
next
  fix s i t x e s'
  assume "work_claim i t x s = (Inl e, s')"
  then show "s' = s" by (cases x) (auto simp: claim_op_def txn_Inl_iff)
next
  fix s i t x b s'
  assume ok: "ops_ok s" and w: "work_settle i t x s = (Inr b, s')"
  show "ops_ok s' \<and> op_holder s i = Some t \<and> op_holder s' i = None \<and> (\<forall>j. j \<noteq> i \<longrightarrow> op_holder s' j = op_holder s j)"
  proof (cases x)
    case (FinishArg now status result error)
    with w have f: "status \<noteq> ''running''" "finish_op now i t status result error s = (Inr (), s')"
      by (auto split: if_splits prod.splits sum.splits)
    then have "cnt (holds_claim now i t) (ct_ops s) \<noteq> 0" "s' = s\<lparr>ct_ops := upd (holds_claim now i t) (finish_row now status result error) (ct_ops s)\<rparr>"
      by (auto simp: finish_op_def txn_Inr_iff Let_def split: if_splits)
    then show ?thesis by (intro settled_op [OF ok, of s' now i t now status result error]) (simp_all add: f(1))
  next
    case (CommitArg e guard root name digest manifest bytes extra)
    with w have t: "ae_token e = t" and "commit_body e i guard root name digest manifest bytes extra s = Inr (b, s')"
      by (auto simp: txn_Inr_iff split: if_splits)
    from this(2) obtain vid where c: "cnt (holds_claim (ae_now e 7) i (ae_token e)) (ct_ops s) \<noteq> 0"
      "ct_ops s' = upd (holds_claim (ae_now e 7) i (ae_token e)) (finish_row (ae_now e 7) ''completed'' (Some b) None) (ct_ops s)"
      by (elim publication_cases) simp
    show ?thesis by (rule settled_op [OF ok c(2) [unfolded t] c(1) [unfolded t]]) simp
  qed (use w in simp)
next
  fix s i t x f s'
  assume "work_settle i t x s = (Inl f, s')"
  then show "s' = s"
    by (cases x) (auto simp: finish_op_def txn_def Let_def split: if_splits prod.splits sum.splits)
qed


section \<open>A small catalog\<close>

definition demo_aop :: aop_row where
  "demo_aop = \<lparr>ao_id = ''aop_1'', ao_key = ''key-0001'', ao_method = ''artifact.put_file'', ao_digest = ''d1'', ao_payload = [],
     ao_status = ''running'', ao_token = Some ''w1'', ao_claimed = Some 0, ao_lease = Some 5, ao_generation = 1, ao_attempts = 1,
     ao_result = None, ao_error = None, ao_created = 0, ao_updated = 0\<rparr>"

definition demo_catalog :: catalog where
  "demo_catalog = \<lparr>ct_ops = [demo_aop], ct_versions = [], ct_roots = [], ct_aliases = [], ct_collections = [], ct_members = [],
     ct_lineage = [], ct_recovery = False, ct_epoch = 1, ct_id = ''cat_1'', ct_instance = ''cit_1''\<rparr>"

definition demo_art_env :: "string \<Rightarrow> art_env" where
  "demo_art_env token = \<lparr>ae_sha = demo_hash, ae_pk = id, ae_posix = True, ae_op = ''aop_2'', ae_token = token, ae_id = ''ver_1'',
     ae_root = ''rot_1'', ae_lease = 100, ae_now = (\<lambda>i. 10 + int i), ae_other = (\<lambda>i a. a), ae_slow = (\<lambda>i. False), ae_msg = ''failed''\<rparr>"

lemma demo_reclaimed:
  "claim_op ''w2'' 7 100 ''aop_1'' demo_catalog
   = (Inr (claim_row ''w2'' 7 100 demo_aop), demo_catalog\<lparr>ct_ops := [claim_row ''w2'' 7 100 demo_aop]\<rparr>)"
  by (simp add: claim_op_def txn_def claim_body_def Let_def demo_catalog_def demo_aop_def claimable_def lease_over_def sql_leq_def
      sql_less_def micro_rank_def find_aop_def claim_row_def)


end
