(* ===== verification/ArtifactPublish.thy ===== *)
theory ArtifactPublish
  imports ArtifactLeases
begin

text \<open>
  What the publication of a file does when no other worker interferes, and what it does not repair.
\<close>

section \<open>An operation that runs undisturbed\<close>

definition quiet :: "art_env \<Rightarrow> bool" where
  "quiet e = ((\<forall>i a. ae_other e i a = a) \<and> (\<forall>i j. sql_less (ae_now e i) (ae_now e j + ae_lease e)))"

text \<open>The operation of \<open>e\<close> is the last row and is held by its token.\<close>

definition held :: "art_env \<Rightarrow> string \<Rightarrow> string \<Rightarrow> aop_row list \<Rightarrow> aop_row \<Rightarrow> bool" where
  "held e key d os r = (ao_id r = ae_op e \<and> ao_key r = key \<and> ao_digest r = d \<and> ao_token r = Some (ae_token e) \<and> ao_status r = ''running''
     \<and> (\<exists>x. ao_lease r = Some x \<and> (\<forall>i. sql_less (ae_now e i) x)) \<and> (\<forall>q \<in> set os. ao_id q \<noteq> ae_op e \<and> ao_key q \<noteq> key))"

definition with_op :: "aop_row list \<Rightarrow> aop_row \<Rightarrow> artifacts \<Rightarrow> artifacts" where
  "with_op os r a = a\<lparr>cat := (cat a)\<lparr>ct_ops := os @ [r]\<rparr>\<rparr>"

lemma with_op_simps [simp]:
  "blobs (with_op os r a) = blobs a" "dests (with_op os r a) = dests a" "ct_ops (cat (with_op os r a)) = os @ [r]"
  "ct_versions (cat (with_op os r a)) = ct_versions (cat a)" "ct_roots (cat (with_op os r a)) = ct_roots (cat a)"
  "version_of (cat (with_op os r a)) = version_of (cat a)" "find_version (cat (with_op os r a)) = find_version (cat a)"
  by (simp_all add: with_op_def version_of_def find_version_def fun_eq_iff)

lemma with_op_set [simp]: "(with_op os r a)\<lparr>cat := cat (with_op os r' b)\<rparr> = with_op os r' (a\<lparr>cat := cat b\<rparr>)" "a\<lparr>cat := cat a\<rparr> = a"
  by (cases a, simp add: with_op_def)+

lemma last_upd:
  assumes "\<forall>q \<in> set os. ao_id q \<noteq> oid" "\<And>q. P q \<Longrightarrow> ao_id q = oid" "P r"
  shows "upd P f (os @ [r]) = os @ [f r]" "cnt P (os @ [r]) \<noteq> 0"
proof -
  have "\<forall>q \<in> set os. \<not> P q" using assms(1,2) by blast
  then have "upd P f os = os" by (rule upd_id)
  with assms(3) show "upd P f (os @ [r]) = os @ [f r]" "cnt P (os @ [r]) \<noteq> 0" by simp_all
qed

lemma renew_held:
  assumes "quiet e" "held e key d os r"
  obtains r' where "stmt e i (renew e i (ae_op e)) (with_op os r a) = (Inr (), with_op os r' a)" "held e key d os r'"
proof -
  let ?r = "r\<lparr>ao_lease := Some (ae_now e i + ae_lease e), ao_updated := ae_now e i\<rparr>"
  let ?P = "\<lambda>r. ao_id r = ae_op e \<and> ao_token r = Some (ae_token e) \<and> ao_status r = ''running''"
  have os: "\<forall>q \<in> set os. ao_id q \<noteq> ae_op e" and P: "?P r" using assms(2) by (auto simp: held_def)
  have id: "ao_id q = ae_op e" if "?P q" for q using that by simp
  note l = last_upd [of os "ae_op e" ?P r, OF os id P]
  have "renew_op (ae_now e i) (ae_lease e) (ae_op e) (ae_token e) (cat (with_op os r a)) = (Inr (), cat (with_op os ?r a))"
    unfolding renew_op_def txn_def Let_def with_op_simps(3) by (simp only: l if_False sum.case prod.case) (simp add: with_op_def)
  then have "renew e i (ae_op e) (with_op os r a) = (Inr (), with_op os ?r a)"
    by (simp add: renew_def on_cat_def)
  then have "stmt e i (renew e i (ae_op e)) (with_op os r a) = (Inr (), with_op os ?r a)"
    using assms(1) by (simp add: stmt_def quiet_def)
  moreover have "held e key d os ?r" using assms by (simp add: held_def quiet_def)
  ultimately show ?thesis by (rule that)
qed

lemma tick_held:
  assumes "quiet e" "held e key d os r"
  obtains r' where "stmt e i (tick e i (ae_op e)) (with_op os r a) = (Inr (), with_op os r' a)" "held e key d os r'"
proof (cases "ae_slow e i")
  case True
  from renew_held [OF assms, of i a] obtain r' where
    r: "stmt e i (renew e i (ae_op e)) (with_op os r a) = (Inr (), with_op os r' a)" "held e key d os r'" by blast
  have "stmt e i (tick e i (ae_op e)) (with_op os r a) = (Inr (), with_op os r' a)"
    using r(1) True by (simp add: stmt_def tick_def)
  with r(2) show ?thesis using that by blast
next
  case False
  have "stmt e i (tick e i (ae_op e)) (with_op os r a) = (Inr (), with_op os r a)"
    using False assms(1) by (simp add: stmt_def tick_def quiet_def)
  with assms(2) show ?thesis using that by blast
qed

lemma complete_held:
  assumes "held e key d os r"
  shows "on_cat (complete_op (ae_now e i) (ae_op e) (ae_token e) result) (with_op os r a)
    = (Inr (), with_op os (finish_row (ae_now e i) ''completed'' (Some result) None r) a)"
proof -
  let ?P = "holds_claim (ae_now e i) (ae_op e) (ae_token e)"
  have os: "\<forall>q \<in> set os. ao_id q \<noteq> ae_op e" and P: "?P r" using assms by (auto simp: held_def holds_claim_def)
  have id: "ao_id q = ae_op e" if "?P q" for q using that by (simp add: holds_claim_def)
  note l = last_upd [of os "ae_op e" ?P r, OF os id P]
  have "finish_op (ae_now e i) (ae_op e) (ae_token e) ''completed'' (Some result) None (cat (with_op os r a))
      = (Inr (), cat (with_op os (finish_row (ae_now e i) ''completed'' (Some result) None r) a))"
    unfolding finish_op_def txn_def Let_def with_op_simps(3) by (simp only: l if_False sum.case prod.case) (simp add: with_op_def)
  then show ?thesis by (simp add: on_cat_def complete_op_def)
qed

text \<open>An operation with a new key is recorded and claimed.\<close>

definition fresh_op :: "art_env \<Rightarrow> string \<Rightarrow> artifacts \<Rightarrow> bool" where
  "fresh_op e key a = (find_key_op (cat a) key = None \<and> find_aop (cat a) (ae_op e) = None \<and> \<not> ct_recovery (cat a))"

lemma durable_new:
  assumes "quiet e" "fresh_op e key a" "request_digest (ae_sha e) mth payload key = Inr digest"
    and "\<And>r. held e key digest (ct_ops (cat a)) r \<Longrightarrow> body (ae_op e) (with_op (ct_ops (cat a)) r a) = (Inr (res r), f r)"
  shows "\<exists>r. held e key digest (ct_ops (cat a)) r \<and> durable_op e mth payload key body a = (Inr (res r), f r)"
proof -
  let ?os = "ct_ops (cat a)"
  let ?r0 = "\<lparr>ao_id = ae_op e, ao_key = key, ao_method = mth, ao_digest = digest, ao_payload = payload, ao_status = ''pending'',
    ao_token = None, ao_claimed = None, ao_lease = None, ao_generation = 0, ao_attempts = 0, ao_result = None, ao_error = None,
    ao_created = ae_now e 0, ao_updated = ae_now e 0\<rparr>"
  let ?r1 = "claim_row (ae_token e) (ae_now e 1) (ae_lease e) ?r0"
  have n: "\<forall>q \<in> set ?os. ao_id q \<noteq> ae_op e \<and> ao_key q \<noteq> key"
    using assms(2) by (auto simp: fresh_op_def find_key_op_def find_aop_def find_None_iff)
  have b: "on_cat (begin_op (ae_sha e) (ae_op e) (ae_now e 0) mth payload key) a = (Inr (?r0, False), with_op ?os ?r0 a)"
    using assms(2,3) by (simp add: on_cat_def begin_op_def begin_body_def txn_def fresh_op_def Let_def with_op_def)
  let ?P = "\<lambda>r. ao_id r = ae_op e \<and> claimable (ae_now e 1) r"
  have os: "\<forall>q \<in> set ?os. ao_id q \<noteq> ae_op e" using n by blast
  have P: "?P ?r0" by (simp add: claimable_def)
  have id: "ao_id q = ae_op e" if "?P q" for q using that by simp
  note l = last_upd [of ?os "ae_op e" ?P ?r0, OF os id P]
  have fo: "find (\<lambda>r. ao_id r = ae_op e) ?os = None" using os by (simp add: find_None_iff)
  have c: "on_cat (claim_op (ae_token e) (ae_now e 1) (ae_lease e) (ae_op e)) (with_op ?os ?r0 a) = (Inr ?r1, with_op ?os ?r1 a)"
  proof -
    have "find_aop (cat (with_op ?os ?r1 a)) (ae_op e) = Some ?r1"
      using fo by (simp add: find_aop_def find_append claim_row_def)
    moreover have "(cat (with_op ?os ?r0 a))\<lparr>ct_ops := ?os @ [?r1]\<rparr> = cat (with_op ?os ?r1 a)" by (simp add: with_op_def)
    ultimately have "claim_op (ae_token e) (ae_now e 1) (ae_lease e) (ae_op e) (cat (with_op ?os ?r0 a)) = (Inr ?r1, cat (with_op ?os ?r1 a))"
      unfolding claim_op_def txn_def claim_body_def Let_def with_op_simps(3) by (simp only: l if_False sum.case prod.case option.case)
    then show ?thesis by (simp only: on_cat_def prod.case) (simp add: with_op_def)
  qed
  have h: "held e key digest ?os ?r1" using n assms(1) by (simp_all add: held_def claim_row_def quiet_def)
  have "durable_op e mth payload key body a = (Inr (res ?r1), f ?r1)"
    using assms(1) by (simp add: durable_op_def b c assms(4) [OF h] quiet_def del: One_nat_def)
  with h show ?thesis by blast
qed

section \<open>A file is published\<close>

definition new_root :: "art_env \<Rightarrow> string \<Rightarrow> root_row" where
  "new_root e name = \<lparr>rt_id = ae_root e, rt_name = name, rt_latest = None, rt_created = ae_now e 3, rt_updated = ae_now e 3\<rparr>"

definition rooted :: "art_env \<Rightarrow> string \<Rightarrow> artifacts \<Rightarrow> root_row \<times> artifacts" where
  "rooted e name a = (case find (\<lambda>r. rt_name r = name) (ct_roots (cat a)) of Some r \<Rightarrow> (r, a)
     | None \<Rightarrow> (new_root e name, a\<lparr>cat := (cat a)\<lparr>ct_roots := ct_roots (cat a) @ [new_root e name]\<rparr>\<rparr>))"

lemma root_held:
  assumes "quiet e" "ae_root e \<notin> rt_id ` set (ct_roots (cat a))"
  shows "stmt e 3 (on_cat (get_or_create_root (ae_root e) (ae_now e 3) name)) (with_op os r a)
    = (Inr (fst (rooted e name a)), with_op os r (snd (rooted e name a)))"
  using assms by (auto simp: stmt_def on_cat_def get_or_create_root_def rooted_def quiet_def with_op_def new_root_def Let_def split: option.splits)

lemma rooted_facts:
  "blobs (snd (rooted e name a)) = blobs a" "dests (snd (rooted e name a)) = dests a" "ct_versions (cat (snd (rooted e name a))) = ct_versions (cat a)"
  "fst (rooted e name a) \<in> set (ct_roots (cat (snd (rooted e name a))))" "rt_name (fst (rooted e name a)) = name"
  "version_of (cat (snd (rooted e name a))) = version_of (cat a)" "find_version (cat (snd (rooted e name a))) = find_version (cat a)"
  by (auto simp: rooted_def new_root_def version_of_def find_version_def fun_eq_iff split: option.splits dest: find_SomeD)

text \<open>The blob store after the bytes were published.\<close>

definition stored :: "(string \<Rightarrow> string) \<Rightarrow> string \<Rightarrow> artifacts \<Rightarrow> artifacts" where
  "stored sha data a = (if blobs a (sha data) \<noteq> None then a else a\<lparr>blobs := (blobs a)(sha data \<mapsto> data)\<rparr>)"

lemma stored_cat [simp]: "cat (stored sha data a) = cat a" "dests (stored sha data a) = dests a"
  by (simp_all add: stored_def)

lemma publish_held:
  assumes "quiet e" "is_blob_name (ae_sha e data)"
  shows "stmt e 5 (publish_staged (ae_sha e) data (ae_sha e data)) (with_op os r a) = (Inr (), with_op os r (stored (ae_sha e) data a))"
  using assms by (simp add: stmt_def publish_staged_def quiet_def stored_def) (simp add: with_op_def)

lemma commit_held:
  assumes "held e key d os r" "version_of (cat a) root digest = None \<Longrightarrow> find_version (cat a) (ae_id e) = None"
  obtains vid a' result where
    "on_cat (txn (commit_body e (ae_op e) True root name digest manifest bytes extra)) (with_op os r a)
       = (Inr result, with_op os (finish_row (ae_now e 7) ''completed'' (Some result) None r) a')"
    "vid = (case version_of (cat a) root digest of Some v \<Rightarrow> vr_id v | None \<Rightarrow> ae_id e)"
    "result = put_result vid root name digest bytes extra (version_of (cat a) root digest \<noteq> None)"
    "blobs a' = blobs a" "dests a' = dests a"
    "ct_versions (cat a') = ct_versions (cat a) @ (case version_of (cat a) root digest of Some _ \<Rightarrow> [] | None \<Rightarrow> [\<lparr>vr_id = vid, vr_root = root,
       vr_digest = digest, vr_manifest = manifest, vr_size = bytes, vr_deleted = None, vr_requested = None, vr_pin = None, vr_created = ae_now e 7\<rparr>])"
    "ct_roots (cat a') = upd (\<lambda>r. rt_id r = root) (\<lambda>r. r\<lparr>rt_latest := Some vid, rt_updated := ae_now e 7\<rparr>) (ct_roots (cat a))"
proof -
  let ?P = "holds_claim (ae_now e 7) (ae_op e) (ae_token e)"
  let ?vid = "case version_of (cat a) root digest of Some v \<Rightarrow> vr_id v | None \<Rightarrow> ae_id e"
  let ?new = "case version_of (cat a) root digest of Some _ \<Rightarrow> [] | None \<Rightarrow> [\<lparr>vr_id = ?vid, vr_root = root,
       vr_digest = digest, vr_manifest = manifest, vr_size = bytes, vr_deleted = None, vr_requested = None, vr_pin = None, vr_created = ae_now e 7\<rparr>]"
  let ?result = "put_result ?vid root name digest bytes extra (version_of (cat a) root digest \<noteq> None)"
  let ?a = "a\<lparr>cat := (cat a)\<lparr>ct_versions := ct_versions (cat a) @ ?new,
     ct_roots := upd (\<lambda>r. rt_id r = root) (\<lambda>r. r\<lparr>rt_latest := Some ?vid, rt_updated := ae_now e 7\<rparr>) (ct_roots (cat a))\<rparr>\<rparr>"
  have os: "\<forall>q \<in> set os. ao_id q \<noteq> ae_op e" and P: "?P r" using assms(1) by (auto simp: held_def holds_claim_def)
  have id: "ao_id q = ae_op e" if "?P q" for q using that by (simp add: holds_claim_def)
  note l = last_upd [of os "ae_op e" ?P r, OF os id P]
  have u: "upd ?P f os = os" for f by (rule upd_id) (use os id in blast)
  have "commit_body e (ae_op e) True root name digest manifest bytes extra (cat (with_op os r a))
      = Inr (?result, cat (with_op os (finish_row (ae_now e 7) ''completed'' (Some ?result) None r) ?a))"
  proof (cases "version_of (cat a) root digest")
    case None
    show ?thesis
      unfolding commit_body_def Let_def with_op_simps(6,7) None option.case
      using assms(2) [OF None] by (simp add: l(2) u P del: cnt_eq_0_iff cnt_append) (simp add: with_op_def)
  next
    case (Some v)
    show ?thesis
      unfolding commit_body_def Let_def with_op_simps(6,7) Some option.case
      by (simp add: l(2) u P del: cnt_eq_0_iff cnt_append) (simp add: with_op_def)
  qed
  then have "on_cat (txn (commit_body e (ae_op e) True root name digest manifest bytes extra)) (with_op os r a)
      = (Inr ?result, with_op os (finish_row (ae_now e 7) ''completed'' (Some ?result) None r) ?a)"
    by (simp add: on_cat_def txn_def)
  then show ?thesis by (rule that) simp_all
qed

text \<open>How the body of \<open>put_file\<close> ends: what it returned and the artifacts without the row of the operation.\<close>

definition put_done :: "art_env \<Rightarrow> string \<Rightarrow> string \<Rightarrow> string \<Rightarrow> artifacts \<Rightarrow> obj \<Rightarrow> artifacts \<Rightarrow> bool" where
  "put_done e name data digest a result a' =
     (\<exists>(v :: version_row) (root :: root_row). dget result ''version_id'' = JStr (vr_id v) \<and> dget result ''sha256'' = JStr (ae_sha e data)
        \<and> v \<in> set (ct_versions (cat a')) \<and> vr_digest v = digest \<and> vr_root v = rt_id root
        \<and> (\<exists>root' \<in> set (ct_roots (cat a')). rt_id root' = rt_id root \<and> rt_name root' = name)
        \<and> set (ct_versions (cat a)) \<subseteq> set (ct_versions (cat a'))
        \<and> has_blob (ae_sha e data) a'
        \<and> (\<forall>s. blobs a' s = (if s = ae_sha e data \<and> blobs a s = None then Some data else blobs a s)))"

lemma rooted_has:
  "\<exists>root' \<in> set (upd (\<lambda>r. rt_id r = rt_id (fst (rooted e name a))) (\<lambda>r. r\<lparr>rt_latest := x, rt_updated := y\<rparr>) (ct_roots (cat (snd (rooted e name a))))).
     rt_id root' = rt_id (fst (rooted e name a)) \<and> rt_name root' = name"
proof -
  let ?f = "\<lambda>r. r\<lparr>rt_latest := x, rt_updated := y\<rparr>" and ?r = "fst (rooted e name a)"
  have "?f ?r \<in> set (upd (\<lambda>r. rt_id r = rt_id ?r) ?f (ct_roots (cat (snd (rooted e name a)))))"
    by (rule upd_hit) (simp_all add: rooted_facts(4))
  then show ?thesis by (rule bexI [rotated]) (simp add: rooted_facts(5))
qed

text \<open>Every version of a file names the digest of its manifest, and the digest of a file determines its content digest.\<close>

definition file_versions :: "(string \<Rightarrow> string) \<Rightarrow> string \<Rightarrow> string \<Rightarrow> catalog \<Rightarrow> bool" where
  "file_versions sha data digest db = (\<forall>v \<in> set (ct_versions db). vr_digest v = digest \<longrightarrow> dget (vr_manifest v) ''sha256'' = JStr (sha data))"

lemma put_result_fields: "dget (put_result vid root name digest bytes (''sha256'', j) dedup) ''version_id'' = JStr vid"
  "dget (put_result vid root name digest bytes (''sha256'', j) dedup) ''sha256'' = j"
  by (simp_all add: put_result_def dget_def)

lemma put_file_body_run:
  assumes "quiet e" "held e key d os r" "ae_root e \<notin> rt_id ` set (ct_roots (cat a))" "is_blob_name (ae_sha e data)"
    and "find_version (cat a) (ae_id e) = None" "file_versions (ae_sha e) data digest (cat a)"
  shows "\<exists>result r' a'. put_file_body e name data manifest digest None (ae_op e) (with_op os r a) = (Inr result, with_op os r' a')
    \<and> ao_key r' = key \<and> ao_digest r' = d \<and> ao_status r' = ''completed'' \<and> ao_result r' = Some result
    \<and> put_done e name data digest a result a'"
proof -
  let ?s = "ae_sha e data" and ?root = "fst (rooted e name a)" and ?a = "snd (rooted e name a)"
  obtain r1 where r1: "stmt e 2 (renew e 2 (ae_op e)) (with_op os r a) = (Inr (), with_op os r1 a)" "held e key d os r1"
    by (rule renew_held [OF assms(1,2)])
  have k: "ao_key r = key" "ao_digest r = d" if "held e key d os r" for r using that by (simp_all add: held_def)
  note ro = root_held [OF assms(1,3)]
  let ?old = "version_of (cat a) (rt_id ?root) digest"
  show ?thesis
  proof (cases "?old \<noteq> None \<and> has_blob ?s a \<and> verify_blob (ae_sha e) ?s a")
    case True
    then obtain v where v: "?old = Some v" by blast
    then have vin: "v \<in> set (ct_versions (cat a))" "vr_root v = rt_id ?root" "vr_digest v = digest"
      by (auto simp: version_of_def dest: find_SomeD)
    then have m: "dget (vr_manifest v) ''sha256'' = JStr ?s" using assms(6) by (simp add: file_versions_def)
    let ?result = "put_result (vr_id v) (rt_id ?root) name digest (vr_size v) (''sha256'', JStr ?s) True"
    let ?r = "finish_row (ae_now e 4) ''completed'' (Some ?result) None r1"
    have b: "has_blob ?s (with_op os r1 ?a)" "verify_blob (ae_sha e) ?s (with_op os r1 ?a)"
      using True by (simp_all add: has_blob_def verify_blob_def rooted_facts)
    have "put_file_body e name data manifest digest None (ae_op e) (with_op os r a) = (Inr ?result, with_op os ?r ?a)"
      by (simp add: put_file_body_def Let_def sbind_def r1(1) raise_unless_def ro rooted_facts v m b complete_held [OF r1(2)])
    moreover have "put_done e name data digest a ?result ?a"
      unfolding put_done_def
      using vin rooted_facts(4,5) [of e name a] True
      by (intro exI [of _ v] exI [of _ ?root]) (auto simp: put_result_fields rooted_facts has_blob_def)
    ultimately show ?thesis using k [OF r1(2)]
      by (intro exI [of _ ?result] exI [of _ ?r] exI [of _ ?a]) (simp add: finish_row_def)
  next
    case False
    obtain r2 where r2: "stmt e 4 (tick e 4 (ae_op e)) (with_op os r1 ?a) = (Inr (), with_op os r2 ?a)" "held e key d os r2"
      by (rule tick_held [OF assms(1) r1(2)])
    let ?b = "stored (ae_sha e) data ?a"
    obtain r3 where r3: "stmt e 6 (renew e 6 (ae_op e)) (with_op os r2 ?b) = (Inr (), with_op os r3 ?b)" "held e key d os r3"
      by (rule renew_held [OF assms(1) r2(2)])
    have fv: "version_of (cat ?b) (rt_id ?root) digest = None \<Longrightarrow> find_version (cat ?b) (ae_id e) = None"
      using assms(5) by (simp add: rooted_facts)
    obtain vid a' result where c:
      "on_cat (txn (commit_body e (ae_op e) True (rt_id ?root) name digest manifest (int (length data)) (''sha256'', JStr ?s))) (with_op os r3 ?b)
         = (Inr result, with_op os (finish_row (ae_now e 7) ''completed'' (Some result) None r3) a')"
      "vid = (case version_of (cat ?b) (rt_id ?root) digest of Some v \<Rightarrow> vr_id v | None \<Rightarrow> ae_id e)"
      "result = put_result vid (rt_id ?root) name digest (int (length data)) (''sha256'', JStr ?s) (version_of (cat ?b) (rt_id ?root) digest \<noteq> None)"
      "blobs a' = blobs ?b" "dests a' = dests ?b"
      "ct_versions (cat a') = ct_versions (cat ?b) @ (case version_of (cat ?b) (rt_id ?root) digest of Some _ \<Rightarrow> [] | None \<Rightarrow> [\<lparr>vr_id = vid, vr_root = rt_id ?root,
         vr_digest = digest, vr_manifest = manifest, vr_size = int (length data), vr_deleted = None, vr_requested = None, vr_pin = None, vr_created = ae_now e 7\<rparr>])"
      "ct_roots (cat a') = upd (\<lambda>r. rt_id r = rt_id ?root) (\<lambda>r. r\<lparr>rt_latest := Some vid, rt_updated := ae_now e 7\<rparr>) (ct_roots (cat ?b))"
      by (rule commit_held [OF r3(2) fv])
    have nd: "\<not> (?old \<noteq> None \<and> has_blob (case ?old of None \<Rightarrow> [] | Some v \<Rightarrow> (case dget (vr_manifest v) ''sha256'' of JStr s \<Rightarrow> s | _ \<Rightarrow> [])) (with_op os r1 ?a)
        \<and> verify_blob (ae_sha e) (case ?old of None \<Rightarrow> [] | Some v \<Rightarrow> (case dget (vr_manifest v) ''sha256'' of JStr s \<Rightarrow> s | _ \<Rightarrow> [])) (with_op os r1 ?a))"
    proof (cases ?old)
      case (Some v)
      then have "v \<in> set (ct_versions (cat a))" "vr_digest v = digest" by (auto simp: version_of_def dest: find_SomeD)
      then have "dget (vr_manifest v) ''sha256'' = JStr ?s" using assms(6) by (simp add: file_versions_def)
      with False Some show ?thesis by (simp add: has_blob_def verify_blob_def rooted_facts)
    qed simp
    have run: "put_file_body e name data manifest digest None (ae_op e) (with_op os r a)
        = (Inr result, with_op os (finish_row (ae_now e 7) ''completed'' (Some result) None r3) a')"
      using nd by (simp add: put_file_body_def Let_def sbind_def r1(1) raise_unless_def ro rooted_facts r2(1) publish_held [OF assms(1,4)] r3(1) c(1))
        (intro impI, elim conjE exE, simp)
    have "\<exists>v \<in> set (ct_versions (cat a')). vr_id v = vid \<and> vr_digest v = digest \<and> vr_root v = rt_id ?root"
    proof (cases "version_of (cat ?b) (rt_id ?root) digest")
      case (Some v)
      then show ?thesis unfolding c(6) by (auto simp: c(2) version_of_def dest: find_SomeD)
    qed (simp add: c(6))
    then obtain v where v: "v \<in> set (ct_versions (cat a'))" "vr_id v = vid" "vr_digest v = digest" "vr_root v = rt_id ?root" by blast
    have bl: "blobs a' s = (if s = ?s \<and> blobs a s = None then Some data else blobs a s)" for s
      by (auto simp: c(4) stored_def rooted_facts)
    have "has_blob ?s a'" using assms(4) bl [of ?s] by (auto simp: has_blob_def)
    moreover have "\<exists>root' \<in> set (ct_roots (cat a')). rt_id root' = rt_id ?root \<and> rt_name root' = name"
      unfolding c(7) stored_cat by (rule rooted_has)
    moreover have "set (ct_versions (cat a)) \<subseteq> set (ct_versions (cat a'))" by (auto simp: c(6) rooted_facts)
    ultimately have "put_done e name data digest a result a'"
      unfolding put_done_def using v bl by (intro exI [of _ v] exI [of _ ?root]) (simp add: c(3) put_result_fields)
    with run show ?thesis using k [OF r3(2)]
      by (intro exI [of _ result] exI [of _ "finish_row (ae_now e 7) ''completed'' (Some result) None r3"] exI [of _ a']) (simp add: finish_row_def)
  qed
qed


section \<open>The manifest of a file\<close>

definition file_manifest :: "(string \<Rightarrow> string) \<Rightarrow> string \<Rightarrow> string \<Rightarrow> obj" where
  "file_manifest sha name data = [(''manifest_version'', JInt 0), (''kind'', JStr ''file''), (''size_bytes'', JInt (int (length data))),
     (''sha256'', JStr (sha data)), (''name'', JStr name)]"

definition file_digest :: "(string \<Rightarrow> string) \<Rightarrow> string \<Rightarrow> string \<Rightarrow> string" where
  "file_digest sha name data = sha (compact (jnorm (JObj (file_manifest sha name data))))"

lemma file_manifest_digest:
  assumes "name \<noteq> []" "is_blob_name (sha data)"
  shows "build_manifest sha data name = Inr (file_manifest sha name data)"
    "manifest_digest sha pk (JObj (file_manifest sha name data)) = Inr (file_digest sha name data)"
proof -
  show "build_manifest sha data name = Inr (file_manifest sha name data)"
    using assms(1) by (simp add: build_manifest_def file_manifest_def)
  have "is_sha256 (JStr (sha data))"
    using assms(2) by (simp add: is_sha256_def is_blob_name_def re_fullmatch_def re_match_dollar_def)
  then have "validate_manifest (JObj (file_manifest sha name data)) = Inr ()"
    using assms(1) by (simp add: validate_manifest_def file_manifest_def exact_fields_def has_key_def dget_def size_ok_def name_ok_def)
  moreover have "canonical_json (JObj (file_manifest sha name data)) = Inr (compact (jnorm (JObj (file_manifest sha name data))))"
    by (rule canonical_json_Inr) (simp_all add: file_manifest_def)
  ultimately show "manifest_digest sha pk (JObj (file_manifest sha name data)) = Inr (file_digest sha name data)"
    by (simp add: manifest_digest_def canonical_manifest_def file_digest_def) (simp add: file_manifest_def dget_def)
qed

lemma put_request_digest: "\<exists>d. request_digest sha mth [(''name'', JStr name), (''manifest_digest'', JStr digest)] key = Inr d"
proof -
  let ?j = "request_json mth [(''name'', JStr name), (''manifest_digest'', JStr digest)] key"
  have "canonical_json ?j = Inr (compact (jnorm ?j))" by (rule canonical_json_Inr) (simp_all add: request_json_def)
  then show ?thesis by (simp add: request_digest_def)
qed

lemma blank_Nil: "\<not> blank name \<Longrightarrow> name \<noteq> []"
  by (auto simp: blank_def)

text \<open>A put with a key whose operation is completed.\<close>

lemma put_file_replays:
  assumes "\<not> blank name" "is_blob_name (ae_sha e data)" "\<not> ct_recovery (cat a)"
    and "find_key_op (cat a) key = Some r" "ao_status r = ''completed''" "ao_result r = Some result"
    and "request_digest (ae_sha e) ''artifact.put_file''
      [(''name'', JStr name), (''manifest_digest'', JStr (file_digest (ae_sha e) name data))] key = Inr (ao_digest r)"
  shows "put_file e name data guard key a = (Inr (dput ''replayed'' (JBool True) result), a)"
  using assms
  by (simp add: put_file_def file_manifest_digest [OF blank_Nil] durable_op_def on_cat_def begin_op_def begin_body_def txn_def replay_result_def)

lemma put_file_run:
  assumes "quiet e" "fresh_op e key a" "\<not> blank name" "is_blob_name (ae_sha e data)"
    and "ae_root e \<notin> rt_id ` set (ct_roots (cat a))" "find_version (cat a) (ae_id e) = None"
    and "file_versions (ae_sha e) data (file_digest (ae_sha e) name data) (cat a)"
  obtains result r a' where "put_file e name data None key a = (Inr result, with_op (ct_ops (cat a)) r a')"
    "put_done e name data (file_digest (ae_sha e) name data) a result a'"
    "ao_key r = key" "ao_status r = ''completed''" "ao_result r = Some result"
    "request_digest (ae_sha e) ''artifact.put_file''
      [(''name'', JStr name), (''manifest_digest'', JStr (file_digest (ae_sha e) name data))] key = Inr (ao_digest r)"
proof -
  let ?d = "file_digest (ae_sha e) name data" and ?m = "file_manifest (ae_sha e) name data" and ?os = "ct_ops (cat a)"
  let ?p = "[(''name'', JStr name), (''manifest_digest'', JStr ?d)]"
  obtain d where d: "request_digest (ae_sha e) ''artifact.put_file'' ?p key = Inr d"
    using put_request_digest by blast
  let ?body = "put_file_body e name data ?m ?d None"
  have "\<forall>r. held e key d ?os r \<longrightarrow> (\<exists>result r' a'. ?body (ae_op e) (with_op ?os r a) = (Inr result, with_op ?os r' a')
    \<and> ao_key r' = key \<and> ao_digest r' = d \<and> ao_status r' = ''completed'' \<and> ao_result r' = Some result
    \<and> put_done e name data ?d a result a')"
    using put_file_body_run [OF assms(1) _ assms(5,4,6,7)] by blast
  then obtain f g h where run: "\<And>r. held e key d ?os r \<Longrightarrow> ?body (ae_op e) (with_op ?os r a) = (Inr (f r), with_op ?os (g r) (h r))
    \<and> ao_key (g r) = key \<and> ao_digest (g r) = d \<and> ao_status (g r) = ''completed'' \<and> ao_result (g r) = Some (f r)
    \<and> put_done e name data ?d a (f r) (h r)" by metis
  obtain r where r: "held e key d ?os r" "durable_op e ''artifact.put_file'' ?p key ?body a = (Inr (f r), with_op ?os (g r) (h r))"
    using durable_new [where res = f and f = "\<lambda>r. with_op ?os (g r) (h r)" and body = ?body, OF assms(1,2) d] run by blast
  have m: "build_manifest (ae_sha e) data name = Inr ?m" "manifest_digest (ae_sha e) (ae_pk e) (JObj ?m) = Inr ?d"
    using file_manifest_digest [where sha = "ae_sha e" and data = data, OF blank_Nil [OF assms(3)] assms(4)] by simp_all
  have "put_file e name data None key a = (Inr (f r), with_op ?os (g r) (h r))"
    using r(2) assms(3) by (simp add: put_file_def m)
  with run [OF r(1)] d show ?thesis by (intro that [of "f r" "g r" "h r"]) simp_all
qed

text \<open>
  C33. A file that is put undisturbed under a new key is published: the call returns the identifier of a version with the
  digest of exactly this content and name, which stands in the catalog under a root of that name, no version is lost, the
  bytes of every other digest are as before, and the bytes under the digest of the content are those of the file unless
  the store had some.  The operation is completed, and every later put of the same content under the same key, in
  whatever state has the row and is not being recovered, returns the same result, marked as replayed, and changes nothing.
\<close>

theorem put_file_publishes:
  assumes "quiet e" "fresh_op e key a" "\<not> blank name" "is_blob_name (ae_sha e data)"
    and "ae_root e \<notin> rt_id ` set (ct_roots (cat a))" "find_version (cat a) (ae_id e) = None"
    and "file_versions (ae_sha e) data (file_digest (ae_sha e) name data) (cat a)"
  shows "\<exists>result r a'. put_file e name data None key a = (Inr result, with_op (ct_ops (cat a)) r a')
    \<and> put_done e name data (file_digest (ae_sha e) name data) a result a'
    \<and> ao_key r = key \<and> ao_status r = ''completed'' \<and> ao_result r = Some result
    \<and> (\<forall>e' guard b. ae_sha e' = ae_sha e \<and> \<not> ct_recovery (cat b) \<and> find_key_op (cat b) key = Some r
         \<longrightarrow> put_file e' name data guard key b = (Inr (dput ''replayed'' (JBool True) result), b))"
proof -
  obtain result r a' where p: "put_file e name data None key a = (Inr result, with_op (ct_ops (cat a)) r a')"
    "put_done e name data (file_digest (ae_sha e) name data) a result a'"
    "ao_key r = key" "ao_status r = ''completed''" "ao_result r = Some result"
    "request_digest (ae_sha e) ''artifact.put_file''
      [(''name'', JStr name), (''manifest_digest'', JStr (file_digest (ae_sha e) name data))] key = Inr (ao_digest r)"
    by (rule put_file_run [OF assms])
  have "put_file e' name data guard key b = (Inr (dput ''replayed'' (JBool True) result), b)"
    if "ae_sha e' = ae_sha e" "\<not> ct_recovery (cat b)" "find_key_op (cat b) key = Some r" for e' guard b
    using put_file_replays [of name e' data b key r result guard] that p(4-6) assms(3,4) by simp
  with p(1-5) show ?thesis by blast
qed

definition demo_artifacts :: artifacts where
  "demo_artifacts = \<lparr>cat = demo_catalog, blobs = (\<lambda>s. None), dests = (\<lambda>p. NoFile), owner = None\<rparr>"

definition demo_quiet :: "string \<Rightarrow> string \<Rightarrow> art_env" where
  "demo_quiet oid token = (demo_art_env token)\<lparr>ae_op := oid, ae_now := (\<lambda>i. 10), ae_lease := 30000000\<rparr>"

lemma demo_quiet_facts: "quiet (demo_quiet oid token)" "is_blob_name (ae_sha (demo_quiet oid token) ''go'')" "\<not> blank ''tool''"
  "ae_sha (demo_quiet oid token) = demo_hash" "ae_op (demo_quiet oid token) = oid" "ae_root (demo_quiet oid token) = ''rot_1''"
  "ae_id (demo_quiet oid token) = ''ver_1''"
proof -
  have "sql_less (10 :: int) 30000010" by (simp add: sql_less_def)
  then show "quiet (demo_quiet oid token)" by (simp add: quiet_def demo_quiet_def demo_art_env_def)
  have "is_blob_name (demo_hash ''go'')" by code_simp
  then show "is_blob_name (ae_sha (demo_quiet oid token) ''go'')" by (simp add: demo_quiet_def demo_art_env_def)
  show "\<not> blank ''tool''" by code_simp
qed (simp_all add: demo_quiet_def demo_art_env_def)

lemma put_file_publishes_witness:
  "\<exists>result b. put_file (demo_quiet ''aop_2'' ''w2'') ''tool'' ''go'' None ''key-0002'' demo_artifacts = (Inr result, b)
    \<and> has_blob (demo_hash ''go'') b \<and> ct_versions (cat b) \<noteq> []"
proof -
  let ?e = "demo_quiet ''aop_2'' ''w2''"
  have f: "fresh_op ?e ''key-0002'' demo_artifacts"
    by (simp add: fresh_op_def find_key_op_def find_aop_def demo_artifacts_def demo_catalog_def demo_aop_def demo_quiet_facts)
  have c: "ae_root ?e \<notin> rt_id ` set (ct_roots (cat demo_artifacts))" "find_version (cat demo_artifacts) (ae_id ?e) = None"
    "file_versions (ae_sha ?e) ''go'' (file_digest (ae_sha ?e) ''tool'' ''go'') (cat demo_artifacts)"
    by (simp_all add: demo_artifacts_def demo_catalog_def find_version_def file_versions_def)
  obtain result r b where p: "put_file ?e ''tool'' ''go'' None ''key-0002'' demo_artifacts = (Inr result, with_op (ct_ops (cat demo_artifacts)) r b)"
    "put_done ?e ''tool'' ''go'' (file_digest (ae_sha ?e) ''tool'' ''go'') demo_artifacts result b"
    using put_file_publishes [OF demo_quiet_facts(1) f demo_quiet_facts(3,2) c] by blast
  have "has_blob (demo_hash ''go'') (with_op (ct_ops (cat demo_artifacts)) r b)" "ct_versions (cat (with_op (ct_ops (cat demo_artifacts)) r b)) \<noteq> []"
    using p(2) by (auto simp: put_done_def has_blob_def demo_quiet_facts)
  with p(1) show ?thesis by blast
qed

text \<open>
  C34. Corrupt content is not repaired: when the store has other bytes under the digest of a file, putting the file succeeds,
  and the bytes under its digest are still the corrupt ones afterwards, although the content is put again to repair it.
\<close>

theorem corrupt_blob_is_not_repaired:
  assumes "quiet e" "fresh_op e key a" "\<not> blank name" "is_blob_name (ae_sha e data)"
    and "ae_root e \<notin> rt_id ` set (ct_roots (cat a))" "find_version (cat a) (ae_id e) = None"
    and "file_versions (ae_sha e) data (file_digest (ae_sha e) name data) (cat a)"
    and "blobs a (ae_sha e data) = Some c" "ae_sha e c \<noteq> ae_sha e data"
  shows "\<exists>result b. put_file e name data None key a = (Inr result, b) \<and> blobs b = blobs a \<and> \<not> verify_blob (ae_sha e) (ae_sha e data) b"
proof -
  obtain result r a' where p: "put_file e name data None key a = (Inr result, with_op (ct_ops (cat a)) r a')"
    "put_done e name data (file_digest (ae_sha e) name data) a result a'"
    by (rule put_file_run [OF assms(1-7)])
  then have "blobs a' = blobs a" using assms(8) by (auto simp: put_done_def fun_eq_iff)
  with p(1) assms(8,9) show ?thesis by (auto simp: verify_blob_def)
qed

lemma corrupt_blob_is_not_repaired_witness:
  "\<exists>result b. put_file (demo_quiet ''aop_2'' ''w2'') ''tool'' ''go'' None ''key-0002''
      (demo_artifacts\<lparr>blobs := [demo_hash ''go'' \<mapsto> ''bad'']\<rparr>) = (Inr result, b)
    \<and> \<not> verify_blob demo_hash (demo_hash ''go'') b"
proof -
  let ?e = "demo_quiet ''aop_2'' ''w2''" and ?a = "demo_artifacts\<lparr>blobs := [demo_hash ''go'' \<mapsto> ''bad'']\<rparr>"
  have f: "fresh_op ?e ''key-0002'' ?a"
    by (simp add: fresh_op_def find_key_op_def find_aop_def demo_artifacts_def demo_catalog_def demo_aop_def demo_quiet_facts)
  have c: "ae_root ?e \<notin> rt_id ` set (ct_roots (cat ?a))" "find_version (cat ?a) (ae_id ?e) = None"
    "file_versions (ae_sha ?e) ''go'' (file_digest (ae_sha ?e) ''tool'' ''go'') (cat ?a)"
    by (simp_all add: demo_artifacts_def demo_catalog_def find_version_def file_versions_def)
  have b: "blobs ?a (ae_sha ?e ''go'') = Some ''bad''" "ae_sha ?e ''bad'' \<noteq> ae_sha ?e ''go''"
    by (simp_all add: demo_quiet_facts demo_hash_def)
  from corrupt_blob_is_not_repaired [OF demo_quiet_facts(1) f demo_quiet_facts(3,2) c b] show ?thesis
    unfolding demo_quiet_facts(4) by blast
qed

end
