(* ===== verification/ArtifactCollections.thy ===== *)
theory ArtifactCollections
  imports ArtifactPut
begin

text \<open>
  Collections, aliases and lineage of artifact versions (\<^verbatim>\<open>src/vanth/artifacts/collections.py\<close>).  Every mutation is a
  durable operation whose change and whose end are one transaction.
\<close>

section \<open>A change and the end of its operation in one transaction\<close>

definition settle :: "art_env \<Rightarrow> string \<Rightarrow> obj cbody \<Rightarrow> obj cbody" where
  "settle e oid change db =
     (case change db of
        Inl x \<Rightarrow> Inl x
      | Inr (result, db1) \<Rightarrow>
          let P = holds_claim (ae_now e 7) oid (ae_token e)
          in if cnt P (ct_ops db1) = 0 then Inl StaleWorker
             else Inr (result, db1\<lparr>ct_ops := upd P (finish_row (ae_now e 7) ''completed'' (Some result) None) (ct_ops db1)\<rparr>))"

definition durable_change :: "art_env \<Rightarrow> string \<Rightarrow> obj \<Rightarrow> string \<Rightarrow> obj cbody \<Rightarrow> obj art" where
  "durable_change e mth payload key change = durable_op e mth payload key (\<lambda>oid. on_cat (txn (settle e oid change)))"

section \<open>Collections\<close>

definition find_collection :: "catalog \<Rightarrow> string \<Rightarrow> collection_row option" where
  "find_collection db x = find (\<lambda>c. cl_name c = x \<or> cl_id c = x) (ct_collections db)"

definition create_body :: "art_env \<Rightarrow> string \<Rightarrow> obj cbody" where
  "create_body e name db =
     (if \<exists>c \<in> set (ct_collections db). cl_name c = name then Inl BadRequest
      else if \<exists>c \<in> set (ct_collections db). cl_id c = ae_id e then Inl Uncaught
      else
        let stamp = ae_now e 2;
            c = \<lparr>cl_id = ae_id e, cl_name = name, cl_created = stamp, cl_updated = stamp\<rparr>
        in Inr ([(''collection_id'', JStr (ae_id e)), (''name'', JStr name), (''created_at'', JStr (now_iso stamp))],
             db\<lparr>ct_collections := ct_collections db @ [c]\<rparr>))"

definition create_collection :: "art_env \<Rightarrow> string \<Rightarrow> string \<Rightarrow> obj art" where
  "create_collection e name key a =
     (if blank name then (Inl BadRequest, a)
      else durable_change e ''collection.create'' [(''name'', JStr name)] key (create_body e name) a)"

text \<open>The members of a collection in the order of their ordinals.\<close>

definition members_of :: "catalog \<Rightarrow> string \<Rightarrow> member_row list" where
  "members_of db cid = sort_key mb_ordinal (filter (\<lambda>m. mb_collection m = cid) (ct_members db))"

definition member_json :: "member_row \<Rightarrow> json" where
  "member_json m = JObj [(''version_id'', JStr (mb_version m)), (''ordinal'', JInt (mb_ordinal m)), (''created_at'', JStr (now_iso (mb_created m)))]"

definition append_body :: "art_env \<Rightarrow> string \<Rightarrow> string \<Rightarrow> obj cbody" where
  "append_body e coll vid db =
     (case find_collection db coll of
        None \<Rightarrow> Inl UnknownThing
      | Some c \<Rightarrow>
          if find_version db vid = None then Inl UnknownThing
          else
            let current = members_of db (cl_id c);
                already = find (\<lambda>m. mb_version m = vid) current;
                ordinal = (case already of Some m \<Rightarrow> mb_ordinal m | None \<Rightarrow> if current = [] then 1 else mb_ordinal (last current) + 1);
                new = \<lparr>mb_collection = cl_id c, mb_version = vid, mb_ordinal = ordinal, mb_created = ae_now e 2\<rparr>;
                added = (if already = None then [new] else []);
                result = [(''collection_id'', JStr (cl_id c)), (''name'', JStr (cl_name c)), (''version_id'', JStr vid),
                  (''ordinal'', JInt ordinal), (''appended'', JBool (already = None)),
                  (''versions'', JArr (map member_json (current @ added)))]
            in Inr (result,
                 if already = None then
                   db\<lparr>ct_members := ct_members db @ added,
                     ct_collections := upd (\<lambda>d. cl_id d = cl_id c) (\<lambda>d. d\<lparr>cl_updated := ae_now e 3\<rparr>) (ct_collections db)\<rparr>
                 else db))"

definition append_version :: "art_env \<Rightarrow> string \<Rightarrow> string \<Rightarrow> string \<Rightarrow> obj art" where
  "append_version e coll vid key a =
     (if blank vid then (Inl BadRequest, a)
      else durable_change e ''collection.append_version'' [(''collection'', JStr coll), (''version_id'', JStr vid)] key
        (append_body e coll vid) a)"

text \<open>A member whose version is gone is not listed.\<close>

definition get_collection :: "catalog \<Rightarrow> string \<Rightarrow> aerr + obj" where
  "get_collection db x =
     (if blank x then Inl BadRequest
      else (case find_collection db x of
          None \<Rightarrow> Inl UnknownThing
        | Some c \<Rightarrow> Inr [(''collection_id'', JStr (cl_id c)), (''name'', JStr (cl_name c)),
            (''created_at'', JStr (now_iso (cl_created c))), (''updated_at'', JStr (now_iso (cl_updated c))),
            (''versions'', JArr (concat (map (\<lambda>m. case find_version db (mb_version m) of
                 None \<Rightarrow> []
               | Some v \<Rightarrow> [JObj [(''ordinal'', JInt (mb_ordinal m)), (''version_id'', JStr (mb_version m)),
                   (''created_at'', JStr (now_iso (mb_created m))), (''root_id'', JStr (vr_root v)),
                   (''manifest_digest'', JStr (vr_digest v)), (''size_bytes'', JInt (vr_size v))]]) (members_of db (cl_id c)))))]))"

section \<open>Aliases\<close>

definition find_alias :: "catalog \<Rightarrow> string \<Rightarrow> alias_row option" where
  "find_alias db x = find (\<lambda>l. al_name l = x) (ct_aliases db)"

definition alias_body :: "art_env \<Rightarrow> string \<Rightarrow> string \<Rightarrow> string option \<Rightarrow> string \<Rightarrow> string option \<Rightarrow> obj cbody" where
  "alias_body e name root expected new by_whom db =
     (case find_version db new of
        None \<Rightarrow> Inl UnknownThing
      | Some v \<Rightarrow>
          if vr_root v \<noteq> root then Inl BadRequest
          else
            let current = find_alias db name;
                result = (\<lambda>created. [(''alias_name'', JStr name), (''root_id'', JStr root),
                  (''previous_version_id'', jstr_opt (map_option al_version current)), (''version_id'', JStr new), (''created'', JBool created)])
            in (case expected of
                  None \<Rightarrow>
                    if current \<noteq> None then Inl BadRequest
                    else Inr (result True, db\<lparr>ct_aliases := ct_aliases db @ [\<lparr>al_name = name, al_root = root, al_version = new,
                           al_updated = ae_now e 2, al_pinned = Some (ae_now e 2), al_by = by_whom\<rparr>]\<rparr>)
                | Some x \<Rightarrow>
                    (case current of
                       None \<Rightarrow> Inl BadRequest
                     | Some l \<Rightarrow>
                         if al_version l \<noteq> x then Inl BadRequest
                         else if al_root l \<noteq> root then Inl BadRequest
                         else Inr (result False, db\<lparr>ct_aliases := upd (\<lambda>q. al_name q = name)
                                (\<lambda>q. q\<lparr>al_root := root, al_version := new, al_updated := ae_now e 2, al_by := by_whom\<rparr>) (ct_aliases db)\<rparr>))))"

definition alias_set :: "art_env \<Rightarrow> string \<Rightarrow> string \<Rightarrow> string option \<Rightarrow> string \<Rightarrow> string option \<Rightarrow> string \<Rightarrow> obj art" where
  "alias_set e name root expected new by_whom key a =
     (if blank name \<or> blank root \<or> blank new then (Inl BadRequest, a)
      else durable_change e ''collection.alias_set''
        [(''alias_name'', JStr name), (''root_id'', JStr root), (''expected_version_id'', jstr_opt expected), (''new_version_id'', JStr new)] key
        (alias_body e name root expected new by_whom) a)"

section \<open>Lineage\<close>

definition LINEAGE_KINDS :: "string list" where
  "LINEAGE_KINDS = [''job'', ''remote_job'', ''version'', ''alias'']"

definition lineage_body :: "art_env \<Rightarrow> string \<times> string \<Rightarrow> string \<times> string \<Rightarrow> string \<Rightarrow> obj cbody" where
  "lineage_body e producer consumer vid db =
     (if find_version db vid = None then Inl UnknownThing
      else
        let existing = find (\<lambda>l. ln_producer l = producer \<and> ln_consumer l = consumer \<and> ln_version l = vid) (ct_lineage db);
            lid = (case existing of Some l \<Rightarrow> ln_id l | None \<Rightarrow> ae_id e);
            result = [(''lin_id'', JStr lid), (''producer_kind'', JStr (fst producer)), (''producer_id'', JStr (snd producer)),
              (''consumer_kind'', JStr (fst consumer)), (''consumer_id'', JStr (snd consumer)), (''version_id'', JStr vid),
              (''deduplicated'', JBool (existing \<noteq> None))]
        in if existing \<noteq> None then Inr (result, db)
           else if \<exists>l \<in> set (ct_lineage db). ln_id l = ae_id e then Inl Uncaught
           else Inr (result, db\<lparr>ct_lineage := ct_lineage db @ [\<lparr>ln_id = lid, ln_producer = producer, ln_consumer = consumer,
                  ln_version = vid, ln_created = ae_now e 2\<rparr>]\<rparr>))"

definition link_lineage :: "art_env \<Rightarrow> string \<times> string \<Rightarrow> string \<times> string \<Rightarrow> string \<Rightarrow> string \<Rightarrow> obj art" where
  "link_lineage e producer consumer vid key a =
     (if fst producer \<notin> set LINEAGE_KINDS \<or> fst consumer \<notin> set LINEAGE_KINDS then (Inl BadRequest, a)
      else if blank (snd producer) \<or> blank (snd consumer) \<or> blank vid then (Inl BadRequest, a)
      else durable_change e ''collection.link_lineage''
        [(''producer_kind'', JStr (fst producer)), (''producer_id'', JStr (snd producer)), (''consumer_kind'', JStr (fst consumer)),
         (''consumer_id'', JStr (snd consumer)), (''version_id'', JStr vid)] key
        (lineage_body e producer consumer vid) a)"

definition lineage_for :: "catalog \<Rightarrow> string \<Rightarrow> aerr + lineage_row list" where
  "lineage_for db vid =
     (if vid = [] then Inl BadRequest
      else Inr (sort_key (\<lambda>l. now_iso (ln_created l)) (sort_key ln_id (filter (\<lambda>l. ln_version l = vid) (ct_lineage db)))))"

end
