(* ===== verification/ArtifactLifecycle.thy ===== *)
theory ArtifactLifecycle
  imports ArtifactCollections
begin

text \<open>
  The life of artifact versions (\<^verbatim>\<open>src/vanth/artifacts/lifecycle.py\<close>): delete requests, pins, garbage
  collection, and the restore of a backup under a new identity.
\<close>

section \<open>Delete requests and pins\<close>

definition require_version :: "catalog \<Rightarrow> string \<Rightarrow> aerr + version_row" where
  "require_version db vid =
     (if blank vid then Inl BadRequest else (case find_version db vid of None \<Rightarrow> Inl UnknownThing | Some v \<Rightarrow> Inr v))"

definition set_version :: "string \<Rightarrow> (version_row \<Rightarrow> version_row) \<Rightarrow> catalog \<Rightarrow> catalog" where
  "set_version vid f db = db\<lparr>ct_versions := upd (\<lambda>v. vr_id v = vid) f (ct_versions db)\<rparr>"

definition delete_body :: "art_env \<Rightarrow> string \<Rightarrow> obj cbody" where
  "delete_body e vid db =
     ebind (require_version db vid) (\<lambda>_.
     if \<exists>l \<in> set (ct_aliases db). al_version l = vid then Inl BadRequest
     else Inr ([(''version_id'', JStr vid), (''delete_requested'', JBool True)],
            set_version vid (\<lambda>v. v\<lparr>vr_requested := Some (ae_now e 2)\<rparr>) db))"

definition request_delete :: "art_env \<Rightarrow> string \<Rightarrow> string \<Rightarrow> obj art" where
  "request_delete e vid key = durable_change e ''lifecycle.request_delete'' [(''version_id'', JStr vid)] key (delete_body e vid)"

definition restore_body :: "string \<Rightarrow> obj cbody" where
  "restore_body vid db =
     ebind (require_version db vid) (\<lambda>_.
     Inr ([(''version_id'', JStr vid), (''delete_requested'', JBool False)], set_version vid (\<lambda>v. v\<lparr>vr_requested := None\<rparr>) db))"

definition restore :: "art_env \<Rightarrow> string \<Rightarrow> string \<Rightarrow> obj art" where
  "restore e vid key = durable_change e ''lifecycle.restore'' [(''version_id'', JStr vid)] key (restore_body vid)"

definition pin_body :: "string \<Rightarrow> string option \<Rightarrow> obj cbody" where
  "pin_body vid hold db =
     ebind (require_version db vid) (\<lambda>_.
     Inr ([(''version_id'', JStr vid), (''pin_hold'', jstr_opt hold)], set_version vid (\<lambda>v. v\<lparr>vr_pin := hold\<rparr>) db))"

definition pin :: "art_env \<Rightarrow> string \<Rightarrow> string \<Rightarrow> string \<Rightarrow> obj art" where
  "pin e vid reason key a =
     (if blank reason then (Inl BadRequest, a)
      else durable_change e ''lifecycle.pin'' [(''version_id'', JStr vid), (''hold_reason'', JStr reason)] key (pin_body vid (Some reason)) a)"

definition unpin :: "art_env \<Rightarrow> string \<Rightarrow> string \<Rightarrow> obj art" where
  "unpin e vid key = durable_change e ''lifecycle.unpin'' [(''version_id'', JStr vid)] key (pin_body vid None)"

section \<open>Garbage collection\<close>

text \<open>\<open>re.findall\<close> of a prefix and \<open>n\<close> lower case hexadecimal digits: the matches from the left, without overlap.\<close>

fun hex_matches :: "string \<Rightarrow> nat \<Rightarrow> string \<Rightarrow> string list" where
  "hex_matches pre n [] = []"
| "hex_matches pre n (c # s) =
     (let k = length pre + n; m = take k (c # s)
      in if length m = k \<and> take (length pre) m = pre \<and> list_all is_lower_hex (drop (length pre) m)
         then m # hex_matches pre n (drop (k - 1) s)
         else hex_matches pre n s)"

text \<open>What the running operations mention: their payloads and results as stored texts.\<close>

definition running_texts :: "catalog \<Rightarrow> string list" where
  "running_texts db = concat (map (\<lambda>r. dumps (JObj (ao_payload r)) # (case ao_result r of None \<Rightarrow> [] | Some d \<Rightarrow> [dumps (JObj d)]))
     (filter (\<lambda>r. ao_status r = ''running'') (ct_ops db)))"

definition running_refs :: "catalog \<Rightarrow> string list" where
  "running_refs db = concat (map (hex_matches ''ver_'' 32) (running_texts db))"

definition running_shas :: "catalog \<Rightarrow> string list" where
  "running_shas db = concat (map (hex_matches [] 64) (running_texts db))"

definition gc_candidate :: "catalog \<Rightarrow> version_row \<Rightarrow> bool" where
  "gc_candidate db v =
     (vr_id v \<notin> al_version ` set (ct_aliases db) \<and> vr_id v \<notin> mb_version ` set (ct_members db)
      \<and> \<not> (\<exists>w \<in> set (ct_versions db). vr_id w = vr_id v \<and> vr_pin w \<noteq> None) \<and> vr_id v \<notin> set (running_refs db)
      \<and> (vr_deleted v \<noteq> None \<or> Some (vr_id v) \<notin> rt_latest ` set (ct_roots db)))"

definition referenced :: "version_row list \<Rightarrow> string list" where
  "referenced vs = concat (map (\<lambda>v. manifest_shas (vr_manifest v)) vs)"

text \<open>
  \<open>disk\<close> is the sorted listing of the file names in the store and \<open>bytes\<close> their sizes; the size of a file whose name is
  no digest cannot be asked for.
\<close>

definition gc_body :: "string list \<Rightarrow> (string \<Rightarrow> int) \<Rightarrow> bool \<Rightarrow> obj cbody" where
  "gc_body disk bytes dry db =
     (let candidates = map vr_id (filter (gc_candidate db) (ct_versions db));
          survivors = filter (\<lambda>v. vr_id v \<notin> set candidates) (ct_versions db);
          unreferenced = filter (\<lambda>s. s \<notin> set (referenced survivors) \<and> s \<notin> set (running_shas db)) disk;
          report = (\<lambda>freed. [(''dry_run'', JBool dry), (''candidates'', JArr (map JStr (sort candidates))),
            (''blobs_freed'', JArr (map JStr freed)), (''would_free_bytes'', JInt (sum_list (map bytes freed)))])
      in if list_ex (\<lambda>s. \<not> is_blob_name s) unreferenced then Inl BadRequest
         else if dry then Inr (report unreferenced, db)
         else
           let db1 = db\<lparr>ct_lineage := del (\<lambda>l. ln_version l \<in> set candidates) (ct_lineage db),
                 ct_versions := del (\<lambda>v. vr_id v \<in> set candidates) (ct_versions db)\<rparr>
           in Inr (report (filter (\<lambda>s. s \<notin> set (referenced (ct_versions db1))) unreferenced), db1))"

text \<open>The files go in a section that excludes publications, where the references are read again.\<close>

definition freed_names :: "obj \<Rightarrow> string list" where
  "freed_names result = (case dget result ''blobs_freed'' of JArr xs \<Rightarrow> concat (map (\<lambda>v. case v of JStr s \<Rightarrow> [s] | _ \<Rightarrow> []) xs) | _ \<Rightarrow> [])"

definition unlink_freed :: "obj \<Rightarrow> obj art" where
  "unlink_freed result a =
     (let freed = filter (\<lambda>s. s \<notin> set (referenced (ct_versions (cat a)))) (freed_names result)
      in (Inr (dput ''blobs_freed'' (JArr (map JStr freed)) result),
          a\<lparr>blobs := (\<lambda>s. if s \<in> set freed then None else blobs a s)\<rparr>))"

definition blob_size :: "artifacts \<Rightarrow> string \<Rightarrow> int" where
  "blob_size a s = (case blobs a s of None \<Rightarrow> 0 | Some c \<Rightarrow> int (length c))"

definition gc :: "art_env \<Rightarrow> (artifacts \<Rightarrow> string list) \<Rightarrow> bool \<Rightarrow> string \<Rightarrow> obj art" where
  "gc e disk dry key =
     durable_op e ''lifecycle.gc'' [(''dry_run'', JBool dry)] key
       (\<lambda>oid. sbind (stmt e 8 (\<lambda>a. on_cat (txn (settle e oid (gc_body (disk a) (blob_size a) dry))) a))
          (\<lambda>result. if dry then sret result else unlink_freed result))"

section \<open>Backups\<close>

text \<open>
  \<open>copy\<close> is the content of a backup that passed the checks.  The live catalog is locked before the copy arrives; a
  crash in between leaves it locked.
\<close>

definition begin_restore :: "string \<Rightarrow> catalog option \<Rightarrow> bool \<Rightarrow> artifacts \<Rightarrow> (aerr + obj) \<times> artifacts" where
  "begin_restore fresh copy crash a =
     (case copy of
        None \<Rightarrow> (Inl BadRequest, a)
      | Some c \<Rightarrow>
          let prepared = c\<lparr>ct_instance := fresh, ct_epoch := ct_epoch c + 1, ct_recovery := True\<rparr>;
              locked = a\<lparr>cat := (cat a)\<lparr>ct_recovery := True\<rparr>\<rparr>
          in if crash then (Inl Uncaught, locked)
             else (Inr [(''catalog_id'', JStr (ct_id prepared)), (''instance_id'', JStr fresh), (''state_epoch'', JInt (ct_epoch prepared)),
                    (''recovery_required'', JBool True)], locked\<lparr>cat := prepared\<rparr>))"

text \<open>The marker of the store is written first; a crash before the catalog is unlocked leaves it locked.\<close>

definition complete_restore :: "bool \<Rightarrow> artifacts \<Rightarrow> (aerr + obj) \<times> artifacts" where
  "complete_restore crash a =
     (let marked = a\<lparr>owner := Some (ct_id (cat a), ct_instance (cat a))\<rparr>
      in if crash then (Inl Uncaught, marked)
         else (Inr [(''catalog_id'', JStr (ct_id (cat a))), (''instance_id'', JStr (ct_instance (cat a))),
                (''state_epoch'', JInt (ct_epoch (cat a))), (''recovery_required'', JBool False)],
              marked\<lparr>cat := (cat a)\<lparr>ct_recovery := False\<rparr>\<rparr>))"

end
