(* ===== verification/ArtifactIntegrity.thy ===== *)
theory ArtifactIntegrity
  imports ArtifactLifecycle ArtifactPublish
begin

text \<open>
  What every call of the artifact subsystem keeps, with other workers between its statements: references never dangle,
  and every version has its contents.
\<close>

section \<open>A sound store\<close>

abbreviation version_ids :: "catalog \<Rightarrow> string set" where
  "version_ids db \<equiv> vr_id ` set (ct_versions db)"

definition refs_ok :: "catalog \<Rightarrow> bool" where
  "refs_ok db = ((\<forall>l \<in> set (ct_aliases db). al_version l \<in> version_ids db)
     \<and> (\<forall>m \<in> set (ct_members db). mb_version m \<in> version_ids db)
     \<and> (\<forall>l \<in> set (ct_lineage db). ln_version l \<in> version_ids db)
     \<and> (\<forall>r \<in> set (ct_roots db). \<forall>v. rt_latest r = Some v \<longrightarrow> v \<in> version_ids db)
     \<and> (\<forall>v \<in> set (ct_versions db). vr_deleted v = None))"

definition complete :: "artifacts \<Rightarrow> bool" where
  "complete a = (\<forall>v \<in> set (ct_versions (cat a)). \<forall>s \<in> set (manifest_shas (vr_manifest v)). blobs a s \<noteq> None)"

text \<open>\<open>S\<close> are contents that a publication has already stored.\<close>

definition sound :: "string set \<Rightarrow> artifacts \<Rightarrow> bool" where
  "sound S a = (refs_ok (cat a) \<and> complete a \<and> (\<forall>s \<in> S. blobs a s \<noteq> None))"

text \<open>
  Other workers keep the store sound, and while a publication holds the fence (at its points 5 and 6) they remove
  no content.
\<close>

definition polite :: "art_env \<Rightarrow> bool" where
  "polite e = (\<forall>i a. sound {} a \<longrightarrow> sound {} (ae_other e i a)
     \<and> (i = 5 \<or> i = 6 \<longrightarrow> (\<forall>s. blobs a s \<noteq> None \<longrightarrow> blobs (ae_other e i a) s \<noteq> None)))"

section \<open>Actions that keep a property\<close>

definition keeps :: "(artifacts \<Rightarrow> bool) \<Rightarrow> 'a art \<Rightarrow> bool" where
  "keeps P m = (\<forall>a. P a \<longrightarrow> P (snd (m a)))"

lemma keepsI: "(\<And>a. P a \<Longrightarrow> P (snd (m a))) \<Longrightarrow> keeps P m"
  by (simp add: keeps_def)

lemma keeps_sbind: "keeps P m \<Longrightarrow> (\<And>x. keeps P (k x)) \<Longrightarrow> keeps P (sbind m k)"
  by (auto simp: keeps_def sbind_def split: prod.splits sum.splits)

lemma keeps_sret: "keeps P (sret x)" by (simp add: keeps_def)

lemma keeps_const: "(\<And>a. snd (m a) = a) \<Longrightarrow> keeps P m" by (simp add: keeps_def)

lemma keeps_stmt: "keeps P m \<Longrightarrow> (\<And>a. P a \<Longrightarrow> P (ae_other e i a)) \<Longrightarrow> keeps P (stmt e i m)"
  by (auto simp: keeps_def stmt_def split: prod.splits)

lemma keeps_if: "(b \<Longrightarrow> keeps P m) \<Longrightarrow> (\<not> b \<Longrightarrow> keeps P n) \<Longrightarrow> keeps P (if b then m else n)"
  by simp

text \<open>What soundness reads of the catalog.\<close>

lemma sound_cong:
  assumes "ct_versions db = ct_versions (cat a)" "ct_aliases db = ct_aliases (cat a)" "ct_members db = ct_members (cat a)"
    "ct_lineage db = ct_lineage (cat a)" "ct_roots db = ct_roots (cat a)"
  shows "sound S (a\<lparr>cat := db\<rparr>) = sound S a"
  by (simp add: sound_def refs_ok_def complete_def assms)

lemma keeps_txn_ops:
  assumes "\<And>db x db'. body db = Inr (x, db') \<Longrightarrow> db' = db\<lparr>ct_ops := ct_ops db'\<rparr>"
  shows "keeps (sound S) (on_cat (txn body))"
proof (rule keepsI)
  fix a assume s: "sound S a"
  show "sound S (snd (on_cat (txn body) a))"
  proof (cases "body (cat a)")
    case (Inr p)
    obtain x db where p: "p = (x, db)" by (cases p)
    from assms [OF Inr [unfolded p]] have "sound S (a\<lparr>cat := db\<rparr>) = sound S a"
      by (intro sound_cong; metis catalog.select_convs catalog.update_convs(1) catalog.surjective)
    with s Inr p show ?thesis by (simp add: on_cat_def txn_def)
  qed (use s in \<open>simp add: on_cat_def txn_def\<close>)
qed

lemma keeps_renew: "keeps (sound S) (renew e i oid)"
  unfolding renew_def renew_op_def by (rule keeps_txn_ops) (auto simp: Let_def split: if_splits)

lemma keeps_tick: "keeps (sound S) (tick e i oid)"
  using keeps_renew [of S e i oid] by (simp add: keeps_def tick_def)

lemma keeps_finish: "keeps (sound S) (on_cat (finish_op now oid token status result error))"
  unfolding finish_op_def by (rule keeps_txn_ops) (auto simp: Let_def split: if_splits)

lemma keeps_claim: "keeps (sound S) (on_cat (claim_op token now lease oid))"
  unfolding claim_op_def by (rule keeps_txn_ops) (auto simp: claim_body_def Let_def split: if_splits option.splits)

lemma keeps_begin: "keeps (sound S) (on_cat (begin_op sha fresh now mth payload key))"
proof (rule keepsI)
  fix a assume s: "sound S a"
  obtain r db where b: "begin_op sha fresh now mth payload key (cat a) = (r, db)" by (cases "begin_op sha fresh now mth payload key (cat a)")
  then have "sound S (a\<lparr>cat := db\<rparr>)"
    by (cases rule: begin_cases) (use s in \<open>simp_all add: sound_cong\<close>)
  with b show "sound S (snd (on_cat (begin_op sha fresh now mth payload key) a))" by (simp add: on_cat_def)
qed

text \<open>The frame of a durable operation keeps what its body keeps.\<close>

lemma keeps_durable:
  assumes "polite e" "\<And>oid. keeps (sound {}) (body oid)"
  shows "keeps (sound {}) (durable_op e mth payload key body)"
proof (rule keepsI)
  fix a assume s: "sound {} a"
  let ?b = "on_cat (begin_op (ae_sha e) (ae_op e) (ae_now e 0) mth payload key)"
  let ?c = "\<lambda>r. on_cat (claim_op (ae_token e) (ae_now e 1) (ae_lease e) (ao_id r))"
  have o: "sound {} x \<Longrightarrow> sound {} (ae_other e i x)" for i x using assms(1) by (simp add: polite_def)
  have b: "sound {} (snd (?b x))" if "sound {} x" for x using keeps_begin that by (simp add: keeps_def)
  have c: "sound {} (snd (?c r x))" if "sound {} x" for r x using keeps_claim that by (simp add: keeps_def)
  have f: "sound {} (snd (on_cat (fail_op now oid token msg) x))" if "sound {} x" for now oid token msg x
    using keeps_finish that by (simp add: keeps_def fail_op_def)
  have bd: "sound {} (snd (body oid x))" if "sound {} x" for oid x using assms(2) that by (simp add: keeps_def)
  show "sound {} (snd (durable_op e mth payload key body a))"
  proof (cases "?b a")
    case (Pair r a1)
    have a1: "sound {} a1" using b [OF s] Pair by simp
    show ?thesis
    proof (cases r)
      case (Inr p)
      obtain row rep where p: "p = (row, rep)" by (cases p)
      obtain q a2 where q: "?c row (ae_other e 0 a1) = (q, a2)" by (cases "?c row (ae_other e 0 a1)")
      have a2: "sound {} a2" using c [OF o [OF a1], of row 0] q by simp
      obtain w a3 where w: "body (ao_id row) (ae_other e 1 a2) = (w, a3)" by (cases "body (ao_id row) (ae_other e 1 a2)")
      have a3: "sound {} a3" using bd [OF o [OF a2], of "ao_id row" 1] w by simp
      show ?thesis
        using Pair Inr p q a1 a2 a3 w f [OF a3]
        by (simp add: durable_op_def del: One_nat_def split: sum.splits)
    qed (use Pair a1 in \<open>simp add: durable_op_def\<close>)
  qed
qed

section \<open>Publications\<close>

lemma sound_mono: "sound S a \<Longrightarrow> T \<subseteq> S \<Longrightarrow> sound T a"
  by (auto simp: sound_def)

text \<open>An action that leads from contents \<open>S\<close> to a property of its result, and keeps the store sound when it fails.\<close>

definition leads :: "string set \<Rightarrow> ('a \<Rightarrow> artifacts \<Rightarrow> bool) \<Rightarrow> 'a art \<Rightarrow> bool" where
  "leads S Q m = (\<forall>a. sound S a \<longrightarrow> (case m a of (Inl x, a') \<Rightarrow> sound {} a' | (Inr r, a') \<Rightarrow> Q r a'))"

lemma leads_sbind: "leads S (\<lambda>_. sound T) m \<Longrightarrow> (\<And>x. leads T Q (k x)) \<Longrightarrow> leads S Q (sbind m k)"
  by (fastforce simp: leads_def sbind_def split: prod.splits sum.splits)

lemma leads_keeps: "keeps (sound S) m \<Longrightarrow> leads S (\<lambda>_. sound S) m"
  by (auto simp: leads_def keeps_def split: prod.splits sum.splits dest: sound_mono [of S _ "{}"]) (metis snd_conv sound_mono empty_subsetI)

lemma keeps_leads: "leads {} (\<lambda>_. sound {}) m \<Longrightarrow> keeps (sound {}) m"
  by (auto simp: leads_def keeps_def split: prod.splits sum.splits) (metis obj_sumE prod.collapse)

lemma leads_stmt:
  assumes "polite e" "i = 5 \<or> i = 6 \<or> T = {}" "leads S (\<lambda>_. sound T) m"
  shows "leads S (\<lambda>_. sound T) (stmt e i m)"
proof -
  have o: "sound {} a \<Longrightarrow> sound {} (ae_other e i a)" for a using assms(1) by (simp add: polite_def)
  moreover have "sound T (ae_other e i a)" if "sound T a" for a
  proof -
    have "sound {} (ae_other e i a)" using that by (intro o) (rule sound_mono, auto)
    moreover have "blobs (ae_other e i a) s \<noteq> None" if "s \<in> T" for s
      using \<open>sound T a\<close> that assms(1,2) sound_mono [of T a "{}"] by (auto simp: polite_def sound_def)
    ultimately show ?thesis by (auto simp: sound_def)
  qed
  ultimately have o2: "sound {} a \<Longrightarrow> sound {} (ae_other e i a)" "sound T a \<Longrightarrow> sound T (ae_other e i a)" for a by blast+
  show ?thesis unfolding leads_def
  proof (intro allI impI)
    fix a assume s: "sound S a"
    obtain r a' where m: "m a = (r, a')" by (cases "m a")
    then have "case r of Inl x \<Rightarrow> sound {} a' | Inr _ \<Rightarrow> sound T a'" using assms(3) s by (auto simp: leads_def split: sum.splits)
    then show "case stmt e i m a of (Inl x, a') \<Rightarrow> sound {} a' | (Inr r, a') \<Rightarrow> sound T a'"
      using o2 by (simp add: stmt_def m split: sum.splits)
  qed
qed

lemma leads_publish: "leads S (\<lambda>_. sound (insert s S)) (publish_staged sha data s)"
  by (auto simp: leads_def publish_staged_def sound_def complete_def)

lemma leads_publish_all:
  assumes "polite e"
  shows "leads S (\<lambda>_. sound (S \<union> fst ` set xs)) (publish_all e oid xs)"
proof (induction xs arbitrary: S)
  case Nil
  show ?case by (simp add: leads_def)
next
  case (Cons x xs)
  obtain s data where x: "x = (s, data)" by (cases x)
  have t: "leads T (\<lambda>_. sound T) (stmt e 5 (tick e 5 oid))" for T
    by (rule leads_stmt [OF assms _ leads_keeps [OF keeps_tick]]) simp
  have "leads S (\<lambda>_. sound (insert s S \<union> fst ` set xs)) (publish_all e oid ((s, data) # xs))"
    unfolding publish_all.simps by (rule leads_sbind [OF leads_publish leads_sbind [OF t Cons.IH]])
  then show ?case by (simp add: x)
qed

lemma leads_commit:
  assumes "set (manifest_shas manifest) \<subseteq> S"
  shows "leads S (\<lambda>_. sound {}) (on_cat (txn (commit_body e oid guard root name digest manifest bytes extra)))"
proof -
  have "sound {} (a\<lparr>cat := db\<rparr>)" if s: "sound S a" and b: "commit_body e oid guard root name digest manifest bytes extra (cat a) = Inr (r, db)" for a r db
  proof -
    have old: "vr_id v \<in> version_ids (cat a)" if "version_of (cat a) root digest = Some v" for v
      using that by (auto simp: version_of_def dest: find_SomeD)
    show ?thesis
    proof (rule publication_cases [OF b], goal_cases)
      case (1 vid)
      let ?vid = "case version_of (cat a) root digest of None \<Rightarrow> ae_id e | Some v \<Rightarrow> vr_id v"
      have db: "ct_versions db = ct_versions (cat a) @ (case version_of (cat a) root digest of Some _ \<Rightarrow> [] | None \<Rightarrow> [\<lparr>vr_id = vid, vr_root = root, vr_digest = digest,
           vr_manifest = manifest, vr_size = bytes, vr_deleted = None, vr_requested = None, vr_pin = None, vr_created = ae_now e 7\<rparr>])"
        "ct_roots db = upd (\<lambda>r. rt_id r = root) (\<lambda>r. r\<lparr>rt_latest := Some vid, rt_updated := ae_now e 7\<rparr>) (ct_roots (cat a))"
        "ct_aliases db = ct_aliases (cat a)" "ct_members db = ct_members (cat a)" "ct_lineage db = ct_lineage (cat a)"
        unfolding 1(6) by simp_all
      note vid = 1(1)
      have v: "vid \<in> version_ids db" using old by (auto simp: db(1) vid split: option.split)
      have i: "version_ids (cat a) \<subseteq> version_ids db" by (auto simp: db(1))
      have "\<forall>v \<in> set (ct_versions db). vr_deleted v = None"
        using s by (cases "version_of (cat a) root digest") (simp_all add: db(1) sound_def refs_ok_def)
      then have "refs_ok db"
        using s i v unfolding sound_def refs_ok_def db(2-5) by (auto simp: upd_def)
      moreover have "complete (a\<lparr>cat := db\<rparr>)"
        using s assms by (cases "version_of (cat a) root digest") (auto simp: sound_def complete_def db(1))
      ultimately show ?case by (simp add: sound_def)
    qed
  qed
  moreover have "sound {} a" if "sound S a" for a using that by (auto intro: sound_mono)
  ultimately show ?thesis by (auto simp: leads_def on_cat_def txn_def split: sum.splits prod.splits)
qed

lemma keeps_root: "keeps (sound S) (on_cat (get_or_create_root fresh now name))"
  by (rule keepsI) (auto simp: on_cat_def get_or_create_root_def Let_def sound_def refs_ok_def complete_def split: option.splits)

lemma keeps_complete: "keeps (sound S) (on_cat (complete_op now oid token result))"
  unfolding complete_op_def by (rule keeps_finish)

lemma leadsI: "(\<And>a. sound S a \<Longrightarrow> case m a of (Inl x, a') \<Rightarrow> sound {} a' | (Inr r, a') \<Rightarrow> Q r a') \<Longrightarrow> leads S Q m"
  by (simp add: leads_def)

lemma leadsD: "leads S Q m \<Longrightarrow> sound S a \<Longrightarrow> case m a of (Inl x, a') \<Rightarrow> sound {} a' | (Inr r, a') \<Rightarrow> Q r a'"
  by (simp add: leads_def)

lemma leads_quick: "keeps (sound {}) m \<Longrightarrow> leads {} (\<lambda>_. sound {}) (sbind m (\<lambda>_. sret x))"
  by (rule leads_sbind [OF leads_keeps]) (simp_all add: leads_def)

lemma file_manifest_shas: "set (manifest_shas (file_manifest sha name data)) \<subseteq> {sha data}"
  by (simp add: manifest_shas_def file_manifest_def dget_def)

lemma keeps_put_file_body:
  assumes "polite e" "build_manifest (ae_sha e) data name = Inr manifest"
  shows "keeps (sound {}) (put_file_body e name data manifest digest guard oid)"
proof -
  have m: "set (manifest_shas manifest) \<subseteq> {ae_sha e data}"
    using assms(2) file_manifest_shas [of "ae_sha e" name data]
    by (auto simp: build_manifest_def file_manifest_def ensure_def split: if_splits)
  have st: "leads S (\<lambda>_. sound T) (stmt e i p)" if "leads S (\<lambda>_. sound T) p" "i = 5 \<or> i = 6 \<or> T = {}" for S T i and p :: "'x art"
    by (rule leads_stmt [OF assms(1) that(2,1)])
  have rn: "leads S (\<lambda>_. sound S) (renew e i oid)" for S i by (rule leads_keeps [OF keeps_renew])
  have pub: "leads {} (\<lambda>_. sound {}) (sbind (stmt e 4 (tick e 4 oid)) (\<lambda>_. sbind (stmt e 5 (publish_staged (ae_sha e) data (ae_sha e data)))
      (\<lambda>_. sbind (stmt e 6 (renew e 6 oid)) (\<lambda>_. on_cat (txn (commit_body e oid g root nm digest manifest bytes extra))))))"
    for g root nm bytes extra
    by (rule leads_sbind [OF st [OF leads_keeps [OF keeps_tick]]], simp, rule leads_sbind [OF st [OF leads_publish]], simp,
        rule leads_sbind [OF st [OF rn]], simp, rule leads_commit) (use m in auto)
  have quick: "leads {} (\<lambda>_. sound {}) (sbind (on_cat (complete_op now oid token result)) (\<lambda>_. sret result))" for now token result
    by (rule leads_quick [OF keeps_complete])
  have raise: "leads {} (\<lambda>_. sound {}) (raise_unless b x)" for b x by (simp add: leads_def raise_unless_def)
  have root: "leads {} (\<lambda>_. sound {}) (stmt e 3 (on_cat (get_or_create_root f n name)))" for f n
    by (rule st [OF leads_keeps [OF keeps_root]]) simp
  have r2: "leads {} (\<lambda>_. sound {}) (stmt e 2 (renew e 2 oid))" by (rule st [OF rn]) simp
  show ?thesis
    unfolding put_file_body_def Let_def
    apply (rule keeps_leads, rule leads_sbind [OF r2], rule leads_sbind [OF raise], rule leads_sbind [OF root], rule leadsI)
    subgoal for x y root a
      using leadsD [OF pub, of a] leadsD [OF quick, of a] by (simp split: if_splits)
    done
qed

text \<open>A tree is published with all the contents that its manifest names.\<close>

lemma set_unique_contents: "fst ` set (unique_contents sha rows) = sha ` snd ` set (file_rows rows)"
proof -
  let ?f = "\<lambda>(p, c) xs. if sha c \<in> fst ` set xs then xs else xs @ [(sha c, c)]"
  have "fst ` set (fold ?f xs ys) = fst ` set ys \<union> sha ` snd ` set xs" for xs :: "(string \<times> string) list" and ys
    by (induction xs arbitrary: ys) (auto split: if_splits)
  then show ?thesis by (simp add: unique_contents_def)
qed

lemma tree_manifest_shas:
  assumes "build_manifest_from_tree sha pk posix (DirT ks) name = Inr m" "walk [] ks = Inr rows"
  shows "set (manifest_shas m) \<subseteq> fst ` set (unique_contents sha rows)"
proof -
  have "m = [(''manifest_version'', JInt 1), (''kind'', JStr ''dir''), (''name'', JStr name),
      (''entries'', JArr (map (row_entry sha posix) (sort_key row_path rows)))]"
    using assms by (auto simp: build_manifest_from_tree_def err_simps Let_def)
  then have "manifest_shas m = concat (map (\<lambda>v. if dget (obj_of v) ''kind'' = JStr ''file'' then (case dget (obj_of v) ''sha256'' of JStr s \<Rightarrow> [s] | _ \<Rightarrow> []) else [])
      (map (row_entry sha posix) (sort_key row_path rows)))"
    by (simp add: manifest_shas_def manifest_entries_def dget_def del: map_map)
  also have "\<dots> = map (\<lambda>(p, c). sha c) (file_rows rows)"
  proof -
    have "concat (map (\<lambda>v. if dget (obj_of v) ''kind'' = JStr ''file'' then (case dget (obj_of v) ''sha256'' of JStr s \<Rightarrow> [s] | _ \<Rightarrow> []) else [])
        (map (row_entry sha posix) rs)) = map (\<lambda>(p, c). sha c) (concat (map (\<lambda>r. case r of FileRow p c x \<Rightarrow> [(p, c)] | EmptyDir p \<Rightarrow> []) rs))" for rs
      by (induction rs) (simp_all add: dget_def split: capture_row.splits)
    then show ?thesis by (simp add: file_rows_def)
  qed
  finally show ?thesis by (force simp: set_unique_contents)
qed

lemma leads_stage_all:
  assumes "polite e"
  shows "leads {} (\<lambda>_. sound {}) (stage_all e oid xs)"
proof (induction xs)
  case (Cons x xs)
  have "leads {} (\<lambda>_. sound {}) (stmt e 4 (tick e 4 oid))"
    by (rule leads_stmt [OF assms _ leads_keeps [OF keeps_tick]]) simp
  then show ?case unfolding stage_all.simps by (rule leads_sbind) (rule Cons.IH)
qed (simp add: leads_def)

lemma keeps_put_dir_body:
  assumes "polite e" "set (manifest_shas manifest) \<subseteq> fst ` set (unique_contents (ae_sha e) rows)"
  shows "keeps (sound {}) (put_dir_body e name rows manifest digest oid)"
proof -
  have st: "leads S (\<lambda>_. sound {}) (stmt e i p)" if "leads S (\<lambda>_. sound {}) p" for S i and p :: "'x art"
    by (rule leads_stmt [OF assms(1) _ that]) simp
  have commit: "leads {} (\<lambda>_. sound {}) (sbind (stmt e 4 (renew e 4 oid)) (\<lambda>_. sbind (stage_all e oid (unique_contents (ae_sha e) rows))
      (\<lambda>_. sbind (publish_all e oid (unique_contents (ae_sha e) rows)) (\<lambda>_. on_cat (txn (commit_body e oid g root nm digest manifest bytes extra))))))"
    for g root nm bytes extra
    by (rule leads_sbind [OF st [OF leads_keeps [OF keeps_renew]]], rule leads_sbind [OF leads_stage_all [OF assms(1)]],
        rule leads_sbind [OF leads_publish_all [OF assms(1)]], rule leads_commit) (use assms(2) in auto)
  have quick: "leads {} (\<lambda>_. sound {}) (sbind (on_cat (complete_op now oid token result)) (\<lambda>_. sret result))" for now token result
    by (rule leads_quick [OF keeps_complete])
  have root: "leads {} (\<lambda>_. sound {}) (stmt e 3 (on_cat (get_or_create_root f n name)))" for f n
    by (rule st [OF leads_keeps [OF keeps_root]])
  show ?thesis
    unfolding put_dir_body_def Let_def
    apply (rule keeps_leads, rule leads_sbind [OF root], rule leadsI)
    subgoal for root a
      using leadsD [OF commit, of a] leadsD [OF quick, of a] by (simp split: if_splits)
    done
qed

lemma keeps_put_file: "polite e \<Longrightarrow> keeps (sound {}) (put_file e name data guard key)"
  using keeps_durable [OF _ keeps_put_file_body]
  by (auto simp: keeps_def put_file_def err_simps split: sum.splits)

lemma keeps_put_dir:
  assumes "polite e"
  shows "keeps (sound {}) (put_dir e name t key)"
proof (rule keepsI)
  fix a assume s: "sound {} a"
  show "sound {} (snd (put_dir e name t key a))"
  proof (cases "blank name")
    case False
    let ?plan = "ebind (build_manifest_from_tree (ae_sha e) (ae_pk e) (ae_posix e) t name) (\<lambda>m.
      ebind (manifest_digest (ae_sha e) (ae_pk e) (JObj m)) (\<lambda>d. case t of DirT ks \<Rightarrow> ebind (walk [] ks) (\<lambda>rows. Inr (m, d, rows)) | _ \<Rightarrow> Inl Refused))"
    show ?thesis
    proof (cases ?plan)
      case (Inr p)
      obtain m d rows where p: "p = (m, d, rows)" by (cases p)
      with Inr have "set (manifest_shas m) \<subseteq> fst ` set (unique_contents (ae_sha e) rows)"
        by (cases t) (auto simp: err_simps dest: tree_manifest_shas)
      then show ?thesis
        using keeps_durable [OF assms keeps_put_dir_body [OF assms]] s False Inr p by (simp add: put_dir_def keeps_def)
    qed (use s False in \<open>simp add: put_dir_def\<close>)
  qed (use s in \<open>simp add: put_dir_def\<close>)
qed

section \<open>Reads\<close>

lemma sound_dests [simp]: "sound S (a\<lparr>dests := d\<rparr>) = sound S a"
  by (simp add: sound_def complete_def)

lemma keeps_finish_read: "keeps (sound {}) (finish_read e oid result)"
  unfolding finish_read_def by (rule keeps_sbind [OF keeps_complete keeps_sret])

lemma keeps_step:
  assumes "polite e" "keeps (sound {}) m"
  shows "keeps (sound {}) (stmt e i m)"
  using assms(1) by (intro keeps_stmt [OF assms(2)]) (simp add: polite_def)

lemma keeps_resolve: "polite e \<Longrightarrow> keeps (sound {}) (resolve_artifact e target alias vid key)"
  unfolding resolve_artifact_def
  by (rule keeps_durable, assumption, rule keepsI)
    (simp split: sum.split prod.split add: keeps_finish_read [unfolded keeps_def, rule_format])

lemma keeps_info: "polite e \<Longrightarrow> keeps (sound {}) (version_info e vid key)"
  unfolding version_info_def
  by (rule keeps_durable, assumption, rule keepsI)
    (simp split: option.split add: keeps_finish_read [unfolded keeps_def, rule_format])

lemma keeps_hash_blob:
  assumes "polite e"
  shows "keeps (sound {}) (hash_blob e oid s)"
proof (rule keepsI)
  fix a assume s: "sound {} a"
  have "keeps (sound {}) (sbind (stmt e 3 (tick e 3 oid)) (\<lambda>_. sret (map_option (ae_sha e) (blobs a s))))"
    by (rule keeps_sbind [OF keeps_step [OF assms keeps_tick] keeps_sret])
  with s show "sound {} (snd (hash_blob e oid s a))" by (simp add: hash_blob_def keeps_def)
qed

lemma keeps_verify_all: "polite e \<Longrightarrow> keeps (sound {}) (verify_all e oid vs)"
proof (induction vs)
  case (Cons v vs)
  then show ?case
    unfolding verify_all.simps Let_def
    by (intro keeps_if keeps_sbind [OF keeps_hash_blob] keeps_sbind) (auto simp: keeps_sret split: prod.splits)
qed (simp add: keeps_sret)

lemma keeps_verify_manifest: "polite e \<Longrightarrow> keeps (sound {}) (verify_manifest e oid m)"
  unfolding verify_manifest_def Let_def case_prod_beta
  by (intro keeps_sbind keeps_if keeps_step keeps_renew keeps_verify_all keeps_hash_blob keeps_sret keeps_finish_read)

lemma keeps_verify: "polite e \<Longrightarrow> keeps (sound {}) (verify_version e vid key)"
  unfolding verify_version_def
  by (rule keeps_durable, assumption, rule keepsI)
    (simp split: option.split add: keeps_verify_manifest [unfolded keeps_def, rule_format])

lemma keeps_materialize:
  assumes "polite e"
  shows "keeps (sound {}) (materialize e vid dest overwrite key)"
proof -
  have r6: "sound {} a \<Longrightarrow> sound {} (snd (sbind (stmt e 6 (renew e 6 oid)) (\<lambda>_. finish_read e oid result) a))" for oid result a
    using keeps_sbind [where k = "\<lambda>_. finish_read e oid result", OF keeps_step [OF assms keeps_renew] keeps_finish_read] by (simp add: keeps_def)
  have r2: "sound {} a \<Longrightarrow> sound {} (snd (stmt e 2 (renew e 2 oid) a))" for oid a
    using keeps_step [OF assms keeps_renew] by (simp add: keeps_def)
  have "keeps (sound {}) (materialize_body e vid dest overwrite oid)" for oid
  proof (rule keepsI)
    fix a assume s: "sound {} a"
    obtain r a1 where r: "stmt e 2 (renew e 2 oid) a = (r, a1)" by (cases "stmt e 2 (renew e 2 oid) a")
    have "sound {} a1" using r2 [OF s, of oid] r by simp
    then show "sound {} (snd (materialize_body e vid dest overwrite oid a))"
      using s r6 by (auto simp: materialize_body_def sbind_def [of "stmt e 2 (renew e 2 oid)"] r split: option.split sum.split json.split)
  qed
  then show ?thesis unfolding materialize_def by (rule keeps_durable [OF assms])
qed

section \<open>Changes\<close>

lemma keeps_change:
  assumes "polite e"
    and "\<And>db r db'. change db = Inr (r, db') \<Longrightarrow> refs_ok db \<Longrightarrow>
      refs_ok db' \<and> (\<forall>v \<in> set (ct_versions db'). \<exists>w \<in> set (ct_versions db). vr_manifest w = vr_manifest v)"
  shows "keeps (sound {}) (on_cat (txn (settle e oid change)))"
proof (rule keepsI)
  fix a assume s: "sound {} a"
  show "sound {} (snd (on_cat (txn (settle e oid change)) a))"
  proof (cases "settle e oid change (cat a)")
    case (Inr p)
    obtain r db where p: "p = (r, db)" by (cases p)
    obtain db1 ops where c: "change (cat a) = Inr (r, db1)" "db = db1\<lparr>ct_ops := ops\<rparr>"
      using Inr p by (auto simp: settle_def Let_def split: sum.splits prod.splits if_splits)
    have f: "refs_ok db1" "\<forall>v \<in> set (ct_versions db1). \<exists>w \<in> set (ct_versions (cat a)). vr_manifest w = vr_manifest v"
      using assms(2) [OF c(1)] s by (simp_all add: sound_def)
    have "complete (a\<lparr>cat := db\<rparr>)"
      unfolding complete_def
    proof (intro ballI)
      fix v x assume v: "v \<in> set (ct_versions (cat (a\<lparr>cat := db\<rparr>)))" "x \<in> set (manifest_shas (vr_manifest v))"
      then obtain w where "w \<in> set (ct_versions (cat a))" "vr_manifest w = vr_manifest v" using f(2) by (auto simp: c(2))
      with s v(2) show "blobs (a\<lparr>cat := db\<rparr>) x \<noteq> None" by (simp add: sound_def complete_def)
    qed
    with f(1) show ?thesis by (simp add: on_cat_def txn_def Inr p sound_def c(2) refs_ok_def)
  qed (use s in \<open>simp add: on_cat_def txn_def\<close>)
qed

lemma keeps_durable_change:
  assumes "polite e"
    and "\<And>db r db'. change db = Inr (r, db') \<Longrightarrow> refs_ok db \<Longrightarrow>
      refs_ok db' \<and> (\<forall>v \<in> set (ct_versions db'). \<exists>w \<in> set (ct_versions db). vr_manifest w = vr_manifest v)"
  shows "keeps (sound {}) (durable_change e mth payload key change)"
  unfolding durable_change_def by (rule keeps_durable [OF assms(1) keeps_change [OF assms]])

lemma found_version: "find_version db vid = Some v \<Longrightarrow> vid \<in> version_ids db"
  by (auto simp: find_version_def dest: find_SomeD)

lemma refs_version: "find_version db vid \<noteq> None \<Longrightarrow> vid \<in> version_ids db"
  by (auto dest: found_version)

lemma refs_create: "create_body e name db = Inr (r, db') \<Longrightarrow> refs_ok db \<Longrightarrow> refs_ok db' \<and> ct_versions db' = ct_versions db"
  by (auto simp: create_body_def Let_def refs_ok_def split: if_splits)

lemma refs_append: "append_body e coll vid db = Inr (r, db') \<Longrightarrow> refs_ok db \<Longrightarrow> refs_ok db' \<and> ct_versions db' = ct_versions db"
  using refs_version [of db vid] by (auto simp: append_body_def Let_def refs_ok_def split: if_splits option.splits)

lemma refs_alias:
  assumes "alias_body e name root expected new by_whom db = Inr (r, db')" "refs_ok db"
  shows "refs_ok db' \<and> ct_versions db' = ct_versions db"
proof -
  have v: "new \<in> version_ids db" using assms(1) by (auto simp: alias_body_def dest: found_version split: option.splits)
  show ?thesis
  proof (cases expected)
    case None
    then have "ct_versions db' = ct_versions db" "ct_members db' = ct_members db" "ct_lineage db' = ct_lineage db" "ct_roots db' = ct_roots db"
      "\<exists>l. al_version l = new \<and> ct_aliases db' = ct_aliases db @ [l]"
      using assms(1) by (auto simp: alias_body_def Let_def split: option.splits if_splits)
    with v assms(2) show ?thesis by (auto simp: refs_ok_def)
  next
    case (Some x)
    let ?f = "\<lambda>q. q\<lparr>al_root := root, al_version := new, al_updated := ae_now e 2, al_by := by_whom\<rparr>"
    have "ct_versions db' = ct_versions db" "ct_members db' = ct_members db" "ct_lineage db' = ct_lineage db" "ct_roots db' = ct_roots db"
      "ct_aliases db' = upd (\<lambda>q. al_name q = name) ?f (ct_aliases db)"
      using assms(1) by (auto simp: alias_body_def Let_def Some split: option.splits if_splits)
    with v assms(2) show ?thesis by (auto simp: refs_ok_def upd_def)
  qed
qed

lemma refs_lineage: "lineage_body e p c vid db = Inr (r, db') \<Longrightarrow> refs_ok db \<Longrightarrow> refs_ok db' \<and> ct_versions db' = ct_versions db"
  using refs_version [of db vid] by (auto simp: lineage_body_def Let_def refs_ok_def split: if_splits)

lemma refs_set_version:
  assumes "refs_ok db" "\<And>v. vr_id (f v) = vr_id v \<and> vr_manifest (f v) = vr_manifest v \<and> vr_deleted (f v) = vr_deleted v"
  shows "refs_ok (set_version vid f db) \<and> (\<forall>v \<in> set (ct_versions (set_version vid f db)). \<exists>w \<in> set (ct_versions db). vr_manifest w = vr_manifest v)"
proof -
  have "map vr_id (ct_versions (set_version vid f db)) = map vr_id (ct_versions db)"
    using assms(2) by (simp add: set_version_def map_upd_same)
  then have "version_ids (set_version vid f db) = version_ids db" by (metis set_map)
  then show ?thesis using assms by (auto simp: refs_ok_def set_version_def upd_def)
qed

lemma same_versions: "ct_versions db' = ct_versions db \<Longrightarrow> \<forall>v \<in> set (ct_versions db'). \<exists>w \<in> set (ct_versions db). vr_manifest w = vr_manifest v"
  by auto

lemma keeps_create: "polite e \<Longrightarrow> keeps (sound {}) (create_collection e name key)"
  using keeps_durable_change [OF _ conjI [OF conjunct1 [OF refs_create] same_versions [OF conjunct2 [OF refs_create]]]]
  by (auto simp: keeps_def create_collection_def)

lemma keeps_append: "polite e \<Longrightarrow> keeps (sound {}) (append_version e coll vid key)"
  using keeps_durable_change [OF _ conjI [OF conjunct1 [OF refs_append] same_versions [OF conjunct2 [OF refs_append]]]]
  by (auto simp: keeps_def append_version_def)

lemma keeps_alias: "polite e \<Longrightarrow> keeps (sound {}) (alias_set e name root expected new by_whom key)"
  using keeps_durable_change [OF _ conjI [OF conjunct1 [OF refs_alias] same_versions [OF conjunct2 [OF refs_alias]]]]
  by (auto simp: keeps_def alias_set_def)

lemma keeps_lineage: "polite e \<Longrightarrow> keeps (sound {}) (link_lineage e p c vid key)"
  using keeps_durable_change [OF _ conjI [OF conjunct1 [OF refs_lineage] same_versions [OF conjunct2 [OF refs_lineage]]]]
  by (auto simp: keeps_def link_lineage_def)

lemma refs_flags:
  "delete_body e vid db = Inr (r, db') \<Longrightarrow> refs_ok db \<Longrightarrow>
     refs_ok db' \<and> (\<forall>v \<in> set (ct_versions db'). \<exists>w \<in> set (ct_versions db). vr_manifest w = vr_manifest v)"
  "restore_body vid db = Inr (r, db') \<Longrightarrow> refs_ok db \<Longrightarrow>
     refs_ok db' \<and> (\<forall>v \<in> set (ct_versions db'). \<exists>w \<in> set (ct_versions db). vr_manifest w = vr_manifest v)"
  "pin_body vid hold db = Inr (r, db') \<Longrightarrow> refs_ok db \<Longrightarrow>
     refs_ok db' \<and> (\<forall>v \<in> set (ct_versions db'). \<exists>w \<in> set (ct_versions db). vr_manifest w = vr_manifest v)"
  using refs_set_version [of db "\<lambda>v. v\<lparr>vr_requested := Some (ae_now e 2)\<rparr>" vid] refs_set_version [of db "\<lambda>v. v\<lparr>vr_requested := None\<rparr>" vid]
    refs_set_version [of db "\<lambda>v. v\<lparr>vr_pin := hold\<rparr>" vid]
  by (auto simp: delete_body_def restore_body_def pin_body_def err_simps split: if_splits)

lemma keeps_flags:
  assumes "polite e"
  shows "keeps (sound {}) (request_delete e vid key)" "keeps (sound {}) (restore e vid key)"
    "keeps (sound {}) (pin e vid reason key)" "keeps (sound {}) (unpin e vid key)"
proof -
  show "keeps (sound {}) (request_delete e vid key)" "keeps (sound {}) (restore e vid key)" "keeps (sound {}) (unpin e vid key)"
    unfolding request_delete_def restore_def unpin_def by (rule keeps_durable_change [OF assms refs_flags(1)] keeps_durable_change [OF assms refs_flags(2)]
      keeps_durable_change [OF assms refs_flags(3)]; assumption)+
  have "keeps (sound {}) (durable_change e ''lifecycle.pin'' payload key (pin_body vid (Some reason)))" for payload
    by (rule keeps_durable_change [OF assms refs_flags(3)])
  then show "keeps (sound {}) (pin e vid reason key)" by (auto simp: keeps_def pin_def)
qed

section \<open>Garbage collection\<close>

text \<open>A version that the references, a pin or a running operation protect is no candidate.\<close>

lemma gc_body_cases:
  assumes "gc_body disk bytes dry db = Inr (r, db')"
  obtains (dry) "dry" "db' = db"
  | (run) "\<not> dry" "db' = db\<lparr>ct_lineage := del (\<lambda>l. ln_version l \<in> vr_id ` set (filter (gc_candidate db) (ct_versions db))) (ct_lineage db),
      ct_versions := del (\<lambda>v. vr_id v \<in> vr_id ` set (filter (gc_candidate db) (ct_versions db))) (ct_versions db)\<rparr>"
  using assms by (auto simp: gc_body_def Let_def split: if_splits)

lemma gc_refs:
  assumes "gc_body disk bytes dry db = Inr (r, db')" "refs_ok db"
  shows "refs_ok db' \<and> (\<forall>v \<in> set (ct_versions db'). \<exists>w \<in> set (ct_versions db). vr_manifest w = vr_manifest v)"
  using assms(1)
proof (cases rule: gc_body_cases)
  case dry
  with assms(2) show ?thesis by auto
next
  case run
  define C where "C = vr_id ` set (filter (gc_candidate db) (ct_versions db))"
  note run = run [folded C_def]
  have ids: "version_ids db' = version_ids db - C" by (auto simp: run(2) del_def)
  have free: "vr_id w \<notin> al_version ` set (ct_aliases db)" "vr_id w \<notin> mb_version ` set (ct_members db)" if "gc_candidate db w" for w
    using that by (simp_all add: gc_candidate_def)
  have c: "al_version l \<notin> C" if "l \<in> set (ct_aliases db)" for l
  proof
    assume "al_version l \<in> C"
    then obtain w where "gc_candidate db w" "vr_id w = al_version l" by (auto simp: C_def)
    with free(1) imageI [OF that, of al_version] show False by metis
  qed
  have m: "mb_version l \<notin> C" if "l \<in> set (ct_members db)" for l
  proof
    assume "mb_version l \<in> C"
    then obtain w where "gc_candidate db w" "vr_id w = mb_version l" by (auto simp: C_def)
    with free(2) imageI [OF that, of mb_version] show False by metis
  qed
  have r: "v \<notin> C" if "l \<in> set (ct_roots db)" "rt_latest l = Some v" for l v
  proof
    assume "v \<in> C"
    then obtain w where w: "w \<in> set (ct_versions db)" "gc_candidate db w" "v = vr_id w" by (auto simp: C_def)
    then have "vr_deleted w \<noteq> None \<or> Some v \<notin> rt_latest ` set (ct_roots db)" by (simp add: gc_candidate_def)
    moreover have "vr_deleted w = None" using assms(2) w(1) by (simp add: refs_ok_def)
    moreover have "Some v \<in> rt_latest ` set (ct_roots db)" using imageI [OF that(1), of rt_latest] that(2) by simp
    ultimately show False by simp
  qed
  have eq: "ct_aliases db' = ct_aliases db" "ct_members db' = ct_members db" "ct_roots db' = ct_roots db"
    "ct_lineage db' = del (\<lambda>l. ln_version l \<in> C) (ct_lineage db)" "set (ct_versions db') \<subseteq> set (ct_versions db)"
    by (auto simp: run(2) del_def)
  have "\<forall>l \<in> set (ct_aliases db'). al_version l \<in> version_ids db'" "\<forall>l \<in> set (ct_members db'). mb_version l \<in> version_ids db'"
    using assms(2) c m by (simp_all add: eq(1,2) ids refs_ok_def)
  moreover have "\<forall>l \<in> set (ct_lineage db'). ln_version l \<in> version_ids db'"
    using assms(2) by (simp add: eq(4) ids refs_ok_def del_def)
  moreover have "\<forall>l \<in> set (ct_roots db'). \<forall>v. rt_latest l = Some v \<longrightarrow> v \<in> version_ids db'"
    using assms(2) r unfolding eq(3) ids refs_ok_def by blast
  moreover have "\<forall>v \<in> set (ct_versions db'). vr_deleted v = None" using assms(2) eq(5) unfolding refs_ok_def by blast
  ultimately have "refs_ok db'" unfolding refs_ok_def by blast
  then show ?thesis by (auto simp: run(2) del_def)
qed

lemma sound_unlink: "sound {} a \<Longrightarrow> sound {} (snd (unlink_freed result a))"
  by (auto simp: unlink_freed_def Let_def sound_def complete_def referenced_def)

lemma keeps_gc:
  assumes "polite e"
  shows "keeps (sound {}) (gc e disk dry key)"
proof -
  have "keeps (sound {}) (\<lambda>a. on_cat (txn (settle e oid (gc_body (disk a) (blob_size a) dry))) a)" for oid
    using keeps_change [OF assms gc_refs] by (simp add: keeps_def)
  then show ?thesis
    unfolding gc_def
    by (intro keeps_durable [OF assms] keeps_sbind keeps_step [OF assms] keeps_if keeps_sret) (auto simp: keeps_def sound_unlink)
qed

section \<open>Every call\<close>

datatype art_call =
    PutFile string string "(bool \<times> bool) option"
  | PutDir string ftree
  | Resolve string "string option" "string option"
  | Info string
  | Verify string
  | Materialize string string bool
  | CreateCollection string
  | AppendVersion string string
  | AliasSet string string "string option" string "string option"
  | LinkLineage "string \<times> string" "string \<times> string" string
  | RequestDelete string
  | Undelete string
  | Pin string string
  | Unpin string
  | Collect bool

fun run_call :: "(artifacts \<Rightarrow> string list) \<Rightarrow> art_env \<Rightarrow> string \<Rightarrow> art_call \<Rightarrow> obj art" where
  "run_call disk e key (PutFile name data guard) = put_file e name data guard key"
| "run_call disk e key (PutDir name t) = put_dir e name t key"
| "run_call disk e key (Resolve target alias vid) = resolve_artifact e target alias vid key"
| "run_call disk e key (Info vid) = version_info e vid key"
| "run_call disk e key (Verify vid) = verify_version e vid key"
| "run_call disk e key (Materialize vid dest overwrite) = materialize e vid dest overwrite key"
| "run_call disk e key (CreateCollection name) = create_collection e name key"
| "run_call disk e key (AppendVersion coll vid) = append_version e coll vid key"
| "run_call disk e key (AliasSet name root expected new who) = alias_set e name root expected new who key"
| "run_call disk e key (LinkLineage p c vid) = link_lineage e p c vid key"
| "run_call disk e key (RequestDelete vid) = request_delete e vid key"
| "run_call disk e key (Undelete vid) = restore e vid key"
| "run_call disk e key (Pin vid reason) = pin e vid reason key"
| "run_call disk e key (Unpin vid) = unpin e vid key"
| "run_call disk e key (Collect dry) = gc e disk dry key"

definition run_calls :: "(artifacts \<Rightarrow> string list) \<Rightarrow> (art_env \<times> string \<times> art_call) list \<Rightarrow> artifacts \<Rightarrow> artifacts" where
  "run_calls disk cs a = fold (\<lambda>(e, key, c) a. snd (run_call disk e key c a)) cs a"

lemma keeps_run_call: "polite e \<Longrightarrow> keeps (sound {}) (run_call disk e key c)"
  by (cases c) (simp_all add: keeps_put_file keeps_put_dir keeps_resolve keeps_info keeps_verify keeps_materialize keeps_create keeps_append
      keeps_alias keeps_lineage keeps_flags keeps_gc)


text \<open>A worker that is disturbed by a garbage collection while its content is staged.\<close>

definition demo_collector :: "artifacts \<Rightarrow> artifacts" where
  "demo_collector a = snd (gc (demo_quiet ''aop_9'' ''w9'') (\<lambda>a. [demo_hash ''go'']) False ''key-0009'' a)"

definition demo_worker :: art_env where
  "demo_worker = (demo_quiet ''aop_2'' ''w2'')\<lparr>ae_other := (\<lambda>i a. if i = 4 then demo_collector a else a)\<rparr>"


end
