(* ===== verification/ArtifactGuarantees.thy ===== *)
theory ArtifactGuarantees
  imports ArtifactIntegrity
begin

text \<open>
  What single operations of the artifact subsystem guarantee: aliases move by compare and swap, a dry run of the
  garbage collection tells what the collection does, and a restored catalog is locked.
\<close>

section \<open>Aliases\<close>

text \<open>The end of the operation only changes the rows of operations.\<close>

lemma settle_cases:
  assumes "txn (settle e oid change) db = (res, db')"
  obtains (err) x where "res = Inl x" "db' = db"
  | (ok) r db1 where "res = Inr r" "change db = Inr (r, db1)" "db' = db1\<lparr>ct_ops := ct_ops db'\<rparr>"
proof (cases "settle e oid change db")
  case (Inl x)
  with assms have "res = Inl x" "db' = db" by (simp_all add: txn_def)
  then show ?thesis by (rule err)
next
  case (Inr p)
  then obtain r db1 ops where "p = (r, db1\<lparr>ct_ops := ops\<rparr>)" "change db = Inr (r, db1)"
    by (auto simp: settle_def Let_def split: sum.splits prod.splits if_splits)
  with assms Inr ok show ?thesis by (auto simp: txn_def)
qed

lemma find_alias_upd:
  assumes "\<And>q. al_name (f q) = al_name q"
  shows "n \<noteq> name \<Longrightarrow> find (\<lambda>l. al_name l = n) (upd (\<lambda>q. al_name q = name) f ls) = find (\<lambda>l. al_name l = n) ls"
    "find (\<lambda>l. al_name l = name) (upd (\<lambda>q. al_name q = name) f ls) = map_option f (find (\<lambda>l. al_name l = name) ls)"
  by (induction ls) (auto simp: assms)

lemma alias_moved:
  assumes "alias_body e name root expected new who db = Inr (r, db1)"
  shows "map_option al_version (find_alias db name) = expected"
    "\<exists>l. find_alias db1 name = Some l \<and> al_version l = new \<and> al_root l = root"
    "n \<noteq> name \<Longrightarrow> find_alias db1 n = find_alias db n"
    "\<exists>v. find_version db new = Some v \<and> vr_root v = root"
    "find_alias db name = Some l \<Longrightarrow> al_root l = root"
    "db1 = db\<lparr>ct_aliases := ct_aliases db1\<rparr>"
proof -
  obtain v where v: "find_version db new = Some v" "vr_root v = root"
    using assms by (auto simp: alias_body_def split: option.splits if_splits)
  then show "\<exists>v. find_version db new = Some v \<and> vr_root v = root" by blast
  let ?f = "\<lambda>q. q\<lparr>al_root := root, al_version := new, al_updated := ae_now e 2, al_by := who\<rparr>"
  have "(expected = None \<and> find_alias db name = None \<and> db1 = db\<lparr>ct_aliases := ct_aliases db @ [\<lparr>al_name = name, al_root = root, al_version = new,
      al_updated = ae_now e 2, al_pinned = Some (ae_now e 2), al_by = who\<rparr>]\<rparr>)
    \<or> (\<exists>l. find_alias db name = Some l \<and> expected = Some (al_version l) \<and> al_root l = root
       \<and> db1 = db\<lparr>ct_aliases := upd (\<lambda>q. al_name q = name) ?f (ct_aliases db)\<rparr>)"
    using assms v by (cases expected; cases "find_alias db name") (auto simp: alias_body_def Let_def split: if_splits)
  then show "map_option al_version (find_alias db name) = expected"
    "\<exists>l. find_alias db1 name = Some l \<and> al_version l = new \<and> al_root l = root"
    "n \<noteq> name \<Longrightarrow> find_alias db1 n = find_alias db n"
    "find_alias db name = Some l \<Longrightarrow> al_root l = root"
    "db1 = db\<lparr>ct_aliases := ct_aliases db1\<rparr>"
    by (auto simp: find_alias_def find_append find_alias_upd dest: find_SomeD split: option.splits)
qed

text \<open>
  C39. An alias moves only by compare and swap.  A transaction of \<open>alias_set\<close> that fails leaves the catalog as it is.
  One that succeeds found the alias at the expected version, or absent when none was expected, and the alias in the
  root of the call; it leaves it at the new version, which belongs to that root, touches no other alias and nothing else than
  the rows of operations.  Of two callers that expected the same version, only the first to commit moves the alias: the
  second fails, whoever it is and whatever it wants, as long as nobody moved the alias back.
\<close>

theorem alias_moves_by_compare_and_swap:
  assumes "txn (settle e oid (alias_body e name root expected new who)) db = (res, db')"
  shows "(\<exists>x. res = Inl x \<and> db' = db) \<or>
    (\<exists>r. res = Inr r \<and> map_option al_version (find_alias db name) = expected
      \<and> (\<exists>v. find_version db new = Some v \<and> vr_root v = root)
      \<and> (\<forall>l. find_alias db name = Some l \<longrightarrow> al_root l = root)
      \<and> (\<exists>l. find_alias db' name = Some l \<and> al_version l = new \<and> al_root l = root)
      \<and> (\<forall>n. n \<noteq> name \<longrightarrow> find_alias db' n = find_alias db n)
      \<and> db' = db\<lparr>ct_ops := ct_ops db', ct_aliases := ct_aliases db'\<rparr>
      \<and> (expected \<noteq> Some new \<longrightarrow> (\<forall>e2 oid2 root2 new2 who2 db2. find_alias db2 name = find_alias db' name \<longrightarrow>
           (\<exists>x. txn (settle e2 oid2 (alias_body e2 name root2 expected new2 who2)) db2 = (Inl x, db2)))))"
  using assms
proof (cases rule: settle_cases)
  case (ok r db1)
  note m = alias_moved [OF ok(2)]
  have f: "find_alias db' n = find_alias db1 n" for n using arg_cong [OF ok(3), of ct_aliases] by (simp add: find_alias_def)
  obtain l where l: "find_alias db1 name = Some l" "al_version l = new" "al_root l = root" using m(2) by blast
  have loser: "\<exists>x. txn (settle e2 oid2 (alias_body e2 name root2 expected new2 who2)) db2 = (Inl x, db2)"
    if "expected \<noteq> Some new" "find_alias db2 name = find_alias db' name" for e2 oid2 root2 new2 who2 db2
  proof -
    obtain q db3 where t: "txn (settle e2 oid2 (alias_body e2 name root2 expected new2 who2)) db2 = (q, db3)"
      by (cases "txn (settle e2 oid2 (alias_body e2 name root2 expected new2 who2)) db2")
    then show ?thesis
    proof (cases rule: settle_cases)
      case (ok r2 db4)
      have "map_option al_version (find_alias db2 name) = expected" by (rule alias_moved(1) [OF ok(2)])
      with that l f show ?thesis by simp
    qed (use t in blast)
  qed
  have "db' = db\<lparr>ct_ops := ct_ops db', ct_aliases := ct_aliases db'\<rparr>"
    by (subst ok(3), subst m(6)) (metis catalog.select_convs catalog.surjective catalog.update_convs m(6) ok(3))
  with ok m l f loser show ?thesis by simp
qed blast

definition demo_version :: "string \<Rightarrow> string \<Rightarrow> version_row" where
  "demo_version vid digest = \<lparr>vr_id = vid, vr_root = ''rot_1'', vr_digest = digest, vr_manifest = [], vr_size = 2, vr_deleted = None,
     vr_requested = None, vr_pin = None, vr_created = 0\<rparr>"

definition demo_aliased :: catalog where
  "demo_aliased = demo_catalog\<lparr>ct_ops := [demo_aop\<lparr>ao_lease := None\<rparr>], ct_versions := [demo_version ''ver_1'' ''d1'', demo_version ''ver_2'' ''d2''],
     ct_aliases := [\<lparr>al_name = ''stable'', al_root = ''rot_1'', al_version = ''ver_1'', al_updated = 0, al_pinned = None, al_by = None\<rparr>]\<rparr>"

lemma alias_moves_by_compare_and_swap_witness:
  "\<exists>l. find_alias (snd (txn (settle (demo_art_env ''w1'') ''aop_1'' (alias_body (demo_art_env ''w1'') ''stable'' ''rot_1'' (Some ''ver_1'') ''ver_2'' None)) demo_aliased))
      ''stable'' = Some l \<and> al_version l = ''ver_2''"
proof -
  let ?t = "txn (settle (demo_art_env ''w1'') ''aop_1'' (alias_body (demo_art_env ''w1'') ''stable'' ''rot_1'' (Some ''ver_1'') ''ver_2'' None)) demo_aliased"
  have "\<nexists>x. fst ?t = Inl x"
    by (simp add: txn_def settle_def alias_body_def find_version_def find_alias_def demo_aliased_def demo_version_def demo_catalog_def demo_aop_def
        holds_claim_def demo_art_env_def Let_def)
  then show ?thesis
    using alias_moves_by_compare_and_swap [where res = "fst ?t" and db' = "snd ?t" and db = demo_aliased and name = "''stable''"
        and e = "demo_art_env ''w1''" and oid = "''aop_1''" and root = "''rot_1''" and expected = "Some ''ver_1''" and new = "''ver_2''" and who = None]
    by auto
qed

section \<open>Garbage collection\<close>

definition named_strings :: "json \<Rightarrow> string list" where
  "named_strings v = (case v of JArr xs \<Rightarrow> concat (map (\<lambda>x. case x of JStr s \<Rightarrow> [s] | _ \<Rightarrow> []) xs) | _ \<Rightarrow> [])"

lemma named_strings_map [simp]: "named_strings (JArr (map JStr xs)) = xs"
  by (induction xs) (simp_all add: named_strings_def)

lemma freed_names_named: "freed_names r = named_strings (dget r ''blobs_freed'')"
  by (simp add: freed_names_def named_strings_def)

lemma candidate_unused:
  assumes "x \<in> set (map vr_id (filter (gc_candidate db) (ct_versions db)))"
  shows "x \<notin> al_version ` set (ct_aliases db) \<and> x \<notin> mb_version ` set (ct_members db)
    \<and> (\<forall>w \<in> set (ct_versions db). vr_id w = x \<longrightarrow> vr_pin w = None) \<and> x \<notin> set (running_refs db)
    \<and> (Some x \<in> rt_latest ` set (ct_roots db) \<longrightarrow> (\<exists>v \<in> set (ct_versions db). vr_id v = x \<and> vr_deleted v \<noteq> None))"
proof -
  obtain v where v: "v \<in> set (ct_versions db)" "gc_candidate db v" "vr_id v = x" using assms by auto
  from v(2) show ?thesis unfolding gc_candidate_def v(3) using v(1,3) by blast
qed

text \<open>
  C38. A dry run of the garbage collection tells what the collection does: in the same state both fail, or the dry run changes
  nothing and the collection gives the same report, marked as a real run, removes exactly the versions that the report
  lists as candidates, and, when nothing is published in between, removes exactly the contents that the report lists as
  freed.  A candidate is never what an alias, a collection, a pin or a running operation names, nor the latest version
  of a root unless it was marked as deleted; the freed contents are those that no remaining version and no running
  operation names.
\<close>

theorem dry_run_predicts_collection:
  "(\<exists>x. gc_body disk bytes True db = Inl x \<and> gc_body disk bytes False db = Inl x) \<or>
   (\<exists>r db'. gc_body disk bytes True db = Inr (r, db) \<and> gc_body disk bytes False db = Inr (dput ''dry_run'' (JBool False) r, db')
     \<and> ct_versions db' = filter (\<lambda>v. vr_id v \<notin> set (named_strings (dget r ''candidates''))) (ct_versions db)
     \<and> (\<forall>x \<in> set (named_strings (dget r ''candidates'')). x \<notin> al_version ` set (ct_aliases db) \<and> x \<notin> mb_version ` set (ct_members db)
          \<and> (\<forall>w \<in> set (ct_versions db). vr_id w = x \<longrightarrow> vr_pin w = None) \<and> x \<notin> set (running_refs db)
          \<and> (Some x \<in> rt_latest ` set (ct_roots db) \<longrightarrow> (\<exists>v \<in> set (ct_versions db). vr_id v = x \<and> vr_deleted v \<noteq> None)))
     \<and> freed_names r = filter (\<lambda>s. s \<notin> set (referenced (ct_versions db')) \<and> s \<notin> set (running_shas db)) disk
     \<and> (\<forall>a. ct_versions (cat a) = ct_versions db' \<longrightarrow>
          snd (unlink_freed (dput ''dry_run'' (JBool False) r) a) = a\<lparr>blobs := (\<lambda>s. if s \<in> set (freed_names r) then None else blobs a s)\<rparr>))"
proof -
  let ?c = "map vr_id (filter (gc_candidate db) (ct_versions db))"
  let ?vs = "filter (\<lambda>v. vr_id v \<notin> set ?c) (ct_versions db)"
  let ?u = "filter (\<lambda>s. s \<notin> set (referenced ?vs) \<and> s \<notin> set (running_shas db)) disk"
  let ?r = "\<lambda>dry. [(''dry_run'', JBool dry), (''candidates'', JArr (map JStr (sort ?c))), (''blobs_freed'', JArr (map JStr ?u)),
    (''would_free_bytes'', JInt (sum_list (map bytes ?u)))]"
  let ?db = "db\<lparr>ct_lineage := del (\<lambda>l. ln_version l \<in> set ?c) (ct_lineage db), ct_versions := ?vs\<rparr>"
  show ?thesis
  proof (cases "list_ex (\<lambda>s. \<not> is_blob_name s) ?u")
    case True
    then have "gc_body disk bytes True db = Inl BadRequest" "gc_body disk bytes False db = Inl BadRequest"
      unfolding gc_body_def Let_def by (simp_all only: if_True)
    then show ?thesis by blast
  next
    case False
    have d: "gc_body disk bytes True db = Inr (?r True, db)"
      using False unfolding gc_body_def Let_def by (simp only: if_False if_True)
    have u: "filter (\<lambda>s. s \<notin> set (referenced ?vs)) ?u = ?u" by (simp only: filter_filter) (rule filter_cong; blast)
    have sel: "ct_versions (d\<lparr>ct_lineage := ls, ct_versions := vs\<rparr>) = vs" for d ls vs by simp
    have g: "gc_body disk bytes False db = Inr (?r False, ?db)"
      using False unfolding gc_body_def Let_def del_def by (simp only: if_False u sel)
    have p: "dput ''dry_run'' (JBool False) (?r True) = ?r False" by simp
    have n: "named_strings (dget (?r True) ''candidates'') = sort ?c" "freed_names (?r False) = ?u" "freed_names (?r True) = ?u"
      by (simp_all add: freed_names_named dget_def)
    have l: "snd (unlink_freed (?r False) a) = a\<lparr>blobs := (\<lambda>s. if s \<in> set ?u then None else blobs a s)\<rparr>"
      if "ct_versions (cat a) = ?vs" for a
      unfolding unlink_freed_def Let_def n(2) that u by (simp only: snd_conv)
    then have l: "\<forall>a. ct_versions (cat a) = ct_versions ?db \<longrightarrow>
        snd (unlink_freed (?r False) a) = a\<lparr>blobs := (\<lambda>s. if s \<in> set ?u then None else blobs a s)\<rparr>"
      unfolding sel by blast
    have c: "\<forall>x \<in> set (sort ?c). x \<notin> al_version ` set (ct_aliases db) \<and> x \<notin> mb_version ` set (ct_members db)
        \<and> (\<forall>w \<in> set (ct_versions db). vr_id w = x \<longrightarrow> vr_pin w = None) \<and> x \<notin> set (running_refs db)
        \<and> (Some x \<in> rt_latest ` set (ct_roots db) \<longrightarrow> (\<exists>v \<in> set (ct_versions db). vr_id v = x \<and> vr_deleted v \<noteq> None))"
      unfolding set_sort using candidate_unused by blast
    have v: "ct_versions ?db = filter (\<lambda>v. vr_id v \<notin> set (sort ?c)) (ct_versions db)" by (simp only: sel set_sort)
    have f: "?u = filter (\<lambda>s. s \<notin> set (referenced (ct_versions ?db)) \<and> s \<notin> set (running_shas db)) disk" by (simp only: sel)
    show ?thesis
      apply (intro disjI2 exI [of _ "?r True"] exI [of _ ?db] conjI)
      unfolding p n
      by (rule d, rule g, rule v, rule c, rule f, rule l)
  qed
qed

lemma dry_run_predicts_collection_witness:
  "\<exists>r db'. gc_body [replicate 64 CHR ''a''] (\<lambda>s. 5) False (demo_aliased\<lparr>ct_ops := []\<rparr>) = Inr (r, db')
    \<and> dget r ''dry_run'' = JBool False \<and> ct_versions db' = [demo_version ''ver_1'' ''d1''] \<and> freed_names r = [replicate 64 CHR ''a'']"
proof -
  let ?db = "demo_aliased\<lparr>ct_ops := []\<rparr>" and ?b = "replicate 64 CHR ''a''"
  let ?r = "[(''dry_run'', JBool True), (''candidates'', JArr [JStr ''ver_2'']), (''blobs_freed'', JArr [JStr ?b]), (''would_free_bytes'', JInt 5)]"
  have b: "is_blob_name ?b" by code_simp
  have o: "running_texts ?db = []" by (simp add: running_texts_def)
  have v: "ct_versions ?db = [demo_version ''ver_1'' ''d1'', demo_version ''ver_2'' ''d2'']" by (simp add: demo_aliased_def)
  have rr: "running_refs ?db = []" by (simp only: running_refs_def o) simp
  have c1: "\<not> gc_candidate ?db (demo_version ''ver_1'' ''d1'')"
    by (simp add: gc_candidate_def demo_aliased_def demo_version_def)
  have c2: "gc_candidate ?db (demo_version ''ver_2'' ''d2'')"
    unfolding gc_candidate_def rr by (simp add: demo_aliased_def demo_catalog_def demo_version_def)
  have c: "filter (gc_candidate ?db) (ct_versions ?db) = [demo_version ''ver_2'' ''d2'']"
    unfolding v using c1 c2 by simp
  have m: "referenced [demo_version ''ver_1'' ''d1''] = []" by (simp add: referenced_def manifest_shas_def demo_version_def)
  have i: "vr_id (demo_version x d) = x" for x d by (simp add: demo_version_def)
  have d: "gc_body [?b] (\<lambda>s. 5) True ?db = Inr (?r, ?db)"
    unfolding gc_body_def Let_def c using b m by (simp add: v i running_shas_def o)
  obtain db' where g: "gc_body [?b] (\<lambda>s. 5) False ?db = Inr (dput ''dry_run'' (JBool False) ?r, db')"
      and w: "ct_versions db' = filter (\<lambda>v. vr_id v \<notin> set (named_strings (dget ?r ''candidates''))) (ct_versions ?db)"
    using dry_run_predicts_collection [of "[?b]" "\<lambda>s. 5" ?db] unfolding d sum.inject prod.inject by blast
  have "ct_versions db' = [demo_version ''ver_1'' ''d1'']"
    unfolding w v using named_strings_map [of "[''ver_2'']"] by (simp add: i dget_def)
  with g show ?thesis using named_strings_map [of "[?b]"] by (simp add: freed_names_named dget_def)
qed

section \<open>Restore\<close>

fun mutates :: "art_call \<Rightarrow> bool" where
  "mutates (Resolve _ _ _) = False"
| "mutates (Info _) = False"
| "mutates (Verify _) = False"
| "mutates (Materialize _ _ _) = False"
| "mutates c = True"

lemma locked_durable:
  assumes "ct_recovery (cat b)" "mth \<in> set MUTATING_METHODS"
  shows "\<exists>x. durable_op e mth payload key body b = (Inl x, b)"
  using assms by (cases "request_digest (ae_sha e) mth payload key") (simp_all add: durable_op_def on_cat_def begin_op_def)

lemma locked_call:
  assumes "ct_recovery (cat b)" "mutates c"
  shows "\<exists>x. run_call disk e key c b = (Inl x, b)"
proof -
  have d: "\<exists>x. durable_op e mth payload key body b = (Inl x, b)" if "mth \<in> set MUTATING_METHODS" for mth payload body
    by (rule locked_durable [OF assms(1) that])
  show ?thesis
    using assms(2)
    by (cases c)
      (auto simp: MUTATING_METHODS_def put_file_def put_dir_def create_collection_def append_version_def alias_set_def link_lineage_def request_delete_def
        restore_def pin_def unpin_def gc_def durable_change_def intro!: d split: sum.split)
qed



end
